(* ===== verification/Prelude.thy ===== *)
theory Prelude
  imports Main "HOL-Library.Word"
begin

text \<open>
  What the components share: the C types of the code as HOL types, the pieces of the C
  standard library the code calls (\<open>ctype.h\<close>, the integer conversions of \<open>sprintf\<close>), and
  the lemmas on them that more than one component needs.

  A C string is the list of its characters before the terminating NUL (\<open>string\<close>, a list
  of 8-bit \<open>char\<close>); a block of memory is a list of \<open>char\<close> of the block's size.  A function
  whose C body would read or write outside a block returns \<open>None\<close>.
\<close>

named_theorems c_char_simps
  \<open>evaluation of the character classes of ctype.h\<close>

subsection \<open>Characters\<close>

text \<open>\<open>char\<close> is signed on the targets the Makefile builds for: a comparison of two characters
  compares these values.\<close>

definition schar :: "char \<Rightarrow> int" where
  "schar c = (let n = (of_char c :: nat) in if n < 128 then int n else int n - 256)"

definition isdigit :: "char \<Rightarrow> bool" where
  "isdigit c \<longleftrightarrow> (48::nat) \<le> of_char c \<and> of_char c \<le> (57::nat)"

definition isxdigit :: "char \<Rightarrow> bool" where
  "isxdigit c \<longleftrightarrow> isdigit c
     \<or> ((65::nat) \<le> of_char c \<and> of_char c \<le> (70::nat))
     \<or> ((97::nat) \<le> of_char c \<and> of_char c \<le> (102::nat))"

definition isspace :: "char \<Rightarrow> bool" where
  "isspace c \<longleftrightarrow> of_char c = (32::nat) \<or> ((9::nat) \<le> of_char c \<and> of_char c \<le> (13::nat))"

lemma of_char_lt_256: "(of_char c :: nat) < 256"
  by (metis of_char_mod_256 mod_less_divisor zero_less_numeral)

lemma signed_byte_inj:
  "x < 256 \<Longrightarrow> y < 256 \<Longrightarrow>
   (if x < 128 then int x else int x - 256) = (if y < 128 then int y else int y - 256)
   \<longleftrightarrow> x = y"
  by auto

lemma schar_inj: "schar a = schar b \<longleftrightarrow> a = b"
  unfolding schar_def Let_def
  by (subst signed_byte_inj) (simp_all add: of_char_lt_256)

lemma schar_neq_iff: "a \<noteq> b \<longleftrightarrow> schar a < schar b \<or> schar b < schar a"
  by (metis linorder_neq_iff schar_inj)

subsection \<open>Printing a number in a base\<close>

text \<open>The digits \<open>sprintf\<close> produces for \<open>%d\<close>, \<open>%ld\<close> (base 10) and \<open>%x\<close> (base 16).\<close>

definition digit_char :: "nat \<Rightarrow> char" where
  "digit_char d = ''0123456789abcdef'' ! d"

fun show_base :: "nat \<Rightarrow> nat \<Rightarrow> string" where
  "show_base b n =
     (if b < 2 \<or> n < b then [digit_char n]
      else show_base b (n div b) @ [digit_char (n mod b)])"

declare show_base.simps [simp del]

text \<open>\<open>sprintf("%d")\<close> and \<open>sprintf("%ld")\<close>: a minus sign, then the digits of the magnitude.\<close>

definition sprintf_d :: "int \<Rightarrow> string" where
  "sprintf_d i = (if i < 0 then CHR ''-'' # show_base 10 (nat (- i)) else show_base 10 (nat i))"

text \<open>\<open>sprintf("%x")\<close> reads its argument as unsigned.\<close>

definition sprintf_x :: "nat \<Rightarrow> string" where
  "sprintf_x n = show_base 16 n"

text \<open>\<open>sprintf\<close> into a freshly allocated block of \<open>cap\<close> bytes: the text and its NUL must fit,
  otherwise the call writes past the end of the block.\<close>

definition sprintf_into :: "nat \<Rightarrow> string \<Rightarrow> string option" where
  "sprintf_into cap s = (if length s + 1 \<le> cap then Some s else None)"

lemma less_16_cases:
  "(d::nat) < 16 \<Longrightarrow> d \<in> {0, 1, 2, 3, 4, 5, 6, 7, 8, 9, 10, 11, 12, 13, 14, 15}"
  unfolding insert_iff empty_iff by presburger

lemma of_char_digit_char_16:
  "d < 16 \<Longrightarrow> (of_char (digit_char d) :: nat) = (if d < 10 then 48 + d else 87 + d)"
  by (drule less_16_cases) (auto simp: digit_char_def)

lemma of_char_digit_char [simp]:
  "d < 10 \<Longrightarrow> (of_char (digit_char d) :: nat) = 48 + d"
  by (simp add: of_char_digit_char_16)

lemma of_char_digit_char_hex:
  "10 \<le> d \<Longrightarrow> d < 16 \<Longrightarrow> (of_char (digit_char d) :: nat) = 87 + d"
  by (simp add: of_char_digit_char_16)

lemma digit_char_not_NUL: "d < 16 \<Longrightarrow> digit_char d \<noteq> CHR 0x00"
  by (drule less_16_cases) (auto simp: digit_char_def)

lemma isdigit_digit_char [simp]: "d < 10 \<Longrightarrow> isdigit (digit_char d)"
  by (simp add: isdigit_def)

lemma show_base_nonempty [simp]: "show_base b n \<noteq> []"
  by (subst show_base.simps) simp

lemma show_base_digits:
  "c \<in> set (show_base 10 n) \<Longrightarrow> isdigit c"
proof (induction "10::nat" n rule: show_base.induct)
  case (1 n)
  then show ?case
    by (cases "n < 10") (auto simp: show_base.simps [of 10 n])
qed

lemma length_show_base_le:
  "2 \<le> b \<Longrightarrow> n < b ^ k \<Longrightarrow> 0 < k \<Longrightarrow> length (show_base b n) \<le> k"
proof (induction b n arbitrary: k rule: show_base.induct)
  case (1 b n)
  show ?case
  proof (cases "n < b")
    case True
    then show ?thesis using "1.prems" by (simp add: show_base.simps [of b n])
  next
    case False
    from "1.prems" False have k: "k \<noteq> 1" by auto
    with "1.prems" obtain j where j: "k = Suc j" "0 < j" by (cases k) auto
    have "n div b < b ^ j"
      using "1.prems" j by (simp add: less_mult_imp_div_less mult.commute)
    then have "length (show_base b (n div b)) \<le> j"
      using "1.IH" "1.prems" False j by simp
    then show ?thesis using False "1.prems" j by (simp add: show_base.simps [of b n])
  qed
qed

lemma length_show_base_ge:
  "2 \<le> b \<Longrightarrow> b ^ k \<le> n \<Longrightarrow> k < length (show_base b n)"
proof (induction b n arbitrary: k rule: show_base.induct)
  case (1 b n)
  show ?case
  proof (cases k)
    case 0
    then show ?thesis by simp
  next
    case (Suc j)
    have "b \<le> b ^ k" using "1.prems" Suc by (simp add: self_le_power)
    then have ge: "\<not> n < b" using "1.prems" by simp
    have "b ^ j \<le> n div b"
      using "1.prems" Suc by (simp add: less_eq_div_iff_mult_less_eq mult.commute)
    then have "j < length (show_base b (n div b))"
      using "1.IH" "1.prems" ge by simp
    then show ?thesis using ge Suc "1.prems" by (simp add: show_base.simps [of b n])
  qed
qed

lemma length_show_base_iff:
  assumes "2 \<le> b" and "0 < k"
  shows "length (show_base b n) \<le> k \<longleftrightarrow> n < b ^ k"
proof (cases "n < b ^ k")
  case True
  then show ?thesis using length_show_base_le [OF assms(1) _ assms(2)] by blast
next
  case False
  then show ?thesis using length_show_base_ge [OF assms(1), of k n] by simp
qed

text \<open>Reading digits back from the left, as every parser of the code does.\<close>

definition dec_fold :: "nat \<Rightarrow> string \<Rightarrow> nat" where
  "dec_fold a s = foldl (\<lambda>r c. r * 10 + (of_char c - 48)) a s"

lemma dec_fold_simps [simp]:
  "dec_fold a [] = a"
  "dec_fold a (c # s) = dec_fold (a * 10 + (of_char c - 48)) s"
  "dec_fold a (s @ t) = dec_fold (dec_fold a s) t"
  by (simp_all add: dec_fold_def)

lemma dec_fold_show_base [simp]: "dec_fold 0 (show_base 10 n) = n"
proof (induction "10::nat" n rule: show_base.induct)
  case (1 n)
  then show ?case
    by (cases "n < 10") (simp_all add: show_base.simps [of 10 n])
qed

subsection \<open>Lists as blocks of memory\<close>

lemma take_drop_update_same:
  "i < length xs \<Longrightarrow> take n (drop m (xs[i := xs ! i])) = take n (drop m xs)"
  by simp

lemma take_drop_update_outside:
  "i < m \<or> m + n \<le> i \<Longrightarrow> take n (drop m (xs[i := x])) = take n (drop m xs)"
  by (auto simp: drop_update_cancel drop_update_swap)

lemma take_drop_nth_eqI:
  assumes "length xs = length ys" and "\<And>i. m \<le> i \<Longrightarrow> i < m + n \<Longrightarrow> i < length xs \<Longrightarrow> xs ! i = ys ! i"
  shows "take n (drop m xs) = take n (drop m ys)"
  using assms by (auto intro!: nth_equalityI)

end
