(* ===== verification/Index_Spec.thy ===== *)
theory Index_Spec
  imports Prelude
begin

text \<open>
  What the callers of \<open>src/namespace.c\<close> rely on (the path and class indexes of \<open>object.c\<close>): a
  finite map from keys to non-zero values with insertion, deletion and lookup.  Lookup is only
  promised to be right for a key that is present; \<open>Namespace\<close> shows that the code promises no
  more than that.
\<close>

definition valid_key :: "string \<Rightarrow> bool" where
  "valid_key k \<longleftrightarrow> k \<noteq> [] \<and> length k \<le> 512"

locale key_index =
  fixes inv :: "'t \<Rightarrow> bool"
    and content :: "'t \<Rightarrow> string \<Rightarrow> int"
    and ins :: "'t \<Rightarrow> string \<Rightarrow> int \<Rightarrow> 't"
    and del :: "'t \<Rightarrow> string \<Rightarrow> 't"
    and find :: "'t \<Rightarrow> string \<Rightarrow> int"
  assumes ins_inv: "inv t \<Longrightarrow> valid_key k \<Longrightarrow> v \<noteq> 0 \<Longrightarrow> inv (ins t k v)"
    and ins_content: "inv t \<Longrightarrow> valid_key k \<Longrightarrow> content (ins t k v) = (content t)(k := v)"
    and del_inv: "inv t \<Longrightarrow> inv (del t k)"
    and del_content: "inv t \<Longrightarrow> valid_key k \<Longrightarrow> content (del t k) = (content t)(k := 0)"
    and find_present: "inv t \<Longrightarrow> content t k \<noteq> 0 \<Longrightarrow> find t k = content t k"
begin

lemma find_ins_same: "inv t \<Longrightarrow> valid_key k \<Longrightarrow> v \<noteq> 0 \<Longrightarrow> find (ins t k v) k = v"
  by (simp add: find_present ins_inv ins_content)

lemma find_ins_other:
  "inv t \<Longrightarrow> valid_key k \<Longrightarrow> v \<noteq> 0 \<Longrightarrow> j \<noteq> k \<Longrightarrow> content t j \<noteq> 0 \<Longrightarrow> find (ins t k v) j = content t j"
  by (simp add: find_present ins_inv ins_content)

lemma find_del_other:
  "inv t \<Longrightarrow> valid_key k \<Longrightarrow> j \<noteq> k \<Longrightarrow> content t j \<noteq> 0 \<Longrightarrow> find (del t k) j = content t j"
  by (simp add: find_present del_inv del_content)

text \<open>A rename: the old key is deleted, the new one inserted.\<close>

lemma rename_content:
  "inv t \<Longrightarrow> valid_key old \<Longrightarrow> valid_key new \<Longrightarrow> v \<noteq> 0 \<Longrightarrow>
   content (ins (del t old) new v) = (content t)(old := 0, new := v)"
  by (simp add: ins_content del_inv del_content)

lemma find_rename:
  "inv t \<Longrightarrow> valid_key old \<Longrightarrow> valid_key new \<Longrightarrow> v \<noteq> 0 \<Longrightarrow> find (ins (del t old) new v) new = v"
  by (simp add: find_ins_same del_inv)

text \<open>Any run of registrations leaves, under each key, the value registered last.\<close>

lemma fold_ins_content:
  "inv t \<Longrightarrow> \<forall>(k, v) \<in> set kvs. valid_key k \<and> v \<noteq> 0 \<Longrightarrow>
   inv (foldl (\<lambda>t (k, v). ins t k v) t kvs) \<and>
   content (foldl (\<lambda>t (k, v). ins t k v) t kvs) = foldl (\<lambda>m (k, v). m(k := v)) (content t) kvs"
proof (induction kvs arbitrary: t)
  case (Cons kv kvs)
  then show ?case
    by (cases kv) (auto simp: ins_inv ins_content fun_upd_def)
qed simp

end

end
