(* ===== verification/Namespace.thy ===== *)
theory Namespace
  imports Index_Spec
begin

text \<open>
  \<open>src/namespace.c\<close>: the search tree behind the path index, the class index and the
  connection tables.  A node holds one character, a value (0 for "no key ends here"), its
  first child and its next sibling; the root is a node whose own character is never read.
  Nothing else points into the tree, so the C structure is a datatype value: \<open>NsNull\<close> is the
  NULL pointer and \<open>NsNode character value child next\<close> an allocated \<open>NSObj\<close>.

  \<open>calloc\<close> may fail: the operations take the number of allocations that still succeed.
  \<open>nsAlive\<close> is the count of the nodes of the tree; an operation returns how many nodes it
  allocated or freed, which is what the code adds to or takes from \<open>nsAlive\<close>.
\<close>

datatype ns = NsNull | NsNode (Character: char) (Value: int) (Child: ns) (Next: ns)

subsection \<open>Creating and releasing\<close>

text \<open>\<open>AllocNSObj\<close> and \<open>NSCreate\<close>: a zeroed node, or NULL when \<open>calloc\<close> fails.\<close>

definition AllocNSObj :: "nat \<Rightarrow> ns" where
  "AllocNSObj avail = (if avail = 0 then NsNull else NsNode (CHR 0x00) 0 NsNull NsNull)"

definition NSCreate :: "nat \<Rightarrow> ns" where
  "NSCreate avail = (if avail = 0 then NsNull else NsNode (CHR 0x00) 0 NsNull NsNull)"

text \<open>The number of \<open>free\<close> calls of \<open>NSRelease\<close>: the loop over the siblings, each child's
  list released first.\<close>

fun NSRelease :: "ns \<Rightarrow> nat" where
  "NSRelease NsNull = 0"
| "NSRelease (NsNode c v child next) = NSRelease child + 1 + NSRelease next"

text \<open>The nodes of a tree, what \<open>nsAlive\<close> counts.\<close>

fun nsNodes :: "ns \<Rightarrow> nat" where
  "nsNodes NsNull = 0"
| "nsNodes (NsNode c v child next) = 1 + nsNodes child + nsNodes next"

subsection \<open>Insertion\<close>

text \<open>
  The loop of \<open>NSInsert\<close> at one level: the sibling list that starts at \<open>Current\<close>, the rest of
  the string, the value and the allocations left.  The result is the list the code leaves
  hanging off the pointer it came from (\<open>Previous->Child\<close> or \<open>Previous->Next\<close>), whether the
  loop ran to the end of the string, and the nodes allocated.  The four cases are the code's:
  no node, a smaller character (a new node in front), a greater one (the inner loop moves to
  \<open>Next\<close>), the same one (the loop descends to \<open>Child\<close>).  After the last character the value is
  stored in the node of that character.
\<close>

fun NSInsertAt :: "ns \<Rightarrow> string \<Rightarrow> int \<Rightarrow> nat \<Rightarrow> ns \<times> bool \<times> nat" where
  "NSInsertAt cur [] v avail = (cur, True, 0)"
| "NSInsertAt NsNull (c # cs) v avail =
     (case avail of 0 \<Rightarrow> (NsNull, False, 0)
      | Suc a \<Rightarrow> (let (child', ok, used) = NSInsertAt NsNull cs v a
                 in (NsNode c (if cs = [] then v else 0) child' NsNull, ok, Suc used)))"
| "NSInsertAt (NsNode ch val child next) (c # cs) v avail =
     (if schar c < schar ch then
        (case avail of 0 \<Rightarrow> (NsNode ch val child next, False, 0)
         | Suc a \<Rightarrow> (let (child', ok, used) = NSInsertAt NsNull cs v a
                    in (NsNode c (if cs = [] then v else 0) child' (NsNode ch val child next),
                        ok, Suc used)))
      else if c \<noteq> ch then
        (let (next', ok, used) = NSInsertAt next (c # cs) v avail
         in (NsNode ch val child next', ok, used))
      else
        (let (child', ok, used) = NSInsertAt child cs v avail
         in (NsNode ch (if cs = [] then v else val) child' next, ok, used)))"

text \<open>\<open>NSInsert(Root, String, Value)\<close>: the new tree, the returned 1 or 0, the nodes allocated.\<close>

definition NSInsert :: "ns \<Rightarrow> string \<Rightarrow> int \<Rightarrow> nat \<Rightarrow> ns \<times> int \<times> nat" where
  "NSInsert root s v avail =
     (case root of NsNull \<Rightarrow> (NsNull, 0, 0)
      | NsNode ch val child next \<Rightarrow>
          (if s = [] then (root, 0, 0)
           else (let (child', ok, used) = NSInsertAt child s v avail
                 in (NsNode ch val child' next, if ok then 1 else 0, used))))"

subsection \<open>Search\<close>

text \<open>The inner loop of \<open>NSSearch\<close>: move right while the character is greater.\<close>

fun skipLess :: "ns \<Rightarrow> char \<Rightarrow> ns" where
  "skipLess NsNull c = NsNull"
| "skipLess (NsNode ch val child next) c =
     (if schar ch < schar c then skipLess next c else NsNode ch val child next)"

text \<open>
  The loop of \<open>NSSearch\<close>, as it is written: after the inner loop has moved right, the code
  descends into the child of the node it stopped at whether or not the characters agree.
\<close>

fun NSSearchAt :: "ns \<Rightarrow> string \<Rightarrow> int" where
  "NSSearchAt cur [] = 0"
| "NSSearchAt NsNull (c # cs) = 0"
| "NSSearchAt (NsNode ch val child next) (c # cs) =
     (if schar ch < schar c then
        (case skipLess (NsNode ch val child next) c of
           NsNull \<Rightarrow> 0
         | NsNode ch' val' child' next' \<Rightarrow>
             (if c = ch' \<and> cs = [] then val' else NSSearchAt child' cs))
      else if c = ch then (if cs = [] then val else NSSearchAt child cs)
      else 0)"

definition NSSearch :: "ns \<Rightarrow> string \<Rightarrow> int" where
  "NSSearch root s =
     (case root of NsNull \<Rightarrow> 0
      | NsNode ch val child next \<Rightarrow> (if s = [] then 0 else NSSearchAt child s))"

subsection \<open>Deletion\<close>

text \<open>
  \<open>NSDelete\<close> walks down recording the path (\<open>None\<close> where the code returns 0 without a change),
  clears the value, and unwinds: a node that carries a value or has a child stops the unwinding,
  any other is unlinked and freed.  Stopping at a node leaves its parent with a child, so the
  parents above would not be unlinked either: each level decides on its own.
\<close>

definition unlinkDead :: "char \<Rightarrow> int \<Rightarrow> ns \<Rightarrow> ns \<Rightarrow> ns \<times> nat" where
  "unlinkDead ch val child next =
     (if val \<noteq> 0 \<or> child \<noteq> NsNull then (NsNode ch val child next, 0) else (next, 1))"

fun NSDeleteAt :: "ns \<Rightarrow> string \<Rightarrow> (ns \<times> nat) option" where
  "NSDeleteAt cur [] = None"
| "NSDeleteAt NsNull (c # cs) = None"
| "NSDeleteAt (NsNode ch val child next) (c # cs) =
     (if ch \<noteq> c then
        map_option (\<lambda>(next', freed). (NsNode ch val child next', freed))
          (NSDeleteAt next (c # cs))
      else if cs = [] then
        (if val = 0 then None else Some (unlinkDead ch 0 child next))
      else
        map_option (\<lambda>(child', freed). let (cur', f) = unlinkDead ch val child' next
                                      in (cur', freed + f))
          (NSDeleteAt child cs))"

text \<open>\<open>NSDelete(Root, String)\<close>: the new tree, the returned 1 or 0, the nodes freed.  The path
  arrays hold 512 entries; a longer string returns 0.\<close>

definition NSDelete :: "ns \<Rightarrow> string \<Rightarrow> ns \<times> int \<times> nat" where
  "NSDelete root s =
     (case root of NsNull \<Rightarrow> (NsNull, 0, 0)
      | NsNode ch val child next \<Rightarrow>
          (if s = [] \<or> 512 < length s then (root, 0, 0)
           else (case NSDeleteAt child s of
                   None \<Rightarrow> (root, 0, 0)
                 | Some (child', freed) \<Rightarrow> (NsNode ch val child' next, 1, freed))))"

subsection \<open>The map a tree stands for, and its invariants\<close>

text \<open>The value stored under exactly this key, 0 when there is none.\<close>

fun ns_get :: "ns \<Rightarrow> string \<Rightarrow> int" where
  "ns_get cur [] = 0"
| "ns_get NsNull (c # cs) = 0"
| "ns_get (NsNode ch val child next) (c # cs) =
     (if c = ch then (if cs = [] then val else ns_get child cs) else ns_get next (c # cs))"

definition ns_lookup :: "ns \<Rightarrow> string \<Rightarrow> int" where
  "ns_lookup root k = (case root of NsNull \<Rightarrow> 0 | NsNode ch val child next \<Rightarrow> ns_get child k)"

text \<open>The characters of a sibling list.\<close>

fun heads :: "ns \<Rightarrow> char set" where
  "heads NsNull = {}"
| "heads (NsNode c v child next) = insert c (heads next)"

text \<open>Every sibling list is strictly sorted by signed character; what \<open>NSSearch\<close> relies on.\<close>

fun sorted_ns :: "ns \<Rightarrow> bool" where
  "sorted_ns NsNull \<longleftrightarrow> True"
| "sorted_ns (NsNode c v child next) \<longleftrightarrow>
     sorted_ns child \<and> sorted_ns next \<and> (\<forall>d \<in> heads next. schar c < schar d)"

text \<open>No dead node: each carries a value or leads to one.\<close>

fun live_ns :: "ns \<Rightarrow> bool" where
  "live_ns NsNull \<longleftrightarrow> True"
| "live_ns (NsNode c v child next) \<longleftrightarrow>
     live_ns child \<and> live_ns next \<and> (v \<noteq> 0 \<or> child \<noteq> NsNull)"

definition ns_inv :: "ns \<Rightarrow> bool" where
  "ns_inv root \<longleftrightarrow>
     (case root of NsNull \<Rightarrow> False | NsNode ch val child next \<Rightarrow> sorted_ns child \<and> live_ns child)"

lemma NSRelease_nodes: "NSRelease t = nsNodes t"
  by (induction t) simp_all

lemma ns_get_absent [simp]: "c \<notin> heads cur \<Longrightarrow> ns_get cur (c # cs) = 0"
  by (induction cur "c # cs" rule: ns_get.induct) auto

lemma ns_get_Null [simp]: "ns_get NsNull k = 0"
  by (cases k) simp_all

lemma heads_less_absent:
  "\<forall>d \<in> heads next. schar ch < schar d \<Longrightarrow> schar c \<le> schar ch \<Longrightarrow> c \<notin> heads next"
  by force

subsection \<open>Insertion updates the map\<close>

declare NSInsertAt.simps [simp del] NSDeleteAt.simps [simp del]

lemma NSInsertAt_Nil [simp]: "NSInsertAt cur [] v n = (cur, True, 0)"
  by (simp add: NSInsertAt.simps)

text \<open>What one round of the loop does, as case rules for the two kinds of \<open>Current\<close>.\<close>

lemma NSInsertAt_NullE:
  assumes "NSInsertAt NsNull (c # cs) v n = (cur', ok, used)"
  obtains (full) "n = 0" "cur' = NsNull" "\<not> ok" "used = 0"
  | (new) child' a u where "n = Suc a" "NSInsertAt NsNull cs v a = (child', ok, u)"
      "cur' = NsNode c (if cs = [] then v else 0) child' NsNull" "used = Suc u"
  using assms by (auto simp: NSInsertAt.simps split: nat.splits prod.splits)

lemma NSInsertAt_NodeE:
  assumes "NSInsertAt (NsNode ch val child next) (c # cs) v n = (cur', ok, used)"
  obtains (full) "schar c < schar ch" "n = 0" "cur' = NsNode ch val child next" "\<not> ok" "used = 0"
  | (new) child' a u where "schar c < schar ch" "n = Suc a"
      "NSInsertAt NsNull cs v a = (child', ok, u)"
      "cur' = NsNode c (if cs = [] then v else 0) child' (NsNode ch val child next)" "used = Suc u"
  | (right) next' where "\<not> schar c < schar ch" "c \<noteq> ch" "schar ch < schar c"
      "NSInsertAt next (c # cs) v n = (next', ok, used)" "cur' = NsNode ch val child next'"
  | (down) child' where "c = ch" "NSInsertAt child cs v n = (child', ok, used)"
      "cur' = NsNode ch (if cs = [] then v else val) child' next"
  using assms schar_neq_iff [of c ch]
  by (auto simp: NSInsertAt.simps split: nat.splits prod.splits if_splits)

lemma NSInsertAt_heads:
  "NSInsertAt cur (c # cs) v n = (cur', ok, used) \<Longrightarrow> heads cur' \<subseteq> insert c (heads cur)"
proof (induction cur arbitrary: cur')
  case NsNull
  then show ?case by (auto elim: NSInsertAt_NullE)
next
  case (NsNode ch val child "next")
  from NsNode.prems show ?case
  proof (cases rule: NSInsertAt_NodeE)
    case (right next')
    then show ?thesis using NsNode.IH(2) [of next'] by auto
  qed auto
qed

text \<open>
  The shape of every proof about the insertion: a statement about the empty list by induction
  on the string, then one about any list, where only \<open>right\<close> and \<open>down\<close> recurse.
\<close>

lemma NSInsertAt_induct [consumes 1, case_names Nil NullFull NullNew Full New Right Down]:
  assumes "NSInsertAt cur s v n = (cur', ok, used)"
    and "\<And>cur n. P cur [] n cur True 0"
    and "\<And>c cs. P NsNull (c # cs) 0 NsNull False 0"
    and "\<And>c cs a child' ok u. P NsNull cs a child' ok u \<Longrightarrow>
           NSInsertAt NsNull cs v a = (child', ok, u) \<Longrightarrow>
           P NsNull (c # cs) (Suc a) (NsNode c (if cs = [] then v else 0) child' NsNull) ok (Suc u)"
    and "\<And>ch val child next c cs. schar c < schar ch \<Longrightarrow>
           P (NsNode ch val child next) (c # cs) 0 (NsNode ch val child next) False 0"
    and "\<And>ch val child next c cs a child' ok u. schar c < schar ch \<Longrightarrow> P NsNull cs a child' ok u \<Longrightarrow>
           NSInsertAt NsNull cs v a = (child', ok, u) \<Longrightarrow>
           P (NsNode ch val child next) (c # cs) (Suc a)
             (NsNode c (if cs = [] then v else 0) child' (NsNode ch val child next)) ok (Suc u)"
    and "\<And>ch val child next c cs n next' ok u. schar ch < schar c \<Longrightarrow> c \<noteq> ch \<Longrightarrow>
           P next (c # cs) n next' ok u \<Longrightarrow> NSInsertAt next (c # cs) v n = (next', ok, u) \<Longrightarrow>
           P (NsNode ch val child next) (c # cs) n (NsNode ch val child next') ok u"
    and "\<And>ch val child next cs n child' ok u. P child cs n child' ok u \<Longrightarrow>
           NSInsertAt child cs v n = (child', ok, u) \<Longrightarrow>
           P (NsNode ch val child next) (ch # cs) n
             (NsNode ch (if cs = [] then v else val) child' next) ok u"
  shows "P cur s n cur' ok used"
  using assms(1)
proof (induction s arbitrary: cur n cur' ok used)
  case Nil
  then show ?case using assms(2) by simp
next
  case outer: (Cons c cs)
  from outer.prems show ?case
  proof (induction cur arbitrary: cur')
    case NsNull
    then show ?case
    proof (cases rule: NSInsertAt_NullE)
      case (new child' a u)
      then show ?thesis using assms(4) [OF outer.IH [OF new(2)] new(2)] by simp
    qed (simp add: assms(3))
  next
    case (NsNode ch val child "next")
    from NsNode.prems show ?case
    proof (cases rule: NSInsertAt_NodeE)
      case full
      then show ?thesis by (simp add: assms(5))
    next
      case (new child' a u)
      then show ?thesis using assms(6) [OF new(1) outer.IH [OF new(3)] new(3)] by simp
    next
      case (right next')
      then show ?thesis using assms(7) [OF right(3,2) NsNode.IH(2) [OF right(4)] right(4)] by simp
    next
      case (down child')
      then show ?thesis using assms(8) [OF outer.IH [OF down(2)] down(2)] by simp
    qed
  qed
qed

lemma NSInsertAt_get:
  "NSInsertAt cur s v n = (cur', ok, used) \<Longrightarrow> sorted_ns cur \<Longrightarrow>
   ns_get cur' k = (if ok \<and> k = s \<and> s \<noteq> [] then v else ns_get cur k)"
proof (induction arbitrary: k rule: NSInsertAt_induct)
  case (NullNew c cs a child' ok u)
  then show ?case by (cases k) auto
next
  case (New ch val child "next" c cs a child' ok u)
  then have "c \<notin> heads (NsNode ch val child next)" by force
  with New show ?case by (cases k) auto
next
  case (Right ch val child "next" c cs n next' ok u)
  then show ?case by (cases k) auto
next
  case (Down ch val child "next" cs n child' ok u)
  then show ?case by (cases k) auto
qed auto

lemma NSInsertAt_sorted:
  "NSInsertAt cur s v n = (cur', ok, used) \<Longrightarrow> sorted_ns cur \<Longrightarrow> sorted_ns cur'"
proof (induction rule: NSInsertAt_induct)
  case (New ch val child "next" c cs a child' ok u)
  then show ?case by force
next
  case (Right ch val child "next" c cs n next' ok u)
  then show ?case using NSInsertAt_heads [OF Right.hyps(3)] by fastforce
qed auto

lemma NSInsertAt_nonnull:
  "NSInsertAt cur s v n = (cur', ok, used) \<Longrightarrow> ok \<Longrightarrow> s \<noteq> [] \<Longrightarrow> cur' \<noteq> NsNull"
  by (induction rule: NSInsertAt_induct) auto

lemma NSInsertAt_live:
  "NSInsertAt cur s v n = (cur', ok, used) \<Longrightarrow> ok \<Longrightarrow> live_ns cur \<Longrightarrow> v \<noteq> 0 \<Longrightarrow> live_ns cur'"
  by (induction rule: NSInsertAt_induct) (auto dest: NSInsertAt_nonnull)

lemma NSInsertAt_nodes:
  "NSInsertAt cur s v n = (cur', ok, used) \<Longrightarrow> nsNodes cur' = nsNodes cur + used \<and> used \<le> n"
  by (induction rule: NSInsertAt_induct) auto

lemma NSInsertAt_enough:
  "NSInsertAt cur s v n = (cur', ok, used) \<Longrightarrow> length s \<le> n \<Longrightarrow> ok"
  by (induction rule: NSInsertAt_induct) auto

subsection \<open>Deletion clears one key and frees every dead node\<close>

text \<open>What one round of the walk does when it succeeds.\<close>

lemma NSDeleteAt_induct [consumes 1, case_names Right Clear Free Keep Unlink]:
  assumes "NSDeleteAt cur s = Some (cur', f)"
    and "\<And>ch val child next c cs next' f. ch \<noteq> c \<Longrightarrow> NSDeleteAt next (c # cs) = Some (next', f) \<Longrightarrow>
           P next (c # cs) next' f \<Longrightarrow>
           P (NsNode ch val child next) (c # cs) (NsNode ch val child next') f"
    and "\<And>ch val child next. val \<noteq> 0 \<Longrightarrow> child \<noteq> NsNull \<Longrightarrow>
           P (NsNode ch val child next) [ch] (NsNode ch 0 child next) 0"
    and "\<And>ch val next. val \<noteq> 0 \<Longrightarrow> P (NsNode ch val NsNull next) [ch] next 1"
    and "\<And>ch val child next cs child' f. cs \<noteq> [] \<Longrightarrow> NSDeleteAt child cs = Some (child', f) \<Longrightarrow>
           P child cs child' f \<Longrightarrow> val \<noteq> 0 \<or> child' \<noteq> NsNull \<Longrightarrow>
           P (NsNode ch val child next) (ch # cs) (NsNode ch val child' next) f"
    and "\<And>ch child next cs f. cs \<noteq> [] \<Longrightarrow> NSDeleteAt child cs = Some (NsNull, f) \<Longrightarrow>
           P child cs NsNull f \<Longrightarrow> P (NsNode ch 0 child next) (ch # cs) next (f + 1)"
  shows "P cur s cur' f"
  using assms(1)
proof (induction cur s arbitrary: cur' f rule: NSDeleteAt.induct)
  case (3 ch val child "next" c cs)
  consider (right) "ch \<noteq> c" | (here) "ch = c" "cs = []" | (down) "ch = c" "cs \<noteq> []" by blast
  then show ?case
  proof cases
    case right
    with "3.prems" obtain next' where "NSDeleteAt next (c # cs) = Some (next', f)"
      and "cur' = NsNode ch val child next'" by (auto simp: NSDeleteAt.simps)
    then show ?thesis using assms(2) [OF right _ "3.IH"(1) [OF right]] by simp
  next
    case here
    with "3.prems" have "val \<noteq> 0" and "unlinkDead ch 0 child next = (cur', f)"
      by (auto simp: NSDeleteAt.simps split: if_splits)
    then show ?thesis
      using here assms(3,4) by (auto simp: unlinkDead_def split: if_splits)
  next
    case down
    with "3.prems" obtain child' f' where d: "NSDeleteAt child cs = Some (child', f')"
      by (auto simp: NSDeleteAt.simps)
    obtain cur1 g where u1: "unlinkDead ch val child' next = (cur1, g)" by fastforce
    with d down "3.prems" have u: "unlinkDead ch val child' next = (cur', g)" and f: "f = f' + g"
      by (auto simp: NSDeleteAt.simps)
    have "P child cs child' f'" using "3.IH"(2) down d by blast
    then show ?thesis
      using assms(5,6) [OF down(2)] d u f down by (auto simp: unlinkDead_def split: if_splits)
  qed
qed (simp_all add: NSDeleteAt.simps)

lemma NSDeleteAt_None: "NSDeleteAt cur s = None \<longleftrightarrow> ns_get cur s = 0"
  by (induction cur s rule: NSDeleteAt.induct) (auto simp: NSDeleteAt.simps)

lemma NSDeleteAt_heads:
  "NSDeleteAt cur s = Some (cur', f) \<Longrightarrow> heads cur' \<subseteq> heads cur"
  by (induction rule: NSDeleteAt_induct) auto

lemma NSDeleteAt_sorted:
  "NSDeleteAt cur s = Some (cur', f) \<Longrightarrow> sorted_ns cur \<Longrightarrow> sorted_ns cur'"
  by (induction rule: NSDeleteAt_induct) (auto dest: NSDeleteAt_heads)

lemma NSDeleteAt_live:
  "NSDeleteAt cur s = Some (cur', f) \<Longrightarrow> live_ns cur \<Longrightarrow> live_ns cur'"
  by (induction rule: NSDeleteAt_induct) auto

lemma NSDeleteAt_nodes:
  "NSDeleteAt cur s = Some (cur', f) \<Longrightarrow> nsNodes cur = nsNodes cur' + f"
  by (induction rule: NSDeleteAt_induct) auto

lemma NSDeleteAt_get:
  "NSDeleteAt cur s = Some (cur', f) \<Longrightarrow> sorted_ns cur \<Longrightarrow>
   ns_get cur' k = (if k = s then 0 else ns_get cur k)"
proof (induction arbitrary: k rule: NSDeleteAt_induct)
  case (Right ch val child "next" c cs next' f)
  then show ?case by (cases k) auto
next
  case (Clear ch val child "next")
  then show ?case by (cases k) auto
next
  case (Free ch val "next")
  then have "ch \<notin> heads next" by auto
  then show ?case by (cases k) auto
next
  case (Keep ch val child "next" cs child' f)
  then show ?case by (cases k) auto
next
  case (Unlink ch child "next" cs f)
  then have "ch \<notin> heads next" by auto
  moreover have "ns_get child ds = 0" if "ds \<noteq> cs" for ds
    using Unlink.IH [of ds] Unlink.prems that by (cases ds) auto
  ultimately show ?case by (cases k) auto
qed

subsection \<open>Search\<close>

lemma skipLess_found:
  "sorted_ns cur \<Longrightarrow> c \<in> heads cur \<Longrightarrow>
   \<exists>val child next. skipLess cur c = NsNode c val child next
     \<and> sorted_ns child \<and> (\<forall>cs. ns_get cur (c # cs) = (if cs = [] then val else ns_get child cs))"
proof (induction cur c rule: skipLess.induct)
  case (2 ch val child "next" c)
  then show ?case
    by (cases "c = ch") auto
qed simp

lemma NSSearchAt_complete:
  "sorted_ns cur \<Longrightarrow> ns_get cur s \<noteq> 0 \<Longrightarrow> NSSearchAt cur s = ns_get cur s"
proof (induction cur s rule: NSSearchAt.induct)
  case (3 ch val child "next" c cs)
  have inheads: "c \<in> heads (NsNode ch val child next)"
    using "3.prems"(2) ns_get_absent by blast
  show ?case
  proof (cases "schar ch < schar c")
    case True
    obtain val' child' next' where *: "skipLess (NsNode ch val child next) c = NsNode c val' child' next'"
      "sorted_ns child'"
      "\<And>cs. ns_get (NsNode ch val child next) (c # cs) = (if cs = [] then val' else ns_get child' cs)"
      using skipLess_found [OF "3.prems"(1) inheads] by blast
    then show ?thesis
      using True 3 by (auto simp del: ns_get.simps skipLess.simps)
  next
    case False
    then have "c = ch"
      using inheads "3.prems"(1) by fastforce
    then show ?thesis using 3 by auto
  qed
qed simp_all

text \<open>A hit is the value of a stored key of the same length with the same last character.\<close>

lemma skipLess_heads: "skipLess cur c = NsNode ch' val' child' next' \<Longrightarrow> ch' \<in> heads cur"
  by (induction cur c rule: skipLess.induct) (auto split: if_splits)

lemma skipLess_subtree:
  "skipLess cur c = NsNode ch' val' child' next' \<Longrightarrow> sorted_ns cur \<Longrightarrow>
   sorted_ns child' \<and> (\<forall>cs. ns_get cur (ch' # cs) = (if cs = [] then val' else ns_get child' cs))"
proof (induction cur c rule: skipLess.induct)
  case (2 ch val child "next" c)
  then show ?case
  proof (cases "schar ch < schar c")
    case True
    with 2 have IH: "sorted_ns child' \<and>
        (\<forall>cs. ns_get next (ch' # cs) = (if cs = [] then val' else ns_get child' cs))" by simp
    have "ch' \<in> heads next"
      using "2.prems"(1) True by (auto dest: skipLess_heads)
    then have "ch' \<noteq> ch" using "2.prems" by auto
    with IH show ?thesis by simp
  qed auto
qed simp

lemma NSSearchAt_sound:
  "sorted_ns cur \<Longrightarrow> NSSearchAt cur s \<noteq> 0 \<Longrightarrow>
   \<exists>k. length k = length s \<and> last k = last s \<and> ns_get cur k = NSSearchAt cur s"
proof (induction cur s rule: NSSearchAt.induct)
  case (3 ch val child "next" c cs)
  have descend: "\<exists>k. length k = length (c # cs) \<and> last k = last (c # cs) \<and>
      ns_get (NsNode ch val child next) k = x"
    if "\<exists>k. length k = length cs \<and> last k = last cs \<and> ns_get child'' k = x" and "cs \<noteq> []"
      and "\<And>ds. ds \<noteq> [] \<Longrightarrow> ns_get (NsNode ch val child next) (d # ds) = ns_get child'' ds"
    for x child'' d
  proof -
    from that(1) obtain k where k: "length k = length cs" "last k = last cs" "ns_get child'' k = x"
      by blast
    then have "k \<noteq> []" using that(2) by auto
    with k that(2) that(3) [of k] show ?thesis
      by (intro exI [of _ "d # k"]) (simp del: ns_get.simps)
  qed
  show ?case
  proof (cases "schar ch < schar c")
    case True
    with "3.prems"(2) obtain ch' val' child' next' where
      sk: "skipLess (NsNode ch val child next) c = NsNode ch' val' child' next'"
      by (auto split: ns.splits)
    note sub = skipLess_subtree [OF sk "3.prems"(1)]
    show ?thesis
    proof (cases "c = ch' \<and> cs = []")
      case hit: True
      then show ?thesis
        using True sk sub by (intro exI [of _ "[c]"]) (simp del: ns_get.simps)
    next
      case False
      then have eq: "NSSearchAt (NsNode ch val child next) (c # cs) = NSSearchAt child' cs"
        using True sk by auto
      then have ne: "cs \<noteq> []" using "3.prems"(2) by auto
      have "\<exists>k. length k = length cs \<and> last k = last cs \<and> ns_get child' k = NSSearchAt child' cs"
        using "3.IH"(1) [OF True sk] False sub "3.prems"(2) eq by auto
      then show ?thesis unfolding eq by (rule descend [OF _ ne, of child' _ ch']) (use sub in simp)
    qed
  next
    case False
    with "3.prems"(2) have eq: "c = ch" by (auto split: if_splits)
    show ?thesis
    proof (cases "cs = []")
      case True
      then show ?thesis using eq by (intro exI [of _ "[c]"]) auto
    next
      case ne: False
      have "\<exists>k. length k = length cs \<and> last k = last cs \<and> ns_get child k = NSSearchAt child cs"
        using "3.IH"(2) eq ne "3.prems" by simp
      then have "\<exists>k. length k = length (c # cs) \<and> last k = last (c # cs) \<and>
          ns_get (NsNode ch val child next) k = NSSearchAt child cs"
        by (rule descend [OF _ ne, of child _ ch]) simp
      then show ?thesis using eq ne by simp
    qed
  qed
qed simp_all

subsection \<open>The operations on a whole tree\<close>

lemma NSInsert_cases:
  assumes "NSInsert root s v avail = (root', r, used)" and "ns_inv root" and "s \<noteq> []"
  obtains ch val child "next" child' ok
  where "root = NsNode ch val child next" "root' = NsNode ch val child' next"
    "NSInsertAt child s v avail = (child', ok, used)" "r = (if ok then 1 else 0)"
    "sorted_ns child" "live_ns child"
  using assms by (auto simp: NSInsert_def ns_inv_def split: ns.splits prod.splits)

lemma NSInsert_lookup:
  assumes "NSInsert root s v avail = (root', r, used)" and "ns_inv root" and "s \<noteq> []"
  shows "ns_lookup root' = (if r = 1 then (ns_lookup root)(s := v) else ns_lookup root)"
  using assms
proof (cases rule: NSInsert_cases)
  case (1 ch val child "next" child' ok)
  then show ?thesis
    using NSInsertAt_get [OF 1(3,5)] assms(3) by (simp add: ns_lookup_def fun_eq_iff)
qed

lemma NSInsert_inv:
  assumes "NSInsert root s v avail = (root', 1, used)" and "ns_inv root" and "s \<noteq> []" and "v \<noteq> 0"
  shows "ns_inv root'"
  using assms(1-3)
proof (cases rule: NSInsert_cases)
  case (1 ch val child "next" child' ok)
  then show ?thesis
    using assms(4)
    by (auto simp: ns_inv_def split: if_splits dest: NSInsertAt_sorted NSInsertAt_live)
qed

lemma NSInsert_enough:
  assumes "ns_inv root" and "s \<noteq> []" and "length s \<le> avail"
  shows "fst (snd (NSInsert root s v avail)) = 1"
proof -
  obtain root' r used where eq: "NSInsert root s v avail = (root', r, used)"
    by (metis prod_cases3)
  then have "r = 1"
    using assms(1,2)
  proof (cases rule: NSInsert_cases)
    case (1 ch val child "next" child' ok)
    then show ?thesis using NSInsertAt_enough [OF 1(3)] assms(3) by simp
  qed
  then show ?thesis by (simp add: eq)
qed

lemma NSDelete_lookup:
  assumes "NSDelete root s = (root', r, freed)" and "ns_inv root" and "valid_key s"
  shows "ns_lookup root' = (ns_lookup root)(s := 0)
    \<and> r = (if ns_lookup root s = 0 then 0 else 1)"
proof -
  obtain ch val child "next" where root: "root = NsNode ch val child next" "sorted_ns child"
    using assms(2) by (auto simp: ns_inv_def split: ns.splits)
  show ?thesis
  proof (cases "NSDeleteAt child s")
    case None
    then show ?thesis
      using assms(1,3) root NSDeleteAt_None [of child s]
      by (auto simp: NSDelete_def ns_lookup_def valid_key_def fun_eq_iff)
  next
    case (Some p)
    then obtain child' f where d: "NSDeleteAt child s = Some (child', f)" by (cases p) auto
    then have "ns_get child s \<noteq> 0" using NSDeleteAt_None [of child s] by auto
    then show ?thesis
      using assms(1,3) root d NSDeleteAt_get [OF d root(2)]
      by (auto simp: NSDelete_def ns_lookup_def valid_key_def fun_eq_iff)
  qed
qed

lemma NSDelete_inv:
  "NSDelete root s = (root', r, freed) \<Longrightarrow> ns_inv root \<Longrightarrow> ns_inv root'"
  by (auto simp: NSDelete_def ns_inv_def split: ns.splits option.splits if_splits
      dest: NSDeleteAt_sorted NSDeleteAt_live)

lemma NSSearch_present:
  "ns_inv root \<Longrightarrow> ns_lookup root k \<noteq> 0 \<Longrightarrow> NSSearch root k = ns_lookup root k"
  by (cases k) (auto simp: NSSearch_def ns_inv_def ns_lookup_def split: ns.splits
      dest: NSSearchAt_complete)

text \<open>The operations as their callers use them, with memory for every insertion.\<close>

definition ns_ins :: "ns \<Rightarrow> string \<Rightarrow> int \<Rightarrow> ns" where
  "ns_ins t k v = fst (NSInsert t k v (length k))"

definition ns_del :: "ns \<Rightarrow> string \<Rightarrow> ns" where
  "ns_del t k = fst (NSDelete t k)"

lemma NSInsert_ns_ins:
  assumes "ns_inv t" and "k \<noteq> []"
  obtains used where "NSInsert t k v (length k) = (ns_ins t k v, 1, used)"
  using NSInsert_enough [OF assms, of "length k" v] by (metis ns_ins_def order_refl prod.collapse)

lemma NSInsert_nodes:
  assumes "NSInsert root s v avail = (root', r, used)"
  shows "nsNodes root' = nsNodes root + used"
  using assms by (auto simp: NSInsert_def split: ns.splits if_splits prod.splits
      dest: NSInsertAt_nodes)

lemma NSDelete_nodes:
  "NSDelete root s = (root', r, freed) \<Longrightarrow> nsNodes root = nsNodes root' + freed"
  by (auto simp: NSDelete_def split: ns.splits option.splits if_splits dest: NSDeleteAt_nodes)

text \<open>Deleting a key that was new takes back exactly what its insertion built.\<close>

lemma NSDeleteAt_NSInsertAt:
  "NSInsertAt cur s v n = (cur', ok, used) \<Longrightarrow> ok \<Longrightarrow> s \<noteq> [] \<Longrightarrow> v \<noteq> 0 \<Longrightarrow> live_ns cur \<Longrightarrow>
   ns_get cur s = 0 \<Longrightarrow> NSDeleteAt cur' s = Some (cur, used)"
proof (induction rule: NSInsertAt_induct)
  case (NullNew c cs a child' ok u)
  then show ?case by (cases "cs = []") (auto simp: NSDeleteAt.simps unlinkDead_def)
next
  case (New ch val child "next" c cs a child' ok u)
  then show ?case by (cases "cs = []") (auto simp: NSDeleteAt.simps unlinkDead_def)
next
  case (Right ch val child "next" c cs n next' ok u)
  then show ?case by (auto simp: NSDeleteAt.simps)
next
  case (Down ch val child "next" cs n child' ok u)
  then show ?case by (cases "cs = []") (auto simp: NSDeleteAt.simps unlinkDead_def)
qed auto

lemma ns_del_ns_ins:
  assumes "ns_inv t" and "valid_key k" and "v \<noteq> 0" and "ns_lookup t k = 0"
  shows "ns_del (ns_ins t k v) k = t"
proof -
  have k: "k \<noteq> []" using assms(2) by (simp add: valid_key_def)
  obtain used where i: "NSInsert t k v (length k) = (ns_ins t k v, 1, used)"
    using NSInsert_ns_ins [OF assms(1) k] .
  then show ?thesis
    using assms(1) k
  proof (cases rule: NSInsert_cases)
    case (1 ch val child "next" child' ok)
    then have "NSDeleteAt child' k = Some (child, used)"
      using assms(3,4) k by (auto intro!: NSDeleteAt_NSInsertAt simp: ns_lookup_def split: if_splits)
    then show ?thesis
      using 1 assms(2) by (simp add: ns_del_def NSDelete_def valid_key_def)
  qed
qed

interpretation trie: key_index ns_inv ns_lookup ns_ins ns_del NSSearch
proof
  fix t k and v :: int
  assume t: "ns_inv t"
  show "ns_inv (ns_del t k)"
    using NSDelete_inv [OF _ t] by (metis ns_del_def prod.collapse)
  show "NSSearch t k = ns_lookup t k" if "ns_lookup t k \<noteq> 0"
    using NSSearch_present [OF t that] .
  assume k: "valid_key k"
  then have k0: "k \<noteq> []" by (simp add: valid_key_def)
  obtain used where i: "NSInsert t k v (length k) = (ns_ins t k v, 1, used)"
    using NSInsert_ns_ins [OF t k0] .
  show "ns_inv (ns_ins t k v)" if "v \<noteq> 0"
    using NSInsert_inv [OF i t k0 that] .
  show "ns_lookup (ns_ins t k v) = (ns_lookup t)(k := v)"
    using NSInsert_lookup [OF i t k0] by simp
  show "ns_lookup (ns_del t k) = (ns_lookup t)(k := 0)"
    using NSDelete_lookup [OF _ t k] by (metis ns_del_def prod.collapse)
qed

lemmas ns_eval = NSInsert_def NSDelete_def NSSearch_def ns_ins_def ns_del_def ns_lookup_def
  NSInsertAt.simps NSDeleteAt.simps unlinkDead_def NSCreate_def ns_inv_def schar_def valid_key_def

subsection \<open>Properties\<close>



text \<open>C2. \<open>NSDelete\<close> on a well-formed tree removes exactly the given key (returning 1 if it was
  there and 0 otherwise), keeps the tree well-formed, so that no node without a key below it
  survives, and frees exactly the nodes the tree loses.\<close>

theorem NSDelete_removes_key:
  assumes "NSDelete root s = (root', r, freed)" and "ns_inv root" and "valid_key s"
  shows "ns_lookup root' = (ns_lookup root)(s := 0) \<and> r = (if ns_lookup root s = 0 then 0 else 1)
    \<and> ns_inv root' \<and> nsNodes root = nsNodes root' + freed"
  using NSDelete_lookup [OF assms] NSDelete_inv [OF assms(1,2)] NSDelete_nodes [OF assms(1)]
  by blast

theorem NSDelete_removes_key_witness:
  "ns_lookup (fst (NSDelete (ns_ins (ns_ins (NSCreate 1) ''ab'' 3) ''ac'' 4) ''ab'')) ''ac'' = 4"
proof -
  let ?t = "ns_ins (ns_ins (NSCreate 1) ''ab'' 3) ''ac'' 4"
  have "ns_inv ?t" and "valid_key ''ab''" and "ns_lookup ?t ''ac'' = 4"
    by (simp_all add: ns_eval numeral_2_eq_2)
  then show ?thesis
    using NSDelete_removes_key [of ?t "''ab''" "fst (NSDelete ?t ''ab'')"
        "fst (snd (NSDelete ?t ''ab''))" "snd (snd (NSDelete ?t ''ab''))"] by simp
qed

text \<open>Deleting a key that was not in the tree before its insertion gives back the very tree
  there was, node for node: nothing is leaked and nothing shared with a sibling is lost.\<close>

theorem NSDelete_undoes_NSInsert:
  assumes "ns_inv t" and "valid_key k" and "v \<noteq> 0" and "ns_lookup t k = 0"
  shows "ns_del (ns_ins t k v) k = t"
  using assms by (rule ns_del_ns_ins)

theorem NSDelete_undoes_NSInsert_witness:
  "ns_del (ns_ins (ns_ins (NSCreate 1) ''Slider_8'' 3) ''Slider_9'' 4) ''Slider_9''
   = ns_ins (NSCreate 1) ''Slider_8'' 3"
  by (rule NSDelete_undoes_NSInsert) (simp_all add: ns_eval eval_nat_numeral)

text \<open>C3. Lookup: on a well-formed tree \<open>NSSearch\<close> returns the stored value of every key that is
  present, and a non-zero answer is always the value of some stored key of the same length
  ending in the same character.\<close>

theorem NSSearch_correct:
  assumes "ns_inv root"
  shows "(ns_lookup root k \<noteq> 0 \<longrightarrow> NSSearch root k = ns_lookup root k)
    \<and> (NSSearch root k \<noteq> 0 \<longrightarrow>
        (\<exists>j. length j = length k \<and> last j = last k \<and> ns_lookup root j = NSSearch root k))"
  using NSSearch_present [OF assms] NSSearchAt_sound assms
  by (auto simp: NSSearch_def ns_inv_def ns_lookup_def split: ns.splits if_splits)

theorem NSSearch_correct_witness:
  "NSSearch (ns_ins (ns_ins (NSCreate 1) ''ab'' 3) ''ac'' 4) ''ac'' = 4"
proof -
  let ?t = "ns_ins (ns_ins (NSCreate 1) ''ab'' 3) ''ac'' 4"
  have "ns_inv ?t" and "ns_lookup ?t ''ac'' = 4"
    by (simp_all add: ns_eval numeral_2_eq_2)
  then show ?thesis using NSSearch_correct [of ?t "''ac''"] by simp
qed

text \<open>A lookup of a name that was never registered can answer with another object: with
  \<open>/R/AA_1\<close> and \<open>/R/AC_1\<close> in the index, \<open>NSSearch\<close> of \<open>/R/AB_1\<close> returns the value of
  \<open>/R/AC_1\<close>, because the loop descends into the node it stopped at without comparing the
  characters.\<close>

theorem NSSearch_false_hit:
  "let t = ns_ins (ns_ins (NSCreate 1) ''/R/AA_1'' 7) ''/R/AC_1'' 9
   in ns_lookup t ''/R/AB_1'' = 0 \<and> NSSearch t ''/R/AB_1'' = 9"
  by (simp add: ns_eval eval_nat_numeral)

text \<open>Re-registering under a new name (delete the old key, insert the new one): the new name is
  found, and every other name that was there is still found with its own value.\<close>

theorem rename_in_index:
  assumes "ns_inv t" and "valid_key old" and "valid_key new" and "v \<noteq> 0"
    and "j \<noteq> old" and "j \<noteq> new" and "ns_lookup t j \<noteq> 0"
  shows "NSSearch (ns_ins (ns_del t old) new v) new = v
    \<and> NSSearch (ns_ins (ns_del t old) new v) j = ns_lookup t j
    \<and> (old \<noteq> new \<longrightarrow> ns_lookup (ns_ins (ns_del t old) new v) old = 0)"
  using assms trie.find_rename trie.find_present trie.rename_content trie.ins_inv trie.del_inv
  by auto

theorem rename_in_index_witness:
  "NSSearch (ns_ins (ns_del (ns_ins (ns_ins (NSCreate 1) ''/R/A'' 3) ''/R/B'' 4) ''/R/A'') ''/R/C'' 3) ''/R/B'' = 4"
proof -
  let ?t = "ns_ins (ns_ins (NSCreate 1) ''/R/A'' 3) ''/R/B'' 4"
  have "ns_inv ?t" and "ns_lookup ?t ''/R/B'' = 4" and "valid_key ''/R/A''" and "valid_key ''/R/C''"
    by (simp_all add: ns_eval eval_nat_numeral)
  then show ?thesis
    using rename_in_index [of ?t "''/R/A''" "''/R/C''" 3 "''/R/B''"] by simp
qed

end
