(* ===== verification/DataObj.thy ===== *)
theory DataObj
  imports Prelude Complex_Main "HOL-Library.Monad_Syntax"
begin

text \<open>
  \<open>src/data.c\<close>: the data object, which holds one authoritative value (string, integer, hex text,
  real or long) and converts it on every read, caching each conversion behind a flag.

  A \<open>DataObj\<close> is NULL (\<open>None\<close>) or a struct.  \<open>str_val\<close> and \<open>hex_val\<close> are NULL or the bytes of
  their block without the NUL the code appends; bytes set through \<open>SetStrLen\<close> may hold NULs.
  \<open>int\<close> is a 32-bit and \<open>long\<close> a 64-bit word (arithmetic on them wraps), a finite \<open>double\<close> is
  the rational number it denotes (infinities, NaN and the sign of zero are not modelled).
  \<open>malloc\<close> is taken to succeed for the fixed small blocks of this file.  A call that would write
  past its block, pass NULL to \<open>strlen\<close> or convert an out-of-range \<open>double\<close> yields \<open>None\<close>.
\<close>

subsection \<open>Conversions\<close>

text \<open>The text of a block up to its first NUL, what \<open>strlen\<close> and \<open>strncpy\<close> see.\<close>

definition cstr :: "string \<Rightarrow> string" where
  "cstr s = takeWhile (\<lambda>c. c \<noteq> CHR 0x00) s"

text \<open>\<open>sprintf("%f")\<close>: the exact value rounded to six decimals, ties to even.\<close>

definition round_even :: "rat \<Rightarrow> int" where
  "round_even x = (let f = \<lfloor>x\<rfloor>; d = x - of_int f
     in if d < 1 / 2 then f else if d > 1 / 2 then f + 1 else if even f then f else f + 1)"

definition pad6 :: "string \<Rightarrow> string" where
  "pad6 s = replicate (6 - length s) (CHR ''0'') @ s"

definition sprintf_f :: "rat \<Rightarrow> string" where
  "sprintf_f r = (let n = nat (round_even (\<bar>r\<bar> * 1000000))
     in (if r < 0 then ''-'' else []) @ show_base 10 (n div 1000000) @ ''.''
        @ pad6 (show_base 10 (n mod 1000000)))"

definition Real2Str :: "rat \<Rightarrow> string option" where
  "Real2Str val = sprintf_into 13 (sprintf_f val)"

definition Int2Hex :: "32 word \<Rightarrow> string option" where
  "Int2Hex val = sprintf_into 10 (sprintf_x (unat val))"

fun hexLoop :: "32 word \<Rightarrow> string \<Rightarrow> 32 word" where
  "hexLoop r [] = r"
| "hexLoop r (c # cs) =
     (if isxdigit c then
        hexLoop (if isdigit c then r * 16 + word_of_nat (of_char c) - 48
                 else r * 16 + word_of_nat (of_char c) - 65 + 10) cs
      else r)"

definition Hex2Int :: "string option \<Rightarrow> 32 word" where
  "Hex2Int val = (case val of None \<Rightarrow> 0 | Some s \<Rightarrow> hexLoop 0 (cstr s))"

definition Int2Str :: "32 word \<Rightarrow> string option" where
  "Int2Str val = sprintf_into 10 (sprintf_d (sint val))"

text \<open>The digit loop of \<open>Str2Int\<close> and \<open>Str2Long\<close>, at either width.\<close>

fun decLoop :: "'a::len word \<Rightarrow> string \<Rightarrow> 'a word" where
  "decLoop r [] = r"
| "decLoop r (c # cs) =
     (if isdigit c then decLoop (r * 10 + word_of_nat (of_char c) - 48) cs else r)"

definition Str2Int :: "string option \<Rightarrow> 32 word" where
  "Str2Int val = (case val of None \<Rightarrow> 0 | Some s \<Rightarrow> decLoop 0 (dropWhile isspace (cstr s)))"

definition Long2Str :: "64 word \<Rightarrow> string option" where
  "Long2Str val = sprintf_into 24 (sprintf_d (sint val))"

definition Str2Long :: "string option \<Rightarrow> 64 word" where
  "Str2Long val = (case val of None \<Rightarrow> 0 | Some s \<Rightarrow> decLoop 0 (dropWhile isspace (cstr s)))"

definition dup :: "string option \<Rightarrow> string option" where
  "dup val = map_option cstr val"

text \<open>Assigning a \<open>double\<close> to an \<open>int\<close> truncates; out of the range of \<open>int\<close> it is undefined.\<close>

definition Real2Int :: "rat \<Rightarrow> 32 word option" where
  "Real2Int r = (let i = (if 0 \<le> r then \<lfloor>r\<rfloor> else \<lceil>r\<rceil>)
     in if - (2 ^ 31) \<le> i \<and> i < 2 ^ 31 then Some (word_of_int i) else None)"

subsection \<open>The struct\<close>

datatype dtype = STRING | INTEGER | HEX | REAL | LONG | OTHER int

record data =
  dtype_of :: dtype
  str_set :: bool
  int_set :: bool
  hex_set :: bool
  real_set :: bool
  long_set :: bool
  bool_set :: bool
  str_val :: "string option"
  str_len :: "32 word"
  int_val :: "32 word"
  hex_val :: "string option"
  real_val :: rat
  long_val :: "64 word"

type_synonym DataObj = "data option"

definition clear :: "data \<Rightarrow> data" where
  "clear this = this\<lparr>str_set := False, str_val := None, str_len := 0, int_set := False,
     int_val := 0, hex_set := False, hex_val := None, real_set := False, real_val := 0,
     long_set := False, long_val := 0, bool_set := False\<rparr>"

text \<open>\<open>clearAll\<close> frees the two blocks and clears; the blocks belong to this object alone.\<close>

definition clearAll :: "data \<Rightarrow> data" where
  "clearAll this = clear this"

subsection \<open>convert\<close>

text \<open>Storing a converted string: \<open>str_len = strlen(str_val)\<close>.\<close>

definition putStr :: "data \<Rightarrow> string \<Rightarrow> data" where
  "putStr this s = this\<lparr>str_val := Some s, str_set := True, str_len := word_of_nat (length s)\<rparr>"

text \<open>The \<open>INTEGER\<close> branch of each type, which the \<open>HEX\<close> and \<open>REAL\<close> branches call back into;
  the other two types have none and return 0.\<close>

definition convertInt :: "data \<Rightarrow> (data \<times> int) option" where
  "convertInt this = (case dtype_of this of
     STRING \<Rightarrow> Some (if int_set this then this
                     else this\<lparr>int_val := Str2Int (str_val this), int_set := True\<rparr>, 1)
   | HEX \<Rightarrow> Some (if int_set this then this
                  else this\<lparr>int_val := Hex2Int (hex_val this), int_set := True\<rparr>, 1)
   | REAL \<Rightarrow> (if int_set this then Some (this, 1)
              else do { i \<leftarrow> Real2Int (real_val this);
                        Some (this\<lparr>int_val := i, int_set := True\<rparr>, 1) })
   | _ \<Rightarrow> Some (this, 0))"

definition convertStr :: "data \<Rightarrow> (data \<times> int) option" where
  "convertStr this = (case dtype_of this of
     INTEGER \<Rightarrow> (if str_set this then Some (this, 1)
                 else do { s \<leftarrow> Int2Str (int_val this); Some (putStr this s, 1) })
   | HEX \<Rightarrow> (if str_set this then Some (this, 1)
             else do { s \<leftarrow> dup (hex_val this); Some (putStr this s, 1) })
   | REAL \<Rightarrow> (if str_set this then Some (this, 1)
              else do { s \<leftarrow> Real2Str (real_val this); Some (putStr this s, 1) })
   | LONG \<Rightarrow> (if str_set this then Some (this, 1)
              else do { s \<leftarrow> Long2Str (long_val this); Some (putStr this s, 1) })
   | _ \<Rightarrow> Some (this, 0))"

definition convertHex :: "data \<Rightarrow> (data \<times> int) option" where
  "convertHex this = (case dtype_of this of
     INTEGER \<Rightarrow> (if hex_set this then Some (this, 1)
                 else do { h \<leftarrow> Int2Hex (int_val this);
                           Some (this\<lparr>hex_val := Some h, hex_set := True\<rparr>, 1) })
   | STRING \<Rightarrow> (if hex_set this then Some (this, 1)
                else do { (t, _) \<leftarrow> convertInt this; h \<leftarrow> Int2Hex (int_val t);
                          Some (t\<lparr>hex_val := Some h, hex_set := True\<rparr>, 1) })
   | REAL \<Rightarrow> (if hex_set this then Some (this, 1)
              else do { (t, _) \<leftarrow> convertInt this; h \<leftarrow> Int2Hex (int_val t);
                        Some (t\<lparr>hex_val := Some h, hex_set := True\<rparr>, 1) })
   | _ \<Rightarrow> Some (this, 0))"

definition convertReal :: "data \<Rightarrow> (data \<times> int) option" where
  "convertReal this = (case dtype_of this of
     INTEGER \<Rightarrow> Some (if real_set this then this
                      else this\<lparr>real_val := of_int (sint (int_val this)), real_set := True\<rparr>, 1)
   | STRING \<Rightarrow> (if real_set this then Some (this, 1)
                else do { (t, _) \<leftarrow> convertInt this;
                          Some (t\<lparr>real_val := of_int (sint (int_val t)), real_set := True\<rparr>, 1) })
   | HEX \<Rightarrow> (if real_set this then Some (this, 1)
             else do { (t, _) \<leftarrow> convertInt this;
                       Some (t\<lparr>real_val := of_int (sint (int_val t)), real_set := True\<rparr>, 1) })
   | _ \<Rightarrow> Some (this, 0))"

definition convertLong :: "data \<Rightarrow> (data \<times> int) option" where
  "convertLong this = (case dtype_of this of
     STRING \<Rightarrow> Some (if long_set this then this
                     else this\<lparr>long_val := Str2Long (str_val this), long_set := True\<rparr>, 1)
   | _ \<Rightarrow> Some (this, 0))"

definition convert :: "data \<Rightarrow> dtype \<Rightarrow> (data \<times> int) option" where
  "convert this type = (case type of
     INTEGER \<Rightarrow> convertInt this | STRING \<Rightarrow> convertStr this | HEX \<Rightarrow> convertHex this
   | REAL \<Rightarrow> convertReal this | LONG \<Rightarrow> convertLong this | OTHER _ \<Rightarrow> Some (this, 0))"

subsection \<open>datafunc: the GET and SET of one type\<close>

text \<open>The flag a GET of a type tests; any other type is not read and returns 0.\<close>

fun isSet :: "data \<Rightarrow> dtype \<Rightarrow> bool" where
  "isSet this INTEGER = int_set this"
| "isSet this STRING = str_set this"
| "isSet this HEX = hex_set this"
| "isSet this REAL = real_set this"
| "isSet this LONG = long_set this"
| "isSet this (OTHER _) = True"

text \<open>GET: convert when the flag is not set; the callers then read the field.\<close>

definition datafunc_get :: "data \<Rightarrow> dtype \<Rightarrow> data option" where
  "datafunc_get this type = (if isSet this type then Some this else map_option fst (convert this type))"

text \<open>The value of a SET, which C passes through one \<open>char *\<close>.\<close>

datatype cval = VStr "string option" | VInt "32 word" | VHex "string option" | VReal rat
  | VLong "64 word" | VOther int

fun cval_type :: "cval \<Rightarrow> dtype" where
  "cval_type (VStr _) = STRING"
| "cval_type (VInt _) = INTEGER"
| "cval_type (VHex _) = HEX"
| "cval_type (VReal _) = REAL"
| "cval_type (VLong _) = LONG"
| "cval_type (VOther t) = OTHER t"

definition datafunc_set :: "data \<Rightarrow> cval \<Rightarrow> data \<times> int" where
  "datafunc_set this val = (let d = (clearAll this)\<lparr>dtype_of := cval_type val\<rparr> in
     case val of
       VInt i \<Rightarrow> (d\<lparr>int_val := i, int_set := True\<rparr>, 1)
     | VStr s \<Rightarrow> (case dup s of None \<Rightarrow> (d, 0) | Some t \<Rightarrow> (putStr d t, 1))
     | VHex s \<Rightarrow> (case dup s of None \<Rightarrow> (d, 0)
                 | Some t \<Rightarrow> (d\<lparr>hex_val := Some t, hex_set := True\<rparr>, 1))
     | VReal r \<Rightarrow> (d\<lparr>real_val := r, real_set := True\<rparr>, 1)
     | VLong l \<Rightarrow> (d\<lparr>long_val := l, long_set := True\<rparr>, 1)
     | VOther _ \<Rightarrow> (d, 0))"

subsection \<open>Creating and freeing\<close>

definition DataCount :: "int \<Rightarrow> int" where
  "DataCount datasAlive = datasAlive"

text \<open>A fresh block: every field NewData reads is cleared first, so its junk does not matter.\<close>

definition fresh_data :: data where
  "fresh_data = \<lparr>dtype_of = STRING, str_set = False, int_set = False, hex_set = False,
     real_set = False, long_set = False, bool_set = False, str_val = None, str_len = 0,
     int_val = 0, hex_val = None, real_val = 0, long_val = 0\<rparr>"

definition NewData :: "int \<Rightarrow> dtype \<Rightarrow> int \<times> DataObj" where
  "NewData datasAlive type = (let d = (clear fresh_data)\<lparr>dtype_of := type\<rparr> in
     case type of
       INTEGER \<Rightarrow> (datasAlive + 1, Some (d\<lparr>int_set := True\<rparr>))
     | STRING \<Rightarrow> (datasAlive + 1, Some (d\<lparr>str_set := True, str_val := dup (Some [])\<rparr>))
     | HEX \<Rightarrow> (datasAlive + 1, Some (d\<lparr>hex_set := True, hex_val := dup (Some [])\<rparr>))
     | REAL \<Rightarrow> (datasAlive + 1, Some (d\<lparr>real_set := True, real_val := 0\<rparr>))
     | LONG \<Rightarrow> (datasAlive + 1, Some (d\<lparr>long_set := True\<rparr>))
     | OTHER _ \<Rightarrow> (datasAlive, None))"

definition DelData :: "int \<Rightarrow> DataObj \<Rightarrow> int" where
  "DelData datasAlive this = (case this of None \<Rightarrow> datasAlive | Some _ \<Rightarrow> datasAlive - 1)"

subsection \<open>The accessors\<close>

definition GetDataType :: "DataObj \<Rightarrow> dtype" where
  "GetDataType this = (case this of None \<Rightarrow> STRING | Some d \<Rightarrow> dtype_of d)"

definition GetStr :: "DataObj \<Rightarrow> (DataObj \<times> string option) option" where
  "GetStr this = (case this of None \<Rightarrow> Some (None, None)
     | Some d \<Rightarrow> do { d' \<leftarrow> datafunc_get d STRING; Some (Some d', str_val d') })"

definition SetStr :: "DataObj \<Rightarrow> string option \<Rightarrow> DataObj \<times> int" where
  "SetStr this value = (case this of None \<Rightarrow> (None, 0)
     | Some d \<Rightarrow> (let (d', r) = datafunc_set d (VStr value) in (Some d', r)))"

text \<open>\<open>value\<close> is the readable memory at the pointer; reading past it is undefined.\<close>

definition SetStrLen :: "DataObj \<Rightarrow> string \<Rightarrow> int \<Rightarrow> (DataObj \<times> int) option" where
  "SetStrLen this value len = (case this of None \<Rightarrow> Some (None, 0)
     | Some d \<Rightarrow>
         if len < 0 then Some (this, 0)
         else if int (length value) < len then None
         else Some (Some ((clearAll d)\<lparr>dtype_of := STRING, str_val := Some (take (nat len) value),
                      str_len := word_of_int len, str_set := True\<rparr>), 1))"

definition GetStrLen :: "DataObj \<Rightarrow> (DataObj \<times> 32 word) option" where
  "GetStrLen this = (case this of None \<Rightarrow> Some (None, 0)
     | Some d \<Rightarrow> do { d' \<leftarrow> (if str_set d then Some d else map_option fst (convert d STRING));
                      Some (Some d', str_len d') })"

definition SetInt :: "DataObj \<Rightarrow> 32 word \<Rightarrow> DataObj \<times> int" where
  "SetInt this value = (case this of None \<Rightarrow> (None, 0)
     | Some d \<Rightarrow> (let (d', r) = datafunc_set d (VInt value) in (Some d', r)))"

definition GetInt :: "DataObj \<Rightarrow> (DataObj \<times> 32 word) option" where
  "GetInt this = (case this of None \<Rightarrow> Some (None, 0)
     | Some d \<Rightarrow> do { d' \<leftarrow> datafunc_get d INTEGER; Some (Some d', int_val d') })"

definition SetLong :: "DataObj \<Rightarrow> 64 word \<Rightarrow> DataObj \<times> int" where
  "SetLong this value = (case this of None \<Rightarrow> (None, 0)
     | Some d \<Rightarrow> (let (d', r) = datafunc_set d (VLong value) in (Some d', r)))"

definition GetLong :: "DataObj \<Rightarrow> (DataObj \<times> 64 word) option" where
  "GetLong this = (case this of None \<Rightarrow> Some (None, 0)
     | Some d \<Rightarrow> do { d' \<leftarrow> datafunc_get d LONG; Some (Some d', long_val d') })"

definition SetHex :: "DataObj \<Rightarrow> string option \<Rightarrow> DataObj \<times> int" where
  "SetHex this value = (case this of None \<Rightarrow> (None, 0)
     | Some d \<Rightarrow> (let (d', r) = datafunc_set d (VHex value) in (Some d', r)))"

definition GetHex :: "DataObj \<Rightarrow> (DataObj \<times> string option) option" where
  "GetHex this = (case this of None \<Rightarrow> Some (None, None)
     | Some d \<Rightarrow> do { d' \<leftarrow> datafunc_get d HEX; Some (Some d', hex_val d') })"

definition SetReal :: "DataObj \<Rightarrow> rat \<Rightarrow> DataObj \<times> int" where
  "SetReal this value = (case this of None \<Rightarrow> (None, 0)
     | Some d \<Rightarrow> (let (d', r) = datafunc_set d (VReal value) in (Some d', r)))"

definition GetReal :: "DataObj \<Rightarrow> (DataObj \<times> rat) option" where
  "GetReal this = (case this of None \<Rightarrow> Some (None, 0)
     | Some d \<Rightarrow> do { d' \<leftarrow> datafunc_get d REAL; Some (Some d', real_val d') })"

subsection \<open>The abstract value and what reading it means\<close>

text \<open>The representation that was written last, the only one \<open>convert\<close> starts from.\<close>

definition auth :: "data \<Rightarrow> cval" where
  "auth d = (case dtype_of d of
     STRING \<Rightarrow> VStr (str_val d) | INTEGER \<Rightarrow> VInt (int_val d) | HEX \<Rightarrow> VHex (hex_val d)
   | REAL \<Rightarrow> VReal (real_val d) | LONG \<Rightarrow> VLong (long_val d) | OTHER t \<Rightarrow> VOther t)"

text \<open>The conversion table: what reading an abstract value as each type gives, 0 or NULL where
  the code has no path; \<open>None\<close> where it has undefined behaviour.\<close>

fun as_int :: "cval \<Rightarrow> 32 word option" where
  "as_int (VStr s) = Some (Str2Int s)"
| "as_int (VInt i) = Some i"
| "as_int (VHex h) = Some (Hex2Int h)"
| "as_int (VReal r) = Real2Int r"
| "as_int (VLong _) = Some 0"
| "as_int (VOther _) = Some 0"

fun as_str :: "cval \<Rightarrow> string option option" where
  "as_str (VStr s) = Some s"
| "as_str (VInt i) = map_option Some (Int2Str i)"
| "as_str (VHex h) = map_option Some (dup h)"
| "as_str (VReal r) = map_option Some (Real2Str r)"
| "as_str (VLong l) = map_option Some (Long2Str l)"
| "as_str (VOther _) = Some None"

fun as_hex :: "cval \<Rightarrow> string option option" where
  "as_hex (VStr s) = map_option Some (Int2Hex (Str2Int s))"
| "as_hex (VInt i) = map_option Some (Int2Hex i)"
| "as_hex (VHex h) = Some h"
| "as_hex (VReal r) = do { i \<leftarrow> Real2Int r; map_option Some (Int2Hex i) }"
| "as_hex (VLong _) = Some None"
| "as_hex (VOther _) = Some None"

fun as_real :: "cval \<Rightarrow> rat option" where
  "as_real (VStr s) = Some (of_int (sint (Str2Int s)))"
| "as_real (VInt i) = Some (of_int (sint i))"
| "as_real (VHex h) = Some (of_int (sint (Hex2Int h)))"
| "as_real (VReal r) = Some r"
| "as_real (VLong _) = Some 0"
| "as_real (VOther _) = Some 0"

fun as_long :: "cval \<Rightarrow> 64 word option" where
  "as_long (VStr s) = Some (Str2Long s)"
| "as_long (VLong l) = Some l"
| "as_long _ = Some 0"

text \<open>A cached representation agrees with the table, a field without its flag is blank.\<close>

definition cached :: "'a option \<Rightarrow> bool \<Rightarrow> 'a \<Rightarrow> 'a \<Rightarrow> bool" where
  "cached table flag v blank \<longleftrightarrow> (if flag then table = Some v else v = blank)"

definition len_ok :: "bool \<Rightarrow> string option \<Rightarrow> 32 word \<Rightarrow> bool" where
  "len_ok flag s n \<longleftrightarrow> (if flag then (\<exists>t. s = Some t \<and> n = word_of_nat (length t)) else n = 0)"

definition coherent :: "data \<Rightarrow> bool" where
  "coherent d \<longleftrightarrow>
     cached (as_int (auth d)) (int_set d) (int_val d) 0 \<and>
     cached (as_str (auth d)) (str_set d) (str_val d) None \<and>
     len_ok (str_set d) (str_val d) (str_len d) \<and>
     cached (as_hex (auth d)) (hex_set d) (hex_val d) None \<and>
     cached (as_real (auth d)) (real_set d) (real_val d) 0 \<and>
     cached (as_long (auth d)) (long_set d) (long_val d) 0"

lemma cached_simps [simp]:
  "cached table True v blank \<longleftrightarrow> table = Some v"
  "cached table False v blank \<longleftrightarrow> v = blank"
  "cached (Some v') flag v v' \<longleftrightarrow> v = v'"
  "len_ok True (Some t) n \<longleftrightarrow> n = word_of_nat (length t)"
  "len_ok False s n \<longleftrightarrow> n = 0"
  by (auto simp: cached_def len_ok_def)

lemmas get_defs = datafunc_get_def convert_def convertInt_def convertStr_def convertHex_def
  convertReal_def convertLong_def putStr_def

lemma dup_Some [simp]: "dup (Some s) = Some (cstr s)" and dup_None [simp]: "dup None = None"
  by (simp_all add: dup_def)

lemma cstr_id [simp]: "CHR 0x00 \<notin> set s \<Longrightarrow> cstr s = s"
  by (auto simp: cstr_def takeWhile_eq_all_conv)

lemma cstr_no_NUL: "CHR 0x00 \<notin> set (cstr s)"
  by (auto simp: cstr_def dest: set_takeWhileD)

subsection \<open>Every read is the table's answer, and caches nothing wrong\<close>

text \<open>The integer step the \<open>HEX\<close> and \<open>REAL\<close> conversions start with.\<close>

lemma convertInt_refines:
  assumes "coherent d" and "dtype_of d = STRING \<or> dtype_of d = HEX \<or> dtype_of d = REAL"
  shows "case as_int (auth d) of None \<Rightarrow> convertInt d = None
    | Some v \<Rightarrow> convertInt d = Some (d\<lparr>int_val := v, int_set := True\<rparr>, 1)
        \<and> auth (d\<lparr>int_val := v, int_set := True\<rparr>) = auth d
        \<and> coherent (d\<lparr>int_val := v, int_set := True\<rparr>)"
  using assms
  by (cases "int_set d") (auto simp: convertInt_def coherent_def auth_def split: option.splits)

definition refines_get :: "(cval \<Rightarrow> 'v option) \<Rightarrow> dtype \<Rightarrow> (data \<Rightarrow> 'v) \<Rightarrow> data \<Rightarrow> bool" where
  "refines_get table type field d \<longleftrightarrow> (case table (auth d) of None \<Rightarrow> datafunc_get d type = None
    | Some v \<Rightarrow> (\<exists>d'. datafunc_get d type = Some d' \<and> field d' = v
        \<and> auth d' = auth d \<and> coherent d'))"

lemma get_int_refines: "coherent d \<Longrightarrow> refines_get as_int INTEGER int_val d"
  by (cases "dtype_of d"; cases "int_set d")
     (auto simp: refines_get_def get_defs coherent_def auth_def split: option.splits)

lemma get_str_refines: "coherent d \<Longrightarrow> refines_get as_str STRING str_val d"
  by (cases "dtype_of d"; cases "str_set d")
     (auto simp: refines_get_def get_defs coherent_def auth_def split: option.splits)

lemma get_long_refines: "coherent d \<Longrightarrow> refines_get as_long LONG long_val d"
  by (cases "dtype_of d"; cases "long_set d")
     (auto simp: refines_get_def get_defs coherent_def auth_def split: option.splits)

lemmas refines_step_defs = refines_get_def datafunc_get_def convert_def convertHex_def convertReal_def

lemma get_real_refines:
  assumes "coherent d"
  shows "refines_get as_real REAL real_val d"
proof (cases "real_set d \<or> dtype_of d \<notin> {STRING, HEX}")
  case True
  with assms show ?thesis
    by (cases "dtype_of d")
       (auto simp: refines_step_defs coherent_def auth_def split: option.splits)
next
  case False
  then show ?thesis
    using convertInt_refines [OF assms] assms
    by (auto simp: refines_step_defs coherent_def auth_def split: option.splits)
qed

lemma get_hex_refines:
  assumes "coherent d"
  shows "refines_get as_hex HEX hex_val d"
proof (cases "hex_set d \<or> dtype_of d \<notin> {STRING, REAL}")
  case True
  with assms show ?thesis
    by (cases "dtype_of d")
       (auto simp: refines_step_defs convertInt_def coherent_def auth_def split: option.splits)
next
  case False
  then show ?thesis
    using convertInt_refines [OF assms] assms
    by (auto simp: refines_step_defs coherent_def auth_def split: option.splits)
qed

text \<open>A SET makes its argument (copied up to its NUL) the abstract value.\<close>

fun stored :: "cval \<Rightarrow> cval" where
  "stored (VStr s) = VStr (dup s)"
| "stored (VHex s) = VHex (dup s)"
| "stored v = v"

lemma datafunc_set_refines:
  "datafunc_set d v = (d', r) \<Longrightarrow> coherent d' \<and> auth d' = stored v"
  by (cases v) (auto simp: datafunc_set_def clearAll_def clear_def putStr_def coherent_def auth_def
      Let_def split: option.splits)

lemma NewData_coherent:
  "NewData n t = (m, Some d) \<Longrightarrow> coherent d \<and> m = n + 1 \<and> dtype_of d = t"
  by (cases t) (auto simp: NewData_def clear_def fresh_data_def coherent_def auth_def cstr_def
      Let_def)

subsection \<open>Parsing what was printed\<close>

text \<open>The digit loop over a text of digits, at any width.\<close>

lemma digit_word: "isdigit c \<Longrightarrow> word_of_nat (of_char c) - 48 = (word_of_nat (of_char c - 48) :: 'a::len word)"
  by (simp add: isdigit_def of_nat_diff)

lemma decLoop_digits:
  "\<forall>c \<in> set s. isdigit c \<Longrightarrow> decLoop (word_of_nat a) s = word_of_nat (dec_fold a s)"
proof (induction s arbitrary: a)
  case (Cons c s)
  then have "(word_of_nat a * 10 + word_of_nat (of_char c) - 48 :: 'a word)
      = word_of_nat a * 10 + word_of_nat (of_char c - 48)"
    using digit_word [of c, where 'a = 'a] by (simp add: add_diff_eq [symmetric])
  then have "(word_of_nat a * 10 + word_of_nat (of_char c) - 48 :: 'a word)
      = word_of_nat (a * 10 + (of_char c - 48))"
    by simp
  with Cons.IH [of "a * 10 + (of_char c - 48)"] Cons.prems show ?case by (simp only: decLoop.simps) simp
qed simp

lemma decLoop_show_base: "decLoop 0 (show_base 10 n) = word_of_nat n"
  using decLoop_digits [of "show_base 10 n" 0] show_base_digits by simp

lemma digit_not_space: "isdigit c \<Longrightarrow> \<not> isspace c" and digit_not_NUL: "isdigit c \<Longrightarrow> c \<noteq> CHR 0x00"
  by (auto simp: isdigit_def isspace_def)

lemma parse_show_base:
  "decLoop 0 (dropWhile isspace (cstr (show_base 10 n))) = word_of_nat n"
proof -
  have "CHR 0x00 \<notin> set (show_base 10 n)"
    using show_base_digits digit_not_NUL by blast
  moreover have "\<not> isspace (hd (show_base 10 n))"
    using show_base_digits [of "hd (show_base 10 n)" n] digit_not_space by simp
  ultimately have "dropWhile isspace (cstr (show_base 10 n)) = show_base 10 n"
    by (cases "show_base 10 n") simp_all
  then show ?thesis by (simp add: decLoop_show_base)
qed

text \<open>A minus sign is not a digit: the loop stops at once.\<close>

lemma parse_sprintf_d:
  "decLoop 0 (dropWhile isspace (cstr (sprintf_d i))) = (if i < 0 then 0 else word_of_int i)"
  using parse_show_base [of "nat i"]
  by (auto simp: sprintf_d_def cstr_def isspace_def isdigit_def)

lemma length_sprintf_d:
  "length (sprintf_d i) \<le> 9 \<longleftrightarrow> - (10 ^ 8) < i \<and> i < 10 ^ 9"
proof (cases "i < 0")
  case True
  then have "length (sprintf_d i) \<le> 9 \<longleftrightarrow> length (show_base 10 (nat (- i))) \<le> 8"
    by (simp add: sprintf_d_def)
  with True show ?thesis
    using length_show_base_iff [of 10 8 "nat (- i)"] by (auto simp: nat_less_iff)
next
  case False
  then have "length (sprintf_d i) \<le> 9 \<longleftrightarrow> length (show_base 10 (nat i)) \<le> 9"
    by (simp add: sprintf_d_def)
  with False show ?thesis
    using length_show_base_iff [of 10 9 "nat i"] by (auto simp: nat_less_iff)
qed

lemma Int2Str_fits:
  "Int2Str i = (if - (10 ^ 8) < sint i \<and> sint i < 10 ^ 9 then Some (sprintf_d (sint i)) else None)"
  using length_sprintf_d [of "sint i"] by (auto simp: Int2Str_def sprintf_into_def)

lemma Long2Str_fits: "Long2Str l = Some (sprintf_d (sint l))"
proof -
  have r: "- (2 ^ 63) \<le> sint l" "sint l < 2 ^ 63"
    using sint_ge [of l] sint_lt [of l] by simp_all
  have "length (show_base 10 (nat \<bar>sint l\<bar>)) \<le> 19"
    by (rule length_show_base_le) (use r in auto)
  then have "length (sprintf_d (sint l)) \<le> 20" by (auto simp: sprintf_d_def)
  then show ?thesis by (simp add: Long2Str_def sprintf_into_def)
qed

lemma Int2Hex_fits: "Int2Hex i = Some (sprintf_x (unat i))"
proof -
  have "unat i < 16 ^ 8" using unsigned_less [of i] by simp
  then have "length (show_base 16 (unat i)) \<le> 8" by (intro length_show_base_le) simp_all
  then show ?thesis by (simp add: Int2Hex_def sprintf_into_def sprintf_x_def)
qed

lemma Real2Str_large:
  assumes "100000 \<le> \<bar>r\<bar>"
  shows "Real2Str r = None"
proof -
  define n where "n = nat (round_even (\<bar>r\<bar> * 1000000))"
  have "\<lfloor>\<bar>r\<bar> * 1000000\<rfloor> \<ge> 100000000000"
    using assms by (simp add: le_floor_iff)
  moreover have "\<lfloor>\<bar>r\<bar> * 1000000\<rfloor> \<le> round_even (\<bar>r\<bar> * 1000000)"
    by (simp add: round_even_def Let_def)
  ultimately have "n \<ge> 100000000000"
    unfolding n_def by linarith
  then have "10 ^ 5 \<le> n div 1000000"
    by (simp add: less_eq_div_iff_mult_less_eq)
  then have whole: "5 < length (show_base 10 (n div 1000000))"
    by (intro length_show_base_ge) simp_all
  have frac: "6 \<le> length (pad6 (show_base 10 (n mod 1000000)))"
    by (simp add: pad6_def)
  have "length (show_base 10 (n div 1000000)) + 1 + length (pad6 (show_base 10 (n mod 1000000)))
      \<le> length (sprintf_f r)"
    unfolding sprintf_f_def n_def [symmetric] Let_def by simp
  with whole frac have "13 \<le> length (sprintf_f r)" by linarith
  then show ?thesis by (simp add: Real2Str_def sprintf_into_def)
qed

subsection \<open>Properties\<close>

text \<open>Reading a sequence of types one after the other, each read caching what it converted.\<close>

fun touch :: "data \<Rightarrow> dtype list \<Rightarrow> data option" where
  "touch d [] = Some d"
| "touch d (t # ts) = do { d' \<leftarrow> datafunc_get d t; touch d' ts }"

lemma refines_get_step:
  "refines_get table type field d \<Longrightarrow> datafunc_get d type = Some d1 \<Longrightarrow> coherent d1 \<and> auth d1 = auth d"
  by (auto simp: refines_get_def split: option.splits)

lemmas get_steps = get_int_refines [THEN refines_get_step] get_str_refines [THEN refines_get_step]
  get_hex_refines [THEN refines_get_step] get_real_refines [THEN refines_get_step]
  get_long_refines [THEN refines_get_step]

lemma touch_coherent:
  "touch d ts = Some d' \<Longrightarrow> coherent d \<Longrightarrow> coherent d' \<and> auth d' = auth d"
proof (induction ts arbitrary: d)
  case (Cons t ts)
  then obtain d1 where d1: "datafunc_get d t = Some d1" "touch d1 ts = Some d'"
    by (auto split: bind_splits)
  have "coherent d1 \<and> auth d1 = auth d"
    using d1(1) get_steps [OF Cons.prems(2)] Cons.prems(2)
    by (cases t) (simp_all add: datafunc_get_def [of d "OTHER _"])
  with Cons.IH [OF d1(2)] show ?case by simp
qed simp

lemma refines_get_value:
  "refines_get table type field d \<Longrightarrow> map_option field (datafunc_get d type) = table (auth d)"
  by (auto simp: refines_get_def split: option.splits)

lemma map_snd_bind: "map_option snd (Option.bind x (\<lambda>d. Some (Some d, f d))) = map_option f x"
  by (cases x) simp_all

lemma get_values:
  assumes "coherent d"
  shows "map_option snd (GetInt (Some d)) = as_int (auth d)"
    and "map_option snd (GetStr (Some d)) = as_str (auth d)"
    and "map_option snd (GetHex (Some d)) = as_hex (auth d)"
    and "map_option snd (GetReal (Some d)) = as_real (auth d)"
    and "map_option snd (GetLong (Some d)) = as_long (auth d)"
  using get_int_refines [OF assms] get_str_refines [OF assms] get_hex_refines [OF assms]
    get_real_refines [OF assms] get_long_refines [OF assms]
  by (simp_all add: GetInt_def GetStr_def GetHex_def GetReal_def GetLong_def map_snd_bind
      refines_get_value)

lemma set_values:
  "coherent (fst (datafunc_set d v))" "auth (fst (datafunc_set d v)) = stored v"
  using datafunc_set_refines [of d v] by (metis prod.collapse)+

lemma set_accessors:
  "SetInt (Some d) i = (Some (fst (datafunc_set d (VInt i))), snd (datafunc_set d (VInt i)))"
  "SetStr (Some d) s = (Some (fst (datafunc_set d (VStr s))), snd (datafunc_set d (VStr s)))"
  "SetHex (Some d) s = (Some (fst (datafunc_set d (VHex s))), snd (datafunc_set d (VHex s)))"
  "SetReal (Some d) r = (Some (fst (datafunc_set d (VReal r))), snd (datafunc_set d (VReal r)))"
  "SetLong (Some d) l = (Some (fst (datafunc_set d (VLong l))), snd (datafunc_set d (VLong l)))"
  by (simp_all add: SetInt_def SetStr_def SetHex_def SetReal_def SetLong_def split_beta)

lemmas data_access = set_accessors get_values [OF set_values(1)] set_values(2)

text \<open>C4. A data object is its last written value: after a write of any type and any sequence of
  reads as any types, each of which caches what it converted, every read still answers what the
  conversion table says about the written value.\<close>

theorem data_caching_unobservable:
  assumes "touch (fst (datafunc_set d v)) ts = Some e"
  shows "map_option snd (GetInt (Some e)) = as_int (stored v)
    \<and> map_option snd (GetStr (Some e)) = as_str (stored v)
    \<and> map_option snd (GetHex (Some e)) = as_hex (stored v)
    \<and> map_option snd (GetReal (Some e)) = as_real (stored v)
    \<and> map_option snd (GetLong (Some e)) = as_long (stored v)"
  using touch_coherent [OF assms set_values(1)] get_values [of e] set_values(2) [of d v] by simp

theorem data_caching_unobservable_witness:
  "map_option snd (GetStr (touch (fst (datafunc_set fresh_data (VInt 42))) [STRING, REAL])) = Some (Some ''42'')"
proof -
  have "touch (fst (datafunc_set fresh_data (VInt 42))) [STRING, REAL] \<noteq> None"
    by (simp add: datafunc_set_def get_defs clearAll_def clear_def fresh_data_def Int2Str_def
        sprintf_d_def sprintf_into_def show_base.simps)
  then obtain e where e: "touch (fst (datafunc_set fresh_data (VInt 42))) [STRING, REAL] = Some e"
    by auto
  have "Int2Str 42 = Some ''42''"
    by (simp add: Int2Str_def sprintf_into_def sprintf_d_def show_base.simps digit_char_def)
  then show ?thesis
    using data_caching_unobservable [OF e] by (simp only: e) simp
qed

text \<open>Printing an integer: \<open>GetStr\<close> of an object set by \<open>SetInt\<close> returns the decimal text
  exactly for values strictly between -10^8 and 10^9; every other \<open>int\<close> makes \<open>sprintf\<close> write
  past the ten bytes \<open>Int2Str\<close> allocates.\<close>

theorem int_text_fits_iff:
  "map_option snd (GetStr (fst (SetInt (Some d) i)))
   = (if - (10 ^ 8) < sint i \<and> sint i < 10 ^ 9 then Some (Some (sprintf_d (sint i))) else None)"
  by (simp add: data_access Int2Str_fits)

text \<open>Text round trip: the text an \<open>int\<close> in that range or any \<open>long\<close> prints as, stored into
  another object and read as a number, gives back every non-negative value; a negative one comes
  back as 0, because the parsers stop at the minus sign.\<close>

theorem number_text_roundtrip:
  assumes "- (10 ^ 8) < sint i \<and> sint i < 10 ^ 9"
  shows "\<exists>s t. map_option snd (GetStr (fst (SetInt (Some d) i))) = Some (Some s)
    \<and> map_option snd (GetInt (fst (SetStr (Some e) (Some s)))) = Some (if sint i < 0 then 0 else i)
    \<and> map_option snd (GetStr (fst (SetLong (Some d) l))) = Some (Some t)
    \<and> map_option snd (GetLong (fst (SetStr (Some e) (Some t)))) = Some (if sint l < 0 then 0 else l)"
  using assms
  by (simp add: data_access Int2Str_fits Long2Str_fits Str2Int_def Str2Long_def parse_sprintf_d
      cstr_id [OF cstr_no_NUL])

theorem number_text_roundtrip_witness:
  "\<exists>s. map_option snd (GetStr (fst (SetInt (Some fresh_data) 250))) = Some (Some s)
    \<and> map_option snd (GetInt (fst (SetStr (Some fresh_data) (Some s)))) = Some 250"
proof -
  have "- (10 ^ 8) < sint (250 :: 32 word) \<and> sint (250 :: 32 word) < 10 ^ 9" by simp
  from number_text_roundtrip [OF this, of fresh_data fresh_data 0] show ?thesis by auto
qed

text \<open>Hex round trip: one hex digit written by \<open>GetHex\<close> and read back by \<open>Hex2Int\<close> is right
  only below ten; \<open>Int2Hex\<close> prints lower case and \<open>Hex2Int\<close> subtracts the upper-case \<open>'A'\<close>, so
  10 to 15 come back 32 too large.\<close>

theorem hex_digit_roundtrip:
  assumes "i < (16 :: 32 word)"
  shows "\<exists>s. map_option snd (GetHex (fst (SetInt (Some d) i))) = Some (Some s)
    \<and> map_option snd (GetInt (fst (SetHex (Some e) (Some s)))) = Some (if i < 10 then i else i + 32)"
proof -
  have n: "unat i < 16" using assms by (simp add: word_less_nat_alt)
  have "hexLoop 0 (show_base 16 (unat i)) = (if i < 10 then i else i + 32)"
  proof (cases "unat i < 10")
    case True
    then show ?thesis
      using isdigit_digit_char [OF True]
      by (simp add: show_base.simps [of 16] isxdigit_def word_less_nat_alt)
  next
    case False
    then have "(of_char (digit_char (unat i)) :: nat) = 87 + unat i"
      using n by (intro of_char_digit_char_hex) simp_all
    then show ?thesis
      using n False by (simp add: show_base.simps [of 16] isxdigit_def isdigit_def word_less_nat_alt)
  qed
  moreover have "CHR 0x00 \<notin> set (show_base 16 (unat i))"
    using n digit_char_not_NUL [of "unat i"] by (auto simp: show_base.simps [of 16])
  ultimately show ?thesis
    by (simp add: data_access Int2Hex_fits Hex2Int_def sprintf_x_def)
qed

theorem hex_digit_roundtrip_witness:
  "\<exists>s. map_option snd (GetHex (fst (SetInt (Some fresh_data) 10))) = Some (Some s)
    \<and> map_option snd (GetInt (fst (SetHex (Some fresh_data) (Some s)))) = Some 42"
  using hex_digit_roundtrip [of 10 fresh_data fresh_data] by simp

text \<open>Printing a real: \<open>GetStr\<close> of any real of magnitude 100000 or more writes past the
  thirteen bytes \<open>Real2Str\<close> allocates.\<close>

theorem real_text_overflows:
  assumes "100000 \<le> \<bar>r\<bar>"
  shows "GetStr (fst (SetReal (Some d) r)) = None"
proof -
  have "map_option snd (GetStr (fst (SetReal (Some d) r))) = None"
    using Real2Str_large [OF assms] by (simp add: data_access)
  then show ?thesis by simp
qed

theorem real_text_overflows_witness: "GetStr (fst (SetReal (Some fresh_data) 100000)) = None"
  by (rule real_text_overflows) simp

text \<open>There is no path between \<open>INTEGER\<close> and \<open>LONG\<close>: a written \<open>int\<close> reads as the long 0 and
  a written \<open>long\<close> reads as the int 0, whatever the value.\<close>

theorem int_long_not_converted:
  "map_option snd (GetLong (fst (SetInt (Some d) i))) = Some 0
   \<and> map_option snd (GetInt (fst (SetLong (Some d) l))) = Some 0"
  by (simp add: data_access)

text \<open>\<open>SetStrLen\<close> is binary-safe: the given bytes come back with their exact count, embedded
  NULs included, and a negative length changes nothing.\<close>

theorem SetStrLen_binary_safe:
  assumes "0 \<le> len" and "len \<le> int (length value)"
  shows "\<exists>e. SetStrLen (Some d) value len = Some (e, 1)
    \<and> map_option snd (GetStrLen e) = Some (word_of_int len)
    \<and> map_option snd (GetStr e) = Some (Some (take (nat len) value))"
  using assms by (auto simp: SetStrLen_def GetStrLen_def GetStr_def datafunc_get_def)

theorem SetStrLen_binary_safe_witness:
  "\<exists>e. SetStrLen (Some fresh_data) [CHR ''a'', CHR 0x00, CHR ''b''] 3 = Some (e, 1)
    \<and> map_option snd (GetStrLen e) = Some 3"
  using SetStrLen_binary_safe [of 3 "[CHR ''a'', CHR 0x00, CHR ''b'']" fresh_data] by auto

end
