(* ===== verification/Buff.thy ===== *)
theory Buff
  imports Prelude "HOL-Library.Monad_Syntax"
begin

text \<open>
  \<open>src/dyn/buff.c\<close>: the dynamic byte buffer under the queue, the sockets and the writers.  The
  struct is a record with its 32-bit fields, the block it owns a list of \<open>size\<close> characters; a
  handle is NULL or a struct.  A read or write outside the block, a \<open>memcpy\<close> of overlapping
  ranges and a \<open>memcpy\<close> from beyond the caller's memory are undefined: the operation is \<open>None\<close>.

  The allocator is a parameter: which sizes it grants and what fresh memory holds.  The global
  statistics \<open>buffCount\<close>, \<open>buffSize\<close> and \<open>buffsAlive\<close> are not modelled.
\<close>

type_synonym u32 = "32 word"

record mem =
  can_alloc :: "nat \<Rightarrow> bool"
  junk :: "nat \<Rightarrow> char"
  junk_word :: u32

record object =
  head :: u32
  lastHead :: u32
  tail :: u32
  savedTailChar :: char
  savedHeadChar :: char
  lastNormalizedChar :: char
  markHead :: u32
  markLastHead :: u32
  markTail :: u32
  markSavedHeadChar :: char
  markSavedTailChar :: char
  bsize :: u32
  buffer :: string
  ReallocAdjustment :: u32
  lineSearchOffset :: u32
  countReallocs :: u32
  countAddResetEmpty :: u32
  countAddMoveForward :: u32
  countInserts :: u32
  countRetrievals :: u32
  addType :: int
  lineEnd :: string

type_synonym buff = "object option"

abbreviation "NUL \<equiv> CHR 0x00"
abbreviation "CR \<equiv> CHR 0x0D"
abbreviation "LF \<equiv> CHR 0x0A"

text \<open>The enumeration of \<open>buff.h\<close>.\<close>

abbreviation (input) "buff_default \<equiv> (1::int)"
abbreviation (input) "buff_FixCarbon \<equiv> (2::int)"
abbreviation (input) "buff_NormalizeLineEnds \<equiv> (3::int)"

subsection \<open>Memory accesses\<close>

definition rd :: "string \<Rightarrow> nat \<Rightarrow> char option" where
  "rd b i = (if i < length b then Some (b ! i) else None)"

definition wr :: "string \<Rightarrow> nat \<Rightarrow> char \<Rightarrow> string option" where
  "wr b i c = (if i < length b then Some (b[i := c]) else None)"

text \<open>\<open>memcpy(b + dst, src, length src)\<close>.\<close>

definition wrs :: "string \<Rightarrow> nat \<Rightarrow> string \<Rightarrow> string option" where
  "wrs b dst src = (if dst + length src \<le> length b
     then Some (take dst b @ src @ drop (dst + length src) b) else None)"

definition rds :: "string \<Rightarrow> nat \<Rightarrow> nat \<Rightarrow> string option" where
  "rds b from n = (if from + n \<le> length b then Some (take n (drop from b)) else None)"

text \<open>\<open>realloc\<close> keeps the common prefix; the rest of a larger block is junk.\<close>

definition reallocate :: "mem \<Rightarrow> string \<Rightarrow> nat \<Rightarrow> string" where
  "reallocate m b n = take n b @ map (junk m) [length b..<n]"

subsection \<open>Creating and configuring\<close>

definition buffCreate :: "mem \<Rightarrow> u32 \<Rightarrow> buff" where
  "buffCreate m sz0 = (let sz = (if sz0 < 1 then 1 else sz0) in
     if can_alloc m (unat sz) then Some
       \<lparr>head = 0, lastHead = 0, tail = 0, savedTailChar = NUL, savedHeadChar = junk m 0,
        lastNormalizedChar = NUL, markHead = 0, markLastHead = junk_word m, markTail = 0,
        markSavedHeadChar = NUL, markSavedTailChar = NUL, bsize = sz,
        buffer = (map (junk m) [0..<unat sz])[0 := NUL], ReallocAdjustment = 4096,
        lineSearchOffset = 0, countReallocs = 0, countAddResetEmpty = 0, countAddMoveForward = 0,
        countInserts = 0, countRetrievals = 0, addType = buff_default, lineEnd = [LF]\<rparr>
     else None)"

definition buffDestroy :: "buff \<Rightarrow> int" where
  "buffDestroy b = (case b of None \<Rightarrow> 0 | Some _ \<Rightarrow> 1)"

definition buffSetType :: "buff \<Rightarrow> int \<Rightarrow> string \<Rightarrow> buff \<times> int" where
  "buffSetType b type le = (case b of None \<Rightarrow> (None, 0) | Some obj \<Rightarrow>
     if type = buff_default then (Some (obj\<lparr>addType := buff_default, lineEnd := [LF]\<rparr>), 1)
     else if type = buff_FixCarbon then (Some (obj\<lparr>addType := buff_FixCarbon, lineEnd := [CR]\<rparr>), 1)
     else if type = buff_NormalizeLineEnds
       then (Some (obj\<lparr>addType := buff_NormalizeLineEnds, lineEnd := le\<rparr>), 1)
     else (b, 0))"

definition buffGetType :: "buff \<Rightarrow> int" where
  "buffGetType b = (case b of None \<Rightarrow> 0 | Some obj \<Rightarrow> addType obj)"

definition buffGetSize :: "buff \<Rightarrow> u32" where
  "buffGetSize b = (case b of None \<Rightarrow> 0 | Some obj \<Rightarrow> bsize obj)"

definition buffGetLength :: "buff \<Rightarrow> u32" where
  "buffGetLength b = (case b of None \<Rightarrow> 0 | Some obj \<Rightarrow> head obj - tail obj)"

definition buffCountMovedForward :: "buff \<Rightarrow> u32" where
  "buffCountMovedForward b = (case b of None \<Rightarrow> 0 | Some obj \<Rightarrow> countAddMoveForward obj)"

definition buffCountResetEmpty :: "buff \<Rightarrow> u32" where
  "buffCountResetEmpty b = (case b of None \<Rightarrow> 0 | Some obj \<Rightarrow> countAddResetEmpty obj)"

definition buffCountReallocs :: "buff \<Rightarrow> u32" where
  "buffCountReallocs b = (case b of None \<Rightarrow> 0 | Some obj \<Rightarrow> countReallocs obj)"

definition buffCountInserts :: "buff \<Rightarrow> u32" where
  "buffCountInserts b = (case b of None \<Rightarrow> 0 | Some obj \<Rightarrow> countInserts obj)"

definition buffCountRetrievals :: "buff \<Rightarrow> u32" where
  "buffCountRetrievals b = (case b of None \<Rightarrow> 0 | Some obj \<Rightarrow> countRetrievals obj)"

definition buffReallocAdjustment :: "buff \<Rightarrow> u32 \<Rightarrow> buff \<times> u32" where
  "buffReallocAdjustment b newSize = (case b of None \<Rightarrow> (None, 0)
     | Some obj \<Rightarrow> (Some (obj\<lparr>ReallocAdjustment := newSize\<rparr>), 1))"

definition buffClear :: "buff \<Rightarrow> (buff \<times> int) option" where
  "buffClear b = (case b of None \<Rightarrow> Some (None, 0) | Some obj \<Rightarrow> do {
     buf \<leftarrow> wr (buffer obj) 0 NUL;
     Some (Some (obj\<lparr>head := 0, lastHead := 0, tail := 0, savedTailChar := NUL, markHead := 0,
       markTail := 0, markSavedTailChar := NUL, markSavedHeadChar := NUL,
       lastNormalizedChar := NUL, lineSearchOffset := 0, countReallocs := 0,
       countAddResetEmpty := 0, countAddMoveForward := 0, countInserts := 0,
       countRetrievals := 0, buffer := buf\<rparr>), 1) })"

subsection \<open>buffAdd\<close>

text \<open>First part: an empty buffer starts over, one whose front half is free moves its contents to
  the front.\<close>

definition addSlide :: "object \<Rightarrow> object option" where
  "addSlide obj =
     (if head obj \<noteq> 0 \<and> head obj = tail obj then do {
        buf \<leftarrow> wr (buffer obj) 0 NUL;
        Some (obj\<lparr>countAddResetEmpty := countAddResetEmpty obj + 1, head := 0, lastHead := 0,
          tail := 0, savedTailChar := NUL, lineSearchOffset := 0, markHead := 0, markTail := 0,
          markSavedTailChar := NUL, markSavedHeadChar := NUL, buffer := buf\<rparr>) }
      else if tail obj > bsize obj div 2 then do {
        src \<leftarrow> rds (buffer obj) (unat (tail obj)) (unat (head obj - tail obj));
        buf1 \<leftarrow> (if unat (head obj - tail obj) \<le> unat (tail obj) then wrs (buffer obj) 0 src else None);
        buf2 \<leftarrow> wr buf1 0 (savedTailChar obj);
        Some (obj\<lparr>countAddMoveForward := countAddMoveForward obj + 1,
          lastHead := lastHead obj - tail obj, head := head obj - tail obj, tail := 0,
          buffer := buf2\<rparr>) }
      else Some obj)"

text \<open>Second part: room for the addition, or the return of 0 (\<open>False\<close>) on wrap-around and when
  \<open>realloc\<close> fails.\<close>

definition addRoom :: "mem \<Rightarrow> object \<Rightarrow> u32 \<Rightarrow> object \<times> bool" where
  "addRoom m obj len =
     (let newsize = (if addType obj = buff_NormalizeLineEnds then len * 2 + head obj + 1
                     else len + head obj + 1)
      in if newsize < len then (obj, False)
         else if newsize > bsize obj then
           (let obj1 = obj\<lparr>countReallocs := countReallocs obj + 1\<rparr>;
                grown = newsize + ReallocAdjustment obj
            in if can_alloc m (unat grown)
               then (obj1\<lparr>buffer := reallocate m (buffer obj) (unat grown), bsize := grown\<rparr>, True)
               else (obj1, False))
         else (obj, True))"

text \<open>The loop of the normalizing copy: \<open>pointer\<close> is the caller's readable memory, \<open>j\<close> the index
  into it; the result is what is written at \<open>charPoint\<close>.  A carriage return looks one byte
  ahead, beyond \<open>length\<close> if it is the last one.\<close>

function normLoop :: "string \<Rightarrow> string \<Rightarrow> nat \<Rightarrow> nat \<Rightarrow> string option" where
  "normLoop ptr le j len =
     (if j < len then do {
        c \<leftarrow> rd ptr j;
        if c = CR then do {
          d \<leftarrow> rd ptr (j + 1);
          rest \<leftarrow> normLoop ptr le (if d = LF then j + 2 else j + 1) len;
          Some (le @ rest) }
        else if c = LF then do { rest \<leftarrow> normLoop ptr le (j + 1) len; Some (le @ rest) }
        else do { rest \<leftarrow> normLoop ptr le (j + 1) len; Some (c # rest) } }
      else Some [])"
  by pat_completeness auto
termination
  by (relation "measure (\<lambda>(ptr, le, j, len). len - j)") auto

declare normLoop.simps [simp del]

text \<open>Third part: the copy.  \<open>putBytes\<close> is what the three kinds end with: the bytes at \<open>head\<close>, the
  saved first character of an empty buffer, the head moved by \<open>n\<close>, and a NUL there.\<close>

definition putBytes :: "object \<Rightarrow> string \<Rightarrow> u32 \<Rightarrow> object option" where
  "putBytes obj out n = do {
     buf1 \<leftarrow> wrs (buffer obj) (unat (head obj)) out;
     first \<leftarrow> rd buf1 (unat (head obj));
     buf2 \<leftarrow> wr buf1 (unat (head obj) + unat n) NUL;
     Some (obj\<lparr>buffer := buf2,
       savedTailChar := (if head obj = tail obj then first else savedTailChar obj),
       head := head obj + n, lastHead := head obj + n\<rparr>) }"

definition fixCarbon :: "char \<Rightarrow> char" where
  "fixCarbon c = (if c = CR then LF else c)"

definition addCopy :: "object \<Rightarrow> string \<Rightarrow> u32 \<Rightarrow> object option" where
  "addCopy obj ptr len =
     (if addType obj = buff_default then do {
        src \<leftarrow> rds ptr 0 (unat len); putBytes obj src len }
      else if addType obj = buff_FixCarbon then
        \<comment> \<open>the loop counts with an \<open>int\<close>: for a length of 2^31 or more it copies nothing\<close>
        do { src \<leftarrow> rds ptr 0 (if sint len < 0 then 0 else unat len);
             putBytes obj (map fixCarbon src) len }
      else if addType obj = buff_NormalizeLineEnds then do {
        second \<leftarrow> (if lastNormalizedChar obj = CR then rd ptr 1 else Some NUL);
        out \<leftarrow> (if lastNormalizedChar obj = CR \<and> second = LF
                then normLoop ptr (lineEnd obj) 1 (unat (len - 1))
                else normLoop ptr (lineEnd obj) 0 (unat len));
        obj1 \<leftarrow> putBytes obj out (word_of_nat (length out));
        final \<leftarrow> (if out = [] then (if head obj = 0 then None else rd (buffer obj) (unat (head obj) - 1))
                  else Some (last out));
        Some (obj1\<lparr>lastNormalizedChar := final\<rparr>) }
      else Some obj)"

definition buffAdd :: "mem \<Rightarrow> buff \<Rightarrow> string option \<Rightarrow> u32 \<Rightarrow> (buff \<times> int) option" where
  "buffAdd m b pointer len = (case (b, pointer) of
     (Some obj, Some ptr) \<Rightarrow>
       if len < 1 then Some (b, 1)
       else do {
         obj1 \<leftarrow> addSlide obj;
         (case addRoom m obj1 len of
            (obj2, False) \<Rightarrow> Some (Some obj2, 0)
          | (obj2, True) \<Rightarrow> do {
              obj3 \<leftarrow> addCopy obj2 ptr len;
              Some (Some (obj3\<lparr>countInserts := countInserts obj3 + 1\<rparr>), 1) }) }
   | _ \<Rightarrow> Some (b, 0))"

subsection \<open>Resizing\<close>

definition resizeSlide :: "object \<Rightarrow> object option" where
  "resizeSlide obj =
     (if head obj \<noteq> 0 \<and> head obj = tail obj then do {
        buf \<leftarrow> wr (buffer obj) 0 NUL;
        Some (obj\<lparr>countAddResetEmpty := countAddResetEmpty obj + 1, head := 0, lastHead := 0,
          tail := 0, savedTailChar := NUL, lineSearchOffset := 0, buffer := buf\<rparr>) }
      else do {
        src \<leftarrow> rds (buffer obj) (unat (tail obj)) (unat (head obj - tail obj));
        buf1 \<leftarrow> wrs (buffer obj) 0 src;
        buf2 \<leftarrow> wr buf1 0 (savedTailChar obj);
        Some (obj\<lparr>countAddMoveForward := countAddMoveForward obj + 1,
          lastHead := lastHead obj - tail obj, head := head obj - tail obj, tail := 0,
          buffer := buf2\<rparr>) })"

definition buffResize :: "mem \<Rightarrow> buff \<Rightarrow> u32 \<Rightarrow> (buff \<times> int) option" where
  "buffResize m b len = (case b of None \<Rightarrow> Some (None, 0) | Some obj0 \<Rightarrow> do {
     obj \<leftarrow> resizeSlide obj0;
     (let newsize = (if len < bsize obj then bsize obj else len);
          obj1 = obj\<lparr>countReallocs := countReallocs obj + 1\<rparr>
      in if can_alloc m (unat newsize)
         then Some (Some (obj1\<lparr>buffer := reallocate m (buffer obj) (unat newsize), bsize := newsize\<rparr>), 1)
         else Some (Some obj1, 0)) })"

definition CheckAndResize :: "mem \<Rightarrow> buff \<Rightarrow> buff option" where
  "CheckAndResize m b = (case b of None \<Rightarrow> Some None | Some obj \<Rightarrow>
     if head obj = tail obj then Some b
     else if markHead obj \<noteq> 0 then Some b
     else (let buffsize = buffGetSize b;
               contentlength0 = buffGetLength b;
               contentlength = (if contentlength0 < ReallocAdjustment obj
                                then ReallocAdjustment obj else contentlength0)
           in if contentlength < buffsize div 4
              then map_option fst (buffResize m b (contentlength * 2))
              else Some b))"

subsection \<open>Retrieving\<close>

text \<open>
  A retrieval takes the handle and whether the caller's \<open>pointer\<close> argument is not NULL; it returns
  the length and the bytes the caller finds at \<open>*pointer\<close> on return (none for the empty string
  the code points it at).
\<close>

text \<open>The search of \<open>buffGetLine\<close> from index \<open>i\<close> relative to \<open>tail\<close>: where it stopped and how many
  characters the line end takes (0: none found).\<close>

function eolScan :: "string \<Rightarrow> nat \<Rightarrow> nat \<Rightarrow> nat \<Rightarrow> (nat \<times> nat) option" where
  "eolScan buf t i n =
     (if i < n then do {
        c \<leftarrow> rd buf (t + i);
        if c = CR then do { d \<leftarrow> rd buf (t + i + 1); Some (i, if d = LF then 2 else 1) }
        else if c = LF then Some (i, 1)
        else eolScan buf t (i + 1) n }
      else Some (i, 0))"
  by pat_completeness auto
termination
  by (relation "measure (\<lambda>(buf, t, i, n). n - i)") auto

declare eolScan.simps [simp del]

definition buffGetLine :: "mem \<Rightarrow> buff \<Rightarrow> bool \<Rightarrow> (buff \<times> u32 \<times> string) option" where
  "buffGetLine m b0 pointer = do {
     b \<leftarrow> CheckAndResize m b0;
     if \<not> pointer then Some (b, 0, [])
     else (case b of None \<Rightarrow> Some (b, 0, []) | Some obj \<Rightarrow>
       if head obj = tail obj then Some (b, 0, [])
       else do {
         buf \<leftarrow> wr (buffer obj) (unat (tail obj)) (savedTailChar obj);
         (i, lineSkip) \<leftarrow> eolScan buf (unat (tail obj)) (unat (lineSearchOffset obj))
                           (unat (head obj - tail obj));
         if lineSkip \<noteq> 0 then (let actualLength = word_of_nat (i + lineSkip) in do {
           c \<leftarrow> rd buf (unat (tail obj) + unat actualLength);
           buf2 \<leftarrow> wr buf (unat (tail obj) + unat actualLength) NUL;
           Some (Some (obj\<lparr>buffer := buf2, tail := tail obj + actualLength, lineSearchOffset := 0,
                   savedTailChar := c, countRetrievals := countRetrievals obj + 1\<rparr>),
                 actualLength, take (unat actualLength) (drop (unat (tail obj)) buf2)) })
         else Some (Some (obj\<lparr>buffer := buf, lineSearchOffset := word_of_nat i\<rparr>), 0, []) }) }"

definition buffGetBlockFromTail :: "mem \<Rightarrow> buff \<Rightarrow> bool \<Rightarrow> u32 \<Rightarrow> (buff \<times> u32 \<times> string) option" where
  "buffGetBlockFromTail m b0 pointer len = do {
     b \<leftarrow> CheckAndResize m b0;
     if \<not> pointer then Some (b, 0, [])
     else (case b of None \<Rightarrow> Some (b, 0, []) | Some obj \<Rightarrow>
       if head obj = tail obj \<or> len < 1 then Some (b, 0, [])
       else do {
         buf \<leftarrow> wr (buffer obj) (unat (tail obj)) (savedTailChar obj);
         (let avail = head obj - tail obj;
              actualLength = (if len < avail then len else avail);
              newTail = tail obj + actualLength
          in do {
            c \<leftarrow> rd buf (unat newTail);
            buf2 \<leftarrow> wr buf (unat newTail) NUL;
            Some (Some (obj\<lparr>buffer := buf2, tail := newTail, lineSearchOffset := 0,
                    savedTailChar := c, countRetrievals := countRetrievals obj + 1\<rparr>),
                  actualLength, take (unat actualLength) (drop (unat (tail obj)) buf2)) }) }) }"

definition buffGetUndoTail :: "buff \<Rightarrow> u32 \<Rightarrow> (buff \<times> int) option" where
  "buffGetUndoTail b len = (case b of None \<Rightarrow> Some (None, 0) | Some obj \<Rightarrow>
     if len > tail obj then Some (b, 0)
     else do {
       buf \<leftarrow> wr (buffer obj) (unat (tail obj)) (savedTailChar obj);
       c \<leftarrow> rd buf (unat (tail obj - len));
       buf2 \<leftarrow> wr buf (unat (tail obj - len)) NUL;
       Some (Some (obj\<lparr>buffer := buf2, tail := tail obj - len, savedTailChar := c\<rparr>), 1) })"

definition buffGetBlockFromHead :: "mem \<Rightarrow> buff \<Rightarrow> bool \<Rightarrow> u32 \<Rightarrow> (buff \<times> u32 \<times> string) option" where
  "buffGetBlockFromHead m b0 pointer len = do {
     b \<leftarrow> CheckAndResize m b0;
     if \<not> pointer then Some (b, 0, [])
     else (case b of None \<Rightarrow> Some (b, 0, []) | Some obj \<Rightarrow>
       if head obj = tail obj \<or> len < 1 then Some (b, 0, [])
       else do {
         buf \<leftarrow> wr (buffer obj) (unat (lastHead obj)) (savedHeadChar obj);
         c \<leftarrow> rd buf (unat (head obj));
         buf2 \<leftarrow> wr buf (unat (head obj)) NUL;
         (let avail = head obj - tail obj;
              actualLength = (if len < avail then len else avail);
              newHead = head obj - actualLength
          in Some (Some (obj\<lparr>buffer := buf2, savedHeadChar := c, lastHead := head obj,
                     head := newHead, lineSearchOffset := 0,
                     countRetrievals := countRetrievals obj + 1\<rparr>),
                   actualLength, take (unat actualLength) (drop (unat newHead) buf2))) }) }"

definition buffGetBuffer :: "mem \<Rightarrow> buff \<Rightarrow> bool \<Rightarrow> (buff \<times> u32 \<times> string) option" where
  "buffGetBuffer m b0 pointer = do {
     b \<leftarrow> CheckAndResize m b0;
     if \<not> pointer then Some (b, 0, [])
     else (case b of None \<Rightarrow> Some (b, 0, []) | Some obj \<Rightarrow>
       if head obj = tail obj then Some (b, 0, [])
       else do {
         buf \<leftarrow> wr (buffer obj) (unat (tail obj)) (savedTailChar obj);
         (let actualLength = head obj - tail obj
          in Some (Some (obj\<lparr>buffer := buf, lineSearchOffset := 0, tail := head obj,
                     countRetrievals := countRetrievals obj + 1\<rparr>),
                   actualLength, take (unat actualLength) (drop (unat (tail obj)) buf))) }) }"

subsection \<open>Marks\<close>

definition buffMark :: "buff \<Rightarrow> buff" where
  "buffMark b = map_option (\<lambda>obj. obj\<lparr>markHead := head obj, markLastHead := lastHead obj,
     markTail := tail obj, markSavedTailChar := savedTailChar obj,
     markSavedHeadChar := savedHeadChar obj\<rparr>) b"

definition buffUnmark :: "buff \<Rightarrow> buff" where
  "buffUnmark b = map_option (\<lambda>obj. obj\<lparr>markHead := 0, markLastHead := 0, markTail := 0,
     markSavedTailChar := NUL, markSavedHeadChar := NUL\<rparr>) b"

definition buffRewindToMark :: "buff \<Rightarrow> buff option" where
  "buffRewindToMark b = (case b of None \<Rightarrow> Some None | Some obj \<Rightarrow> do {
     buf1 \<leftarrow> wr (buffer obj) (unat (lastHead obj)) (savedHeadChar obj);
     buf2 \<leftarrow> wr buf1 (unat (tail obj)) (savedTailChar obj);
     Some (Some (obj\<lparr>buffer := buf2, head := markHead obj, lastHead := markLastHead obj,
       tail := markTail obj, savedTailChar := markSavedTailChar obj,
       savedHeadChar := markSavedHeadChar obj, markHead := 0, markLastHead := 0, markTail := 0,
       markSavedTailChar := NUL, markSavedHeadChar := NUL\<rparr>)) })"

subsection \<open>Invariant and contents\<close>

lemma rd_Some [simp]: "rd b i = Some c \<longleftrightarrow> i < length b \<and> c = b ! i"
  by (auto simp: rd_def)

lemma wr_Some [simp]: "wr b i c = Some b' \<longleftrightarrow> i < length b \<and> b' = b[i := c]"
  by (auto simp: wr_def)

lemma rd_in [simp]: "i < length b \<Longrightarrow> rd b i = Some (b ! i)"
  and wr_in [simp]: "i < length b \<Longrightarrow> wr b i c = Some (b[i := c])"
  by (simp_all add: rd_def wr_def)

lemma wrs_Some:
  "wrs b d src = Some b' \<longleftrightarrow> d + length src \<le> length b
     \<and> b' = take d b @ src @ drop (d + length src) b"
  by (auto simp: wrs_def)

lemma wrs_nth:
  "d + length src \<le> length b \<Longrightarrow> i < length b \<Longrightarrow>
   (take d b @ src @ drop (d + length src) b) ! i
   = (if d \<le> i \<and> i < d + length src then src ! (i - d) else b ! i)"
  by (auto simp: nth_append)

lemma rds_Some: "rds b from n = Some s \<longleftrightarrow> from + n \<le> length b \<and> s = take n (drop from b)"
  by (auto simp: rds_def)

definition buff_inv :: "object \<Rightarrow> bool" where
  "buff_inv obj \<longleftrightarrow> length (buffer obj) = unat (bsize obj) \<and> tail obj \<le> head obj
     \<and> head obj < bsize obj \<and> head obj \<le> lastHead obj \<and> lastHead obj < bsize obj"

text \<open>The bytes in the buffer: from \<open>tail\<close> to \<open>head\<close>, the first one as saved.\<close>

definition content :: "object \<Rightarrow> string" where
  "content obj = take (unat (head obj) - unat (tail obj))
     (drop (unat (tail obj)) ((buffer obj)[unat (tail obj) := savedTailChar obj]))"

text \<open>The saved character is also in place: true of a buffer only read from the head.\<close>

definition tail_in_place :: "object \<Rightarrow> bool" where
  "tail_in_place obj \<longleftrightarrow> head obj = tail obj \<or> buffer obj ! unat (tail obj) = savedTailChar obj"

lemma buff_inv_nat:
  "buff_inv obj \<longleftrightarrow> length (buffer obj) = unat (bsize obj)
     \<and> unat (tail obj) \<le> unat (head obj) \<and> unat (head obj) < unat (bsize obj)
     \<and> unat (head obj) \<le> unat (lastHead obj) \<and> unat (lastHead obj) < unat (bsize obj)"
  by (simp add: buff_inv_def word_le_nat_alt word_less_nat_alt)

lemma unat_sub_le: "b \<le> a \<Longrightarrow> unat (a - b :: u32) = unat a - unat b"
  by (simp add: unat_sub)

lemma unat_head_tail: "buff_inv obj \<Longrightarrow> unat (head obj - tail obj) = unat (head obj) - unat (tail obj)"
  by (simp add: buff_inv_def unat_sub_le)

lemma length_content: "buff_inv obj \<Longrightarrow> length (content obj) = unat (head obj) - unat (tail obj)"
  by (auto simp: content_def buff_inv_nat min_def)

lemma content_nth:
  "buff_inv obj \<Longrightarrow> i < unat (head obj) - unat (tail obj) \<Longrightarrow>
   content obj ! i = (if i = 0 then savedTailChar obj else buffer obj ! (unat (tail obj) + i))"
  by (simp add: content_def buff_inv_nat nth_list_update)

lemma content_eqI:
  assumes "buff_inv obj" and "length xs = unat (head obj) - unat (tail obj)"
    and "\<And>i. i < unat (head obj) - unat (tail obj) \<Longrightarrow>
      xs ! i = (if i = 0 then savedTailChar obj else buffer obj ! (unat (tail obj) + i))"
  shows "content obj = xs"
  by (rule nth_equalityI) (use assms length_content content_nth in auto)

lemma content_empty: "buff_inv obj \<Longrightarrow> head obj = tail obj \<Longrightarrow> content obj = []"
  by (simp add: content_def)

lemma content_empty_iff: "buff_inv obj \<Longrightarrow> content obj = [] \<longleftrightarrow> head obj = tail obj"
  using length_content [of obj] by (auto simp: buff_inv_nat word_unat_eq_iff)

text \<open>Fields no retrieval or move of the contents writes.\<close>

definition same_config :: "object \<Rightarrow> object \<Rightarrow> bool" where
  "same_config a b \<longleftrightarrow> addType a = addType b \<and> lineEnd a = lineEnd b
     \<and> ReallocAdjustment a = ReallocAdjustment b \<and> lastNormalizedChar a = lastNormalizedChar b"

subsection \<open>Moving the contents to the front\<close>

lemma slide_content:
  assumes inv: "buff_inv obj"
    and obj': "buffer obj' = (take (unat (head obj) - unat (tail obj)) (drop (unat (tail obj)) (buffer obj))
        @ drop (unat (head obj) - unat (tail obj)) (buffer obj))[0 := savedTailChar obj]"
      "head obj' = head obj - tail obj" "tail obj' = 0" "lastHead obj' = lastHead obj - tail obj"
      "bsize obj' = bsize obj" "savedTailChar obj' = savedTailChar obj"
  shows "buff_inv obj' \<and> content obj' = content obj \<and> tail_in_place obj'"
proof -
  have le: "tail obj \<le> lastHead obj" "tail obj \<le> head obj"
    using inv by (auto simp: buff_inv_def)
  have inv': "buff_inv obj'"
    using inv obj' by (auto simp: buff_inv_nat unat_sub_le [OF le(1)] unat_sub_le [OF le(2)] min_def)
  have "content obj' = content obj"
  proof (rule content_eqI [OF inv'])
    show "length (content obj) = unat (head obj') - unat (tail obj')"
      using inv obj' by (simp add: length_content unat_sub_le [OF le(2)])
    fix i assume "i < unat (head obj') - unat (tail obj')"
    then have "i < unat (head obj) - unat (tail obj)" using obj' unat_sub_le [OF le(2)] by simp
    then show "content obj ! i
        = (if i = 0 then savedTailChar obj' else buffer obj' ! (unat (tail obj') + i))"
      using inv obj' by (auto simp: content_nth [OF inv] nth_append buff_inv_nat)
  qed
  moreover have "tail_in_place obj'"
    using inv obj' by (simp add: tail_in_place_def buff_inv_nat)
  ultimately show ?thesis using inv' by simp
qed

lemma reset_inv:
  assumes "buff_inv obj" and "buffer obj' = (buffer obj)[0 := NUL]" and "head obj' = 0"
    and "tail obj' = 0" and "lastHead obj' = 0" and "bsize obj' = bsize obj"
  shows "buff_inv obj' \<and> content obj' = [] \<and> tail_in_place obj'"
  using assms by (auto simp: buff_inv_nat content_def tail_in_place_def)

text \<open>The move as both \<open>buffAdd\<close> and \<open>buffResize\<close> perform it.\<close>

definition slid :: "object \<Rightarrow> object" where
  "slid obj = obj\<lparr>countAddMoveForward := countAddMoveForward obj + 1,
     lastHead := lastHead obj - tail obj, head := head obj - tail obj, tail := 0,
     buffer := (take (unat (head obj) - unat (tail obj)) (drop (unat (tail obj)) (buffer obj))
        @ drop (unat (head obj) - unat (tail obj)) (buffer obj))[0 := savedTailChar obj]\<rparr>"

lemma slid_ok:
  assumes "buff_inv obj"
  shows "buff_inv (slid obj) \<and> content (slid obj) = content obj \<and> tail_in_place (slid obj)
    \<and> same_config (slid obj) obj \<and> bsize (slid obj) = bsize obj \<and> tail (slid obj) = 0
    \<and> head (slid obj) \<le> head obj"
proof -
  have "head obj - tail obj \<le> head obj"
    using assms unat_head_tail [OF assms] by (simp add: word_le_nat_alt)
  then show ?thesis
    using slide_content [OF assms, of "slid obj"] by (simp add: slid_def same_config_def)
qed

lemma slide_accesses:
  assumes "buff_inv obj"
  defines "n \<equiv> unat (head obj) - unat (tail obj)"
  defines "src \<equiv> take n (drop (unat (tail obj)) (buffer obj))"
  shows "rds (buffer obj) (unat (tail obj)) (unat (head obj - tail obj)) = Some src"
    and "wrs (buffer obj) 0 src = Some (src @ drop n (buffer obj))"
    and "0 < length (src @ drop n (buffer obj))"
proof -
  have b: "unat (tail obj) \<le> unat (head obj)" "unat (head obj) < length (buffer obj)"
    using assms(1) by (simp_all add: buff_inv_nat)
  then have len: "length src = n" by (auto simp: src_def n_def)
  show "rds (buffer obj) (unat (tail obj)) (unat (head obj - tail obj)) = Some src"
    using b by (simp add: rds_def unat_head_tail [OF assms(1)] src_def n_def)
  show "wrs (buffer obj) 0 src = Some (src @ drop n (buffer obj))"
    using b len by (simp add: wrs_def n_def)
  show "0 < length (src @ drop n (buffer obj))"
    using b len by (cases "buffer obj") (auto simp: n_def)
qed

lemma resizeSlide_slid:
  assumes "buff_inv obj" and "\<not> (head obj \<noteq> 0 \<and> head obj = tail obj)"
  shows "resizeSlide obj = Some (slid obj)"
  unfolding resizeSlide_def slid_def if_not_P [OF assms(2)]
  using slide_accesses [OF assms(1)] by simp

lemma addSlide_slid:
  assumes "buff_inv obj" and "\<not> (head obj \<noteq> 0 \<and> head obj = tail obj)"
    and "tail obj > bsize obj div 2"
  shows "addSlide obj = Some (slid obj)"
proof -
  have "unat (bsize obj) div 2 < unat (tail obj)"
    using assms(3) by (simp add: word_less_nat_alt unat_div_distrib)
  then have "unat (head obj - tail obj) \<le> unat (tail obj)"
    using assms(1) unat_head_tail [OF assms(1)] by (auto simp: buff_inv_nat)
  then show ?thesis
    unfolding addSlide_def slid_def if_not_P [OF assms(2)] if_P [OF assms(3)]
    using slide_accesses [OF assms(1)] by simp
qed

definition reset :: "object \<Rightarrow> object" where
  "reset obj = obj\<lparr>countAddResetEmpty := countAddResetEmpty obj + 1, head := 0, lastHead := 0,
     tail := 0, savedTailChar := NUL, lineSearchOffset := 0, buffer := (buffer obj)[0 := NUL]\<rparr>"

lemma reset_ok:
  "buff_inv obj \<Longrightarrow> head obj = tail obj \<Longrightarrow>
   buff_inv (reset obj) \<and> content (reset obj) = content obj \<and> tail_in_place (reset obj)
   \<and> same_config (reset obj) obj \<and> bsize (reset obj) = bsize obj"
  using reset_inv [of obj "reset obj"] content_empty [of obj]
  by (simp add: reset_def same_config_def)

lemma resizeSlide_ok:
  assumes "buff_inv obj"
  obtains obj' where "resizeSlide obj = Some obj'" "buff_inv obj'" "content obj' = content obj"
    "same_config obj' obj" "bsize obj' = bsize obj" "tail_in_place obj'"
proof (cases "head obj \<noteq> 0 \<and> head obj = tail obj")
  case True
  have "buffer obj \<noteq> []" using assms by (auto simp: buff_inv_nat)
  moreover from True have "head obj \<noteq> 0" and "head obj = tail obj" by auto
  ultimately have "resizeSlide obj = Some (reset obj)" by (simp add: resizeSlide_def reset_def)
  then show ?thesis using that reset_ok [OF assms] True by blast
next
  case False
  then show ?thesis using that resizeSlide_slid [OF assms] slid_ok [OF assms] by blast
qed

lemma addSlide_ok:
  assumes "buff_inv obj"
  obtains obj' where "addSlide obj = Some obj'" "buff_inv obj'" "content obj' = content obj"
    "same_config obj' obj" "bsize obj' = bsize obj" "head obj' \<le> head obj"
    "head obj' = tail obj' \<longrightarrow> head obj' = 0" "tail_in_place obj \<longrightarrow> tail_in_place obj'"
proof -
  consider (empty) "head obj \<noteq> 0" "head obj = tail obj"
    | (far) "\<not> (head obj \<noteq> 0 \<and> head obj = tail obj)" "tail obj > bsize obj div 2"
    | (near) "\<not> (head obj \<noteq> 0 \<and> head obj = tail obj)" "\<not> tail obj > bsize obj div 2" by blast
  then show ?thesis
  proof cases
    case empty
    have b: "buffer obj \<noteq> []" using assms by (auto simp: buff_inv_nat)
    let ?r = "(reset obj)\<lparr>markHead := 0, markTail := 0, markSavedTailChar := NUL,
      markSavedHeadChar := NUL\<rparr>"
    have "addSlide obj = Some ?r" using empty b by (simp add: addSlide_def reset_def)
    moreover have "buff_inv ?r \<and> content ?r = content obj \<and> tail_in_place ?r"
      using reset_inv [of obj ?r] assms empty content_empty [OF assms] by (simp add: reset_def)
    ultimately show ?thesis
      by (intro that [of ?r]) (auto simp: same_config_def reset_def)
  next
    case far
    then show ?thesis
      using that [OF addSlide_slid [OF assms far]] slid_ok [OF assms] by auto
  next
    case near
    then show ?thesis using that [of obj] assms by (auto simp: addSlide_def same_config_def)
  qed
qed

subsection \<open>Adding\<close>

lemma same_config_refl [simp]: "same_config a a"
  by (simp add: same_config_def)

lemma same_config_trans: "same_config a b \<Longrightarrow> same_config b c \<Longrightarrow> same_config a c"
  by (simp add: same_config_def)

lemma grown_ok:
  assumes "buff_inv obj" and "buffer obj' = buffer obj @ xs" and "length (buffer obj') = unat (bsize obj')"
    and "head obj' = head obj" and "tail obj' = tail obj" and "lastHead obj' = lastHead obj"
    and "savedTailChar obj' = savedTailChar obj"
  shows "buff_inv obj' \<and> content obj' = content obj \<and> (tail_in_place obj' \<longleftrightarrow> tail_in_place obj)"
proof -
  have inv': "buff_inv obj'" using assms by (auto simp: buff_inv_nat)
  moreover have "content obj' = content obj"
    by (rule content_eqI [OF inv'])
       (use assms in \<open>auto simp: length_content content_nth nth_append buff_inv_nat\<close>)
  ultimately show ?thesis
    using assms by (auto simp: tail_in_place_def nth_append buff_inv_nat)
qed

lemma reallocate_grow: "length b \<le> n \<Longrightarrow> reallocate m b n = b @ map (junk m) [length b..<n]"
  by (simp add: reallocate_def)

text \<open>The room an addition asks for; normalizing may double the length.\<close>

definition need :: "object \<Rightarrow> u32 \<Rightarrow> nat" where
  "need obj len = (if addType obj = buff_NormalizeLineEnds then 2 * unat len else unat len)"

definition add_nowrap :: "object \<Rightarrow> u32 \<Rightarrow> bool" where
  "add_nowrap obj len \<longleftrightarrow> need obj len + unat (head obj) + 1 + unat (ReallocAdjustment obj) < 2 ^ 32"

lemma addRoom_ok:
  assumes inv: "buff_inv obj" and nowrap: "add_nowrap obj len"
  obtains obj' ok where "addRoom m obj len = (obj', ok)" "buff_inv obj'" "content obj' = content obj"
    "same_config obj' obj" "head obj' = head obj" "tail obj' = tail obj"
    "tail_in_place obj' \<longleftrightarrow> tail_in_place obj"
    "ok \<longrightarrow> unat (head obj) + need obj len < unat (bsize obj')"
    "(\<forall>n. can_alloc m n) \<longrightarrow> ok"
    "unat (bsize obj') \<le> unat (bsize obj) + need obj len + unat (ReallocAdjustment obj)"
proof -
  obtain new where new_def: "(if addType obj = buff_NormalizeLineEnds then len * 2 + head obj + 1
      else len + head obj + 1) = new" by simp
  have new: "unat new = need obj len + unat (head obj) + 1"
    unfolding new_def [symmetric] using nowrap
    by (auto simp: add_nowrap_def need_def unat_word_ariths mult.commute)
  have grown: "unat (new + ReallocAdjustment obj) = unat new + unat (ReallocAdjustment obj)"
    using nowrap new by (simp only: unat_word_ariths new add_nowrap_def) simp
  have nowrap': "\<not> new < len" by (simp add: word_less_nat_alt new need_def)
  have bound: "unat (new + ReallocAdjustment obj)
      \<le> unat (bsize obj) + need obj len + unat (ReallocAdjustment obj)"
    using grown new inv by (simp add: buff_inv_nat)
  show ?thesis
  proof (cases "new > bsize obj")
    case False
    then show ?thesis
      using that [of obj True] inv nowrap' new
      by (simp add: addRoom_def new_def Let_def word_less_nat_alt)
  next
    case True
    show ?thesis
    proof (cases "can_alloc m (unat (new + ReallocAdjustment obj))")
      case False
      then show ?thesis
        using that [of "obj\<lparr>countReallocs := countReallocs obj + 1\<rparr>" False] True nowrap' inv
        by (auto simp: addRoom_def new_def Let_def same_config_def buff_inv_def content_def tail_in_place_def)
    next
      case ok: True
      let ?obj = "obj\<lparr>countReallocs := countReallocs obj + 1,
        buffer := reallocate m (buffer obj) (unat (new + ReallocAdjustment obj)),
        bsize := new + ReallocAdjustment obj\<rparr>"
      have "length (buffer obj) \<le> unat (new + ReallocAdjustment obj)"
        using True inv grown by (simp add: buff_inv_nat word_less_nat_alt)
      then have "buff_inv ?obj \<and> content ?obj = content obj \<and> (tail_in_place ?obj \<longleftrightarrow> tail_in_place obj)"
        by (intro grown_ok [OF inv, of ?obj "map (junk m) [length (buffer obj)..<unat (new + ReallocAdjustment obj)]"])
           (simp_all add: reallocate_grow)
      then show ?thesis
        using that [of ?obj True] True ok nowrap' new grown bound
        by (simp add: addRoom_def new_def Let_def same_config_def)
    qed
  qed
qed

lemma putBytes_ok:
  assumes inv: "buff_inv obj" and room: "unat (head obj) + unat n < unat (bsize obj)"
    and out: "length out = unat n" "0 < unat n"
  obtains obj' where "putBytes obj out n = Some obj'" "buff_inv obj'"
    "content obj' = content obj @ out" "same_config obj' obj" "tail_in_place obj \<longrightarrow> tail_in_place obj'"
    "bsize obj' = bsize obj"
proof -
  let ?h = "unat (head obj)" and ?t = "unat (tail obj)"
  let ?b = "take ?h (buffer obj) @ out @ drop (?h + length out) (buffer obj)"
  let ?obj = "obj\<lparr>buffer := ?b[?h + unat n := NUL],
       savedTailChar := (if head obj = tail obj then ?b ! ?h else savedTailChar obj),
       head := head obj + n, lastHead := head obj + n\<rparr>"
  have nat: "length (buffer obj) = unat (bsize obj)" "?t \<le> ?h" using inv by (simp_all add: buff_inv_nat)
  have h: "unat (head obj + n) = ?h + unat n"
  proof -
    have "unat (bsize obj) < 2 ^ LENGTH(32)" by (rule unsigned_less)
    then show ?thesis using room by (simp add: unat_word_ariths)
  qed
  have len: "length ?b = length (buffer obj)" using room nat out by simp
  have bnth: "?b ! i = (if ?h \<le> i \<and> i < ?h + length out then out ! (i - ?h) else buffer obj ! i)"
    if "i < length (buffer obj)" for i
    by (rule wrs_nth) (use room nat out that in auto)
  have put: "putBytes obj out n = Some ?obj"
    using room nat out len by (simp add: putBytes_def wrs_def)
  have inv': "buff_inv ?obj"
    using room nat h len by (simp add: buff_inv_nat)
  have "content ?obj = content obj @ out"
  proof (rule content_eqI [OF inv'])
    show "length (content obj @ out) = unat (head ?obj) - unat (tail ?obj)"
      using inv out h nat by (simp add: length_content)
    fix i assume "i < unat (head ?obj) - unat (tail ?obj)"
    then have i: "i < ?h + unat n - ?t" "?t + i < length (buffer obj)" "?t + i \<noteq> ?h + unat n"
      using h nat room by auto
    then show "(content obj @ out) ! i
        = (if i = 0 then savedTailChar ?obj else buffer ?obj ! (unat (tail ?obj) + i))"
      using nat out bnth [of "?t + i"] bnth [of ?h]
      by (auto simp: nth_append length_content [OF inv] content_nth [OF inv] word_unat_eq_iff
          add.commute [of i ?t])
  qed
  moreover have "tail_in_place obj \<longrightarrow> tail_in_place ?obj"
    using nat room out bnth [of ?t] bnth [of ?h]
    by (auto simp: tail_in_place_def word_unat_eq_iff nth_list_update)
  ultimately show ?thesis
    using that [OF put inv'] by (simp add: same_config_def)
qed

text \<open>Normalizing a whole text: CR, LF and CR LF each become the line end \<open>le\<close>.\<close>

fun normalize :: "string \<Rightarrow> string \<Rightarrow> string" where
  "normalize le [] = []"
| "normalize le (c # cs) =
     (if c = CR then (case cs of [] \<Rightarrow> le
        | d # ds \<Rightarrow> le @ (if d = LF then normalize le ds else normalize le cs))
      else if c = LF then le @ normalize le cs
      else c # normalize le cs)"

lemma length_normalize: "length le \<le> 2 \<Longrightarrow> length (normalize le s) \<le> 2 * length s"
proof (induction s rule: length_induct)
  case (1 s)
  have IH: "length (normalize le xs) \<le> 2 * length xs" if "length xs < length s" for xs
    using 1 that by blast
  show ?case
  proof (cases s)
    case (Cons c cs)
    show ?thesis
    proof (cases cs)
      case Nil
      then show ?thesis using Cons 1(2) by simp
    next
      case (Cons d ds)
      then show ?thesis
        using IH [of cs] IH [of ds] \<open>s = c # cs\<close> 1(2) by (simp del: normalize.simps add: normalize.simps(2) [of le c])
    qed
  qed simp
qed

lemma normalize_nonempty: "le \<noteq> [] \<Longrightarrow> s \<noteq> [] \<Longrightarrow> normalize le s \<noteq> []"
  by (cases s) (auto split: list.splits)

lemma normLoop_normalize:
  assumes "n \<le> length ptr" and "j \<le> n" and "j < n \<Longrightarrow> ptr ! (n - 1) \<noteq> CR"
  shows "normLoop ptr le j n = Some (normalize le (drop j (take n ptr)))"
  using assms
proof (induction ptr le j n rule: normLoop.induct)
  case (1 ptr le j n)
  show ?case
  proof (cases "j < n")
    case False
    then show ?thesis using "1.prems" by (simp add: normLoop.simps)
  next
    case True
    have drop: "drop j (take n ptr) = ptr ! j # drop (Suc j) (take n ptr)"
      using True "1.prems" by (simp add: Cons_nth_drop_Suc [symmetric])
    have rd: "rd ptr j = Some (ptr ! j)" using True "1.prems" by simp
    have step: "normLoop ptr le (j + 1) n = Some (normalize le (drop (j + 1) (take n ptr)))"
      if "ptr ! j \<noteq> CR"
    proof (cases "ptr ! j = LF")
      case True': True
      show ?thesis by (rule "1.IH"(2) [OF True rd that True']) (use True "1.prems" in simp_all)
    next
      case False
      show ?thesis by (rule "1.IH"(3) [OF True rd that False]) (use True "1.prems" in simp_all)
    qed
    show ?thesis
    proof (cases "ptr ! j = CR")
      case False
      then show ?thesis
        using True rd step by (subst normLoop.simps) (simp add: drop)
    next
      case CR: True
      have "j + 1 \<noteq> n" using CR "1.prems"(3) [OF True] by auto
      then have next': "j + 1 < n" using True by simp
      then have rd': "rd ptr (j + 1) = Some (ptr ! (j + 1))" using "1.prems" by simp
      have drop': "drop (Suc j) (take n ptr) = ptr ! (j + 1) # drop (j + 2) (take n ptr)"
        using next' "1.prems" by (simp add: Cons_nth_drop_Suc [symmetric])
      have rest: "normLoop ptr le (if ptr ! (j + 1) = LF then j + 2 else j + 1) n
        = Some (normalize le (drop (if ptr ! (j + 1) = LF then j + 2 else j + 1) (take n ptr)))"
        by (rule "1.IH"(1) [OF True rd CR rd']) (use next' "1.prems" in auto)
      show ?thesis
        using True CR rd rd' rest by (subst normLoop.simps) (simp add: drop drop')
    qed
  qed
qed

text \<open>What an addition appends, and when the code's three copies can do it.\<close>

definition added :: "object \<Rightarrow> string \<Rightarrow> u32 \<Rightarrow> string" where
  "added obj ptr len =
     (if addType obj = buff_FixCarbon then map fixCarbon (take (unat len) ptr)
      else if addType obj = buff_NormalizeLineEnds then normalize (lineEnd obj) (take (unat len) ptr)
      else take (unat len) ptr)"

definition add_ok :: "object \<Rightarrow> string \<Rightarrow> u32 \<Rightarrow> bool" where
  "add_ok obj ptr len \<longleftrightarrow> unat len \<le> length ptr \<and> add_nowrap obj len
     \<and> (addType obj = buff_default
        \<or> addType obj = buff_FixCarbon \<and> unat len < 2 ^ 31
        \<or> addType obj = buff_NormalizeLineEnds \<and> lineEnd obj \<noteq> [] \<and> length (lineEnd obj) \<le> 2
          \<and> lastNormalizedChar obj \<noteq> CR \<and> (0 < len \<longrightarrow> ptr ! (unat len - 1) \<noteq> CR))"

lemma added_len:
  assumes "add_ok obj ptr len" and "0 < unat len"
  shows "0 < length (added obj ptr len)" "length (added obj ptr len) \<le> need obj len"
proof -
  let ?s = "take (unat len) ptr"
  have s: "length ?s = unat len" "?s \<noteq> []" using assms by (auto simp: add_ok_def)
  show "0 < length (added obj ptr len)"
    using assms s normalize_nonempty [of "lineEnd obj" ?s] by (auto simp: added_def add_ok_def)
  show "length (added obj ptr len) \<le> need obj len"
    using assms s length_normalize [of "lineEnd obj" ?s] by (auto simp: added_def add_ok_def need_def)
qed

definition same_limits :: "object \<Rightarrow> object \<Rightarrow> bool" where
  "same_limits a b \<longleftrightarrow> addType a = addType b \<and> lineEnd a = lineEnd b
     \<and> ReallocAdjustment a = ReallocAdjustment b"

lemma addCopy_putBytes:
  assumes ok: "add_ok obj ptr len" and pos: "0 < unat len" and small: "need obj len < 2 ^ 32"
    and put: "putBytes obj (added obj ptr len) (word_of_nat (length (added obj ptr len))) = Some obj'"
  shows "addCopy obj ptr len = Some (if addType obj = buff_NormalizeLineEnds
      then obj'\<lparr>lastNormalizedChar := last (added obj ptr len)\<rparr> else obj')"
proof -
  have len: "unat len \<le> length ptr" using ok by (simp add: add_ok_def)
  consider (d) "addType obj = buff_default" | (f) "addType obj = buff_FixCarbon" "unat len < 2 ^ 31"
    | (n) "addType obj = buff_NormalizeLineEnds" "lastNormalizedChar obj \<noteq> CR"
        "ptr ! (unat len - 1) \<noteq> CR"
    using ok pos by (auto simp: add_ok_def word_less_nat_alt)
  then show ?thesis
  proof cases
    case d
    then show ?thesis using put len by (simp add: addCopy_def added_def rds_def)
  next
    case f
    have "uint len = int (unat len)" by (rule uint_nat)
    then have "uint len < 2 ^ 31" using f(2) by (simp only: of_nat_less_numeral_power_cancel_iff)
    then have "signed_take_bit 31 (uint len) = uint len"
      using uint_ge_0 [of len] by (intro signed_take_bit_int_eq_self) linarith+
    then have "\<not> sint len < 0" by (simp add: sint_uint)
    then show ?thesis using put len f by (simp add: addCopy_def added_def rds_def)
  next
    case n
    have "normLoop ptr (lineEnd obj) 0 (unat len) = Some (added obj ptr len)"
      using normLoop_normalize [of "unat len" ptr 0 "lineEnd obj"] n len by (simp add: added_def)
    then show ?thesis
      using put n added_len [OF ok pos] by (auto simp: addCopy_def)
  qed
qed

lemma buffAdd_ok:
  assumes inv: "buff_inv obj" and ok: "add_ok obj ptr len"
  obtains obj' r where "buffAdd m (Some obj) (Some ptr) len = Some (Some obj', r)" "buff_inv obj'"
    "content obj' = (if r = 1 then content obj @ added obj ptr len else content obj)"
    "same_limits obj' obj" "r = 0 \<or> r = 1" "(\<forall>n. can_alloc m n) \<longrightarrow> r = 1"
    "tail_in_place obj \<longrightarrow> tail_in_place obj'"
    "lastNormalizedChar obj' = (if addType obj = buff_NormalizeLineEnds \<and> r = 1 \<and> 0 < len
       then last (added obj ptr len) else lastNormalizedChar obj)"
    "unat (bsize obj') \<le> unat (bsize obj) + need obj len + unat (ReallocAdjustment obj)"
proof (cases "len < 1")
  case True
  then have "len = 0" by (simp add: word_less_nat_alt unat_eq_0)
  then show ?thesis
    using that [of obj 1] inv by (simp add: buffAdd_def added_def same_limits_def)
next
  case pos: False
  then have pos': "0 < unat len" "0 < len" by (simp_all add: word_less_nat_alt)
  have nowrap: "add_nowrap obj len" using ok by (simp add: add_ok_def)
  obtain obj1 where s: "addSlide obj = Some obj1" "buff_inv obj1" "content obj1 = content obj"
    "same_config obj1 obj" "head obj1 \<le> head obj" "tail_in_place obj \<longrightarrow> tail_in_place obj1"
    "bsize obj1 = bsize obj"
    using addSlide_ok [OF inv] by blast
  have nowrap1: "add_nowrap obj1 len"
    using nowrap s(4,5) by (simp add: add_nowrap_def need_def same_config_def word_le_nat_alt)
  obtain obj2 room where r: "addRoom m obj1 len = (obj2, room)" "buff_inv obj2"
    "content obj2 = content obj1" "same_config obj2 obj1" "head obj2 = head obj1"
    "tail_in_place obj2 \<longleftrightarrow> tail_in_place obj1"
    "room \<longrightarrow> unat (head obj1) + need obj1 len < unat (bsize obj2)" "(\<forall>n. can_alloc m n) \<longrightarrow> room"
    "unat (bsize obj2) \<le> unat (bsize obj1) + need obj1 len + unat (ReallocAdjustment obj1)"
    using addRoom_ok [OF s(2) nowrap1] .
  have conf: "same_config obj2 obj" by (rule same_config_trans [OF r(4) s(4)])
  have bound: "unat (bsize obj2) \<le> unat (bsize obj) + need obj len + unat (ReallocAdjustment obj)"
    using r(9) s(4,7) by (simp add: need_def same_config_def)
  show ?thesis
  proof (cases room)
    case False
    have "buffAdd m (Some obj) (Some ptr) len = Some (Some obj2, 0)"
      using pos s(1) r(1) False by (simp add: buffAdd_def)
    then show ?thesis
      using s r conf False bound by (intro that [of obj2 0]) (simp_all add: same_limits_def same_config_def)
  next
    case True
    let ?out = "added obj ptr len"
    have same: "added obj2 ptr len = ?out" "need obj2 len = need obj len" "need obj1 len = need obj len"
      "add_ok obj2 ptr len" "addType obj2 = addType obj"
      using conf s(4) r(5) ok nowrap1
      by (simp_all add: added_def need_def add_ok_def add_nowrap_def same_config_def)
    have room2: "unat (head obj2) + need obj len < unat (bsize obj2)"
      using r(5,7) True same by simp
    have small: "need obj len < 2 ^ 32" using nowrap by (simp add: add_nowrap_def)
    note out = added_len [OF ok pos'(1)]
    have n: "unat (word_of_nat (length ?out) :: u32) = length ?out"
      using out small by (simp add: unat_of_nat)
    obtain obj3 where c: "putBytes obj2 ?out (word_of_nat (length ?out)) = Some obj3" "buff_inv obj3"
      "content obj3 = content obj2 @ ?out" "same_config obj3 obj2"
      "tail_in_place obj2 \<longrightarrow> tail_in_place obj3" "bsize obj3 = bsize obj2"
      using putBytes_ok [OF r(2), of "word_of_nat (length ?out)" ?out] room2 out n by auto
    let ?o4 = "if addType obj = buff_NormalizeLineEnds then obj3\<lparr>lastNormalizedChar := last ?out\<rparr> else obj3"
    let ?obj = "?o4\<lparr>countInserts := countInserts ?o4 + 1\<rparr>"
    have copy: "addCopy obj2 ptr len = Some ?o4"
      using addCopy_putBytes [OF same(4) pos'(1)] c(1) small same by simp
    have run: "buffAdd m (Some obj) (Some ptr) len = Some (Some ?obj, 1)"
      using pos s(1) r(1) True copy by (simp add: buffAdd_def)
    have fields: "buff_inv ?obj" "content ?obj = content obj3"
      "tail_in_place ?obj \<longleftrightarrow> tail_in_place obj3" "same_limits ?obj obj3"
      using c(2) by (simp_all add: buff_inv_def content_def tail_in_place_def same_limits_def)
    have conf3: "same_config obj3 obj" by (rule same_config_trans [OF c(4) conf])
    have "tail_in_place obj \<longrightarrow> tail_in_place ?obj" using s(6) r(6) c(5) fields(3) by blast
    moreover have "same_limits ?obj obj" "lastNormalizedChar ?obj
        = (if addType obj = buff_NormalizeLineEnds then last ?out else lastNormalizedChar obj)"
      using conf3 by (simp_all add: same_limits_def same_config_def)
    moreover have "content ?obj = content obj @ ?out" using s(3) r(3) c(3) fields(2) by simp
    ultimately show ?thesis
      by (intro that [OF run fields(1)]) (use bound c(6) in \<open>simp_all add: pos'\<close>)
  qed
qed

subsection \<open>Resizing keeps the contents\<close>

lemma same_config_bsize [simp]:
  "same_config (obj\<lparr>buffer := b, bsize := n, countReallocs := c\<rparr>) obj' \<longleftrightarrow> same_config obj obj'"
  "same_config (obj\<lparr>buffer := b, bsize := n\<rparr>) obj' \<longleftrightarrow> same_config obj obj'"
  "same_config (obj\<lparr>countReallocs := c\<rparr>) obj' \<longleftrightarrow> same_config obj obj'"
  by (simp_all add: same_config_def)

lemma buffResize_ok:
  assumes inv: "buff_inv obj"
  obtains obj' r where "buffResize m (Some obj) len = Some (Some obj', r)" "buff_inv obj'"
    "content obj' = content obj" "same_config obj' obj" "tail_in_place obj'"
    "bsize obj' = bsize obj \<or> bsize obj' = len \<and> bsize obj \<le> len"
    "r = (if can_alloc m (unat (max (bsize obj) len)) then 1 else 0)"
proof -
  obtain s where s: "resizeSlide obj = Some s" "buff_inv s" "content s = content obj"
    "same_config s obj" "bsize s = bsize obj" "tail_in_place s"
    using resizeSlide_ok [OF inv] .
  obtain n where n_def: "(if len < bsize s then bsize s else len) = n" by simp
  have n: "bsize s \<le> n" "max (bsize obj) len = n" "n = bsize obj \<or> n = len \<and> bsize obj \<le> len"
    using s(5) n_def by (auto simp: max_def split: if_splits)
  let ?xs = "map (junk m) [length (buffer s)..<unat n]"
  have buf: "reallocate m (buffer s) (unat n) = buffer s @ ?xs"
    using n(1) s(2) by (intro reallocate_grow) (simp only: buff_inv_nat word_le_nat_alt)
  have len': "length (buffer s @ ?xs) = unat n"
    using n(1) s(2) by (simp add: buff_inv_nat word_le_nat_alt)
  let ?good = "s\<lparr>countReallocs := countReallocs s + 1, buffer := buffer s @ ?xs, bsize := n\<rparr>"
  let ?bad = "s\<lparr>countReallocs := countReallocs s + 1\<rparr>"
  have good: "buff_inv ?good \<and> content ?good = content s \<and> (tail_in_place ?good \<longleftrightarrow> tail_in_place s)"
    by (rule grown_ok [OF s(2), of ?good ?xs]) (use len' in simp_all)
  have bad: "buff_inv ?bad" "content ?bad = content s" "tail_in_place ?bad \<longleftrightarrow> tail_in_place s"
    using s(2) by (simp_all add: buff_inv_def content_def tail_in_place_def)
  have conf: "same_config ?good obj" "same_config ?bad obj" using s(4) by (simp_all add: same_config_def)
  have run: "buffResize m (Some obj) len = (if can_alloc m (unat n) then Some (Some ?good, 1) else Some (Some ?bad, 0))"
    using s(1) buf by (simp add: buffResize_def Let_def n_def)
  show ?thesis
  proof (cases "can_alloc m (unat n)")
    case True
    show ?thesis
      by (rule that [of ?good 1]) (use run True good conf s n in simp_all)
  next
    case False
    show ?thesis
      by (rule that [of ?bad 0]) (use run False bad conf s n in simp_all)
  qed
qed

lemma CheckAndResize_ok:
  assumes inv: "buff_inv obj"
  obtains obj' where "CheckAndResize m (Some obj) = Some (Some obj')" "buff_inv obj'"
    "content obj' = content obj" "same_config obj' obj" "bsize obj' = bsize obj"
    "tail_in_place obj \<longrightarrow> tail_in_place obj'" "head obj = tail obj \<longrightarrow> obj' = obj"
proof -
  let ?c = "if head obj - tail obj < ReallocAdjustment obj then ReallocAdjustment obj
            else head obj - tail obj"
  show ?thesis
  proof (cases "head obj \<noteq> tail obj \<and> markHead obj = 0 \<and> ?c < bsize obj div 4")
    case False
    then have "CheckAndResize m (Some obj) = Some (Some obj)"
      by (auto simp: CheckAndResize_def buffGetSize_def buffGetLength_def Let_def)
    then show ?thesis using that [of obj] inv by simp
  next
    case True
    then have ht: "head obj \<noteq> tail obj" "markHead obj = 0" and c4: "?c < bsize obj div 4" by auto
    have small: "\<not> bsize obj \<le> ?c * 2"
    proof -
      have "unat ?c < unat (bsize obj) div 4"
        using c4 by (simp only: word_less_nat_alt unat_div_distrib) simp
      moreover from this have "unat (?c * 2) = unat ?c * 2"
      proof -
        have "unat (bsize obj) < 2 ^ LENGTH(32)" by (rule unsigned_less)
        with \<open>unat ?c < unat (bsize obj) div 4\<close> have "unat ?c * 2 < 2 ^ 32" by simp
        then show ?thesis by (simp only: unat_word_ariths) simp
      qed
      ultimately show ?thesis by (simp only: word_le_nat_alt)
    qed
    obtain obj' r where r: "buffResize m (Some obj) (?c * 2) = Some (Some obj', r)" "buff_inv obj'"
      "content obj' = content obj" "same_config obj' obj" "tail_in_place obj'"
      "bsize obj' = bsize obj \<or> bsize obj' = ?c * 2 \<and> bsize obj \<le> ?c * 2"
      using buffResize_ok [OF inv] by blast
    have "CheckAndResize m (Some obj) = Some (Some obj')"
      using ht c4 r(1)
      by (simp only: CheckAndResize_def buffGetSize_def buffGetLength_def Let_def option.case if_True if_False)
         simp
    then show ?thesis using that [of obj'] r small ht by blast
  qed
qed

subsection \<open>Retrieving a block\<close>

lemma content_split:
  assumes inv: "buff_inv obj" and k: "k \<le> unat (head obj) - unat (tail obj)"
    and obj': "head obj' = head obj" "lastHead obj' = lastHead obj" "bsize obj' = bsize obj"
      "unat (tail obj') = unat (tail obj) + k"
    and buf: "buffer obj' = (buffer obj)[unat (tail obj) := savedTailChar obj, unat (tail obj) + k := c]"
    and saved: "0 < k \<Longrightarrow> unat (tail obj) + k < unat (head obj) \<Longrightarrow>
      savedTailChar obj' = buffer obj ! (unat (tail obj) + k)"
      "k = 0 \<Longrightarrow> savedTailChar obj' = savedTailChar obj"
  shows "buff_inv obj' \<and> content obj' = drop k (content obj)
    \<and> take k (drop (unat (tail obj)) (buffer obj')) = take k (content obj)"
proof -
  have inv': "buff_inv obj'" using inv k obj' buf by (auto simp: buff_inv_nat)
  have "content obj' = drop k (content obj)"
  proof (rule content_eqI [OF inv'])
    show "length (drop k (content obj)) = unat (head obj') - unat (tail obj')"
      using obj' by (simp add: length_content [OF inv])
    fix i assume "i < unat (head obj') - unat (tail obj')"
    then show "drop k (content obj) ! i
        = (if i = 0 then savedTailChar obj' else buffer obj' ! (unat (tail obj') + i))"
      using inv k obj' buf saved length_content [OF inv]
      by (auto simp: content_nth [OF inv] buff_inv_nat nth_list_update add.assoc)
  qed
  moreover have "take k (drop (unat (tail obj)) (buffer obj')) = take k (content obj)"
    by (rule nth_equalityI)
       (use inv k buf in \<open>auto simp: buff_inv_nat length_content content_nth nth_list_update\<close>)
  ultimately show ?thesis using inv' by simp
qed

lemma buffGetBlockFromTail_ok:
  assumes inv: "buff_inv obj"
  obtains obj' n where "buffGetBlockFromTail m (Some obj) True len
      = Some (Some obj', n, take (unat len) (content obj))"
    "unat n = min (unat len) (length (content obj))" "buff_inv obj'"
    "content obj' = drop (unat len) (content obj)" "same_config obj' obj" "bsize obj' = bsize obj"
    "unat n \<le> unat (tail obj')"
    "take (unat n) (drop (unat (tail obj') - unat n) (buffer obj')) = take (unat len) (content obj)"
proof -
  obtain o1 where o1: "CheckAndResize m (Some obj) = Some (Some o1)" "buff_inv o1"
    "content o1 = content obj" "same_config o1 obj" "bsize o1 = bsize obj"
    using CheckAndResize_ok [OF inv] by blast
  show ?thesis
  proof (cases "head o1 = tail o1 \<or> len < 1")
    case True
    then have run: "buffGetBlockFromTail m (Some obj) True len = Some (Some o1, 0, [])"
      using o1(1) by (simp add: buffGetBlockFromTail_def)
    have z: "content o1 = [] \<or> len = 0"
      using True content_empty [OF o1(2)] by (auto simp: word_less_nat_alt unat_eq_0)
    show ?thesis by (rule that [of o1 0]) (use run z o1 in auto)
  next
    case False
    obtain n where n_def: "(if len < head o1 - tail o1 then len else head o1 - tail o1) = n" by simp
    let ?avail = "unat (head o1) - unat (tail o1)"
    let ?buf = "(buffer o1)[unat (tail o1) := savedTailChar o1]"
    have n: "unat n = min (unat len) ?avail"
      using n_def unat_head_tail [OF o1(2)] by (auto simp: word_less_nat_alt split: if_splits)
    have pos: "0 < unat n"
      using False n o1(2) by (auto simp: word_less_nat_alt buff_inv_nat word_unat_eq_iff)
    have inv1: "unat (tail o1) \<le> unat (head o1)" "unat (head o1) < length (buffer o1)"
      "length (buffer o1) = unat (bsize o1)" using o1(2) by (simp_all add: buff_inv_nat)
    have new: "unat (tail o1 + n) = unat (tail o1) + unat n"
    proof -
      have "unat (bsize o1) < 2 ^ LENGTH(32)" by (rule unsigned_less)
      then show ?thesis using n inv1 by (simp add: unat_word_ariths)
    qed
    let ?o = "o1\<lparr>buffer := ?buf[unat (tail o1) + unat n := NUL], tail := tail o1 + n,
      lineSearchOffset := 0, savedTailChar := ?buf ! (unat (tail o1) + unat n),
      countRetrievals := countRetrievals o1 + 1\<rparr>"
    have run: "buffGetBlockFromTail m (Some obj) True len
        = Some (Some ?o, n, take (unat n) (drop (unat (tail o1)) (buffer ?o)))"
      using o1(1) False inv1 n new
      by (simp add: buffGetBlockFromTail_def Let_def n_def)
    have split: "buff_inv ?o \<and> content ?o = drop (unat n) (content o1)
        \<and> take (unat n) (drop (unat (tail o1)) (buffer ?o)) = take (unat n) (content o1)"
      by (rule content_split [OF o1(2)]) (use n new pos in simp_all)
    have "take (unat n) (content o1) = take (unat len) (content o1)"
      "drop (unat n) (content o1) = drop (unat len) (content o1)"
      using n length_content [OF o1(2)] by (auto simp: min_def)
    moreover have "same_config ?o obj" "bsize ?o = bsize obj"
      using o1 by (simp_all add: same_config_def)
    ultimately show ?thesis
      by (intro that [of ?o n]) (use run split o1 n new length_content [OF o1(2)] in simp_all)
  qed
qed

text \<open>The state after a retrieval from the tail, for the operations that can follow it.\<close>

lemma buffGetUndoTail_ok:
  assumes inv: "buff_inv obj" and len: "unat len \<le> unat (tail obj)"
  obtains obj' where "buffGetUndoTail (Some obj) len = Some (Some obj', 1)" "buff_inv obj'"
    "content obj' = take (unat len) (drop (unat (tail obj) - unat len) (buffer obj)) @ content obj"
    "same_config obj' obj"
proof -
  let ?t = "unat (tail obj)" and ?l = "unat len"
  let ?buf = "(buffer obj)[?t := savedTailChar obj]"
  let ?o = "obj\<lparr>buffer := ?buf[?t - ?l := NUL], tail := tail obj - len, savedTailChar := ?buf ! (?t - ?l)\<rparr>"
  have b: "?t < length (buffer obj)" "?t \<le> unat (head obj)" "unat (head obj) < length (buffer obj)"
    using inv by (auto simp: buff_inv_nat)
  have t': "unat (tail obj - len) = ?t - ?l" using len by (simp add: unat_sub word_le_nat_alt)
  have run: "buffGetUndoTail (Some obj) len = Some (Some ?o, 1)"
    using b len t' by (simp add: buffGetUndoTail_def word_less_nat_alt)
  have inv': "buff_inv ?o" using inv t' by (auto simp: buff_inv_nat)
  have "content ?o = take ?l (drop (?t - ?l) (buffer obj)) @ content obj"
  proof (rule content_eqI [OF inv'])
    show "length (take ?l (drop (?t - ?l) (buffer obj)) @ content obj) = unat (head ?o) - unat (tail ?o)"
      using b len t' by (simp add: length_content [OF inv])
    fix i assume "i < unat (head ?o) - unat (tail ?o)"
    then have i: "i < unat (head obj) - (?t - ?l)" using t' by simp
    then show "(take ?l (drop (?t - ?l) (buffer obj)) @ content obj) ! i
        = (if i = 0 then savedTailChar ?o else buffer ?o ! (unat (tail ?o) + i))"
      using b len t' length_content [OF inv]
      by (auto simp: nth_append content_nth [OF inv] nth_list_update)
  qed
  then show ?thesis using that [OF run inv'] by (simp add: same_config_def)
qed

lemma buffGetBlockFromHead_ok:
  assumes inv: "buff_inv obj" and place: "tail_in_place obj \<or> unat len < length (content obj)"
  obtains obj' n where "buffGetBlockFromHead m (Some obj) True len
      = Some (Some obj', n, drop (length (content obj) - unat len) (content obj))"
    "unat n = min (unat len) (length (content obj))" "buff_inv obj'"
    "content obj' = take (length (content obj) - unat len) (content obj)" "same_config obj' obj"
    "bsize obj' = bsize obj" "tail_in_place obj \<longrightarrow> tail_in_place obj'"
proof -
  obtain o1 where o1: "CheckAndResize m (Some obj) = Some (Some o1)" "buff_inv o1"
    "content o1 = content obj" "same_config o1 obj" "bsize o1 = bsize obj"
    "tail_in_place obj \<longrightarrow> tail_in_place o1"
    using CheckAndResize_ok [OF inv] by blast
  show ?thesis
  proof (cases "head o1 = tail o1 \<or> len < 1")
    case True
    then have run: "buffGetBlockFromHead m (Some obj) True len = Some (Some o1, 0, [])"
      using o1(1) by (simp add: buffGetBlockFromHead_def)
    have z: "content o1 = [] \<or> len = 0"
      using True content_empty [OF o1(2)] by (auto simp: word_less_nat_alt unat_eq_0)
    show ?thesis by (rule that [of o1 0]) (use run z o1 in auto)
  next
    case False
    obtain n where n_def: "(if len < head o1 - tail o1 then len else head o1 - tail o1) = n" by simp
    let ?h = "unat (head o1)" and ?t = "unat (tail o1)"
    let ?buf = "(buffer o1)[unat (lastHead o1) := savedHeadChar o1]"
    let ?new = "?h - unat n"
    have n: "unat n = min (unat len) (?h - ?t)"
      using n_def unat_head_tail [OF o1(2)] by (auto simp: word_less_nat_alt split: if_splits)
    have pos: "0 < unat n" "?t < ?h"
      using False n o1(2) by (auto simp: word_less_nat_alt buff_inv_nat word_unat_eq_iff)
    have b: "?t \<le> ?h" "?h < length (buffer o1)" "?h \<le> unat (lastHead o1)"
      "unat (lastHead o1) < length (buffer o1)" using o1(2) by (simp_all add: buff_inv_nat)
    have new: "unat (head o1 - n) = ?new" using n by (simp add: unat_sub word_le_nat_alt)
    let ?o = "o1\<lparr>buffer := ?buf[?h := NUL], savedHeadChar := ?buf ! ?h, lastHead := head o1,
      head := head o1 - n, lineSearchOffset := 0, countRetrievals := countRetrievals o1 + 1\<rparr>"
    have run: "buffGetBlockFromHead m (Some obj) True len
        = Some (Some ?o, n, take (unat n) (drop ?new (buffer ?o)))"
      using o1(1) False b new by (simp add: buffGetBlockFromHead_def Let_def n_def)
    have inv': "buff_inv ?o" using o1(2) n new by (auto simp: buff_inv_nat)
    have lc: "length (content o1) = ?h - ?t" by (rule length_content [OF o1(2)])
    have place1: "tail_in_place o1 \<or> unat n < length (content o1)"
      using place o1 n lc by auto
    have bytes: "take (unat n) (drop ?new (buffer ?o)) = drop (length (content o1) - unat n) (content o1)"
    proof (rule nth_equalityI)
      show "length (take (unat n) (drop ?new (buffer ?o)))
          = length (drop (length (content o1) - unat n) (content o1))"
        using b n lc by simp
      fix i assume "i < length (take (unat n) (drop ?new (buffer ?o)))"
      then have i: "i < unat n" by simp
      have c: "content o1 ! (?h - ?t - unat n + i)
          = (if ?h - ?t - unat n + i = 0 then savedTailChar o1 else buffer o1 ! (?new + i))"
      proof -
        have "unat n \<le> ?h - ?t" using n by simp
        then have "?h - ?t - unat n + i < ?h - ?t" "?t + (?h - ?t - unat n + i) = ?new + i"
          using i b by linarith+
        then show ?thesis by (simp only: content_nth [OF o1(2)])
      qed
      have "content o1 ! (?h - ?t - unat n + i) = buffer o1 ! (?new + i)"
      proof (cases "?h - ?t - unat n + i = 0")
        case True
        then have "tail_in_place o1" "?new + i = ?t" using place1 lc n b by auto
        then show ?thesis using True c pos by (auto simp: tail_in_place_def)
      next
        case False
        then show ?thesis using c by (simp only: if_False)
      qed
      moreover have "?buf[?h := NUL] ! (?new + i) = buffer o1 ! (?new + i)"
      proof -
        have "?new + i < ?h" "?new + i < unat (lastHead o1)" using i n b by linarith+
        then show ?thesis by simp
      qed
      moreover have "length (content o1) - unat n + i = ?h - ?t - unat n + i" "?new \<le> length (buffer o1)"
        using lc b by simp_all
      ultimately show "take (unat n) (drop ?new (buffer ?o)) ! i
          = drop (length (content o1) - unat n) (content o1) ! i"
        using i lc b by simp
    qed
    have cont: "content ?o = take (length (content o1) - unat n) (content o1)"
    proof (rule content_eqI [OF inv'])
      have nle: "unat n \<le> ?h - ?t" using n by simp
      show "length (take (length (content o1) - unat n) (content o1)) = unat (head ?o) - unat (tail ?o)"
        using nle lc new by simp
      fix i assume "i < unat (head ?o) - unat (tail ?o)"
      then have "i < ?h - ?t - unat n" "?t + i < ?h" "?t + i < unat (lastHead o1)"
        using new b by auto
      then show "take (length (content o1) - unat n) (content o1) ! i
          = (if i = 0 then savedTailChar ?o else buffer ?o ! (unat (tail ?o) + i))"
        using lc by (simp add: content_nth [OF o1(2)])
    qed
    have ne: "?t < length (buffer o1)" "?t \<noteq> ?h" "?t \<noteq> unat (lastHead o1)" "head o1 \<noteq> tail o1"
      using b pos by auto
    have place': "tail_in_place o1 \<longrightarrow> tail_in_place ?o"
      using ne by (simp add: tail_in_place_def)
    have n': "unat n = min (unat len) (length (content o1))" using n lc by simp
    have eqs: "length (content o1) - unat n = length (content o1) - unat len"
      unfolding n' by (simp add: min_def)
    have conf: "same_config ?o obj" using o1(4) by (simp add: same_config_def)
    show ?thesis
      by (rule that [of ?o n, OF _ n' [unfolded o1(3)] inv' _ conf])
         (simp_all only: run bytes cont o1(3) eqs [unfolded o1(3)], use o1 place' in simp_all)
  qed
qed

lemma buffGetBuffer_ok:
  assumes inv: "buff_inv obj"
  obtains obj' n where "buffGetBuffer m (Some obj) True = Some (Some obj', n, content obj)"
    "unat n = length (content obj)" "buff_inv obj'" "content obj' = []" "same_config obj' obj"
proof -
  obtain o1 where o1: "CheckAndResize m (Some obj) = Some (Some o1)" "buff_inv o1"
    "content o1 = content obj" "same_config o1 obj"
    using CheckAndResize_ok [OF inv] by blast
  show ?thesis
  proof (cases "head o1 = tail o1")
    case True
    then show ?thesis
      using o1 content_empty [OF o1(2)] by (intro that [of o1 0]) (simp_all add: buffGetBuffer_def)
  next
    case False
    let ?o = "o1\<lparr>buffer := (buffer o1)[unat (tail o1) := savedTailChar o1], lineSearchOffset := 0,
      tail := head o1, countRetrievals := countRetrievals o1 + 1\<rparr>"
    have "unat (tail o1) < length (buffer o1)" using o1(2) by (auto simp: buff_inv_nat)
    then have run: "buffGetBuffer m (Some obj) True = Some (Some ?o, head o1 - tail o1, content obj)"
      using o1 False unat_head_tail [OF o1(2)]
      by (simp add: buffGetBuffer_def Let_def content_def)
    have inv': "buff_inv ?o" using o1(2) by (auto simp: buff_inv_nat)
    show ?thesis
      by (rule that [OF run _ inv'])
         (use content_empty [OF inv'] o1 length_content [OF o1(2)] unat_head_tail [OF o1(2)]
          in \<open>simp_all add: same_config_def\<close>)
  qed
qed

subsection \<open>Retrieving a line\<close>

text \<open>The length of the first line of a text, its line end (CR, LF or CR LF) included; 0 if it has none.\<close>

fun line_len :: "string \<Rightarrow> nat" where
  "line_len [] = 0"
| "line_len (c # cs) = (if c = CR then (if cs \<noteq> [] \<and> hd cs = LF then 2 else 1)
     else if c = LF then 1 else if line_len cs = 0 then 0 else Suc (line_len cs))"

lemma line_len_le: "line_len s \<le> length s"
  by (induction s) (auto simp: Suc_le_eq)

lemma line_len_skip:
  "\<forall>c\<in>set (take i s). c \<noteq> CR \<and> c \<noteq> LF \<Longrightarrow> i \<le> length s \<Longrightarrow>
   line_len s = (if line_len (drop i s) = 0 then 0 else i + line_len (drop i s))"
proof (induction s arbitrary: i)
  case (Cons c cs)
  show ?case
  proof (cases i)
    case (Suc k)
    then have "line_len cs = (if line_len (drop k cs) = 0 then 0 else k + line_len (drop k cs))"
      using Cons.prems by (intro Cons.IH) simp_all
    then show ?thesis using Suc Cons.prems by simp
  qed simp
qed simp

lemma eolScan_line_len:
  assumes "take n (drop t buf) = s" and "t + n < length buf" and "i \<le> n"
    and "s \<noteq> [] \<Longrightarrow> last s \<noteq> CR"
  shows "\<exists>j k. eolScan buf t i n = Some (j, k) \<and>
    (if line_len (drop i s) = 0 then j = n \<and> k = 0
     else 0 < k \<and> j + k = i + line_len (drop i s))"
  using assms(3)
proof (induction "n - i" arbitrary: i)
  case 0
  then show ?case using assms(1) by (auto simp: eolScan.simps)
next
  case (Suc d)
  have len: "length s = n" using assms(1,2) by auto
  have i: "i < n" and d: "d = n - Suc i" using Suc.hyps(2) by simp_all
  have nth: "s ! k = buf ! (t + k)" if "k < n" for k using assms(1,2) that by auto
  have drop: "drop i s = buf ! (t + i) # drop (Suc i) s"
    using i len nth by (simp add: Cons_nth_drop_Suc [symmetric])
  have rd: "rd buf (t + i) = Some (buf ! (t + i))" using i assms(2) by simp
  show ?case
  proof (cases "buf ! (t + i) = CR")
    case True
    have "i + 1 < n"
    proof (rule ccontr)
      assume "\<not> i + 1 < n"
      then have "n = Suc i" "s \<noteq> []" using i len by auto
      then show False using True nth [of i] len assms(4) by (simp add: last_conv_nth)
    qed
    then have "drop (Suc i) s \<noteq> [] \<and> hd (drop (Suc i) s) = buf ! (t + i + 1)"
      using len nth [of "i + 1"] by (simp add: hd_drop_conv_nth)
    moreover have "rd buf (t + i + 1) = Some (buf ! (t + i + 1))" using i assms(2) by simp
    ultimately show ?thesis
      using True i rd by (subst eolScan.simps) (auto simp: drop)
  next
    case nCR: False
    show ?thesis
    proof (cases "buf ! (t + i) = LF")
      case True
      then show ?thesis using nCR i rd by (subst eolScan.simps) (simp add: drop)
    next
      case False
      obtain j k where "eolScan buf t (Suc i) n = Some (j, k)"
          "if line_len (drop (Suc i) s) = 0 then j = n \<and> k = 0
           else 0 < k \<and> j + k = Suc i + line_len (drop (Suc i) s)"
        using Suc.hyps(1) [OF d] i by auto
      moreover have "eolScan buf t i n = eolScan buf t (Suc i) n"
        using nCR False i rd by (subst eolScan.simps) simp
      ultimately show ?thesis
        using nCR False by (intro exI [of _ j] exI [of _ k]) (auto simp: drop split: if_splits)
    qed
  qed
qed

definition line_scan_ok :: "object \<Rightarrow> bool" where
  "line_scan_ok obj \<longleftrightarrow> unat (lineSearchOffset obj) \<le> length (content obj)
     \<and> (\<forall>c\<in>set (take (unat (lineSearchOffset obj)) (content obj)). c \<noteq> CR \<and> c \<noteq> LF)"

lemma lineSearchOffset_CheckAndResize:
  assumes inv: "buff_inv obj" and run: "CheckAndResize m (Some obj) = Some (Some obj')"
  shows "lineSearchOffset obj' = lineSearchOffset obj"
proof (cases "head obj = tail obj")
  case True
  then show ?thesis using run by (simp add: CheckAndResize_def)
next
  case False
  then have "resizeSlide obj = Some (slid obj)" using resizeSlide_slid [OF inv] by simp
  then show ?thesis
    using run False
    by (auto simp: CheckAndResize_def buffResize_def Let_def slid_def split: if_splits)
qed

lemma buffGetLine_ok:
  assumes inv: "buff_inv obj" and scan: "line_scan_ok obj"
    and cr: "content obj \<noteq> [] \<Longrightarrow> last (content obj) \<noteq> CR"
  obtains obj' n where "buffGetLine m (Some obj) True
      = Some (Some obj', n, take (line_len (content obj)) (content obj))"
    "unat n = line_len (content obj)" "buff_inv obj'"
    "content obj' = drop (line_len (content obj)) (content obj)" "line_scan_ok obj'"
    "same_config obj' obj"
proof -
  obtain o1 where o1: "CheckAndResize m (Some obj) = Some (Some o1)" "buff_inv o1"
    "content o1 = content obj" "same_config o1 obj"
    using CheckAndResize_ok [OF inv] by blast
  have off: "lineSearchOffset o1 = lineSearchOffset obj"
    by (rule lineSearchOffset_CheckAndResize [OF inv o1(1)])
  let ?h = "unat (head o1)" and ?t = "unat (tail o1)" and ?s = "content o1"
  show ?thesis
  proof (cases "head o1 = tail o1")
    case True
    then have run: "buffGetLine m (Some obj) True = Some (Some o1, 0, [])"
      using o1(1) by (simp add: buffGetLine_def)
    have "?s = []" using True content_empty [OF o1(2)] by simp
    then show ?thesis
      using o1 run scan off by (intro that [of o1 0]) (simp_all add: line_scan_ok_def)
  next
    case False
    let ?buf = "(buffer o1)[?t := savedTailChar o1]"
    have b: "?t \<le> ?h" "?h < length (buffer o1)" "length (buffer o1) = unat (bsize o1)"
      using o1(2) by (simp_all add: buff_inv_nat)
    have s: "take (?h - ?t) (drop ?t ?buf) = ?s" by (simp add: content_def)
    have ls: "length ?s = ?h - ?t" by (rule length_content [OF o1(2)])
    let ?i = "unat (lineSearchOffset o1)"
    have i: "?i \<le> ?h - ?t" and clean: "\<forall>c\<in>set (take ?i ?s). c \<noteq> CR \<and> c \<noteq> LF"
      using scan o1(3) off ls by (simp_all add: line_scan_ok_def)
    have skip: "line_len ?s = (if line_len (drop ?i ?s) = 0 then 0 else ?i + line_len (drop ?i ?s))"
      using line_len_skip [OF clean] i ls by simp
    obtain j k where jk: "eolScan ?buf ?t ?i (?h - ?t) = Some (j, k)"
      "if line_len (drop ?i ?s) = 0 then j = ?h - ?t \<and> k = 0
       else 0 < k \<and> j + k = ?i + line_len (drop ?i ?s)"
      using eolScan_line_len [OF s _ i] b cr o1(3) by auto
    have small: "?h - ?t < 2 ^ 32"
    proof -
      have "?h < 2 ^ LENGTH(32)" by (rule unsigned_less)
      then show ?thesis by simp
    qed
    show ?thesis
    proof (cases "line_len (drop ?i ?s) = 0")
      case True
      let ?o = "o1\<lparr>buffer := ?buf, lineSearchOffset := word_of_nat (?h - ?t)\<rparr>"
      have run: "buffGetLine m (Some obj) True = Some (Some ?o, 0, [])"
        using o1(1) False b jk True unat_head_tail [OF o1(2)] by (simp add: buffGetLine_def)
      have "buff_inv ?o" "content ?o = content o1"
        using o1(2) by (simp_all add: buff_inv_nat content_def)
      moreover have "line_scan_ok ?o"
      proof -
        have "set ?s = set (take ?i ?s) \<union> set (drop ?i ?s)" by (metis append_take_drop_id set_append)
        moreover have "\<forall>c\<in>set s. c \<noteq> CR \<and> c \<noteq> LF" if "line_len s = 0" for s
          using that by (induction s) (auto split: if_splits)
        ultimately have "\<forall>c\<in>set ?s. c \<noteq> CR \<and> c \<noteq> LF" using clean True by blast
        then show ?thesis
          using \<open>content ?o = content o1\<close> ls small by (simp add: line_scan_ok_def unat_of_nat)
      qed
      ultimately show ?thesis
        using skip True o1 run by (intro that [of ?o 0]) (simp_all add: same_config_def)
    next
      case True': False
      let ?n = "word_of_nat (j + k) :: u32"
      have L: "line_len ?s = j + k" using skip jk(2) True' by simp
      have le: "j + k \<le> ?h - ?t" using line_len_le [of ?s] L ls by simp
      have n: "unat ?n = j + k" using le small by (simp add: unat_of_nat del: of_nat_add)
      have new: "unat (tail o1 + ?n) = ?t + (j + k)"
      proof -
        have "?h < 2 ^ LENGTH(32)" by (rule unsigned_less)
        then have "?t + (j + k) < 2 ^ 32" using le b by simp
        then show ?thesis using n by (simp only: unat_word_ariths n) simp
      qed
      let ?o = "o1\<lparr>buffer := ?buf[?t + (j + k) := NUL], tail := tail o1 + ?n, lineSearchOffset := 0,
        savedTailChar := ?buf ! (?t + (j + k)), countRetrievals := countRetrievals o1 + 1\<rparr>"
      have k: "k \<noteq> 0" using jk(2) True' by simp
      have run: "buffGetLine m (Some obj) True
          = Some (Some ?o, ?n, take (j + k) (drop ?t (buffer ?o)))"
        using o1(1) False b jk(1) k le n unat_head_tail [OF o1(2)]
        by (simp add: buffGetLine_def Let_def del: of_nat_add)
      have split: "buff_inv ?o \<and> content ?o = drop (j + k) ?s
          \<and> take (j + k) (drop ?t (buffer ?o)) = take (j + k) ?s"
        by (rule content_split [OF o1(2) le]) (use new k in \<open>simp_all del: of_nat_add\<close>)
      show ?thesis
        by (rule that [of ?o ?n])
           (use run split o1 L n in \<open>simp_all add: same_config_def line_scan_ok_def del: of_nat_add\<close>)
    qed
  qed
qed

subsection \<open>Rewinding to a mark\<close>

text \<open>The block with both saved characters put back, which is what a rewind leaves.\<close>

definition img :: "object \<Rightarrow> string" where
  "img obj = (buffer obj)[unat (lastHead obj) := savedHeadChar obj, unat (tail obj) := savedTailChar obj]"

datatype retrieval = FromTail u32 | FromHead u32

definition retrieve :: "mem \<Rightarrow> retrieval \<Rightarrow> buff \<Rightarrow> (buff \<times> u32 \<times> string) option" where
  "retrieve m g b = (case g of FromTail n \<Rightarrow> buffGetBlockFromTail m b True n
     | FromHead n \<Rightarrow> buffGetBlockFromHead m b True n)"

primrec retrieves :: "mem \<Rightarrow> retrieval list \<Rightarrow> buff \<Rightarrow> buff option" where
  "retrieves m [] b = Some b"
| "retrieves m (g # gs) b = do { (b', _, _) \<leftarrow> retrieve m g b; retrieves m gs b' }"

definition same_mark :: "object \<Rightarrow> object \<Rightarrow> bool" where
  "same_mark a b \<longleftrightarrow> markHead a = markHead b \<and> markLastHead a = markLastHead b
     \<and> markTail a = markTail b \<and> markSavedTailChar a = markSavedTailChar b
     \<and> markSavedHeadChar a = markSavedHeadChar b"

text \<open>What retrievals keep of a buffer marked as \<open>obj0\<close>.\<close>

definition since_mark :: "object \<Rightarrow> object \<Rightarrow> bool" where
  "since_mark obj0 obj \<longleftrightarrow> buff_inv obj \<and> markHead obj \<noteq> 0 \<and> same_mark obj obj0
     \<and> bsize obj = bsize obj0
     \<and> (\<forall>p < length (buffer obj). p \<noteq> unat (lastHead obj0) \<longrightarrow> img obj ! p = img obj0 ! p)
     \<and> (lastHead obj = lastHead obj0 \<or> head obj < lastHead obj)"

lemma CheckAndResize_marked: "markHead obj \<noteq> 0 \<Longrightarrow> CheckAndResize m (Some obj) = Some (Some obj)"
  by (simp add: CheckAndResize_def)

lemma FromTail_since_mark:
  assumes since: "since_mark obj0 obj"
  shows "\<exists>obj' r. buffGetBlockFromTail m (Some obj) True len = Some (Some obj', r) \<and> since_mark obj0 obj'"
proof (cases "head obj = tail obj \<or> len < 1")
  case True
  then show ?thesis
    using since by (simp add: buffGetBlockFromTail_def CheckAndResize_marked since_mark_def)
next
  case False
  have inv: "buff_inv obj" and mark: "markHead obj \<noteq> 0" using since by (simp_all add: since_mark_def)
  obtain n where n_def: "(if len < head obj - tail obj then len else head obj - tail obj) = n" by simp
  let ?t = "unat (tail obj)" and ?h = "unat (head obj)" and ?l = "unat (lastHead obj)"
  have b: "?t \<le> ?h" "?h < length (buffer obj)" "?h \<le> ?l" "?l < length (buffer obj)"
    "length (buffer obj) = unat (bsize obj)" using inv by (simp_all add: buff_inv_nat)
  have n: "unat n \<le> ?h - ?t"
    using n_def unat_head_tail [OF inv] by (auto simp: word_less_nat_alt split: if_splits)
  have pos: "?t < ?h" using False b by (auto simp: word_unat_eq_iff)
  have new: "unat (tail obj + n) = ?t + unat n"
  proof -
    have "unat (bsize obj) < 2 ^ LENGTH(32)" by (rule unsigned_less)
    then show ?thesis using n b by (simp add: unat_word_ariths)
  qed
  let ?nt = "?t + unat n"
  let ?buf = "(buffer obj)[?t := savedTailChar obj]"
  let ?o = "obj\<lparr>buffer := ?buf[?nt := NUL], tail := tail obj + n, lineSearchOffset := 0,
    savedTailChar := ?buf ! ?nt, countRetrievals := countRetrievals obj + 1\<rparr>"
  have nt: "?nt \<le> ?h" using n b by simp
  have run: "\<exists>r. buffGetBlockFromTail m (Some obj) True len = Some (Some ?o, r)"
    using False b nt new mark
    by (simp add: buffGetBlockFromTail_def CheckAndResize_marked Let_def n_def)
  have inv': "buff_inv ?o" using inv nt new by (auto simp: buff_inv_nat)
  have "img ?o ! p = img obj0 ! p" if p: "p < length (buffer obj)" "p \<noteq> unat (lastHead obj0)" for p
  proof -
    have "img ?o ! p = img obj ! p"
    proof (cases "?l = ?nt \<and> p = ?l")
      case True
      then have "\<not> head obj < lastHead obj" using nt b by (simp add: word_less_nat_alt)
      then have "lastHead obj = lastHead obj0" using since by (auto simp: since_mark_def)
      then show ?thesis using True p by simp
    next
      case False
      then show ?thesis
        using p b pos nt new by (auto simp: img_def nth_list_update)
    qed
    then show ?thesis using since p by (simp add: since_mark_def)
  qed
  then have "since_mark obj0 ?o"
    using since inv' by (auto simp: since_mark_def same_mark_def)
  then show ?thesis using run by blast
qed

lemma FromHead_since_mark:
  assumes since: "since_mark obj0 obj"
  shows "\<exists>obj' r. buffGetBlockFromHead m (Some obj) True len = Some (Some obj', r) \<and> since_mark obj0 obj'"
proof (cases "head obj = tail obj \<or> len < 1")
  case True
  then show ?thesis
    using since by (simp add: buffGetBlockFromHead_def CheckAndResize_marked since_mark_def)
next
  case False
  have inv: "buff_inv obj" and mark: "markHead obj \<noteq> 0" using since by (simp_all add: since_mark_def)
  obtain n where n_def: "(if len < head obj - tail obj then len else head obj - tail obj) = n" by simp
  let ?t = "unat (tail obj)" and ?h = "unat (head obj)" and ?l = "unat (lastHead obj)"
  have b: "?t \<le> ?h" "?h < length (buffer obj)" "?h \<le> ?l" "?l < length (buffer obj)"
    using inv by (simp_all add: buff_inv_nat)
  have n: "0 < unat n" "unat n \<le> ?h - ?t"
    using False n_def unat_head_tail [OF inv] b
    by (auto simp: word_less_nat_alt word_unat_eq_iff split: if_splits)
  have new: "unat (head obj - n) = ?h - unat n" using n by (simp add: unat_sub word_le_nat_alt)
  let ?buf = "(buffer obj)[?l := savedHeadChar obj]"
  let ?o = "obj\<lparr>buffer := ?buf[?h := NUL], savedHeadChar := ?buf ! ?h, lastHead := head obj,
    head := head obj - n, lineSearchOffset := 0, countRetrievals := countRetrievals obj + 1\<rparr>"
  have run: "\<exists>r. buffGetBlockFromHead m (Some obj) True len = Some (Some ?o, r)"
    using False b mark
    by (simp add: buffGetBlockFromHead_def CheckAndResize_marked Let_def n_def)
  have inv': "buff_inv ?o" using inv n new by (auto simp: buff_inv_nat)
  have "img ?o = img obj" using b by (simp add: img_def)
  moreover have "head ?o < lastHead ?o" using n new b by (simp add: word_less_nat_alt)
  ultimately have "since_mark obj0 ?o"
    using since inv' by (auto simp: since_mark_def same_mark_def)
  then show ?thesis using run by blast
qed

lemma retrieve_since_mark:
  "since_mark obj0 obj \<Longrightarrow>
   \<exists>obj' r. retrieve m g (Some obj) = Some (Some obj', r) \<and> since_mark obj0 obj'"
  using FromTail_since_mark FromHead_since_mark by (cases g) (simp_all only: retrieve_def retrieval.case)

lemma retrieves_since_mark:
  "since_mark obj0 obj \<Longrightarrow> \<exists>obj'. retrieves m gs (Some obj) = Some (Some obj') \<and> since_mark obj0 obj'"
proof (induction gs arbitrary: obj)
  case (Cons g gs)
  obtain obj1 r where "retrieve m g (Some obj) = Some (Some obj1, r)" "since_mark obj0 obj1"
    using retrieve_since_mark [OF Cons.prems] by blast
  then show ?case using Cons.IH [of obj1] by (cases r) simp
qed simp

lemma buffMark_since_mark:
  assumes "buff_inv obj" and "head obj \<noteq> 0" and "buffMark (Some obj) = Some o1"
  shows "since_mark o1 o1"
proof -
  have "buff_inv o1" "markHead o1 \<noteq> 0"
    using assms by (auto simp: buffMark_def buff_inv_def)
  then show ?thesis by (simp add: since_mark_def same_mark_def)
qed

lemma buffRewindToMark_ok:
  assumes inv: "buff_inv obj0" and mark: "since_mark o1 obj"
    and o1: "buffMark (Some obj0) = Some o1"
  shows "\<exists>obj'. buffRewindToMark (Some obj) = Some (Some obj') \<and> buff_inv obj' \<and> content obj' = content obj0"
proof -
  have o1': "markHead o1 = head obj0" "markTail o1 = tail obj0" "markSavedTailChar o1 = savedTailChar obj0"
    "markLastHead o1 = lastHead obj0" "img o1 = img obj0" "lastHead o1 = lastHead obj0" "bsize o1 = bsize obj0"
    using o1 by (auto simp: buffMark_def img_def)
  have b: "unat (lastHead obj) < length (buffer obj)" "unat (tail obj) < length (buffer obj)"
    "length (buffer obj) = unat (bsize obj0)"
    using mark o1' by (auto simp: since_mark_def buff_inv_nat)
  have b0: "unat (head obj0) \<le> unat (lastHead obj0)" "unat (head obj0) < unat (bsize obj0)"
    "length (buffer obj0) = unat (bsize obj0)"
    using inv by (simp_all add: buff_inv_nat)
  let ?o = "obj\<lparr>buffer := img obj, head := markHead obj, lastHead := markLastHead obj,
    tail := markTail obj, savedTailChar := markSavedTailChar obj,
    savedHeadChar := markSavedHeadChar obj, markHead := 0, markLastHead := 0, markTail := 0,
    markSavedTailChar := NUL, markSavedHeadChar := NUL\<rparr>"
  have run: "buffRewindToMark (Some obj) = Some (Some ?o)"
    using b by (simp add: buffRewindToMark_def img_def)
  have same: "markHead obj = head obj0" "markTail obj = tail obj0" "markSavedTailChar obj = savedTailChar obj0"
    "markLastHead obj = lastHead obj0" "bsize obj = bsize obj0"
    using mark o1' by (simp_all add: since_mark_def same_mark_def)
  have len: "length (img obj) = unat (bsize obj0)" using b by (simp add: img_def)
  have inv': "buff_inv ?o" using inv same len by (simp add: buff_inv_nat)
  have "content ?o = content obj0"
  proof (rule content_eqI [OF inv'])
    show "length (content obj0) = unat (head ?o) - unat (tail ?o)"
      using same by (simp add: length_content [OF inv])
    fix i assume "i < unat (head ?o) - unat (tail ?o)"
    then have i: "i < unat (head obj0) - unat (tail obj0)" using same by simp
    let ?p = "unat (tail obj0) + i"
    have p: "?p < length (buffer obj)" "?p \<noteq> unat (lastHead o1)" using i b b0 o1' by auto
    then have "img obj ! ?p = img obj0 ! ?p" using mark o1' by (simp add: since_mark_def)
    then show "content obj0 ! i
        = (if i = 0 then savedTailChar ?o else buffer ?o ! (unat (tail ?o) + i))"
      using i p b0 o1' same by (simp add: content_nth [OF inv] img_def nth_list_update)
  qed
  then show ?thesis using run inv' by blast
qed

subsection \<open>Properties\<close>

text \<open>A new buffer is empty and well-formed.\<close>

lemma buffCreate_ok:
  assumes "buffCreate m n = Some obj"
  shows "buff_inv obj" "content obj = []" "addType obj = buff_default" "tail_in_place obj"
    "head obj = 0" "bsize obj = max 1 n" "lineEnd obj = [LF]" "lastNormalizedChar obj = NUL"
proof -
  define sz where "sz = (if n < 1 then 1 else n)"
  have "sz = max 1 n" by (cases "n < 1") (simp_all only: sz_def max_def not_le [symmetric] simp_thms if_True if_False)
  moreover have "0 < unat sz" by (auto simp: sz_def word_less_nat_alt)
  ultimately show "buff_inv obj" "content obj = []" "addType obj = buff_default" "tail_in_place obj"
    "head obj = 0" "bsize obj = max 1 n" "lineEnd obj = [LF]" "lastNormalizedChar obj = NUL"
    using assms [unfolded buffCreate_def Let_def, folded sz_def]
    by (auto simp: buff_inv_nat content_def tail_in_place_def split: if_splits)
qed

lemma buffClear_ok:
  assumes "buff_inv obj"
  obtains obj' where "buffClear (Some obj) = Some (Some obj', 1)" "buff_inv obj'" "content obj' = []"
    "same_limits obj' obj" "tail_in_place obj'" "bsize obj' = bsize obj"
proof -
  have "0 < length (buffer obj)" using assms by (auto simp: buff_inv_nat)
  then show ?thesis
    using that assms by (simp add: buffClear_def same_limits_def buff_inv_nat content_def tail_in_place_def)
qed

text \<open>An allocator that grants everything, for the concrete instances.\<close>

definition good_mem :: mem where
  "good_mem = \<lparr>can_alloc = \<lambda>_. True, junk = \<lambda>_. NUL, junk_word = 0\<rparr>"

definition created :: "u32 \<Rightarrow> object" where
  "created n = the (buffCreate good_mem n)"

lemma created: "buffCreate good_mem n = Some (created n)"
  by (simp add: created_def buffCreate_def good_mem_def Let_def)



text \<open>A retrieval from the tail returns the first \<open>len\<close> bytes of the buffer, or all of them if
  there are fewer, and leaves the rest; \<open>buffGetUndoTail\<close> of the returned length puts exactly
  those bytes back.\<close>

theorem buffGetBlockFromTail_undo:
  assumes "buff_inv obj"
  shows "\<exists>obj' n obj''. buffGetBlockFromTail m (Some obj) True len
      = Some (Some obj', n, take (unat len) (content obj))
    \<and> unat n = min (unat len) (length (content obj))
    \<and> buff_inv obj' \<and> content obj' = drop (unat len) (content obj)
    \<and> buffGetUndoTail (Some obj') n = Some (Some obj'', 1)
    \<and> buff_inv obj'' \<and> content obj'' = content obj"
proof -
  obtain obj' n where get: "buffGetBlockFromTail m (Some obj) True len
      = Some (Some obj', n, take (unat len) (content obj))"
    "unat n = min (unat len) (length (content obj))" "buff_inv obj'"
    "content obj' = drop (unat len) (content obj)" "unat n \<le> unat (tail obj')"
    "take (unat n) (drop (unat (tail obj') - unat n) (buffer obj')) = take (unat len) (content obj)"
    using buffGetBlockFromTail_ok [OF assms] by metis
  obtain obj'' where "buffGetUndoTail (Some obj') n = Some (Some obj'', 1)" "buff_inv obj''"
    "content obj'' = take (unat n) (drop (unat (tail obj') - unat n) (buffer obj')) @ content obj'"
    using buffGetUndoTail_ok [OF get(3,5)] by metis
  then show ?thesis using get by (intro exI [of _ obj'] exI [of _ n] exI [of _ obj'']) simp
qed

theorem buffGetBlockFromTail_undo_witness:
  "\<exists>obj' n obj''. buffGetBlockFromTail good_mem (Some (created 4)) True 3 = Some (Some obj', n, [])
    \<and> buffGetUndoTail (Some obj') n = Some (Some obj'', 1) \<and> content obj'' = []"
  using buffGetBlockFromTail_undo [OF buffCreate_ok(1) [OF created [of 4]], of good_mem 3]
    buffCreate_ok(2) [OF created [of 4]] by auto

text \<open>A retrieval from the head returns the last \<open>len\<close> bytes and leaves the others, provided the
  buffer was not also read from the tail before (or the retrieval stays clear of the first byte,
  whose place holds a NUL then).\<close>

theorem buffGetBlockFromHead_takes_last:
  assumes "buff_inv obj" and "tail_in_place obj \<or> unat len < length (content obj)"
  shows "\<exists>obj' n. buffGetBlockFromHead m (Some obj) True len
      = Some (Some obj', n, drop (length (content obj) - unat len) (content obj))
    \<and> unat n = min (unat len) (length (content obj))
    \<and> buff_inv obj' \<and> content obj' = take (length (content obj) - unat len) (content obj)
    \<and> (tail_in_place obj \<longrightarrow> tail_in_place obj')"
  using buffGetBlockFromHead_ok [OF assms, of m] by metis

theorem buffGetBlockFromHead_takes_last_witness:
  "\<exists>obj' n. buffGetBlockFromHead good_mem (Some (created 4)) True 3 = Some (Some obj', n, [])
    \<and> content obj' = [] \<and> tail_in_place obj'"
  using buffGetBlockFromHead_takes_last [OF buffCreate_ok(1), OF created [of 4], of 3 good_mem]
    buffCreate_ok(2,4) [OF created [of 4]] by auto

text \<open>\<open>buffGetLine\<close> returns the first line with its line end (CR, LF or CR LF) and leaves the
  text after it; without a complete line it returns nothing, keeps the text, and remembers how far
  it searched.  (The text must not end with a CR, whose successor the code would look for beyond
  the text.)\<close>

theorem buffGetLine_first_line:
  assumes "buff_inv obj" and "line_scan_ok obj"
    and "content obj \<noteq> [] \<Longrightarrow> last (content obj) \<noteq> CR"
  shows "\<exists>obj' n. buffGetLine m (Some obj) True
      = Some (Some obj', n, take (line_len (content obj)) (content obj))
    \<and> unat n = line_len (content obj) \<and> buff_inv obj' \<and> line_scan_ok obj'
    \<and> content obj' = drop (line_len (content obj)) (content obj)"
  using buffGetLine_ok [OF assms, of m] by metis

theorem buffGetLine_first_line_witness:
  "\<exists>obj' n. buffGetLine good_mem (Some (created 4)) True = Some (Some obj', n, [])
    \<and> unat n = 0 \<and> content obj' = []"
proof -
  have "line_scan_ok (created 4)"
    by (simp add: line_scan_ok_def created_def buffCreate_def good_mem_def Let_def content_def)
  then show ?thesis
    using buffGetLine_first_line [OF buffCreate_ok(1) [OF created [of 4]], of good_mem]
      buffCreate_ok(2) [OF created [of 4]] by auto
qed

text \<open>A marked buffer can be read from both ends, any number of times: \<open>buffRewindToMark\<close> restores
  the contents it had at \<open>buffMark\<close>.\<close>

theorem buffRewindToMark_restores:
  assumes "buff_inv obj" and "head obj \<noteq> 0"
  shows "\<exists>b obj'. retrieves m gs (buffMark (Some obj)) = Some b
    \<and> buffRewindToMark b = Some (Some obj') \<and> buff_inv obj' \<and> content obj' = content obj"
proof -
  obtain o1 where o1: "buffMark (Some obj) = Some o1" by (simp add: buffMark_def)
  obtain o2 where "retrieves m gs (Some o1) = Some (Some o2)" "since_mark o1 o2"
    using retrieves_since_mark [OF buffMark_since_mark [OF assms o1]] by blast
  then show ?thesis using buffRewindToMark_ok [OF assms(1) _ o1] o1 by auto
qed

definition hello :: object where
  "hello = (created 8)\<lparr>buffer := ''hello'' @ [NUL, NUL, NUL], head := 5, lastHead := 5,
     savedTailChar := CHR ''h''\<rparr>"

theorem buffRewindToMark_restores_witness:
  "\<exists>b obj'. retrieves good_mem [FromTail 2, FromHead 1, FromTail 9] (buffMark (Some hello)) = Some b
    \<and> buffRewindToMark b = Some (Some obj') \<and> buff_inv obj' \<and> content obj' = ''hello''"
proof -
  have "buff_inv hello" "head hello \<noteq> 0" "content hello = ''hello''"
    by (simp_all add: hello_def buff_inv_def content_def created_def buffCreate_def good_mem_def Let_def)
  then show ?thesis
    using buffRewindToMark_restores [of hello good_mem "[FromTail 2, FromHead 1, FromTail 9]"] by metis
qed

text \<open>No operation gives memory back: the size check made by every retrieval, meant to shrink a
  large and mostly empty buffer, leaves the block at its size, and \<open>buffResize\<close> to a smaller
  length does too.\<close>

theorem buffers_never_shrink:
  assumes "buff_inv obj"
  shows "(\<exists>obj'. CheckAndResize m (Some obj) = Some (Some obj') \<and> bsize obj' = bsize obj
      \<and> content obj' = content obj)
    \<and> (\<exists>obj' r. buffResize m (Some obj) len = Some (Some obj', r) \<and> bsize obj \<le> bsize obj'
      \<and> content obj' = content obj)"
proof -
  obtain o1 where "CheckAndResize m (Some obj) = Some (Some o1)" "content o1 = content obj"
    "bsize o1 = bsize obj"
    using CheckAndResize_ok [OF assms] by metis
  moreover obtain o2 r where "buffResize m (Some obj) len = Some (Some o2, r)"
    "content o2 = content obj" "bsize o2 = bsize obj \<or> bsize o2 = len \<and> bsize obj \<le> len"
    using buffResize_ok [OF assms] by metis
  ultimately show ?thesis by auto
qed

theorem buffers_never_shrink_witness:
  "(\<exists>obj'. CheckAndResize good_mem (Some hello) = Some (Some obj') \<and> bsize obj' = 8)
   \<and> (\<exists>obj' r. buffResize good_mem (Some hello) 1 = Some (Some obj', r) \<and> 8 \<le> bsize obj')"
proof -
  have "buff_inv hello" "bsize hello = 8"
    by (simp_all add: hello_def buff_inv_def created_def buffCreate_def good_mem_def Let_def)
  then show ?thesis using buffers_never_shrink [of hello good_mem 1] by auto
qed

text \<open>The run: a buffer of 16 bytes with a growth step of 1, "a CR LF yzzx CR" added, a line and three
  bytes read, and a second line asked for.  The size check of that last call moves the two bytes
  left to the front, and the byte after them is the LF of the line already read.\<close>

definition stale_line_run :: "(buff \<times> u32 \<times> string) option" where
  "stale_line_run = do {
     (b1, _) \<leftarrow> buffAdd good_mem (fst (buffReallocAdjustment (buffCreate good_mem 16) 1))
                 (Some (''a'' @ [CR] @ [LF] @ ''yzzx'' @ [CR])) 8;
     (b2, _, _) \<leftarrow> buffGetLine good_mem b1 True;
     (b3, _, _) \<leftarrow> buffGetBlockFromTail good_mem b2 True 3;
     buffGetLine good_mem b3 True }"

text \<open>A line that ends with a CR can be returned with a stale line feed from beyond the text; the
  tail then passes the head and the length of the empty buffer reads as 2^32 - 1.\<close>

theorem buffGetLine_passes_head:
  "case stale_line_run of None \<Rightarrow> False
   | Some (b, n, line) \<Rightarrow> n = 3 \<and> line = ''x'' @ [CR] @ [LF] \<and> buffGetLength b = - 1"
  by code_simp

end
