(* ===== verification/Queue_Spec.thy ===== *)
theory Queue_Spec
  imports Main
begin

text \<open>
  The contracts of the two disciplines in which a queue of \<open>src/dyn/queue.c\<close> is used: what a client
  may rely on when it pushes and pops at opposite ends (FIFO) or at the same end (LIFO).  \<open>items\<close> is
  the list of elements held, oldest first; \<open>room\<close> bounds the pushes that are guaranteed to succeed
  from below, \<open>fits\<close> the elements that may be pushed.  An operation is \<open>None\<close> when its behaviour is
  undefined, a pop of an empty queue returns no element.
\<close>

datatype 'a op = Push 'a | Pop

definition pushes :: "'a op list \<Rightarrow> 'a list" where
  "pushes ops = concat (map (\<lambda>op. case op of Push x \<Rightarrow> [x] | Pop \<Rightarrow> []) ops)"

lemma pushes_simps [simp]:
  "pushes [] = []" "pushes (Push x # ops) = x # pushes ops" "pushes (Pop # ops) = pushes ops"
  by (simp_all add: pushes_def)

text \<open>A run of a client, with the answers of its pops.\<close>

fun run :: "('q \<Rightarrow> 'a \<Rightarrow> ('q \<times> bool) option) \<Rightarrow> ('q \<Rightarrow> ('q \<times> 'a option) option) \<Rightarrow> 'a op list \<Rightarrow> 'q
    \<Rightarrow> ('q \<times> 'a option list) option" where
  "run push pop [] q = Some (q, [])"
| "run push pop (Push x # ops) q = (case push q x of
     Some (q', True) \<Rightarrow> run push pop ops q' | _ \<Rightarrow> None)"
| "run push pop (Pop # ops) q = (case pop q of None \<Rightarrow> None
     | Some (q', a) \<Rightarrow> (case run push pop ops q' of None \<Rightarrow> None | Some (q'', as) \<Rightarrow> Some (q'', a # as)))"

text \<open>The same on lists, with the discipline as a function that takes one element off.\<close>

fun list_run :: "('a list \<Rightarrow> ('a \<times> 'a list) option) \<Rightarrow> 'a op list \<Rightarrow> 'a list \<Rightarrow> 'a list \<times> 'a option list" where
  "list_run off [] xs = (xs, [])"
| "list_run off (Push x # ops) xs = list_run off ops (xs @ [x])"
| "list_run off (Pop # ops) xs = (case off xs of
     None \<Rightarrow> (let (ys, as) = list_run off ops xs in (ys, None # as))
   | Some (x, xs') \<Rightarrow> (let (ys, as) = list_run off ops xs' in (ys, Some x # as)))"

fun off_first :: "'a list \<Rightarrow> ('a \<times> 'a list) option" where
  "off_first [] = None"
| "off_first (x # xs) = Some (x, xs)"

definition off_last :: "'a list \<Rightarrow> ('a \<times> 'a list) option" where
  "off_last xs = (if xs = [] then None else Some (last xs, butlast xs))"

lemma off_last_simps [simp]: "off_last [] = None" "off_last (xs @ [x]) = Some (x, xs)"
  by (simp_all add: off_last_def)

locale container =
  fixes inv :: "'q \<Rightarrow> bool" and items :: "'q \<Rightarrow> 'a list" and room :: "'q \<Rightarrow> nat"
    and fits :: "'a \<Rightarrow> bool" and push :: "'q \<Rightarrow> 'a \<Rightarrow> ('q \<times> bool) option"
    and pop :: "'q \<Rightarrow> ('q \<times> 'a option) option" and off :: "'a list \<Rightarrow> ('a \<times> 'a list) option"
  assumes push_law: "inv q \<Longrightarrow> fits x \<Longrightarrow> room q = Suc n \<Longrightarrow>
      \<exists>q'. push q x = Some (q', True) \<and> inv q' \<and> items q' = items q @ [x] \<and> n \<le> room q'"
    and pop_empty_law: "inv q \<Longrightarrow> off (items q) = None \<Longrightarrow>
      \<exists>q'. pop q = Some (q', None) \<and> inv q' \<and> items q' = items q \<and> room q \<le> room q'"
    and pop_law: "inv q \<Longrightarrow> off (items q) = Some (x, xs) \<Longrightarrow>
      \<exists>q'. pop q = Some (q', Some x) \<and> inv q' \<and> items q' = xs \<and> room q \<le> room q'"
begin

lemma run_list_run:
  "inv q \<Longrightarrow> \<forall>x\<in>set (pushes ops). fits x \<Longrightarrow> length (pushes ops) \<le> room q \<Longrightarrow>
   \<exists>q'. run push pop ops q = Some (q', snd (list_run off ops (items q)))
     \<and> inv q' \<and> items q' = fst (list_run off ops (items q))"
proof (induction ops arbitrary: q)
  case (Cons op ops)
  show ?case
  proof (cases op)
    case (Push x)
    then obtain n where n: "room q = Suc n" "length (pushes ops) \<le> n"
      using Cons.prems(3) by (cases "room q") auto
    have x: "fits x" "\<forall>x\<in>set (pushes ops). fits x" using Cons.prems(2) Push by simp_all
    obtain q' where q': "push q x = Some (q', True)" "inv q'" "items q' = items q @ [x]" "n \<le> room q'"
      using push_law [OF Cons.prems(1) x(1) n(1)] by blast
    show ?thesis using Cons.IH [OF q'(2) x(2)] n q' Push by simp
  next
    case Pop
    then have ops: "\<forall>x\<in>set (pushes ops). fits x" "length (pushes ops) \<le> room q"
      using Cons.prems by simp_all
    show ?thesis
    proof (cases "off (items q)")
      case None
      obtain q' where q': "pop q = Some (q', None)" "inv q'" "items q' = items q" "room q \<le> room q'"
        using pop_empty_law [OF Cons.prems(1) None] by blast
      show ?thesis
        using Cons.IH [OF q'(2) ops(1)] ops(2) q' Pop None by (auto split: prod.splits)
    next
      case (Some a)
      obtain x xs where off: "off (items q) = Some (x, xs)" using Some by (cases a) simp
      obtain q' where q': "pop q = Some (q', Some x)" "inv q'" "items q' = xs" "room q \<le> room q'"
        using pop_law [OF Cons.prems(1) off] by blast
      show ?thesis
        using Cons.IH [OF q'(2) ops(1)] ops(2) q' Pop off by (auto split: prod.splits)
    qed
  qed
qed simp

end

text \<open>The two disciplines.\<close>

locale fifo = container inv items room fits push pop off_first
  for inv :: "'q \<Rightarrow> bool" and items :: "'q \<Rightarrow> 'a list" and room fits push pop

locale lifo = container inv items room fits push pop off_last
  for inv :: "'q \<Rightarrow> bool" and items :: "'q \<Rightarrow> 'a list" and room fits push pop

text \<open>Filling and draining: a FIFO returns the elements in their order, a LIFO in the reverse order.\<close>

lemma list_run_pushes: "list_run off (map Push xs @ ops) ys = list_run off ops (ys @ xs)"
  by (induction xs arbitrary: ys) simp_all

lemma list_run_drain_first:
  "list_run off_first (replicate (length xs) Pop) xs = ([], map Some xs)"
  by (induction xs) simp_all

lemma list_run_drain_last:
  "list_run off_last (replicate (length xs) Pop) xs = ([], map Some (rev xs))"
  by (induction xs rule: rev_induct) simp_all

lemma pushes_fill_drain [simp]: "pushes (map Push xs @ replicate n Pop) = xs"
  by (induction xs; induction n) simp_all

context fifo
begin

lemma fill_drain:
  assumes "inv q" and "items q = []" and "\<forall>x\<in>set xs. fits x" and "length xs \<le> room q"
  shows "\<exists>q'. run push pop (map Push xs @ replicate (length xs) Pop) q = Some (q', map Some xs)
    \<and> inv q' \<and> items q' = []"
  using run_list_run [of q "map Push xs @ replicate (length xs) Pop"] assms
  by (simp add: list_run_pushes list_run_drain_first)

end

context lifo
begin

lemma fill_drain:
  assumes "inv q" and "items q = []" and "\<forall>x\<in>set xs. fits x" and "length xs \<le> room q"
  shows "\<exists>q'. run push pop (map Push xs @ replicate (length xs) Pop) q = Some (q', map Some (rev xs))
    \<and> inv q' \<and> items q' = []"
  using run_list_run [of q "map Push xs @ replicate (length xs) Pop"] assms
  by (simp add: list_run_pushes list_run_drain_last)

end

end
