(* ===== verification/Queue.thy ===== *)
theory Queue
  imports Buff Queue_Spec
begin

text \<open>
  \<open>src/dyn/queue.c\<close>: a queue of blocks of bytes, each with a type, kept in two buffers: one holds
  the blocks, the other an 8-byte record of size and type for each.  The pointer to a queue is NULL,
  a live queue, or dangling: \<open>queueCreateWithSize\<close> returns the freed struct when memory runs out, and
  every use of it is undefined (\<open>None\<close>).  The global count of live queues is not modelled.
\<close>

record queue =
  sizeBuffer :: buff
  dataBuffer :: buff
  lastDataSize :: u32
  numPushes :: u32
  numPopsLIFO :: u32
  numPopsFIFO :: u32
  LastFailedSize :: u32
  FailedCount :: u32

datatype queuePtr = NULLq | Freed | Live queue

subsection \<open>The size records\<close>

text \<open>A \<open>SizeType\<close> is two 32-bit integers, stored as the bytes of a little-endian machine.\<close>

definition le32 :: "u32 \<Rightarrow> string" where
  "le32 w = (let n = uint w in
     [char_of n, char_of (n div 256), char_of (n div 65536), char_of (n div 16777216)])"

definition unle32 :: "string \<Rightarrow> u32" where
  "unle32 s = word_of_int (of_char (s ! 0) + of_char (s ! 1) * 256 + of_char (s ! 2) * 65536
     + of_char (s ! 3) * 16777216)"

definition sizeType :: "u32 \<Rightarrow> u32 \<Rightarrow> string" where
  "sizeType n type = le32 n @ le32 type"

subsection \<open>Creating\<close>

definition queueDestroy :: "queuePtr \<Rightarrow> queuePtr" where
  "queueDestroy q = (case q of Live _ \<Rightarrow> Freed | _ \<Rightarrow> q)"

definition queueCreateWithSize :: "mem \<Rightarrow> bool \<Rightarrow> u32 \<Rightarrow> u32 \<Rightarrow> queuePtr" where
  "queueCreateWithSize m gotStruct numElements elementSize =
     (if gotStruct then
        (let data0 = buffCreate m (numElements * elementSize);
             size0 = buffCreate m (numElements * 8);
             data = fst (buffReallocAdjustment data0 (numElements * elementSize));
             size = fst (buffReallocAdjustment size0 (numElements * 8));
             q = Live \<lparr>sizeBuffer = size, dataBuffer = data, lastDataSize = 0, numPushes = 0,
                numPopsLIFO = 0, numPopsFIFO = 0, LastFailedSize = junk_word m,
                FailedCount = junk_word m\<rparr>
         in if data = None \<or> size = None then queueDestroy q else q)
      else NULLq)"

definition queueCreate :: "mem \<Rightarrow> bool \<Rightarrow> queuePtr" where
  "queueCreate m gotStruct = queueCreateWithSize m gotStruct 100 1024"

subsection \<open>Pushing\<close>

text \<open>\<open>FreePercentage > .49\<close> on doubles is exact for 32-bit operands; \<open>0/0\<close> compares false.\<close>

definition almostHalfUsed :: "u32 \<Rightarrow> u32 \<Rightarrow> bool" where
  "almostHalfUsed SizeOfData SizeOfBuffer \<longleftrightarrow> 100 * uint SizeOfData > 49 * uint SizeOfBuffer"

definition queuePush :: "mem \<Rightarrow> queuePtr \<Rightarrow> string option \<Rightarrow> u32 \<Rightarrow> u32 \<Rightarrow> (queuePtr \<times> int) option" where
  "queuePush m qp pointer len type = (case qp of
     NULLq \<Rightarrow> Some (NULLq, 0) | Freed \<Rightarrow> None | Live q \<Rightarrow>
       (let ReallocSize0 = buffGetSize (dataBuffer q);
            ReallocSize = (if sint ReallocSize0 > 10000000 then 10000000 else ReallocSize0)
        in if FailedCount q \<noteq> 0
              \<and> almostHalfUsed (buffGetLength (dataBuffer q)) (buffGetSize (dataBuffer q))
           then Some (qp, 0)
           else do {
             (data1, result1) \<leftarrow> buffAdd m (fst (buffReallocAdjustment (dataBuffer q) ReallocSize)) pointer len;
             (data, result, failed) \<leftarrow>
               (if result1 = 0 then
                  (if buffGetSize data1 - buffGetLength data1 + len \<noteq> 0 then do {
                     (data2, _) \<leftarrow> buffResize m data1 1;
                     (data3, result2) \<leftarrow> buffAdd m data2 pointer len;
                     Some (data3, result2, if result2 = 0 then 1 else FailedCount q) }
                   else Some (data1, result1, FailedCount q))
                else Some (data1, result1, FailedCount q));
             if result \<noteq> 0 then do {
               (size, result') \<leftarrow> buffAdd m (sizeBuffer q) (Some (sizeType len type)) 8;
               if result' \<noteq> 0
               then Some (Live (q\<lparr>dataBuffer := data, sizeBuffer := size, FailedCount := failed,
                      numPushes := numPushes q + 1\<rparr>), 1)
               else Some (Live (q\<lparr>dataBuffer := data, sizeBuffer := size, FailedCount := failed\<rparr>), result') }
             else Some (Live (q\<lparr>dataBuffer := data, FailedCount := failed\<rparr>), result) }))"

subsection \<open>Popping\<close>

text \<open>A pop returns the block and its type, or no element (the return of 0).  Both pops are one
  function of the end the blocks are taken from.\<close>

definition popWith :: "(buff \<Rightarrow> u32 \<Rightarrow> (buff \<times> u32 \<times> string) option) \<Rightarrow> (queue \<Rightarrow> queue) \<Rightarrow> queue
    \<Rightarrow> (queuePtr \<times> (string \<times> u32) option) option" where
  "popWith getBlock counted q = do {
     (size, got, st) \<leftarrow> getBlock (sizeBuffer q) 8;
     if got = 8 then do {
       (data, blockSizeResult, bytes) \<leftarrow> getBlock (dataBuffer q) (unle32 (take 4 st));
       (let q' = q\<lparr>sizeBuffer := size, dataBuffer := data\<rparr>
        in if blockSizeResult = unle32 (take 4 st)
           then Some (Live (counted q'), Some (bytes, unle32 (drop 4 st)))
           else Some (Live q', None)) }
     else Some (Live (q\<lparr>sizeBuffer := size\<rparr>), None) }"

definition queuePopLIFO :: "mem \<Rightarrow> queuePtr \<Rightarrow> (queuePtr \<times> (string \<times> u32) option) option" where
  "queuePopLIFO m qp = (case qp of NULLq \<Rightarrow> Some (NULLq, None) | Freed \<Rightarrow> None
     | Live q \<Rightarrow> popWith (\<lambda>b n. buffGetBlockFromHead m b True n)
                  (\<lambda>q. q\<lparr>numPopsLIFO := numPopsLIFO q + 1\<rparr>) q)"

definition queuePopFIFO :: "mem \<Rightarrow> queuePtr \<Rightarrow> (queuePtr \<times> (string \<times> u32) option) option" where
  "queuePopFIFO m qp = (case qp of NULLq \<Rightarrow> Some (NULLq, None) | Freed \<Rightarrow> None
     | Live q \<Rightarrow> popWith (\<lambda>b n. buffGetBlockFromTail m b True n)
                  (\<lambda>q. q\<lparr>numPopsFIFO := numPopsFIFO q + 1\<rparr>) q)"

text \<open>Not implemented in the code: the result is always 0.\<close>

definition queuePopUndo :: "queuePtr \<Rightarrow> int option" where
  "queuePopUndo qp = (case qp of Freed \<Rightarrow> None | _ \<Rightarrow> Some 0)"

definition queueClear :: "queuePtr \<Rightarrow> (queuePtr \<times> int) option" where
  "queueClear qp = (case qp of NULLq \<Rightarrow> Some (NULLq, 0) | Freed \<Rightarrow> None | Live q \<Rightarrow> do {
     (size, _) \<leftarrow> buffClear (sizeBuffer q);
     (data, _) \<leftarrow> buffClear (dataBuffer q);
     Some (Live (q\<lparr>sizeBuffer := size, dataBuffer := data, lastDataSize := 0, numPushes := 0,
       numPopsLIFO := 0, numPopsFIFO := 0\<rparr>), 1) })"

subsection \<open>Counts, resizing and marks\<close>

definition queueCountEntries :: "queuePtr \<Rightarrow> u32 option" where
  "queueCountEntries qp = (case qp of NULLq \<Rightarrow> Some 0 | Freed \<Rightarrow> None
     | Live q \<Rightarrow> Some (buffGetLength (sizeBuffer q) div 8))"

definition queueGetSize :: "queuePtr \<Rightarrow> u32 option" where
  "queueGetSize qp = (case qp of NULLq \<Rightarrow> Some 0 | Freed \<Rightarrow> None
     | Live q \<Rightarrow> Some (buffGetSize (sizeBuffer q) + buffGetSize (dataBuffer q)))"

definition queueCountPushes :: "queuePtr \<Rightarrow> u32 option" where
  "queueCountPushes qp = (case qp of NULLq \<Rightarrow> Some 0 | Freed \<Rightarrow> None | Live q \<Rightarrow> Some (numPushes q))"

definition queueCountPopLIFO :: "queuePtr \<Rightarrow> u32 option" where
  "queueCountPopLIFO qp = (case qp of NULLq \<Rightarrow> Some 0 | Freed \<Rightarrow> None | Live q \<Rightarrow> Some (numPopsLIFO q))"

definition queueCountPopFIFO :: "queuePtr \<Rightarrow> u32 option" where
  "queueCountPopFIFO qp = (case qp of NULLq \<Rightarrow> Some 0 | Freed \<Rightarrow> None | Live q \<Rightarrow> Some (numPopsFIFO q))"

text \<open>\<open>queueResize\<close> does not test its argument, so NULL is undefined as well.\<close>

definition queueResize :: "mem \<Rightarrow> queuePtr \<Rightarrow> u32 \<Rightarrow> u32 \<Rightarrow> (queuePtr \<times> int) option" where
  "queueResize m qp entryLength bufferLength = (case qp of Live q \<Rightarrow> do {
       (data, _) \<leftarrow> buffResize m (dataBuffer q) (entryLength * bufferLength);
       Some (Live (q\<lparr>dataBuffer := data\<rparr>), 0) }
     | _ \<Rightarrow> None)"

definition queueMark :: "queuePtr \<Rightarrow> queuePtr option" where
  "queueMark qp = (case qp of NULLq \<Rightarrow> Some NULLq | Freed \<Rightarrow> None | Live q \<Rightarrow>
     Some (Live (q\<lparr>sizeBuffer := buffMark (sizeBuffer q), dataBuffer := buffMark (dataBuffer q)\<rparr>)))"

definition queueRewindToMark :: "queuePtr \<Rightarrow> queuePtr option" where
  "queueRewindToMark qp = (case qp of NULLq \<Rightarrow> Some NULLq | Freed \<Rightarrow> None | Live q \<Rightarrow> do {
     size \<leftarrow> buffRewindToMark (sizeBuffer q);
     data \<leftarrow> buffRewindToMark (dataBuffer q);
     Some (Live (q\<lparr>sizeBuffer := size, dataBuffer := data\<rparr>)) })"

subsection \<open>The records round-trip\<close>

lemma length_le32 [simp]: "length (le32 w) = 4"
  by (simp add: le32_def Let_def)

lemma length_sizeType [simp]: "length (sizeType n t) = 8"
  by (simp add: sizeType_def)

lemma base256:
  assumes "0 \<le> n" and "n < 4294967296"
  shows "n mod 256 + (n div 256 mod 256) * 256 + (n div 65536 mod 256) * 65536
    + (n div 16777216) * 16777216 = (n::int)"
proof -
  let ?a = "n div 256" let ?b = "?a div 256" let ?c = "?b div 256"
  have b: "n div 65536 = ?b" and c: "n div 16777216 = ?c"
    by (simp_all add: zdiv_zmult2_eq [symmetric])
  show ?thesis
    unfolding b c
    using mult_div_mod_eq [of 256 n] mult_div_mod_eq [of 256 ?a] mult_div_mod_eq [of 256 ?b]
    by linarith
qed

lemma unle32_le32 [simp]: "unle32 (le32 w) = w"
proof -
  have "uint w < 2 ^ LENGTH(32)" by (rule uint_bounded)
  then have w: "uint w < 4294967296" "0 \<le> uint w" by simp_all
  have top: "uint w div 16777216 mod 256 = uint w div 16777216"
    using w by (intro mod_pos_pos_trivial) (simp_all add: pos_imp_zdiv_nonneg_iff)
  have nth: "le32 w ! 0 = char_of (uint w)" "le32 w ! 1 = char_of (uint w div 256)"
    "le32 w ! 2 = char_of (uint w div 65536)" "le32 w ! 3 = char_of (uint w div 16777216)"
    by (simp_all only: le32_def Let_def nth_Cons_0 nth_Cons_numeral nth_Cons_Suc One_nat_def
        numeral_2_eq_2 numeral_3_eq_3)
  have "of_char (le32 w ! 0) + of_char (le32 w ! 1) * 256 + of_char (le32 w ! 2) * 65536
      + of_char (le32 w ! 3) * 16777216 = uint w"
    by (simp only: nth of_char_of top) (rule base256 [OF w(2,1)])
  then show ?thesis by (simp only: unle32_def word_of_int_uint)
qed

lemma take_sizeType [simp]: "take 4 (sizeType n t) = le32 n"
  and drop_sizeType [simp]: "drop 4 (sizeType n t) = le32 t"
  by (simp_all add: sizeType_def)

subsection \<open>The abstraction\<close>

text \<open>A queue of blocks: the two buffers hold the blocks and the records of the same elements.\<close>

type_synonym elem = "string \<times> u32"

definition records :: "elem list \<Rightarrow> string" where
  "records xs = concat (map (\<lambda>(bytes, t). sizeType (word_of_nat (length bytes)) t) xs)"

lemma records_simps [simp]:
  "records [] = []"
  "records ((b, t) # xs) = sizeType (word_of_nat (length b)) t @ records xs"
  "records (xs @ ys) = records xs @ records ys"
  by (simp_all add: records_def)

definition holds :: "queue \<Rightarrow> object \<Rightarrow> object \<Rightarrow> elem list \<Rightarrow> bool" where
  "holds q so d xs \<longleftrightarrow> sizeBuffer q = Some so \<and> dataBuffer q = Some d
     \<and> buff_inv so \<and> buff_inv d \<and> addType so = buff_default \<and> addType d = buff_default
     \<and> content so = records xs
     \<and> content d = concat (map fst xs)
     \<and> (\<forall>x\<in>set xs. length (fst x) < 2 ^ 32)
     \<and> FailedCount q = 0 \<and> unat (ReallocAdjustment so) \<le> 10000000"

text \<open>The elements, read off the record buffer.\<close>

function parse :: "string \<Rightarrow> string \<Rightarrow> elem list" where
  "parse recs bytes = (if length recs < 8 then [] else
     (let n = unat (unle32 (take 4 recs)) in
      (take n bytes, unle32 (take 4 (drop 4 recs))) # parse (drop 8 recs) (drop n bytes)))"
  by pat_completeness auto
termination
  by (relation "measure (\<lambda>(recs, bytes). length recs)") auto

declare parse.simps [simp del]

lemma parse_records:
  "\<forall>x\<in>set xs. length (fst x) < 2 ^ 32 \<Longrightarrow> parse (records xs) (concat (map fst xs)) = xs"
proof (induction xs)
  case Nil
  show ?case by (simp add: parse.simps)
next
  case (Cons x xs)
  obtain b t where x: "x = (b, t)" by (cases x)
  have "unat (word_of_nat (length b) :: u32) = length b"
    using Cons.prems x by (simp add: unat_of_nat)
  then show ?case
    using Cons x by (subst parse.simps) (simp add: Let_def sizeType_def)
qed

lemma length_records: "length (records xs) = 8 * length xs"
  by (induction xs) auto

text \<open>The elements a queue holds, and its well-formedness: the buffers are consistent.\<close>

definition q_items :: "queuePtr \<Rightarrow> elem list" where
  "q_items qp = (case qp of Live q \<Rightarrow> (case (sizeBuffer q, dataBuffer q) of
       (Some so, Some d) \<Rightarrow> parse (content so) (content d) | _ \<Rightarrow> []) | _ \<Rightarrow> [])"

lemma q_items_holds: "holds q so d xs \<Longrightarrow> q_items (Live q) = xs"
  by (simp add: q_items_def holds_def parse_records)

definition q_inv :: "queuePtr \<Rightarrow> bool" where
  "q_inv qp \<longleftrightarrow> (\<exists>q so d. qp = Live q \<and> holds q so d (q_items qp))"

text \<open>Of a queue that is only popped at its head.\<close>

definition q_lifo_inv :: "queuePtr \<Rightarrow> bool" where
  "q_lifo_inv qp \<longleftrightarrow> (\<exists>q so d. qp = Live q \<and> holds q so d (q_items qp)
     \<and> tail_in_place so \<and> tail_in_place d)"

lemma q_invI: "holds q so d xs \<Longrightarrow> q_inv (Live q)"
  unfolding q_inv_def using q_items_holds by metis

lemma q_lifo_invI: "holds q so d xs \<Longrightarrow> tail_in_place so \<Longrightarrow> tail_in_place d \<Longrightarrow> q_lifo_inv (Live q)"
  unfolding q_lifo_inv_def using q_items_holds by metis

text \<open>How many blocks of at most \<open>L\<close> bytes can be pushed before a size could pass 2^31.\<close>

definition top_size :: "queuePtr \<Rightarrow> nat" where
  "top_size qp = (case qp of Live q \<Rightarrow> max (unat (buffGetSize (sizeBuffer q))) (unat (buffGetSize (dataBuffer q)))
     | _ \<Rightarrow> 0)"

definition q_room :: "nat \<Rightarrow> queuePtr \<Rightarrow> nat" where
  "q_room L qp = (2 ^ 31 - 1 - top_size qp) div (10000008 + L)"

definition push_elem :: "mem \<Rightarrow> queuePtr \<Rightarrow> elem \<Rightarrow> (queuePtr \<times> bool) option" where
  "push_elem m qp x = map_option (\<lambda>(q, r). (q, r = 1))
     (queuePush m qp (Some (fst x)) (word_of_nat (length (fst x))) (snd x))"

lemma sint_small: "unat (w :: u32) < 2 ^ 31 \<Longrightarrow> sint w = int (unat w)"
proof -
  assume w: "unat w < 2 ^ 31"
  have "uint w = int (unat w)" by (rule uint_nat)
  moreover have "int (unat w) < 2 ^ 31" using w by (simp only: of_nat_less_numeral_power_cancel_iff)
  ultimately have "signed_take_bit 31 (uint w) = uint w"
    using uint_ge_0 [of w] by (intro signed_take_bit_int_eq_self) linarith+
  then have "sint w = uint w" by (simp add: sint_uint)
  then show ?thesis by (simp only: \<open>uint w = int (unat w)\<close>)
qed

lemma buffAdd_default:
  assumes "buff_inv obj" and "addType obj = buff_default" and "length ptr = unat len"
    and "unat len + unat (head obj) + 1 + unat (ReallocAdjustment obj) < 2 ^ 32"
    and "\<forall>n. can_alloc m n"
  obtains obj' where "buffAdd m (Some obj) (Some ptr) len = Some (Some obj', 1)" "buff_inv obj'"
    "content obj' = content obj @ ptr" "addType obj' = buff_default"
    "ReallocAdjustment obj' = ReallocAdjustment obj" "tail_in_place obj \<longrightarrow> tail_in_place obj'"
    "unat (bsize obj') \<le> unat (bsize obj) + unat len + unat (ReallocAdjustment obj)"
proof -
  have ok: "add_ok obj ptr len"
    using assms(2-4) by (simp add: add_ok_def add_nowrap_def need_def)
  show ?thesis
    by (rule buffAdd_ok [OF assms(1) ok, of m])
       (rule that, use assms(2,3,5) in \<open>auto simp: added_def same_limits_def need_def\<close>)
qed

lemma holds_push:
  assumes h: "holds q so d xs" and mem: "\<forall>n. can_alloc m n"
    and room: "unat (bsize so) + 10000008 + length b < 2 ^ 31"
      "unat (bsize d) + 10000008 + length b < 2 ^ 31"
  obtains q' so' d' where
    "queuePush m (Live q) (Some b) (word_of_nat (length b)) t = Some (Live q', 1)"
    "holds q' so' d' (xs @ [(b, t)])" "unat (bsize so') \<le> unat (bsize so) + 10000008 + length b"
    "unat (bsize d') \<le> unat (bsize d) + 10000008 + length b"
    "tail_in_place so \<longrightarrow> tail_in_place so'" "tail_in_place d \<longrightarrow> tail_in_place d'"
    "numPushes q' = numPushes q + 1"
proof -
  let ?len = "word_of_nat (length b) :: u32"
  have len: "unat ?len = length b" using room(1) by (simp add: unat_of_nat)
  obtain R where R: "(if sint (bsize d) > 10000000 then 10000000 else bsize d) = R" by simp
  have R': "unat R \<le> 10000000"
  proof -
    have "unat (bsize d) < 2 ^ 31" using room(2) by simp
    then have "sint (bsize d) = int (unat (bsize d))" by (rule sint_small)
    then have "10000000 < unat (bsize d) \<Longrightarrow> R = 10000000" "\<not> 10000000 < unat (bsize d) \<Longrightarrow> R = bsize d"
      unfolding R [symmetric] by (simp_all only: of_nat_numeral [symmetric, where 'a=int]
          of_nat_less_iff if_True if_False simp_thms)
    then show ?thesis by (cases "10000000 < unat (bsize d)") simp_all
  qed
  let ?d = "d\<lparr>ReallocAdjustment := R\<rparr>"
  have d: "buff_inv ?d" "addType ?d = buff_default" "content ?d = content d"
    "tail_in_place ?d \<longleftrightarrow> tail_in_place d" "head d < bsize d" "head so < bsize so"
    using h by (simp_all add: holds_def buff_inv_def content_def tail_in_place_def)
  have nowrap: "unat ?len + unat (head ?d) + 1 + unat (ReallocAdjustment ?d) < 2 ^ 32"
    using R' room(2) len d(5) by (simp add: word_less_nat_alt)
  obtain d' where d': "buffAdd m (Some ?d) (Some b) ?len = Some (Some d', 1)" "buff_inv d'"
    "content d' = content ?d @ b" "addType d' = buff_default"
    "ReallocAdjustment d' = ReallocAdjustment ?d" "tail_in_place ?d \<longrightarrow> tail_in_place d'"
    "unat (bsize d') \<le> unat (bsize ?d) + unat ?len + unat (ReallocAdjustment ?d)"
    using buffAdd_default [OF d(1,2) len [symmetric] nowrap mem] .
  have so: "buff_inv so" "addType so = buff_default" using h by (simp_all add: holds_def)
  have nowrap': "unat (8 :: u32) + unat (head so) + 1 + unat (ReallocAdjustment so) < 2 ^ 32"
    using room(1) d(6) h by (simp add: word_less_nat_alt holds_def)
  have eight: "length (sizeType ?len t) = unat (8 :: u32)" by simp
  obtain so' where so': "buffAdd m (Some so) (Some (sizeType ?len t)) 8 = Some (Some so', 1)"
    "buff_inv so'" "content so' = content so @ sizeType ?len t" "addType so' = buff_default"
    "ReallocAdjustment so' = ReallocAdjustment so" "tail_in_place so \<longrightarrow> tail_in_place so'"
    "unat (bsize so') \<le> unat (bsize so) + unat (8 :: u32) + unat (ReallocAdjustment so)"
    using buffAdd_default [OF so eight nowrap' mem] .
  let ?q = "q\<lparr>dataBuffer := Some d', sizeBuffer := Some so', FailedCount := FailedCount q,
    numPushes := numPushes q + 1\<rparr>"
  have run: "queuePush m (Live q) (Some b) ?len t = Some (Live ?q, 1)"
    using h d'(1) so'(1) R
    by (simp add: queuePush_def holds_def buffGetSize_def buffReallocAdjustment_def Let_def)
  have "holds ?q so' d' (xs @ [(b, t)])"
    using h d' so' d room(1) by (auto simp: holds_def)
  then show ?thesis
    by (rule that [OF run]) (use h d' so' d R' len in \<open>simp_all add: holds_def\<close>)
qed

lemma holds_bytes:
  assumes "holds q so d xs" and "x \<in> set xs"
  shows "unat (word_of_nat (length (fst x)) :: u32) = length (fst x)"
  using assms by (auto simp: holds_def unat_of_nat)

lemma same_config_fields:
  "same_config a b \<Longrightarrow> addType a = addType b \<and> ReallocAdjustment a = ReallocAdjustment b"
  by (simp add: same_config_def)

lemma holds_popFIFO:
  assumes h: "holds q so d ((b, t) # xs)"
  obtains q' so' d' where "queuePopFIFO m (Live q) = Some (Live q', Some (b, t))"
    "holds q' so' d' xs" "bsize so' = bsize so" "bsize d' = bsize d"
    "numPopsFIFO q' = numPopsFIFO q + 1"
proof -
  have inv: "buff_inv so" "buff_inv d" and q: "sizeBuffer q = Some so" "dataBuffer q = Some d"
    using h by (simp_all add: holds_def)
  have cont: "content so = sizeType (word_of_nat (length b)) t @ records xs"
    "content d = b @ concat (map fst xs)" using h by (simp_all add: holds_def)
  have len: "unat (word_of_nat (length b) :: u32) = length b"
    using holds_bytes [OF h, of "(b, t)"] by simp
  obtain so' n where s: "buffGetBlockFromTail m (Some so) True 8
      = Some (Some so', n, take (unat (8 :: u32)) (content so))"
    "unat n = min (unat (8 :: u32)) (length (content so))" "buff_inv so'"
    "content so' = drop (unat (8 :: u32)) (content so)" "same_config so' so" "bsize so' = bsize so"
    using buffGetBlockFromTail_ok [OF inv(1), of m 8] by blast
  have n: "n = 8" using s(2) cont by (simp add: word_unat_eq_iff)
  obtain d' k where d': "buffGetBlockFromTail m (Some d) True (word_of_nat (length b))
      = Some (Some d', k, take (length b) (content d))"
    "unat k = min (length b) (length (content d))" "buff_inv d'"
    "content d' = drop (length b) (content d)" "same_config d' d" "bsize d' = bsize d"
    using buffGetBlockFromTail_ok [OF inv(2), of m "word_of_nat (length b)"] unfolding len by blast
  have k: "k = word_of_nat (length b)" using d'(2) cont len by (simp add: word_unat_eq_iff)
  let ?q = "q\<lparr>sizeBuffer := Some so', dataBuffer := Some d', numPopsFIFO := numPopsFIFO q + 1\<rparr>"
  have run: "queuePopFIFO m (Live q) = Some (Live ?q, Some (b, t))"
    using q s(1) n cont d'(1) k by (simp add: queuePopFIFO_def popWith_def Let_def)
  have "holds ?q so' d' xs"
    using h s d' cont same_config_fields [OF s(5)] same_config_fields [OF d'(5)]
    by (simp add: holds_def)
  then show ?thesis by (rule that [OF run]) (use s d' in simp_all)
qed

lemma holds_popFIFO_empty:
  assumes h: "holds q so d []"
  obtains q' so' d' where "queuePopFIFO m (Live q) = Some (Live q', None)"
    "holds q' so' d' []" "bsize so' = bsize so" "bsize d' = bsize d"
proof -
  have inv: "buff_inv so" and q: "sizeBuffer q = Some so" and c: "content so = []"
    using h by (simp_all add: holds_def)
  obtain so' n where s: "buffGetBlockFromTail m (Some so) True 8 = Some (Some so', n, [])"
    "unat n = 0" "buff_inv so'" "content so' = []" "same_config so' so" "bsize so' = bsize so"
    using buffGetBlockFromTail_ok [OF inv, of m 8] c by auto
  have n: "n = 0" using s(2) by (simp add: unat_eq_0)
  let ?q = "q\<lparr>sizeBuffer := Some so'\<rparr>"
  have run: "queuePopFIFO m (Live q) = Some (Live ?q, None)"
    using q s(1) n by (simp add: queuePopFIFO_def popWith_def)
  have "holds ?q so' d []"
    using h s same_config_fields [OF s(5)] by (simp add: holds_def)
  then show ?thesis by (rule that [OF run]) (use s in simp_all)
qed

lemma holds_popLIFO:
  assumes h: "holds q so d (xs @ [(b, t)])" and place: "tail_in_place so" "tail_in_place d"
  obtains q' so' d' where "queuePopLIFO m (Live q) = Some (Live q', Some (b, t))"
    "holds q' so' d' xs" "bsize so' = bsize so" "bsize d' = bsize d"
    "tail_in_place so'" "tail_in_place d'" "numPopsLIFO q' = numPopsLIFO q + 1"
proof -
  have inv: "buff_inv so" "buff_inv d" and q: "sizeBuffer q = Some so" "dataBuffer q = Some d"
    using h by (simp_all add: holds_def)
  have cont: "content so = records xs @ sizeType (word_of_nat (length b)) t"
    "content d = concat (map fst xs) @ b" using h by (simp_all add: holds_def)
  have len: "unat (word_of_nat (length b) :: u32) = length b"
    using holds_bytes [OF h, of "(b, t)"] by simp
  obtain so' n where s: "buffGetBlockFromHead m (Some so) True 8
      = Some (Some so', n, drop (length (content so) - unat (8 :: u32)) (content so))"
    "unat n = min (unat (8 :: u32)) (length (content so))" "buff_inv so'"
    "content so' = take (length (content so) - unat (8 :: u32)) (content so)"
    "same_config so' so" "bsize so' = bsize so" "tail_in_place so \<longrightarrow> tail_in_place so'"
    using buffGetBlockFromHead_ok [OF inv(1) disjI1 [OF place(1)], of m 8] by blast
  have n: "n = 8" using s(2) cont by (simp add: word_unat_eq_iff)
  obtain d' k where d': "buffGetBlockFromHead m (Some d) True (word_of_nat (length b))
      = Some (Some d', k, drop (length (content d) - length b) (content d))"
    "unat k = min (length b) (length (content d))" "buff_inv d'"
    "content d' = take (length (content d) - length b) (content d)" "same_config d' d"
    "bsize d' = bsize d" "tail_in_place d \<longrightarrow> tail_in_place d'"
    using buffGetBlockFromHead_ok [OF inv(2) disjI1 [OF place(2)], of m "word_of_nat (length b)"]
    unfolding len by blast
  have k: "k = word_of_nat (length b)" using d'(2) cont len by (simp add: word_unat_eq_iff)
  let ?q = "q\<lparr>sizeBuffer := Some so', dataBuffer := Some d', numPopsLIFO := numPopsLIFO q + 1\<rparr>"
  have run: "queuePopLIFO m (Live q) = Some (Live ?q, Some (b, t))"
    using q s(1) n cont d'(1) k by (simp add: queuePopLIFO_def popWith_def Let_def)
  have "holds ?q so' d' xs"
    using h s d' cont same_config_fields [OF s(5)] same_config_fields [OF d'(5)]
    by (simp add: holds_def)
  then show ?thesis by (rule that [OF run]) (use s d' place in simp_all)
qed

lemma holds_popLIFO_empty:
  assumes h: "holds q so d []" and place: "tail_in_place so"
  obtains q' so' d' where "queuePopLIFO m (Live q) = Some (Live q', None)"
    "holds q' so' d' []" "bsize so' = bsize so" "bsize d' = bsize d"
    "tail_in_place so'" "d' = d"
proof -
  have inv: "buff_inv so" and q: "sizeBuffer q = Some so" and c: "content so = []"
    using h by (simp_all add: holds_def)
  obtain so' n where s: "buffGetBlockFromHead m (Some so) True 8 = Some (Some so', n, [])"
    "unat n = 0" "buff_inv so'" "content so' = []" "same_config so' so" "bsize so' = bsize so"
    "tail_in_place so \<longrightarrow> tail_in_place so'"
    using buffGetBlockFromHead_ok [OF inv disjI1 [OF place], of m 8] c by auto
  have n: "n = 0" using s(2) by (simp add: unat_eq_0)
  let ?q = "q\<lparr>sizeBuffer := Some so'\<rparr>"
  have run: "queuePopLIFO m (Live q) = Some (Live ?q, None)"
    using q s(1) n by (simp add: queuePopLIFO_def popWith_def)
  have "holds ?q so' d []"
    using h s same_config_fields [OF s(5)] by (simp add: holds_def)
  then show ?thesis by (rule that [OF run]) (use s place in simp_all)
qed

subsection \<open>The contracts hold\<close>

lemma top_size_holds: "holds q so d xs \<Longrightarrow> top_size (Live q) = max (unat (bsize so)) (unat (bsize d))"
  by (simp add: top_size_def holds_def buffGetSize_def)

lemma q_room_mono: "top_size b \<le> top_size a \<Longrightarrow> q_room L a \<le> q_room L b"
  unfolding q_room_def by (intro div_le_mono) simp

lemma q_room_Suc:
  assumes "q_room L qp = Suc n"
  shows "top_size qp + 10000008 + L < 2 ^ 31"
    and "top_size qp' \<le> top_size qp + 10000008 + L \<Longrightarrow> n \<le> q_room L qp'"
proof -
  let ?k = "10000008 + L"
  have le: "Suc n * ?k \<le> 2 ^ 31 - 1 - top_size qp"
    using assms unfolding q_room_def by (metis div_times_less_eq_dividend)
  then show "top_size qp + 10000008 + L < 2 ^ 31" by simp
  assume "top_size qp' \<le> top_size qp + 10000008 + L"
  then have "n * ?k \<le> 2 ^ 31 - 1 - top_size qp'" using le by simp
  then show "n \<le> q_room L qp'"
    unfolding q_room_def by (simp add: less_eq_div_iff_mult_less_eq)
qed

lemma off_last_Some: "off_last xs = Some (x, ys) \<longleftrightarrow> xs = ys @ [x]"
  by (cases xs rule: rev_cases) (auto simp: off_last_def)

definition small_elem :: "nat \<Rightarrow> elem \<Rightarrow> bool" where
  "small_elem L x \<longleftrightarrow> length (fst x) \<le> L"

lemma push_law_gen:
  assumes "holds q so d xs" and "q_room L (Live q) = Suc n" and "small_elem L x"
    and "\<forall>n. can_alloc m n"
  obtains q' so' d' where "push_elem m (Live q) x = Some (Live q', True)"
    "holds q' so' d' (xs @ [x])" "n \<le> q_room L (Live q')"
    "tail_in_place so \<longrightarrow> tail_in_place so'" "tail_in_place d \<longrightarrow> tail_in_place d'"
proof -
  obtain b t where x: "x = (b, t)" by (cases x)
  have L: "length b \<le> L" using assms(3) x by (simp add: small_elem_def)
  have top: "top_size (Live q) = max (unat (bsize so)) (unat (bsize d))"
    by (rule top_size_holds [OF assms(1)])
  have r: "unat (bsize so) + 10000008 + length b < 2 ^ 31" "unat (bsize d) + 10000008 + length b < 2 ^ 31"
    using q_room_Suc(1) [OF assms(2)] L top by simp_all
  obtain q' so' d' where p:
    "queuePush m (Live q) (Some b) (word_of_nat (length b)) t = Some (Live q', 1)"
    "holds q' so' d' (xs @ [(b, t)])" "unat (bsize so') \<le> unat (bsize so) + 10000008 + length b"
    "unat (bsize d') \<le> unat (bsize d) + 10000008 + length b"
    "tail_in_place so \<longrightarrow> tail_in_place so'" "tail_in_place d \<longrightarrow> tail_in_place d'"
    using holds_push [OF assms(1,4) r] .
  have "top_size (Live q') \<le> top_size (Live q) + 10000008 + L"
    using p(3,4) L unfolding top top_size_holds [OF p(2)] by linarith
  from q_room_Suc(2) [OF assms(2) this] show ?thesis
    using that p x by (simp add: push_elem_def)
qed

lemma pop_room:
  "holds q so d xs \<Longrightarrow> holds q' so' d' ys \<Longrightarrow> bsize so' = bsize so \<Longrightarrow> bsize d' = bsize d \<Longrightarrow>
   q_room L (Live q) \<le> q_room L (Live q')"
  by (rule q_room_mono) (simp add: top_size_holds)

lemma good_mem_alloc: "\<forall>n. can_alloc good_mem n"
  by (simp add: good_mem_def)

interpretation fifo_queue: fifo q_inv q_items "q_room L" "small_elem L"
  "push_elem good_mem" "queuePopFIFO good_mem"
proof unfold_locales
  fix qp x n assume "q_inv qp" "small_elem L x" "q_room L qp = Suc n"
  then obtain q so d where q: "qp = Live q" "holds q so d (q_items qp)" "q_room L (Live q) = Suc n"
    by (auto simp: q_inv_def)
  obtain q' so' d' where "push_elem good_mem (Live q) x = Some (Live q', True)"
    "holds q' so' d' (q_items qp @ [x])" "n \<le> q_room L (Live q')"
    using push_law_gen [OF q(2,3) \<open>small_elem L x\<close> good_mem_alloc] by blast
  then show "\<exists>q'. push_elem good_mem qp x = Some (q', True) \<and> q_inv q'
      \<and> q_items q' = q_items qp @ [x] \<and> n \<le> q_room L q'"
    using q q_items_holds q_invI by metis
next
  fix qp assume "q_inv qp" "off_first (q_items qp) = None"
  then obtain q so d where q: "qp = Live q" "holds q so d []" "q_items qp = []"
    by (cases "q_items qp") (auto simp: q_inv_def)
  obtain q' so' d' where "queuePopFIFO good_mem (Live q) = Some (Live q', None)"
    "holds q' so' d' []" "bsize so' = bsize so" "bsize d' = bsize d"
    using holds_popFIFO_empty [OF q(2)] .
  then show "\<exists>q'. queuePopFIFO good_mem qp = Some (q', None) \<and> q_inv q'
      \<and> q_items q' = q_items qp \<and> q_room L qp \<le> q_room L q'"
    using q q_items_holds q_invI pop_room [OF q(2)] by metis
next
  fix qp x xs assume "q_inv qp" "off_first (q_items qp) = Some (x, xs)"
  then obtain q so d where q: "qp = Live q" "holds q so d (x # xs)" "q_items qp = x # xs"
    by (cases "q_items qp") (auto simp: q_inv_def)
  obtain b t where x: "x = (b, t)" by (cases x)
  obtain q' so' d' where "queuePopFIFO good_mem (Live q) = Some (Live q', Some x)"
    "holds q' so' d' xs" "bsize so' = bsize so" "bsize d' = bsize d"
    using holds_popFIFO [OF q(2) [unfolded x], of good_mem] unfolding x by blast
  then show "\<exists>q'. queuePopFIFO good_mem qp = Some (q', Some x) \<and> q_inv q'
      \<and> q_items q' = xs \<and> q_room L qp \<le> q_room L q'"
    using q q_items_holds q_invI pop_room [OF q(2)] by metis
qed

interpretation lifo_queue: lifo q_lifo_inv q_items "q_room L" "small_elem L"
  "push_elem good_mem" "queuePopLIFO good_mem"
proof unfold_locales
  fix qp x n assume "q_lifo_inv qp" "small_elem L x" "q_room L qp = Suc n"
  then obtain q so d where q: "qp = Live q" "holds q so d (q_items qp)" "q_room L (Live q) = Suc n"
    "tail_in_place so" "tail_in_place d"
    by (auto simp: q_lifo_inv_def)
  obtain q' so' d' where "push_elem good_mem (Live q) x = Some (Live q', True)"
    "holds q' so' d' (q_items qp @ [x])" "n \<le> q_room L (Live q')" "tail_in_place so'" "tail_in_place d'"
    using push_law_gen [OF q(2,3) \<open>small_elem L x\<close> good_mem_alloc] q(4,5) by blast
  then show "\<exists>q'. push_elem good_mem qp x = Some (q', True) \<and> q_lifo_inv q'
      \<and> q_items q' = q_items qp @ [x] \<and> n \<le> q_room L q'"
    using q q_items_holds q_lifo_invI by metis
next
  fix qp assume "q_lifo_inv qp" "off_last (q_items qp) = None"
  then obtain q so d where q: "qp = Live q" "holds q so d []" "q_items qp = []"
    "tail_in_place so" "tail_in_place d"
    by (auto simp: q_lifo_inv_def off_last_def split: if_splits)
  obtain q' so' where "queuePopLIFO good_mem (Live q) = Some (Live q', None)"
    "holds q' so' d []" "bsize so' = bsize so" "tail_in_place so'"
    using holds_popLIFO_empty [OF q(2,4)] by metis
  then show "\<exists>q'. queuePopLIFO good_mem qp = Some (q', None) \<and> q_lifo_inv q'
      \<and> q_items q' = q_items qp \<and> q_room L qp \<le> q_room L q'"
    using q q_items_holds q_lifo_invI pop_room [OF q(2)] by metis
next
  fix qp x xs assume "q_lifo_inv qp" "off_last (q_items qp) = Some (x, xs)"
  then obtain q so d where q: "qp = Live q" "holds q so d (xs @ [x])" "q_items qp = xs @ [x]"
    "tail_in_place so" "tail_in_place d"
    by (auto simp: q_lifo_inv_def off_last_Some)
  obtain b t where x: "x = (b, t)" by (cases x)
  obtain q' so' d' where "queuePopLIFO good_mem (Live q) = Some (Live q', Some x)"
    "holds q' so' d' xs" "bsize so' = bsize so" "bsize d' = bsize d" "tail_in_place so'" "tail_in_place d'"
    using holds_popLIFO [OF q(2) [unfolded x] q(4,5), of good_mem] unfolding x by blast
  then show "\<exists>q'. queuePopLIFO good_mem qp = Some (q', Some x) \<and> q_lifo_inv q'
      \<and> q_items q' = xs \<and> q_room L qp \<le> q_room L q'"
    using q q_items_holds q_lifo_invI pop_room [OF q(2)] by metis
qed

subsection \<open>Properties\<close>

text \<open>A new queue (with memory available, and a struct whose uninitialized failure count happens to
  hold zero) is empty and well-formed for both disciplines.\<close>

lemma queueCreateWithSize_ok:
  assumes "\<forall>n. can_alloc m n" and "junk_word m = 0" and "unat (n * 8) \<le> 10000000"
  obtains q where "queueCreateWithSize m True n k = Live q" "q_inv (Live q)" "q_lifo_inv (Live q)"
    "q_items (Live q) = []" "top_size (Live q) = unat (max (max 1 (n * 8)) (max 1 (n * k)))"
proof -
  have some: "\<exists>obj. buffCreate m sz = Some obj" for sz
    using assms(1) by (simp add: buffCreate_def Let_def)
  obtain d so where c: "buffCreate m (n * k) = Some d" "buffCreate m (n * 8) = Some so"
    using some by blast
  note d = buffCreate_ok [OF c(1)] and so = buffCreate_ok [OF c(2)]
  let ?d = "d\<lparr>ReallocAdjustment := n * k\<rparr>" and ?so = "so\<lparr>ReallocAdjustment := n * 8\<rparr>"
  let ?q = "\<lparr>sizeBuffer = Some ?so, dataBuffer = Some ?d, lastDataSize = 0, numPushes = 0,
    numPopsLIFO = 0, numPopsFIFO = 0, LastFailedSize = junk_word m, FailedCount = junk_word m\<rparr>"
  have run: "queueCreateWithSize m True n k = Live ?q"
    using c by (simp add: queueCreateWithSize_def buffReallocAdjustment_def Let_def)
  have h: "holds ?q ?so ?d []"
    using d so assms(2,3) by (simp add: holds_def buff_inv_def content_def)
  have place: "tail_in_place ?so" "tail_in_place ?d"
    using d so by (simp_all add: tail_in_place_def)
  have "top_size (Live ?q) = unat (max (max 1 (n * 8)) (max 1 (n * k)))"
    using top_size_holds [OF h] d(6) so(6) by (simp add: max_def word_le_nat_alt)
  then show ?thesis
    by (intro that [OF run q_invI [OF h] q_lifo_invI [OF h place] q_items_holds [OF h]])
qed

text \<open>C6. Used as a FIFO, a queue is a list: over any sequence of pushes and \<open>queuePopFIFO\<close>s, each
  pop returns the oldest block still held, byte for byte with its type, or fails exactly when there
  is none, whatever moves and reallocations the two buffers go through.  (Blocks of at most \<open>L\<close>
  bytes, and no more pushes than \<open>q_room\<close>, which keeps the 32-bit sizes from wrapping; memory does
  not run out.)\<close>

theorem queue_fifo_refines_list:
  assumes "q_inv q" and "\<forall>x\<in>set (pushes ops). small_elem L x" and "length (pushes ops) \<le> q_room L q"
  shows "\<exists>q'. run (push_elem good_mem) (queuePopFIFO good_mem) ops q
      = Some (q', snd (list_run off_first ops (q_items q)))
    \<and> q_inv q' \<and> q_items q' = fst (list_run off_first ops (q_items q))"
  by (rule fifo_queue.run_list_run [OF assms])

definition q0 :: queuePtr where
  "q0 = queueCreateWithSize good_mem True 4 8"

lemma q0: "q_inv q0" "q_lifo_inv q0" "q_items q0 = []" "q_room 100 q0 = 214"
proof -
  obtain q where q: "queueCreateWithSize good_mem True 4 8 = Live q" "q_inv (Live q)"
    "q_lifo_inv (Live q)" "q_items (Live q) = []"
    "top_size (Live q) = unat (max (max 1 (4 * 8 :: u32)) (max 1 (4 * 8)))"
    by (rule queueCreateWithSize_ok [of good_mem 4 8]) (simp_all add: good_mem_def)
  then show "q_inv q0" "q_lifo_inv q0" "q_items q0 = []" "q_room 100 q0 = 214"
    by (simp_all add: q0_def q_room_def max_def)
qed

theorem queue_fifo_refines_list_witness:
  "\<exists>q'. run (push_elem good_mem) (queuePopFIFO good_mem)
      [Pop, Push (''one'', 1), Push (''two'', 2), Pop, Push (''three'', 3), Pop] q0
    = Some (q', [None, Some (''one'', 1), Some (''two'', 2)]) \<and> q_items q' = [(''three'', 3)]"
  using queue_fifo_refines_list [OF q0(1), of
      "[Pop, Push (''one'', 1), Push (''two'', 2), Pop, Push (''three'', 3), Pop]" 100]
  by (simp add: q0 small_elem_def) metis

text \<open>Used as a LIFO, a queue is a stack over the same lists: each \<open>queuePopLIFO\<close> returns the
  newest block still held, with its type.\<close>

theorem queue_lifo_refines_list:
  assumes "q_lifo_inv q" and "\<forall>x\<in>set (pushes ops). small_elem L x" and "length (pushes ops) \<le> q_room L q"
  shows "\<exists>q'. run (push_elem good_mem) (queuePopLIFO good_mem) ops q
      = Some (q', snd (list_run off_last ops (q_items q)))
    \<and> q_lifo_inv q' \<and> q_items q' = fst (list_run off_last ops (q_items q))"
  by (rule lifo_queue.run_list_run [OF assms])

theorem queue_lifo_refines_list_witness:
  "\<exists>q'. run (push_elem good_mem) (queuePopLIFO good_mem)
      [Push (''one'', 1), Push (''two'', 2), Pop, Push (''three'', 3), Pop] q0
    = Some (q', [Some (''two'', 2), Some (''three'', 3)]) \<and> q_items q' = [(''one'', 1)]"
  using queue_lifo_refines_list [OF q0(2), of
      "[Push (''one'', 1), Push (''two'', 2), Pop, Push (''three'', 3), Pop]" 100]
  by (simp add: q0 small_elem_def off_last_def) metis

text \<open>A run of pushes and pops at either end, by the code's functions.\<close>

datatype qop = QPush string u32 | QPopFIFO | QPopLIFO

datatype qanswer = Pushed int | Popped "(string \<times> u32) option"

definition qstep :: "mem \<Rightarrow> qop \<Rightarrow> queuePtr \<Rightarrow> (queuePtr \<times> qanswer) option" where
  "qstep m op q = (case op of
     QPush b t \<Rightarrow> map_option (\<lambda>(q, r). (q, Pushed r)) (queuePush m q (Some b) (word_of_nat (length b)) t)
   | QPopFIFO \<Rightarrow> map_option (\<lambda>(q, r). (q, Popped r)) (queuePopFIFO m q)
   | QPopLIFO \<Rightarrow> map_option (\<lambda>(q, r). (q, Popped r)) (queuePopLIFO m q))"

primrec qrun :: "mem \<Rightarrow> qop list \<Rightarrow> queuePtr \<Rightarrow> qanswer list option" where
  "qrun m [] q = Some []"
| "qrun m (op # ops) q = do { (q', a) \<leftarrow> qstep m op q; as \<leftarrow> qrun m ops q'; Some (a # as) }"

text \<open>The two ends do not mix: after a \<open>queuePopFIFO\<close> the first byte of the remaining record is
  kept aside, and a \<open>queuePopLIFO\<close> that reaches it reads a NUL there.  The second block "cd" comes
  back as an empty block.\<close>

theorem queue_mixed_ends_corrupt:
  "qrun good_mem [QPush ''ab'' 1, QPush ''cd'' 2, QPopFIFO, QPopLIFO]
     (queueCreateWithSize good_mem True 2 4)
   = Some [Pushed 1, Pushed 1, Popped (Some (''ab'', 1)), Popped (Some ([], 2))]"
  by code_simp

text \<open>A push that returns 0 because the record buffer cannot grow leaves its block in the data
  buffer.  The blocks and records are out of step from then on: the third block, refused, is
  returned in place of the fourth, with the fourth's type.\<close>

theorem queuePush_failure_not_atomic:
  "let m = good_mem\<lparr>can_alloc := \<lambda>n. n \<le> 30\<rparr> in
   qrun m [QPush ''a'' 1, QPush ''b'' 2, QPush ''c'' 3, QPopFIFO, QPopFIFO, QPush ''d'' 4, QPopFIFO]
     (queueCreateWithSize m True 1 20)
   = Some [Pushed 1, Pushed 1, Pushed 0, Popped (Some (''a'', 1)), Popped (Some (''b'', 2)),
       Pushed 1, Popped (Some (''c'', 4))]"
  by code_simp

text \<open>\<open>queueCreateWithSize\<close> leaves the failure count uninitialized: where the fresh memory is not
  zero, a push onto a queue more than 49% full is refused with all the memory in the world.\<close>

theorem queuePush_refused_by_junk:
  "let m = good_mem\<lparr>junk_word := 1\<rparr> in
   qrun m [QPush ''abc'' 1, QPush ''d'' 2] (queueCreateWithSize m True 2 3) = Some [Pushed 1, Pushed 0]
   \<and> qrun good_mem [QPush ''abc'' 1, QPush ''d'' 2] (queueCreateWithSize good_mem True 2 3)
     = Some [Pushed 1, Pushed 1]"
  by code_simp

text \<open>When a buffer cannot be allocated, \<open>queueCreateWithSize\<close> does not return NULL, as its
  comment says, but the pointer it has just freed: the next use of the queue is undefined.\<close>

theorem queueCreate_dangles:
  assumes "\<not> can_alloc m (unat (max 1 (n * 8)))"
  shows "queueCreateWithSize m True n k = Freed
    \<and> queuePush m (queueCreateWithSize m True n k) p len t = None
    \<and> queuePopFIFO m (queueCreateWithSize m True n k) = None"
proof -
  have "buffCreate m (n * 8) = None"
  proof -
    have "(if n * 8 < 1 then 1 else n * 8) = max 1 (n * 8)"
      by (cases "n * 8 < 1") (simp_all only: max_def not_le [symmetric] simp_thms if_True if_False)
    then show ?thesis using assms by (simp only: buffCreate_def Let_def if_False)
  qed
  then have "queueCreateWithSize m True n k = Freed"
    by (simp add: queueCreateWithSize_def buffReallocAdjustment_def queueDestroy_def Let_def)
  then show ?thesis by (simp add: queuePush_def queuePopFIFO_def)
qed

theorem queueCreate_dangles_witness:
  "queueCreateWithSize (good_mem\<lparr>can_alloc := \<lambda>n. n \<noteq> 80\<rparr>) True 10 1024 = Freed"
proof -
  have "max 1 (80 :: u32) = 80" by (simp add: max_def)
  then show ?thesis
    using queueCreate_dangles [of "good_mem\<lparr>can_alloc := \<lambda>n. n \<noteq> 80\<rparr>" 10 1024] by simp
qed

end
