(* ===== verification/Sched.thy ===== *)
theory Sched
  imports Main "HOL-Library.Word" "HOL-Library.Monad_Syntax"
begin

text \<open>
  \<open>src/sched.c\<close>: the scheduler.  A task list is a doubly linked chain of task structs sorted by due
  time, with a second list (\<open>runnow\<close>) for the tasks being run, a pool of retired structs, and a hint
  at the last insertion.  The structs live in a heap: finite maps from addresses to tasks and to
  lists.  A dereference of NULL or of a freed struct is undefined: the operation is \<open>None\<close>.

  The clock is the cached time of \<open>timer.c\<close> (\<open>GetCurrentTime\<close>); memory does not run out.  A callback
  is code elsewhere: \<open>invoke\<close> says what a call of it does to the whole heap and the world.
\<close>

type_synonym u64 = "64 word"
type_synonym addr = nat

record ('f, 'd) task_entry =
  tnext :: "addr option"
  tprev :: "addr option"
  owner :: addr
  seconds :: u64
  micros :: u64
  callback :: "'f option"
  tdata :: "'d option"
  linked :: bool

record task_list =
  lhead :: "addr option"
  ltail :: "addr option"
  runnow :: "addr option"
  pool :: "addr option"
  insertHint :: "addr option"

record ('f, 'd, 'w) store =
  tasks :: "addr \<Rightarrow> ('f, 'd) task_entry option"
  lists :: "addr \<Rightarrow> task_list option"
  clock_s :: u64
  clock_us :: u64
  fresh_task :: addr
  fresh_list :: addr
  tasksAlive :: int
  world :: 'w

definition task_callback :: int where "task_callback = 0"
definition task_deactivate :: int where "task_deactivate = 1"

subsection \<open>Accesses\<close>

definition setT :: "addr \<Rightarrow> (('f, 'd) task_entry \<Rightarrow> ('f, 'd) task_entry) \<Rightarrow> ('f, 'd, 'w) store
    \<Rightarrow> ('f, 'd, 'w) store option" where
  "setT p f st = (case tasks st p of None \<Rightarrow> None
     | Some t \<Rightarrow> Some (st\<lparr>tasks := (tasks st)(p \<mapsto> f t)\<rparr>))"

definition setL :: "addr \<Rightarrow> (task_list \<Rightarrow> task_list) \<Rightarrow> ('f, 'd, 'w) store \<Rightarrow> ('f, 'd, 'w) store option" where
  "setL l f st = (case lists st l of None \<Rightarrow> None
     | Some L \<Rightarrow> Some (st\<lparr>lists := (lists st)(l \<mapsto> f L)\<rparr>))"

subsection \<open>Creating lists and tasks\<close>

definition CreateList :: "('f, 'd, 'w) store \<Rightarrow> addr \<times> ('f, 'd, 'w) store" where
  "CreateList st = (fresh_list st, st\<lparr>lists := (lists st)(fresh_list st \<mapsto>
     \<lparr>lhead = None, ltail = None, runnow = None, pool = None, insertHint = None\<rparr>),
     fresh_list := fresh_list st + 1\<rparr>)"

definition CreateTask :: "addr \<Rightarrow> ('f, 'd, 'w) store \<Rightarrow> addr \<times> ('f, 'd, 'w) store" where
  "CreateTask l st = (fresh_task st, st\<lparr>tasks := (tasks st)(fresh_task st \<mapsto>
     \<lparr>tnext = None, tprev = None, owner = l, seconds = 0, micros = 0, callback = None, tdata = None,
      linked = False\<rparr>), fresh_task := fresh_task st + 1, tasksAlive := tasksAlive st + 1\<rparr>)"

subsection \<open>Removing\<close>

definition RemoveTaskFromList :: "addr \<Rightarrow> ('f, 'd, 'w) store \<Rightarrow> ('f, 'd, 'w) store option" where
  "RemoveTaskFromList p st = do {
     t \<leftarrow> tasks st p;
     let l = owner t;
     if \<not> linked t then Some st
     else do {
       L \<leftarrow> lists st l;
       st1 \<leftarrow> (if insertHint L = Some p then setL l (\<lambda>L. L\<lparr>insertHint := None\<rparr>) st else Some st);
       st2 \<leftarrow> (case tprev t of None \<Rightarrow> setL l (\<lambda>L. L\<lparr>lhead := tnext t\<rparr>) st1
                | Some q \<Rightarrow> setT q (\<lambda>e. e\<lparr>tnext := tnext t\<rparr>) st1);
       t2 \<leftarrow> tasks st2 p;
       st3 \<leftarrow> (case tnext t2 of None \<Rightarrow> setL l (\<lambda>L. L\<lparr>ltail := tprev t2\<rparr>) st2
                | Some q \<Rightarrow> setT q (\<lambda>e. e\<lparr>tprev := tprev t2\<rparr>) st2);
       setT p (\<lambda>e. e\<lparr>tprev := None, tnext := None, linked := False\<rparr>) st3 } }"

definition GetTask :: "addr \<Rightarrow> ('f, 'd, 'w) store \<Rightarrow> (addr \<times> ('f, 'd, 'w) store) option" where
  "GetTask l st = do {
     L \<leftarrow> lists st l;
     (case pool L of None \<Rightarrow> Some (CreateTask l st)
      | Some p \<Rightarrow> do {
          t \<leftarrow> tasks st p;
          st1 \<leftarrow> setL l (\<lambda>L. L\<lparr>pool := tnext t\<rparr>) st;
          st2 \<leftarrow> setT p (\<lambda>e. e\<lparr>tnext := None\<rparr>) st1;
          Some (p, st2) }) }"

definition RemoveTask :: "addr \<Rightarrow> ('f, 'd, 'w) store \<Rightarrow> ('f, 'd, 'w) store option" where
  "RemoveTask p st = do {
     t \<leftarrow> tasks st p;
     let l = owner t;
     st1 \<leftarrow> RemoveTaskFromList p st;
     L \<leftarrow> lists st1 l;
     st2 \<leftarrow> setT p (\<lambda>e. e\<lparr>callback := None, tdata := None, tnext := pool L\<rparr>) st1;
     setL l (\<lambda>L. L\<lparr>pool := Some p\<rparr>) st2 }"

text \<open>A callback is invoked with its data and a message number.\<close>

type_synonym ('f, 'd, 'w) invoke = "'f \<Rightarrow> 'd option \<Rightarrow> int \<Rightarrow> ('f, 'd, 'w) store \<Rightarrow> ('f, 'd, 'w) store option"

definition DeactivateTask :: "('f, 'd, 'w) invoke \<Rightarrow> addr \<Rightarrow> ('f, 'd, 'w) store \<Rightarrow> ('f, 'd, 'w) store option" where
  "DeactivateTask invoke p st = do {
     st1 \<leftarrow> RemoveTaskFromList p st;
     t \<leftarrow> tasks st1 p;
     (case callback t of None \<Rightarrow> Some st1 | Some f \<Rightarrow> invoke f (tdata t) task_deactivate st1) }"

text \<open>The walk of \<open>DeleteTask\<close> along the pool: \<open>link\<close> is the list's own pool field (\<open>None\<close>) or the
  \<open>next\<close> field of a task.\<close>

partial_function (option) unpool :: "addr \<Rightarrow> addr \<Rightarrow> addr option \<Rightarrow> ('f, 'd, 'w) store
    \<Rightarrow> ('f, 'd, 'w) store option" where
  "unpool l p link st = do {
     cur \<leftarrow> (case link of None \<Rightarrow> map_option pool (lists st l) | Some q \<Rightarrow> map_option tnext (tasks st q));
     (case cur of None \<Rightarrow> Some st
      | Some c \<Rightarrow>
          if c = p then do {
            t \<leftarrow> tasks st p;
            (case link of None \<Rightarrow> setL l (\<lambda>L. L\<lparr>pool := tnext t\<rparr>) st
             | Some q \<Rightarrow> setT q (\<lambda>e. e\<lparr>tnext := tnext t\<rparr>) st) }
          else unpool l p (Some c) st) }"

definition DeleteTask :: "('f, 'd, 'w) invoke \<Rightarrow> addr \<Rightarrow> ('f, 'd, 'w) store \<Rightarrow> ('f, 'd, 'w) store option" where
  "DeleteTask invoke p st = do {
     t \<leftarrow> tasks st p;
     let l = owner t;
     st1 \<leftarrow> DeactivateTask invoke p st;
     st2 \<leftarrow> unpool l p None st1;
     L \<leftarrow> lists st2 l;
     st3 \<leftarrow> (if insertHint L = Some p then setL l (\<lambda>L. L\<lparr>insertHint := None\<rparr>) st2 else Some st2);
     _ \<leftarrow> tasks st3 p;
     Some (st3\<lparr>tasks := (tasks st3)(p := None), tasksAlive := tasksAlive st3 - 1\<rparr>) }"

partial_function (option) deleteChain :: "('f, 'd, 'w) invoke \<Rightarrow> addr option \<Rightarrow> ('f, 'd, 'w) store
    \<Rightarrow> ('f, 'd, 'w) store option" where
  "deleteChain invoke cur st = (case cur of None \<Rightarrow> Some st
     | Some c \<Rightarrow> do {
         t \<leftarrow> tasks st c;
         st1 \<leftarrow> DeleteTask invoke c st;
         deleteChain invoke (tnext t) st1 })"

partial_function (option) freePool :: "addr option \<Rightarrow> ('f, 'd, 'w) store \<Rightarrow> ('f, 'd, 'w) store option" where
  "freePool cur st = (case cur of None \<Rightarrow> Some st
     | Some c \<Rightarrow> do {
         t \<leftarrow> tasks st c;
         freePool (tnext t) (st\<lparr>tasks := (tasks st)(c := None), tasksAlive := tasksAlive st - 1\<rparr>) })"

definition DeleteList :: "('f, 'd, 'w) invoke \<Rightarrow> addr \<Rightarrow> ('f, 'd, 'w) store \<Rightarrow> ('f, 'd, 'w) store option" where
  "DeleteList invoke l st = do {
     L \<leftarrow> lists st l;
     st1 \<leftarrow> deleteChain invoke (lhead L) st;
     L1 \<leftarrow> lists st1 l;
     st2 \<leftarrow> (case runnow L1 of None \<Rightarrow> Some st1
              | Some r \<Rightarrow> do { _ \<leftarrow> lists st1 r; Some (st1\<lparr>lists := (lists st1)(r := None)\<rparr>) });
     L2 \<leftarrow> lists st2 l;
     st3 \<leftarrow> freePool (pool L2) st2;
     Some (st3\<lparr>lists := (lists st3)(l := None)\<rparr>) }"

subsection \<open>Adding\<close>

definition due_le :: "('f, 'd) task_entry \<Rightarrow> u64 \<Rightarrow> u64 \<Rightarrow> bool" where
  "due_le t s u \<longleftrightarrow> seconds t < s \<or> seconds t = s \<and> micros t \<le> u"

text \<open>The walk to the first entry that is due later.\<close>

partial_function (option) walk :: "u64 \<Rightarrow> u64 \<Rightarrow> addr option \<Rightarrow> ('f, 'd, 'w) store \<Rightarrow> addr option option" where
  "walk s u cur st = (case cur of None \<Rightarrow> Some None
     | Some c \<Rightarrow> do { t \<leftarrow> tasks st c; if due_le t s u then walk s u (tnext t) st else Some (Some c) })"

definition dueTime :: "u64 \<Rightarrow> u64 \<Rightarrow> 32 word \<Rightarrow> 32 word \<Rightarrow> u64 \<times> u64" where
  "dueTime s u delay_seconds delay_micros =
     (let dueSeconds = s + scast delay_seconds; dueMicros = u + scast delay_micros
      in if dueMicros > 1000000 then (dueSeconds + 1, dueMicros - 1000000) else (dueSeconds, dueMicros))"

text \<open>Where the walk starts: at the last insertion if that is still linked and due no later.\<close>

definition startPoint :: "task_list \<Rightarrow> addr \<Rightarrow> u64 \<Rightarrow> u64 \<Rightarrow> ('f, 'd, 'w) store \<Rightarrow> addr option" where
  "startPoint L h s u st = (case insertHint L of None \<Rightarrow> Some h
     | Some i \<Rightarrow> do { e \<leftarrow> tasks st i; Some (if linked e \<and> due_le e s u then i else h) })"

text \<open>Insertion in front of \<open>current\<close>: at the front of the list, at its end, or in the middle.\<close>

definition splice :: "addr \<Rightarrow> addr \<Rightarrow> task_list \<Rightarrow> addr \<Rightarrow> addr option \<Rightarrow> ('f, 'd, 'w) store
    \<Rightarrow> ('f, 'd, 'w) store option" where
  "splice l p L h current st =
     (if lhead L = current then do {
        st2 \<leftarrow> setT h (\<lambda>e. e\<lparr>tprev := Some p\<rparr>) st;
        st3 \<leftarrow> setT p (\<lambda>e. e\<lparr>tnext := Some h\<rparr>) st2;
        setL l (\<lambda>L. L\<lparr>lhead := Some p\<rparr>) st3 }
      else (case current of
        None \<Rightarrow> do {
          last \<leftarrow> ltail L;
          st2 \<leftarrow> setT last (\<lambda>e. e\<lparr>tnext := Some p\<rparr>) st;
          st3 \<leftarrow> setT p (\<lambda>e. e\<lparr>tprev := Some last\<rparr>) st2;
          setL l (\<lambda>L. L\<lparr>ltail := Some p\<rparr>) st3 }
      | Some c \<Rightarrow> do {
          e \<leftarrow> tasks st c;
          st2 \<leftarrow> setT p (\<lambda>f. f\<lparr>tnext := Some c, tprev := tprev e\<rparr>) st;
          st3 \<leftarrow> setT c (\<lambda>f. f\<lparr>tprev := Some p\<rparr>) st2;
          ahead \<leftarrow> tprev e;
          setT ahead (\<lambda>f. f\<lparr>tnext := Some p\<rparr>) st3 }))"

text \<open>The task as it is armed.\<close>

definition armed :: "u64 \<times> u64 \<Rightarrow> 'f option \<Rightarrow> 'd option \<Rightarrow> ('f, 'd) task_entry \<Rightarrow> ('f, 'd) task_entry" where
  "armed d func data t = t\<lparr>callback := func, tdata := data, seconds := fst d, micros := snd d,
     tnext := None, tprev := None, linked := True\<rparr>"

definition AddTaskDelay :: "addr \<Rightarrow> 32 word \<Rightarrow> 32 word \<Rightarrow> 'f option \<Rightarrow> 'd option
    \<Rightarrow> ('f, 'd, 'w) store \<Rightarrow> ('f, 'd, 'w) store option" where
  "AddTaskDelay p delay_seconds delay_micros func data st = do {
     t \<leftarrow> tasks st p;
     let l = owner t;
     let d = dueTime (clock_s st) (clock_us st) delay_seconds delay_micros;
     st1 \<leftarrow> setT p (armed d func data) st;
     L \<leftarrow> lists st1 l;
     (case lhead L of
        None \<Rightarrow> do {
          st2 \<leftarrow> setL l (\<lambda>L. L\<lparr>lhead := Some p, ltail := Some p, insertHint := Some p\<rparr>) st1;
          setT p (\<lambda>e. e\<lparr>tnext := None, tprev := None\<rparr>) st2 }
      | Some h \<Rightarrow> do {
          start \<leftarrow> startPoint L h (fst d) (snd d) st1;
          current \<leftarrow> walk (fst d) (snd d) (Some start) st1;
          st2 \<leftarrow> splice l p L h current st1;
          setL l (\<lambda>L. L\<lparr>insertHint := Some p\<rparr>) st2 }) }"

definition AddTaskNow :: "addr \<Rightarrow> 'f option \<Rightarrow> 'd option \<Rightarrow> ('f, 'd, 'w) store \<Rightarrow> ('f, 'd, 'w) store option" where
  "AddTaskNow p func data st = AddTaskDelay p 0 0 func data st"

definition AddTaskMilli :: "addr \<Rightarrow> u64 \<Rightarrow> 'f option \<Rightarrow> 'd option \<Rightarrow> ('f, 'd, 'w) store
    \<Rightarrow> ('f, 'd, 'w) store option" where
  "AddTaskMilli p delay_millisecs func data st =
     AddTaskDelay p (ucast (delay_millisecs div 1000)) (ucast (delay_millisecs mod 1000 * 1000)) func data st"

definition AddTaskSec :: "addr \<Rightarrow> u64 \<Rightarrow> 'f option \<Rightarrow> 'd option \<Rightarrow> ('f, 'd, 'w) store
    \<Rightarrow> ('f, 'd, 'w) store option" where
  "AddTaskSec p delay_seconds func data st = AddTaskDelay p (ucast delay_seconds) 0 func data st"

definition AddTaskToTail :: "addr \<Rightarrow> addr \<Rightarrow> ('f, 'd, 'w) store \<Rightarrow> ('f, 'd, 'w) store option" where
  "AddTaskToTail l p st = do {
     st1 \<leftarrow> setT p (\<lambda>e. e\<lparr>linked := True\<rparr>) st;
     L \<leftarrow> lists st1 l;
     (case lhead L of
        None \<Rightarrow> do {
          st2 \<leftarrow> setL l (\<lambda>L. L\<lparr>lhead := Some p, ltail := Some p\<rparr>) st1;
          setT p (\<lambda>e. e\<lparr>tnext := None, tprev := None\<rparr>) st2 }
      | Some _ \<Rightarrow> do {
          last \<leftarrow> ltail L;
          st2 \<leftarrow> setT last (\<lambda>e. e\<lparr>tnext := Some p\<rparr>) st1;
          st3 \<leftarrow> setT p (\<lambda>e. e\<lparr>tnext := None, tprev := Some last\<rparr>) st2;
          setL l (\<lambda>L. L\<lparr>ltail := Some p\<rparr>) st3 }) }"

subsection \<open>Running\<close>

text \<open>The loop of \<open>ActivateTimedTasks\<close>: tasks due at the time read before it move to \<open>runnow\<close>.\<close>

partial_function (option) activateFrom :: "u64 \<Rightarrow> u64 \<Rightarrow> addr \<Rightarrow> addr option \<Rightarrow> ('f, 'd, 'w) store
    \<Rightarrow> ('f, 'd, 'w) store option" where
  "activateFrom s u r cur st = (case cur of None \<Rightarrow> Some st
     | Some c \<Rightarrow> do {
         t \<leftarrow> tasks st c;
         if seconds t > s \<or> seconds t = s \<and> micros t > u then Some st
         else do {
           st1 \<leftarrow> RemoveTaskFromList c st;
           st2 \<leftarrow> AddTaskToTail r c st1;
           activateFrom s u r (tnext t) st2 } })"

definition ActivateTimedTasks :: "addr \<Rightarrow> addr \<Rightarrow> ('f, 'd, 'w) store \<Rightarrow> ('f, 'd, 'w) store option" where
  "ActivateTimedTasks l r st = do {
     L \<leftarrow> lists st l; activateFrom (clock_s st) (clock_us st) r (lhead L) st }"

text \<open>One round of the loop of \<open>ExecTasks\<close>: the head \<open>c\<close> of \<open>runnow\<close> is unlinked and called.\<close>

definition runOne :: "('f, 'd, 'w) invoke \<Rightarrow> addr \<Rightarrow> addr \<Rightarrow> ('f, 'd, 'w) store \<Rightarrow> ('f, 'd, 'w) store option" where
  "runOne invoke r c st = do {
     t \<leftarrow> tasks st c;
     st1 \<leftarrow> setL r (\<lambda>R. R\<lparr>lhead := tnext t\<rparr>) st;
     st2 \<leftarrow> setT c (\<lambda>e. e\<lparr>tnext := None, tprev := None, linked := False\<rparr>) st1;
     (case callback t of None \<Rightarrow> Some st2 | Some f \<Rightarrow> invoke f (tdata t) task_callback st2) }"

text \<open>The loop, with the number of tasks run; it reads \<open>list->runnow\<close> again each time.\<close>

partial_function (option) execLoop :: "('f, 'd, 'w) invoke \<Rightarrow> addr \<Rightarrow> nat \<Rightarrow> ('f, 'd, 'w) store
    \<Rightarrow> (nat \<times> ('f, 'd, 'w) store) option" where
  "execLoop invoke l n st = do {
     L \<leftarrow> lists st l;
     r \<leftarrow> runnow L;
     R \<leftarrow> lists st r;
     (case lhead R of None \<Rightarrow> Some (n, st)
      | Some c \<Rightarrow> do { st1 \<leftarrow> runOne invoke r c st; execLoop invoke l (n + 1) st1 }) }"

definition execDone :: "addr \<Rightarrow> nat \<Rightarrow> ('f, 'd, 'w) store \<Rightarrow> (int \<times> ('f, 'd, 'w) store) option" where
  "execDone l taskcount st = do {
     L \<leftarrow> lists st l;
     r \<leftarrow> runnow L;
     st1 \<leftarrow> setL r (\<lambda>R. R\<lparr>ltail := None\<rparr>) st;
     L1 \<leftarrow> lists st1 l;
     Some (if lhead L1 \<noteq> None \<or> taskcount \<noteq> 0 then 1 else 0, st1) }"

definition ExecTasks :: "('f, 'd, 'w) invoke \<Rightarrow> addr \<Rightarrow> ('f, 'd, 'w) store
    \<Rightarrow> (int \<times> ('f, 'd, 'w) store) option" where
  "ExecTasks invoke l st = do {
     L \<leftarrow> lists st l;
     (r, st1) \<leftarrow> (case runnow L of Some r \<Rightarrow> Some (r, st)
                  | None \<Rightarrow> (let (r, st') = CreateList st in
                      map_option (\<lambda>st''. (r, st'')) (setL l (\<lambda>L. L\<lparr>runnow := Some r\<rparr>) st')));
     st2 \<leftarrow> ActivateTimedTasks l r st1;
     (n, st3) \<leftarrow> execLoop invoke l 0 st2;
     execDone l n st3 }"

partial_function (option) adjustFrom :: "u64 \<Rightarrow> addr option \<Rightarrow> ('f, 'd, 'w) store \<Rightarrow> ('f, 'd, 'w) store option" where
  "adjustFrom offset cur st = (case cur of None \<Rightarrow> Some st
     | Some c \<Rightarrow> do {
         st1 \<leftarrow> setT c (\<lambda>e. e\<lparr>seconds := seconds e + offset\<rparr>) st;
         t \<leftarrow> tasks st1 c;
         adjustFrom offset (tnext t) st1 })"

definition AdjustDelayedTasks :: "addr \<Rightarrow> u64 \<Rightarrow> ('f, 'd, 'w) store \<Rightarrow> ('f, 'd, 'w) store option" where
  "AdjustDelayedTasks l offset st = do { L \<leftarrow> lists st l; adjustFrom offset (lhead L) st }"

text \<open>Signed 64-bit arithmetic: an overflow is undefined.\<close>

definition in_long :: "int \<Rightarrow> int option" where
  "in_long i = (if - (2 ^ 63) \<le> i \<and> i < 2 ^ 63 then Some i else None)"

definition SchedNextWakeMicros :: "addr \<Rightarrow> ('f, 'd, 'w) store \<Rightarrow> u64 option" where
  "SchedNextWakeMicros l st = do {
     L \<leftarrow> lists st l;
     (case lhead L of None \<Rightarrow> Some 0
      | Some h \<Rightarrow> do {
          t \<leftarrow> tasks st h;
          ds \<leftarrow> in_long (sint (seconds t) - sint (clock_s st));
          ms \<leftarrow> in_long (ds * 1000000);
          du \<leftarrow> in_long (sint (micros t) - sint (clock_us st));
          due \<leftarrow> in_long (ms + du);
          Some (if due > 0 then word_of_int due else 0) }) }"

declare walk.simps [code] unpool.simps [code] activateFrom.simps [code] execLoop.simps [code]
  deleteChain.simps [code] freePool.simps [code] adjustFrom.simps [code]

end
