(* ===== verification/Sched_Lists.thy ===== *)
theory Sched_Lists
  imports Sched
begin

text \<open>
  The task chains of \<open>Sched\<close> as lists of addresses: what it means that a list struct holds a chain,
  the invariant of the scheduler's list (linked, sorted by due time, with a hint that is one of its
  entries), and what insertion, removal, activation and execution do to those lists.
\<close>

subsection \<open>Chains\<close>

definition first :: "addr list \<Rightarrow> addr option \<Rightarrow> addr option" where
  "first xs n = (case xs of [] \<Rightarrow> n | y # _ \<Rightarrow> Some y)"

definition final :: "addr list \<Rightarrow> addr option \<Rightarrow> addr option" where
  "final xs p = (if xs = [] then p else Some (last xs))"

lemma first_simps [simp]: "first [] n = n" "first (y # ys) n = Some y"
  by (simp_all add: first_def)

lemma final_simps [simp]: "final [] p = p" "final (ys @ [y]) p = Some y" "final [y] p = Some y"
    "final (y # z # zs) p = final (z # zs) p"
  by (simp_all add: final_def)

lemma first_append: "first (xs @ ys) n = first xs (first ys n)"
  by (simp add: first_def split: list.split)

lemma final_append: "final (xs @ ys) p = final ys (final xs p)"
  by (simp add: final_def)

lemma final_Cons: "final (x # xs) p = final xs (Some x)"
  by (simp add: final_def)

fun seg :: "(addr \<Rightarrow> ('f, 'd) task_entry option) \<Rightarrow> addr option \<Rightarrow> addr list \<Rightarrow> addr option \<Rightarrow> bool" where
  "seg T p [] n \<longleftrightarrow> True"
| "seg T p (x # xs) n \<longleftrightarrow> (\<exists>t. T x = Some t \<and> tprev t = p \<and> tnext t = first xs n) \<and> seg T (Some x) xs n"

lemma seg_append:
  "seg T p (xs @ ys) n \<longleftrightarrow> seg T p xs (first ys n) \<and> seg T (final xs p) ys n"
  by (induction xs arbitrary: p) (auto simp: first_append final_Cons)

lemma seg_cong: "(\<And>x. x \<in> set xs \<Longrightarrow> T' x = T x) \<Longrightarrow> seg T' p xs n \<longleftrightarrow> seg T p xs n"
  by (induction xs arbitrary: p) auto

lemma seg_upd [simp]: "x \<notin> set xs \<Longrightarrow> seg (T(x := v)) p xs n \<longleftrightarrow> seg T p xs n"
  by (rule seg_cong) auto

text \<open>A list struct and a chain.\<close>

definition chain :: "(addr \<Rightarrow> ('f, 'd) task_entry option) \<Rightarrow> task_list \<Rightarrow> addr list \<Rightarrow> bool" where
  "chain T L xs \<longleftrightarrow> lhead L = first xs None \<and> ltail L = final xs None \<and> seg T None xs None \<and> distinct xs"

lemma chain_upd [simp]: "x \<notin> set xs \<Longrightarrow> chain (T(x := v)) L xs \<longleftrightarrow> chain T L xs"
  by (simp add: chain_def)

lemma chain_cong:
  "(\<And>x. x \<in> set xs \<Longrightarrow> T' x = T x) \<Longrightarrow> lhead L' = lhead L \<Longrightarrow> ltail L' = ltail L \<Longrightarrow>
   chain T' L' xs \<longleftrightarrow> chain T L xs"
  by (simp add: chain_def seg_cong [of xs T' T])

text \<open>What is left of a task when its links are forgotten; link updates keep it.\<close>

definition core :: "('f, 'd) task_entry \<Rightarrow> ('f, 'd) task_entry" where
  "core t = t\<lparr>tnext := None, tprev := None\<rparr>"

definition same_cores :: "addr set \<Rightarrow> (addr \<Rightarrow> ('f, 'd) task_entry option) \<Rightarrow> (addr \<Rightarrow> ('f, 'd) task_entry option) \<Rightarrow> bool" where
  "same_cores X T T' \<longleftrightarrow> (\<forall>x. x \<notin> X \<longrightarrow> map_option core (T' x) = map_option core (T x))"

lemma core_simps [simp]:
  "core (t\<lparr>tnext := a\<rparr>) = core t" "core (t\<lparr>tprev := b\<rparr>) = core t"
  "seconds (core t) = seconds t" "micros (core t) = micros t" "owner (core t) = owner t"
  "linked (core t) = linked t" "callback (core t) = callback t" "tdata (core t) = tdata t"
  by (simp_all add: core_def)

lemma same_cores_refl [simp]: "same_cores X T T"
  by (simp add: same_cores_def)

lemma same_cores_trans: "same_cores X T T' \<Longrightarrow> same_cores X T' T'' \<Longrightarrow> same_cores X T T''"
  by (simp add: same_cores_def)

lemma same_cores_upd:
  "T x = Some t \<Longrightarrow> core t' = core t \<Longrightarrow> same_cores X T0 T \<Longrightarrow> same_cores X T0 (T(x \<mapsto> t'))"
  by (auto simp: same_cores_def)

lemma same_cores_upd_in: "x \<in> X \<Longrightarrow> same_cores X T0 T \<Longrightarrow> same_cores X T0 (T(x := v))"
  by (auto simp: same_cores_def)

lemma same_cores_Some:
  assumes "same_cores X T T'" and "x \<notin> X" and "T x = Some t"
  obtains t' where "T' x = Some t'" "seconds t' = seconds t" "micros t' = micros t"
    "owner t' = owner t" "linked t' = linked t" "callback t' = callback t" "tdata t' = tdata t"
proof -
  have "map_option core (T' x) = Some (core t)" using assms by (simp add: same_cores_def)
  then obtain t' where "T' x = Some t'" "core t' = core t" by (cases "T' x") auto
  then show ?thesis using that core_simps(3-) by metis
qed

subsection \<open>Splicing\<close>

lemma setT_Some [simp]: "tasks st p = Some t \<Longrightarrow> setT p f st = Some (st\<lparr>tasks := (tasks st)(p \<mapsto> f t)\<rparr>)"
  by (simp add: setT_def)

lemma setL_Some [simp]: "lists st l = Some L \<Longrightarrow> setL l f st = Some (st\<lparr>lists := (lists st)(l \<mapsto> f L)\<rparr>)"
  by (simp add: setL_def)

lemma seg_nth:
  assumes "seg T p (as @ x # bs) n"
  shows "\<exists>t. T x = Some t \<and> tprev t = final as p \<and> tnext t = first bs n"
  using assms by (auto simp: seg_append)

text \<open>Removal, on lists: the neighbours are joined and the task is cleared.\<close>

lemma RemoveTaskFromList_chain:
  assumes ch: "chain (tasks st) L (as @ p # bs)" and L: "lists st l = Some L"
    and t: "tasks st p = Some t" "linked t" "owner t = l"
  obtains st' L' where "RemoveTaskFromList p st = Some st'" "lists st' = (lists st)(l \<mapsto> L')"
    "chain (tasks st') L' (as @ bs)"
    "insertHint L' = (if insertHint L = Some p then None else insertHint L)"
    "runnow L' = runnow L" "pool L' = pool L"
    "tasks st' p = Some (t\<lparr>tprev := None, tnext := None, linked := False\<rparr>)"
    "same_cores {p} (tasks st) (tasks st')"
    "\<forall>x. x \<notin> set (as @ p # bs) \<longrightarrow> tasks st' x = tasks st x"
    "clock_s st' = clock_s st" "clock_us st' = clock_us st" "world st' = world st"
    "tasksAlive st' = tasksAlive st" "fresh_task st' = fresh_task st" "fresh_list st' = fresh_list st"
proof -
  let ?L1 = "if insertHint L = Some p then L\<lparr>insertHint := None\<rparr> else L"
  let ?st1 = "st\<lparr>lists := (lists st)(l \<mapsto> ?L1)\<rparr>"
  have hint: "(if insertHint L = Some p then setL l (\<lambda>L. L\<lparr>insertHint := None\<rparr>) st else Some st) = Some ?st1"
    using L by (auto simp: fun_upd_idem)
  have seg: "seg (tasks st) None (as @ p # bs) None" and dist: "distinct (as @ p # bs)"
    using ch by (simp_all add: chain_def)
  have tp: "tprev t = final as None" "tnext t = first bs None"
    using seg_nth [OF seg] t by auto
  note run = RemoveTaskFromList_def [of p st]
  show ?thesis
  proof (cases as rule: rev_cases)
    case as: Nil
    show ?thesis
    proof (cases bs)
      case Nil
      then show ?thesis
        using that as L t tp ch hint
        by (simp add: run chain_def same_cores_def fun_upd_idem)
    next
      case (Cons b bs')
      obtain tb where "tasks st b = Some tb" "tprev tb = Some p" "tnext tb = first bs' None"
        using seg as Cons by auto
      then show ?thesis
        using that as Cons L t tp ch hint dist
        by (simp add: run chain_def same_cores_def final_Cons)
    qed
  next
    case as: (snoc as' a)
    obtain ta where ta: "tasks st a = Some ta" "tprev ta = final as' None" "tnext ta = Some p"
      using seg as by (auto simp: seg_append)
    show ?thesis
    proof (cases bs)
      case Nil
      then show ?thesis
        using that as L t tp ch hint dist ta
        by (simp add: run chain_def same_cores_def seg_append first_append)
    next
      case (Cons b bs')
      obtain tb where "tasks st b = Some tb" "tprev tb = Some p" "tnext tb = first bs' None"
        using seg as Cons by (auto simp: seg_append)
      then show ?thesis
        using that as Cons L t tp ch hint dist ta
        by (simp add: run chain_def same_cores_def seg_append first_append final_append final_Cons)
    qed
  qed
qed

text \<open>Appending at the tail, as \<open>AddTaskToTail\<close> does for the tasks to run.\<close>

lemma AddTaskToTail_chain:
  assumes ch: "chain (tasks st) R ys" and R: "lists st r = Some R"
    and t: "tasks st p = Some t" and p: "p \<notin> set ys"
  obtains st' R' where "AddTaskToTail r p st = Some st'" "lists st' = (lists st)(r \<mapsto> R')"
    "chain (tasks st') R' (ys @ [p])" "insertHint R' = insertHint R" "runnow R' = runnow R"
    "pool R' = pool R"
    "\<exists>t'. tasks st' p = Some t' \<and> core t' = core (t\<lparr>linked := True\<rparr>)"
    "same_cores {p} (tasks st) (tasks st')" "\<forall>x. x \<notin> set ys \<and> x \<noteq> p \<longrightarrow> tasks st' x = tasks st x"
    "clock_s st' = clock_s st" "clock_us st' = clock_us st" "world st' = world st"
    "tasksAlive st' = tasksAlive st" "fresh_task st' = fresh_task st" "fresh_list st' = fresh_list st"
proof (cases ys rule: rev_cases)
  case Nil
  then show ?thesis
    using that ch R t by (simp add: AddTaskToTail_def chain_def same_cores_def core_def)
next
  case (snoc ys' a)
  have seg: "seg (tasks st) None (ys' @ [a]) None" and dist: "distinct (ys' @ [a])"
    using ch snoc by (simp_all add: chain_def)
  obtain ta where ta: "tasks st a = Some ta" "tprev ta = final ys' None" "tnext ta = None"
    using seg by (auto simp: seg_append)
  have h: "\<exists>h. lhead R = Some h" "ltail R = Some a"
    using ch snoc by (auto simp: chain_def first_def split: list.splits)
  then show ?thesis
    using that snoc R t p seg dist ta ch
    by (auto simp: AddTaskToTail_def chain_def same_cores_def seg_append first_append final_append core_def)
qed

subsection \<open>The walk and the sorted insertion\<close>

lemma walk_first:
  "seg (tasks st) p xs None \<Longrightarrow>
   walk s u (first xs None) st = Some (first (dropWhile (\<lambda>x. due_le (the (tasks st x)) s u) xs) None)"
proof (induction xs arbitrary: p)
  case Nil
  show ?case by (simp add: walk.simps)
next
  case (Cons x xs)
  then show ?case by (subst walk.simps) auto
qed

text \<open>Insertion between the two parts of a chain, the three cases of the code.\<close>

lemma splice_chain:
  assumes ch: "chain (tasks st) L (as @ bs)" and L: "lists st l = Some L"
    and t: "tasks st p = Some t" "tnext t = None" "tprev t = None" and p: "p \<notin> set (as @ bs)"
    and h: "lhead L = Some h"
  obtains st' L' where
    "splice l p L h (first bs None) st = Some st'"
    "lists st' = (lists st)(l \<mapsto> L')" "chain (tasks st') L' (as @ p # bs)"
    "insertHint L' = insertHint L" "runnow L' = runnow L" "pool L' = pool L"
    "same_cores {} (tasks st) (tasks st')" "\<forall>x. x \<notin> set (as @ p # bs) \<longrightarrow> tasks st' x = tasks st x"
    "clock_s st' = clock_s st" "clock_us st' = clock_us st" "world st' = world st"
    "tasksAlive st' = tasksAlive st" "fresh_task st' = fresh_task st" "fresh_list st' = fresh_list st"
proof -
  have seg: "seg (tasks st) None (as @ bs) None" and dist: "distinct (as @ bs)"
    using ch by (simp_all add: chain_def)
  have hd: "Some h = first (as @ bs) None" using ch h by (simp add: chain_def)
  show ?thesis
  proof (cases as rule: rev_cases)
    case as: Nil
    obtain bs' where bs: "bs = h # bs'" using hd as by (cases bs) auto
    obtain th where "tasks st h = Some th" "tprev th = None" "tnext th = first bs' None"
      using seg as bs by auto
    then show ?thesis
      using that as bs L t h p ch dist
      by (simp add: splice_def chain_def same_cores_def final_Cons)
  next
    case as: (snoc as' a)
    obtain ta where ta: "tasks st a = Some ta" "tprev ta = final as' None" "tnext ta = first bs None"
      using seg as by (auto simp: seg_append)
    have ne: "lhead L \<noteq> first bs None"
      using hd h dist as by (cases as'; cases bs) auto
    show ?thesis
    proof (cases bs)
      case Nil
      then show ?thesis
        using that as L t h p ch dist ta ne seg
        by (simp add: splice_def chain_def same_cores_def seg_append first_append final_append)
    next
      case (Cons b bs')
      obtain tb where tb: "tasks st b = Some tb" "tprev tb = Some a" "tnext tb = first bs' None"
        using seg as Cons by (auto simp: seg_append)
      let ?st = "st\<lparr>tasks := (tasks st)(p \<mapsto> t\<lparr>tnext := Some b, tprev := Some a\<rparr>,
        b \<mapsto> tb\<lparr>tprev := Some p\<rparr>, a \<mapsto> ta\<lparr>tnext := Some p\<rparr>)\<rparr>"
      have ineq: "a \<noteq> b" "a \<noteq> p" "b \<noteq> p" "p \<noteq> a" "p \<noteq> b" "b \<noteq> a"
        "a \<notin> set as'" "b \<notin> set as'" "p \<notin> set as'" "a \<notin> set bs'" "b \<notin> set bs'" "p \<notin> set bs'"
        using dist p as Cons by auto
      show ?thesis
        by (rule that [of ?st L])
           (use as Cons L t ch ta ne seg tb ineq in
             \<open>simp_all add: splice_def chain_def same_cores_def seg_append first_append final_append final_Cons fun_upd_idem\<close>)
    qed
  qed
qed

subsection \<open>The invariant of the scheduler's list\<close>

definition earlier :: "(addr \<Rightarrow> ('f, 'd) task_entry option) \<Rightarrow> addr \<Rightarrow> addr \<Rightarrow> bool" where
  "earlier T x y \<longleftrightarrow> due_le (the (T x)) (seconds (the (T y))) (micros (the (T y)))"

definition members :: "(addr \<Rightarrow> ('f, 'd) task_entry option) \<Rightarrow> addr \<Rightarrow> addr list \<Rightarrow> bool" where
  "members T l xs \<longleftrightarrow> (\<forall>x\<in>set xs. \<exists>t. T x = Some t \<and> linked t \<and> owner t = l)"

definition sched_inv :: "('f, 'd, 'w) store \<Rightarrow> addr \<Rightarrow> addr list \<Rightarrow> bool" where
  "sched_inv st l xs \<longleftrightarrow> (\<exists>L. lists st l = Some L \<and> chain (tasks st) L xs \<and> members (tasks st) l xs
     \<and> sorted_wrt (earlier (tasks st)) xs \<and> (\<forall>i. insertHint L = Some i \<longrightarrow> i \<in> set xs))"

lemma due_le_trans: "due_le a (seconds b) (micros b) \<Longrightarrow> due_le b s u \<Longrightarrow> due_le a s u"
  by (auto simp: due_le_def)

lemma due_le_total: "\<not> due_le a (seconds b) (micros b) \<Longrightarrow> due_le b (seconds a) (micros a)"
  by (auto simp: due_le_def)

lemma earlier_same_cores:
  assumes "same_cores X T T'" and "x \<notin> X" and "y \<notin> X" and "T x \<noteq> None" and "T y \<noteq> None"
  shows "earlier T' x y \<longleftrightarrow> earlier T x y"
proof -
  obtain a b where "T x = Some a" "T y = Some b" using assms(4,5) by auto
  moreover obtain a' where "T' x = Some a'" "seconds a' = seconds a" "micros a' = micros a"
    using same_cores_Some [OF assms(1,2)] \<open>T x = Some a\<close> by metis
  moreover obtain b' where "T' y = Some b'" "seconds b' = seconds b" "micros b' = micros b"
    using same_cores_Some [OF assms(1,3)] \<open>T y = Some b\<close> by metis
  ultimately show ?thesis by (simp add: earlier_def due_le_def)
qed

lemma sorted_same_cores:
  assumes "same_cores X T T'" and "set xs \<inter> X = {}" and "\<forall>x\<in>set xs. T x \<noteq> None"
  shows "sorted_wrt (earlier T') xs \<longleftrightarrow> sorted_wrt (earlier T) xs"
proof -
  have "earlier T' x y \<longleftrightarrow> earlier T x y" if "x \<in> set xs" "y \<in> set xs" for x y
    by (rule earlier_same_cores [OF assms(1)]) (use assms(2,3) that in blast)+
  then show ?thesis by (metis sorted_wrt_mono_rel)
qed

lemma members_same_cores:
  assumes "same_cores X T T'" and "set xs \<inter> X = {}" and "members T l xs"
  shows "members T' l xs"
  unfolding members_def
proof
  fix x assume x: "x \<in> set xs"
  then obtain t where t: "T x = Some t" "linked t" "owner t = l" using assms(3) by (auto simp: members_def)
  have "x \<notin> X" using x assms(2) by blast
  then show "\<exists>t. T' x = Some t \<and> linked t \<and> owner t = l"
    using same_cores_Some [OF assms(1) _ t(1)] t(2,3) by metis
qed

lemma members_alloc: "members T l xs \<Longrightarrow> \<forall>x\<in>set xs. T x \<noteq> None"
  by (auto simp: members_def)

text \<open>Where a task due at \<open>(s, u)\<close> belongs: behind every task due no later.\<close>

definition not_later :: "(addr \<Rightarrow> ('f, 'd) task_entry option) \<Rightarrow> u64 \<Rightarrow> u64 \<Rightarrow> addr \<Rightarrow> bool" where
  "not_later T s u x \<longleftrightarrow> due_le (the (T x)) s u"

definition insert_due :: "(addr \<Rightarrow> ('f, 'd) task_entry option) \<Rightarrow> u64 \<Rightarrow> u64 \<Rightarrow> addr \<Rightarrow> addr list \<Rightarrow> addr list" where
  "insert_due T s u p xs = takeWhile (not_later T s u) xs @ p # dropWhile (not_later T s u) xs"

lemma dropWhile_not_later:
  assumes "sorted_wrt (earlier T) xs" and "x \<in> set (dropWhile (not_later T s u) xs)"
  shows "\<not> not_later T s u x"
  using assms
proof (induction xs)
  case (Cons y ys)
  show ?case
  proof (cases "not_later T s u y")
    case True
    then show ?thesis using Cons by simp
  next
    case False
    then have "x = y \<or> earlier T y x" using Cons.prems by auto
    then show ?thesis
      using False due_le_trans [of "the (T y)" "the (T x)" s u] by (auto simp: not_later_def earlier_def)
  qed
qed simp

lemma sorted_insert_due:
  assumes "sorted_wrt (earlier T) xs" and "T p = Some t" and "p \<notin> set xs"
  shows "sorted_wrt (earlier T) (insert_due T (seconds t) (micros t) p xs)"
proof -
  let ?as = "takeWhile (not_later T (seconds t) (micros t)) xs"
  let ?bs = "dropWhile (not_later T (seconds t) (micros t)) xs"
  have "sorted_wrt (earlier T) (?as @ ?bs)" using assms(1) by simp
  note this [unfolded sorted_wrt_append]
  moreover have "\<forall>x\<in>set ?as. earlier T x p"
    using assms(2) by (auto simp: earlier_def not_later_def dest: set_takeWhileD)
  moreover have "\<forall>y\<in>set ?bs. earlier T p y"
    using dropWhile_not_later [OF assms(1)] assms(2) due_le_total
    by (fastforce simp: earlier_def not_later_def)
  ultimately show ?thesis by (simp add: insert_due_def sorted_wrt_append)
qed

text \<open>A walk may start at any entry due no later; it ends where one from the head does.\<close>

lemma walk_from_hint:
  assumes seg: "seg (tasks st) None xs None" and sorted: "sorted_wrt (earlier (tasks st)) xs"
    and i: "i \<in> set xs" "not_later (tasks st) s u i"
  shows "walk s u (Some i) st = Some (first (dropWhile (not_later (tasks st) s u) xs) None)"
proof -
  obtain a1 a2 where xs: "xs = a1 @ i # a2" using i(1) by (auto simp: in_set_conv_decomp)
  have "\<forall>x\<in>set a1. not_later (tasks st) s u x"
  proof
    fix x assume "x \<in> set a1"
    then have "earlier (tasks st) x i" using sorted xs by (simp add: sorted_wrt_append)
    then show "not_later (tasks st) s u x"
      using i(2) due_le_trans [of "the (tasks st x)" "the (tasks st i)" s u]
      by (simp add: not_later_def earlier_def)
  qed
  then have "dropWhile (not_later (tasks st) s u) xs = dropWhile (not_later (tasks st) s u) (i # a2)"
    unfolding xs by (intro dropWhile_append2) blast
  moreover have "seg (tasks st) (final a1 None) (i # a2) None" using seg xs by (simp add: seg_append)
  from walk_first [OF this, of s u] have
    "walk s u (Some i) st = Some (first (dropWhile (not_later (tasks st) s u) (i # a2)) None)"
    by (simp add: not_later_def [abs_def] del: dropWhile.simps)
  ultimately show ?thesis by simp
qed

lemma insert_due_set: "set (insert_due T s u p xs) = insert p (set xs)"
proof -
  have "set xs = set (takeWhile (not_later T s u) xs) \<union> set (dropWhile (not_later T s u) xs)"
    by (metis set_append takeWhile_dropWhile_id)
  then show ?thesis by (auto simp: insert_due_def)
qed

lemma insert_due_cong:
  "(\<And>x. x \<in> set xs \<Longrightarrow> T x = T' x) \<Longrightarrow> insert_due T s u p xs = insert_due T' s u p xs"
  unfolding insert_due_def
  by (intro arg_cong2 [where f="(@)"] arg_cong2 [where f="(#)"] takeWhile_cong dropWhile_cong)
     (simp_all add: not_later_def)

lemma armed_simps [simp]:
  "seconds (armed d f x t) = fst d" "micros (armed d f x t) = snd d" "callback (armed d f x t) = f"
  "tdata (armed d f x t) = x" "linked (armed d f x t)" "owner (armed d f x t) = owner t"
  "tnext (armed d f x t) = None" "tprev (armed d f x t) = None"
  by (simp_all add: armed_def)

lemma AddTaskDelay_ok:
  assumes inv: "sched_inv st l xs" and t: "tasks st p = Some t" "owner t = l" and p: "p \<notin> set xs"
    and d: "d = dueTime (clock_s st) (clock_us st) ds dm"
  obtains st' t' where "AddTaskDelay p ds dm func data st = Some st'"
    "sched_inv st' l (insert_due (tasks st) (fst d) (snd d) p xs)"
    "tasks st' p = Some t'" "core t' = core (armed d func data t)"
    "same_cores {p} (tasks st) (tasks st')"
    "clock_s st' = clock_s st" "clock_us st' = clock_us st" "world st' = world st"
    "\<forall>k. k \<noteq> l \<longrightarrow> lists st' k = lists st k"
    "\<forall>x. x \<notin> set xs \<and> x \<noteq> p \<longrightarrow> tasks st' x = tasks st x"
proof -
  obtain L where L: "lists st l = Some L" "chain (tasks st) L xs" "members (tasks st) l xs"
    "sorted_wrt (earlier (tasks st)) xs" "\<forall>i. insertHint L = Some i \<longrightarrow> i \<in> set xs"
    using inv by (auto simp: sched_inv_def)
  let ?s = "fst d" and ?u = "snd d"
  let ?t1 = "armed d func data t"
  let ?st1 = "st\<lparr>tasks := (tasks st)(p \<mapsto> ?t1)\<rparr>"
  let ?T1 = "tasks ?st1"
  let ?as = "takeWhile (not_later ?T1 ?s ?u) xs" and ?bs = "dropWhile (not_later ?T1 ?s ?u) xs"
  have ch1: "chain ?T1 L xs" using L(2) p by simp
  have cores1: "same_cores {p} (tasks st) ?T1" by (simp add: same_cores_def)
  have px: "set xs \<inter> {p} = {}" using p by simp
  have mem1: "members ?T1 l xs" by (rule members_same_cores [OF cores1 px L(3)])
  have sorted1: "sorted_wrt (earlier ?T1) xs"
    using sorted_same_cores [OF cores1 px members_alloc [OF L(3)]] L(4) by simp
  have ins: "insert_due ?T1 ?s ?u p xs = insert_due (tasks st) ?s ?u p xs"
    by (rule insert_due_cong) (use p in auto)
  have parts: "insert_due ?T1 ?s ?u p xs = ?as @ p # ?bs" by (simp add: insert_due_def)
  have t1: "?T1 p = Some ?t1" by simp
  have sorted2: "sorted_wrt (earlier ?T1) (insert_due ?T1 ?s ?u p xs)"
    using sorted_insert_due [OF sorted1 t1 p] by (simp only: armed_simps)
  show ?thesis
  proof (cases xs)
    case Nil
    let ?L = "L\<lparr>lhead := Some p, ltail := Some p, insertHint := Some p\<rparr>"
    let ?st = "st\<lparr>tasks := (tasks st)(p \<mapsto> ?t1\<lparr>tnext := None, tprev := None\<rparr>),
      lists := (lists st)(l \<mapsto> ?L)\<rparr>"
    have run: "AddTaskDelay p ds dm func data st = Some ?st"
      using t L(1,2) Nil d by (simp add: AddTaskDelay_def chain_def armed_def Let_def)
    have "sched_inv ?st l (insert_due (tasks st) (fst d) (snd d) p xs)"
      using Nil t by (simp add: sched_inv_def chain_def members_def insert_due_def)
    then show ?thesis
      by (rule that [OF run]) (simp_all add: same_cores_def)
  next
    case (Cons h xs')
    have h: "lhead L = Some h" using ch1 Cons by (simp add: chain_def)
    have seg1: "seg ?T1 None xs None" using ch1 by (simp add: chain_def)
    have wh: "walk ?s ?u (Some h) ?st1 = Some (first ?bs None)"
      using walk_first [OF seg1, of ?s ?u] Cons by (simp add: not_later_def [abs_def] del: dropWhile.simps)
    have "\<exists>start. startPoint L h ?s ?u ?st1 = Some start
        \<and> walk ?s ?u (Some start) ?st1 = Some (first ?bs None)"
    proof (cases "insertHint L")
      case None
      then show ?thesis using wh by (simp add: startPoint_def)
    next
      case (Some i)
      then have i: "i \<in> set xs" using L(5) by simp
      then obtain e where e: "?T1 i = Some e" using members_alloc [OF mem1] by blast
      show ?thesis
      proof (cases "linked e \<and> due_le e ?s ?u")
        case True
        then have "not_later ?T1 ?s ?u i" using e by (simp add: not_later_def)
        from walk_from_hint [OF seg1 sorted1 i this] show ?thesis using Some e True by (auto simp: startPoint_def)
      next
        case False
        then show ?thesis using Some e wh by (auto simp: startPoint_def)
      qed
    qed
    then obtain start where s1: "startPoint L h ?s ?u ?st1 = Some start"
      "walk ?s ?u (Some start) ?st1 = Some (first ?bs None)" by blast
    have chs: "chain ?T1 L (?as @ ?bs)" using ch1 by simp
    have L1: "lists ?st1 l = Some L" using L(1) by simp
    have ps: "p \<notin> set (?as @ ?bs)" using p by simp
    obtain st2 L2 where sp:
      "splice l p L h (first ?bs None) ?st1 = Some st2"
      "lists st2 = (lists ?st1)(l \<mapsto> L2)" "chain (tasks st2) L2 (?as @ p # ?bs)"
      "same_cores {} ?T1 (tasks st2)" "\<forall>x. x \<notin> set (?as @ p # ?bs) \<longrightarrow> tasks st2 x = ?T1 x"
      "clock_s st2 = clock_s ?st1" "clock_us st2 = clock_us ?st1" "world st2 = world ?st1"
      by (rule splice_chain [OF chs L1 t1 _ _ ps h]) simp_all
    let ?st = "st2\<lparr>lists := (lists st2)(l \<mapsto> L2\<lparr>insertHint := Some p\<rparr>)\<rparr>"
    have run: "AddTaskDelay p ds dm func data st = Some ?st"
      using t d L1 h s1 sp(1,2) by (simp add: AddTaskDelay_def Let_def)
    obtain t' where t': "tasks st2 p = Some t'" "core t' = core ?t1"
    proof -
      have "map_option core (tasks st2 p) = Some (core ?t1)" using sp(4) t1 by (simp add: same_cores_def)
      then show ?thesis using that by (cases "tasks st2 p") auto
    qed
    have allocs: "\<forall>x\<in>set (insert_due ?T1 ?s ?u p xs). ?T1 x \<noteq> None"
      using members_alloc [OF mem1] by (auto simp: insert_due_set)
    have mem2: "members (tasks st2) l (insert_due ?T1 ?s ?u p xs)"
      by (rule members_same_cores [OF sp(4)]) (use mem1 t in \<open>auto simp: members_def insert_due_set\<close>)
    have "sorted_wrt (earlier (tasks st2)) (insert_due ?T1 ?s ?u p xs)"
      by (rule iffD2 [OF sorted_same_cores [OF sp(4) _ allocs] sorted2]) simp
    moreover have "chain (tasks st2) (L2\<lparr>insertHint := Some p\<rparr>) (insert_due ?T1 ?s ?u p xs)"
      unfolding parts
      using sp(3) chain_cong [of "?as @ p # ?bs" "tasks st2" "tasks st2" "L2\<lparr>insertHint := Some p\<rparr>" L2]
      by simp
    ultimately have "sched_inv ?st l (insert_due ?T1 ?s ?u p xs)"
      using mem2 by (simp add: sched_inv_def insert_due_set)
    note this [unfolded ins]
    moreover have "same_cores {p} (tasks st) (tasks ?st)"
      using sp(4) by (simp add: same_cores_def)
    moreover have "\<forall>x. x \<notin> set xs \<and> x \<noteq> p \<longrightarrow> tasks ?st x = tasks st x"
      using sp(5) by (auto dest: set_takeWhileD set_dropWhileD)
    moreover have "tasks ?st p = Some t'" "\<forall>k. k \<noteq> l \<longrightarrow> lists ?st k = lists st k"
      "clock_s ?st = clock_s st" "clock_us ?st = clock_us st" "world ?st = world st"
      using t' sp(2,6-8) by simp_all
    ultimately show ?thesis
      using t'(2) by (intro that [OF run])
  qed
qed

subsection \<open>Removal from the scheduler's list\<close>

lemma remove1_middle: "p \<notin> set as \<Longrightarrow> remove1 p (as @ p # bs) = as @ bs"
  by (simp add: remove1_append)

lemma same_cores_weaken: "same_cores {} T T' \<Longrightarrow> same_cores X T T'"
  by (simp add: same_cores_def)

lemma RemoveTaskFromList_ok:
  assumes inv: "sched_inv st l xs" and p: "p \<in> set xs"
  obtains st' t' where "RemoveTaskFromList p st = Some st'" "sched_inv st' l (remove1 p xs)"
    "tasks st' p = Some t'" "\<not> linked t'" "same_cores {p} (tasks st) (tasks st')"
    "owner t' = l" "\<exists>L L'. lists st l = Some L \<and> lists st' = (lists st)(l \<mapsto> L') \<and> pool L' = pool L"
proof -
  obtain L where L: "lists st l = Some L" "chain (tasks st) L xs" "members (tasks st) l xs"
    "sorted_wrt (earlier (tasks st)) xs" "\<forall>i. insertHint L = Some i \<longrightarrow> i \<in> set xs"
    using inv by (auto simp: sched_inv_def)
  obtain as bs where xs: "xs = as @ p # bs" using p by (auto simp: in_set_conv_decomp)
  obtain t where t: "tasks st p = Some t" "linked t" "owner t = l"
    using L(3) p by (auto simp: members_def)
  have dist: "p \<notin> set as" "p \<notin> set bs" using L(2) xs by (auto simp: chain_def)
  obtain st' L' where r: "RemoveTaskFromList p st = Some st'" "lists st' = (lists st)(l \<mapsto> L')"
    "chain (tasks st') L' (as @ bs)" "insertHint L' = (if insertHint L = Some p then None else insertHint L)"
    "tasks st' p = Some (t\<lparr>tprev := None, tnext := None, linked := False\<rparr>)"
    "same_cores {p} (tasks st) (tasks st')" "pool L' = pool L"
    using RemoveTaskFromList_chain [OF L(2) [unfolded xs] L(1) t] by blast
  have out: "set (as @ bs) \<inter> {p} = {}" using dist by auto
  have mem: "members (tasks st) l (as @ bs)" using L(3) xs by (simp add: members_def)
  have "sorted_wrt (earlier (tasks st)) (as @ bs)" using L(4) xs by (simp add: sorted_wrt_append)
  then have "sorted_wrt (earlier (tasks st')) (as @ bs)"
    by (rule iffD2 [OF sorted_same_cores [OF r(6) out members_alloc [OF mem]]])
  moreover have "members (tasks st') l (as @ bs)" by (rule members_same_cores [OF r(6) out mem])
  ultimately have "sched_inv st' l (as @ bs)"
    using r(2,3,4) L(5) xs by (auto simp: sched_inv_def)
  then have "sched_inv st' l (remove1 p xs)" using remove1_middle [OF dist(1)] xs by simp
  moreover have "\<exists>L L'. lists st l = Some L \<and> lists st' = (lists st)(l \<mapsto> L') \<and> pool L' = pool L"
    using L(1) r(2,7) by blast
  ultimately show ?thesis using that [OF r(1) _ r(5) _ r(6)] t(3) by simp
qed

lemma RemoveTaskFromList_unlinked:
  "tasks st p = Some t \<Longrightarrow> \<not> linked t \<Longrightarrow> RemoveTaskFromList p st = Some st"
  by (simp add: RemoveTaskFromList_def)

subsection \<open>Activation\<close>

lemma not_later_same_cores:
  assumes "same_cores {} T T'" and "T x \<noteq> None"
  shows "not_later T' s u x = not_later T s u x"
proof -
  obtain t where "T x = Some t" using assms(2) by auto
  then obtain t' where "T' x = Some t'" "seconds t' = seconds t" "micros t' = micros t"
    using same_cores_Some [OF assms(1)] by (metis empty_iff)
  then show ?thesis using \<open>T x = Some t\<close> by (simp add: not_later_def due_le_def)
qed

lemma activateFrom_ok:
  assumes "lists st l = Some L" and "chain (tasks st) L xs" and "members (tasks st) l xs"
    and "\<forall>i. insertHint L = Some i \<longrightarrow> i \<in> set xs"
    and "lists st r = Some R" and "chain (tasks st) R ys" and "r \<noteq> l" and "set xs \<inter> set ys = {}"
  shows "\<exists>st' L' R'. activateFrom s u r (first xs None) st = Some st'
    \<and> lists st' = (lists st)(l \<mapsto> L', r \<mapsto> R')
    \<and> chain (tasks st') L' (dropWhile (not_later (tasks st) s u) xs)
    \<and> chain (tasks st') R' (ys @ takeWhile (not_later (tasks st) s u) xs)
    \<and> (\<forall>i. insertHint L' = Some i \<longrightarrow> i \<in> set (dropWhile (not_later (tasks st) s u) xs))
    \<and> same_cores {} (tasks st) (tasks st') \<and> runnow L' = runnow L
    \<and> (\<forall>x. x \<notin> set xs \<union> set ys \<longrightarrow> tasks st' x = tasks st x)
    \<and> clock_s st' = clock_s st \<and> clock_us st' = clock_us st \<and> world st' = world st"
  using assms
proof (induction xs arbitrary: st L R ys)
  case Nil
  then show ?case
    by (intro exI [of _ st] exI [of _ L] exI [of _ R]) (simp add: activateFrom.simps fun_upd_idem)
next
  case (Cons x xs)
  obtain t where t: "tasks st x = Some t" "linked t" "owner t = l" "tnext t = first xs None"
    using Cons.prems(2,3) by (auto simp: chain_def members_def)
  have due: "(seconds t > s \<or> seconds t = s \<and> micros t > u) \<longleftrightarrow> \<not> not_later (tasks st) s u x"
    using t by (auto simp: not_later_def due_le_def)
  show ?case
  proof (cases "not_later (tasks st) s u x")
    case False
    then have "activateFrom s u r (first (x # xs) None) st = Some st"
      using t due by (subst activateFrom.simps) simp
    then show ?thesis using Cons.prems False
      by (intro exI [of _ st] exI [of _ L] exI [of _ R]) (simp add: fun_upd_idem)
  next
    case True
    obtain st1 L1 where r: "RemoveTaskFromList x st = Some st1" "lists st1 = (lists st)(l \<mapsto> L1)"
      "chain (tasks st1) L1 xs" "insertHint L1 = (if insertHint L = Some x then None else insertHint L)"
      "runnow L1 = runnow L" "tasks st1 x = Some (t\<lparr>tprev := None, tnext := None, linked := False\<rparr>)"
      "same_cores {x} (tasks st) (tasks st1)"
      "\<forall>y. y \<notin> set (x # xs) \<longrightarrow> tasks st1 y = tasks st y"
      "clock_s st1 = clock_s st" "clock_us st1 = clock_us st" "world st1 = world st"
      using RemoveTaskFromList_chain [of st L "[]" x xs, OF _ Cons.prems(1) t(1-3)] Cons.prems(2)
      by (metis append_Nil)
    have R1: "lists st1 r = Some R" using r(2) Cons.prems(5,7) by simp
    have ys1: "chain (tasks st1) R ys"
    proof -
      have "tasks st1 y = tasks st y" if "y \<in> set ys" for y
        using that Cons.prems(8) r(8) by auto
      then show ?thesis using Cons.prems(6) chain_cong [of ys "tasks st1" "tasks st" R R] by simp
    qed
    have xy: "x \<notin> set ys" using Cons.prems(8) by simp
    obtain st2 R2 t2 where a: "AddTaskToTail r x st1 = Some st2" "lists st2 = (lists st1)(r \<mapsto> R2)"
      "chain (tasks st2) R2 (ys @ [x])" "tasks st2 x = Some t2"
      "core t2 = core (t\<lparr>tprev := None, tnext := None, linked := False, linked := True\<rparr>)"
      "same_cores {x} (tasks st1) (tasks st2)"
      "\<forall>y. y \<notin> set ys \<and> y \<noteq> x \<longrightarrow> tasks st2 y = tasks st1 y"
      "clock_s st2 = clock_s st1" "clock_us st2 = clock_us st1" "world st2 = world st1"
      using AddTaskToTail_chain [OF ys1 R1 r(6) xy] by metis
    have cores: "same_cores {} (tasks st) (tasks st2)"
    proof -
      have "map_option core (tasks st2 x) = map_option core (tasks st x)"
        using a(4,5) t(1,2) by (simp add: core_def)
      then show ?thesis using same_cores_trans [OF r(7) a(6)] by (auto simp: same_cores_def)
    qed
    have xs: "x \<notin> set xs" "set xs \<inter> set (ys @ [x]) = {}"
      using Cons.prems(2,8) by (auto simp: chain_def)
    have ch2: "chain (tasks st2) L1 xs"
    proof -
      have "tasks st2 y = tasks st1 y" if "y \<in> set xs" for y
        using that xs a(7) by auto
      then show ?thesis using r(3) chain_cong [of xs "tasks st2" "tasks st1" L1 L1] by simp
    qed
    have mem2: "members (tasks st2) l xs"
      by (rule members_same_cores [OF cores]) (use Cons.prems(3) in \<open>simp_all add: members_def\<close>)
    have hint2: "\<forall>i. insertHint L1 = Some i \<longrightarrow> i \<in> set xs"
      using r(4) Cons.prems(4) by (auto split: if_splits)
    have L2: "lists st2 l = Some L1" "lists st2 r = Some R2"
      using a(2) r(2) Cons.prems(7) by simp_all
    have same: "not_later (tasks st2) s u y = not_later (tasks st) s u y" if "y \<in> set xs" for y
      by (rule not_later_same_cores [OF cores]) (use that Cons.prems(3) in \<open>auto simp: members_def\<close>)
    have tw: "takeWhile (not_later (tasks st2) s u) xs = takeWhile (not_later (tasks st) s u) xs"
      "dropWhile (not_later (tasks st2) s u) xs = dropWhile (not_later (tasks st) s u) xs"
      using same by (auto intro: takeWhile_cong dropWhile_cong)
    obtain st' L' R' where i: "activateFrom s u r (first xs None) st2 = Some st'"
      "lists st' = (lists st2)(l \<mapsto> L', r \<mapsto> R')"
      "chain (tasks st') L' (dropWhile (not_later (tasks st) s u) xs)"
      "chain (tasks st') R' ((ys @ [x]) @ takeWhile (not_later (tasks st) s u) xs)"
      "\<forall>i. insertHint L' = Some i \<longrightarrow> i \<in> set (dropWhile (not_later (tasks st) s u) xs)"
      "same_cores {} (tasks st2) (tasks st')" "runnow L' = runnow L1"
      "\<forall>y. y \<notin> set xs \<union> set (ys @ [x]) \<longrightarrow> tasks st' y = tasks st2 y"
      "clock_s st' = clock_s st2" "clock_us st' = clock_us st2" "world st' = world st2"
      using Cons.IH [OF L2(1) ch2 mem2 hint2 L2(2) a(3) Cons.prems(7) xs(2)] unfolding tw by blast
    have run: "activateFrom s u r (first (x # xs) None) st = Some st'"
    proof -
      have "(seconds t > s \<or> seconds t = s \<and> micros t > u) = False" using due True by blast
      then show ?thesis
        by (subst activateFrom.simps)
           (simp only: first_simps option.case t(1,4) Option.bind.bind_lunit if_False r(1) a(1) i(1))
    qed
    have lists': "lists st' = (lists st)(l \<mapsto> L', r \<mapsto> R')"
      using i(2) a(2) r(2) Cons.prems(7) by (auto simp: fun_eq_iff)
    have frame: "\<forall>y. y \<notin> set (x # xs) \<union> set ys \<longrightarrow> tasks st' y = tasks st y"
      using i(8) a(7) r(8) by simp
    show ?thesis
      using run lists' frame i(3-7) same_cores_trans [OF cores i(6)] True r(5,9,10,11) a(8-10) i(9-11)
      by - (rule exI [of _ st'], rule exI [of _ L'], rule exI [of _ R'], simp del: fun_upd_apply)
  qed
qed

subsection \<open>Execution\<close>

fun fwd :: "(addr \<Rightarrow> ('f, 'd) task_entry option) \<Rightarrow> addr list \<Rightarrow> bool" where
  "fwd T [] \<longleftrightarrow> True"
| "fwd T (y # ys) \<longleftrightarrow> (\<exists>t. T y = Some t \<and> tnext t = first ys None) \<and> fwd T ys"

lemma seg_fwd: "seg T p ys None \<Longrightarrow> fwd T ys"
  by (induction ys arbitrary: p) auto

lemma fwd_upd [simp]: "x \<notin> set ys \<Longrightarrow> fwd (T(x := v)) ys \<longleftrightarrow> fwd T ys"
  by (induction ys) auto

text \<open>The tasks still to be run, while callbacks run.\<close>

definition pending :: "('f, 'd, 'w) store \<Rightarrow> addr \<Rightarrow> addr list \<Rightarrow> bool" where
  "pending st l ys \<longleftrightarrow> (\<exists>L r R. lists st l = Some L \<and> runnow L = Some r \<and> r \<noteq> l
     \<and> lists st r = Some R \<and> lhead R = first ys None \<and> fwd (tasks st) ys \<and> distinct ys)"

text \<open>What the loop relies on: a callback does not touch the tasks waiting in \<open>runnow\<close>.\<close>

definition leaves_runnow :: "('f, 'd, 'w) invoke \<Rightarrow> addr \<Rightarrow> bool" where
  "leaves_runnow invoke l \<longleftrightarrow> (\<forall>f d st st' ys. pending st l ys \<longrightarrow> invoke f d task_callback st = Some st' \<longrightarrow>
     pending st' l ys \<and> (\<forall>y\<in>set ys. map_option core (tasks st' y) = map_option core (tasks st y)))"

text \<open>The specification: the given calls, one after the other, each task being unlinked before its call.\<close>

definition runCall :: "('f, 'd, 'w) invoke \<Rightarrow> addr \<Rightarrow> addr \<times> 'f option \<times> 'd option \<Rightarrow> ('f, 'd, 'w) store
    \<Rightarrow> ('f, 'd, 'w) store option" where
  "runCall invoke l call st = (case call of (c, func, data) \<Rightarrow> do {
     L \<leftarrow> lists st l;
     r \<leftarrow> runnow L;
     t \<leftarrow> tasks st c;
     st1 \<leftarrow> setL r (\<lambda>R. R\<lparr>lhead := tnext t\<rparr>) st;
     st2 \<leftarrow> setT c (\<lambda>e. e\<lparr>tnext := None, tprev := None, linked := False\<rparr>) st1;
     (case func of None \<Rightarrow> Some st2 | Some f \<Rightarrow> invoke f data task_callback st2) })"

primrec runCalls :: "('f, 'd, 'w) invoke \<Rightarrow> addr \<Rightarrow> (addr \<times> 'f option \<times> 'd option) list \<Rightarrow> ('f, 'd, 'w) store
    \<Rightarrow> ('f, 'd, 'w) store option" where
  "runCalls invoke l [] st = Some st"
| "runCalls invoke l (c # cs) st = do { st1 \<leftarrow> runCall invoke l c st; runCalls invoke l cs st1 }"

definition call_of :: "(addr \<Rightarrow> ('f, 'd) task_entry option) \<Rightarrow> addr \<Rightarrow> addr \<times> 'f option \<times> 'd option" where
  "call_of T c = (c, callback (the (T c)), tdata (the (T c)))"

lemma call_of_core:
  assumes "map_option core (T' c) = map_option core (T c)" and "T c \<noteq> None"
  shows "call_of T' c = call_of T c"
proof -
  obtain t where "T c = Some t" using assms(2) by auto
  then obtain t' where "T' c = Some t'" "core t' = core t" using assms(1) by (cases "T' c") auto
  then show ?thesis using \<open>T c = Some t\<close> core_simps(7,8) unfolding call_of_def by (metis option.sel)
qed

lemma execLoop_runCalls:
  assumes "leaves_runnow invoke l" and "pending st l ys" and "\<forall>y\<in>set ys. tasks st y \<noteq> None"
  shows "execLoop invoke l n st
    = map_option (\<lambda>st'. (n + length ys, st')) (runCalls invoke l (map (call_of (tasks st)) ys) st)"
  using assms(2,3)
proof (induction ys arbitrary: n st)
  case Nil
  then show ?case by (subst execLoop.simps) (auto simp: pending_def)
next
  case (Cons c ys)
  obtain L r R t where p: "lists st l = Some L" "runnow L = Some r" "r \<noteq> l" "lists st r = Some R"
    "lhead R = Some c" "tasks st c = Some t" "tnext t = first ys None" "fwd (tasks st) ys"
    "distinct (c # ys)"
    using Cons.prems(1) by (auto simp: pending_def)
  let ?st2 = "st\<lparr>lists := (lists st)(r \<mapsto> R\<lparr>lhead := tnext t\<rparr>),
    tasks := (tasks st)(c \<mapsto> t\<lparr>tnext := None, tprev := None, linked := False\<rparr>)\<rparr>"
  have pend2: "pending ?st2 l ys"
    using p by (auto simp: pending_def)
  let ?after = "case callback t of None \<Rightarrow> Some ?st2 | Some f \<Rightarrow> invoke f (tdata t) task_callback ?st2"
  have one: "runOne invoke r c st = ?after" using p by (simp add: runOne_def)
  have call: "runCall invoke l (call_of (tasks st) c) st = ?after"
    using p by (simp add: runCall_def call_of_def)
  have step: "execLoop invoke l n st = do { st1 \<leftarrow> ?after; execLoop invoke l (n + 1) st1 }"
    by (subst execLoop.simps) (simp add: p one)
  show ?case
  proof (cases ?after)
    case None
    then show ?thesis using step call by simp
  next
    case (Some st1)
    have keep: "pending st1 l ys \<and> (\<forall>y\<in>set ys. map_option core (tasks st1 y) = map_option core (tasks ?st2 y))"
    proof (cases "callback t")
      case None
      then show ?thesis using Some pend2 by auto
    next
      case f: (Some f)
      then have "invoke f (tdata t) task_callback ?st2 = Some st1" using Some by simp
      then show ?thesis using assms(1) pend2 unfolding leaves_runnow_def by blast
    qed
    have same: "map_option core (tasks st1 y) = map_option core (tasks st y)" if "y \<in> set ys" for y
      using keep that p(9) by auto
    have alloc: "\<forall>y\<in>set ys. tasks st1 y \<noteq> None"
      using same Cons.prems(2) by (metis list.set_intros(2) map_option_is_None)
    have calls: "map (call_of (tasks st1)) ys = map (call_of (tasks st)) ys"
      using same Cons.prems(2) by (auto intro: call_of_core)
    show ?thesis
      using step call Some Cons.IH [OF conjunct1 [OF keep] alloc, of "n + 1"] calls by simp
  qed
qed

subsection \<open>Times\<close>

text \<open>A due time in microseconds.\<close>

definition us :: "u64 \<times> u64 \<Rightarrow> nat" where
  "us d = unat (fst d) * 1000000 + unat (snd d)"

lemma scast_small:
  assumes "unat (w :: 32 word) < 2 ^ 31"
  shows "unat (scast w :: u64) = unat w"
proof -
  have w: "uint w = int (unat w)" by (rule uint_nat)
  moreover have "int (unat w) < 2 ^ 31" using assms by (simp only: of_nat_less_numeral_power_cancel_iff)
  ultimately have "signed_take_bit 31 (uint w) = uint w"
    using uint_ge_0 [of w] by (intro signed_take_bit_int_eq_self) linarith+
  then have "sint w = int (unat w)" by (simp add: sint_uint w [symmetric])
  then have "(scast w :: u64) = word_of_nat (unat w)" by (metis of_int_of_nat_eq scast_eq)
  moreover have "unat w < 2 ^ 64" using assms by simp
  ultimately show ?thesis by (simp only: unat_of_nat) simp
qed

lemma dueTime_us:
  assumes "unat ds < 2 ^ 31" and "unat dm < 1000000" and "unat u < 1000000" and "unat s < 2 ^ 62"
  shows "us (dueTime s u ds dm) = us (s, u) + unat ds * 1000000 + unat dm"
    and "unat (snd (dueTime s u ds dm)) \<le> 1000000"
proof -
  have dm: "unat dm < 2 ^ 31" using assms(2) by simp
  have s': "unat (s + scast ds) = unat s + unat ds"
    using assms(1,4) scast_small [OF assms(1)] by (simp only: unat_word_ariths) simp
  have u': "unat (u + scast dm) = unat u + unat dm"
    using assms(2,3) scast_small [OF dm] by (simp only: unat_word_ariths) simp
  have s1: "unat (s + scast ds + 1) = unat s + unat ds + 1"
    using assms(1,4) s' by (simp only: unat_word_ariths) simp
  have gt: "u + scast dm > 1000000 \<longleftrightarrow> unat u + unat dm > 1000000"
    by (simp add: word_less_nat_alt u')
  have sub: "unat (u + scast dm - 1000000) = unat u + unat dm - 1000000" if "unat u + unat dm > 1000000"
  proof -
    have "(1000000 :: u64) \<le> u + scast dm" using that by (simp add: word_le_nat_alt u')
    then show ?thesis by (simp add: unat_sub u')
  qed
  show "us (dueTime s u ds dm) = us (s, u) + unat ds * 1000000 + unat dm"
    by (cases "unat u + unat dm > 1000000") (simp_all add: dueTime_def us_def gt s' u' s1 sub)
  show "unat (snd (dueTime s u ds dm)) \<le> 1000000"
    using assms(2,3) by (cases "unat u + unat dm > 1000000") (simp_all add: dueTime_def gt u' sub)
qed

lemma due_le_us:
  assumes "unat (micros t) \<le> 1000000" and "unat u < 1000000"
  shows "due_le t s u \<longleftrightarrow> us (seconds t, micros t) \<le> us (s, u)"
proof -
  have "due_le t s u \<longleftrightarrow> unat (seconds t) < unat s
      \<or> unat (seconds t) = unat s \<and> unat (micros t) \<le> unat u"
    by (simp add: due_le_def word_less_nat_alt word_le_nat_alt word_unat_eq_iff)
  also have "\<dots> \<longleftrightarrow> us (seconds t, micros t) \<le> us (s, u)"
    using assms unfolding us_def fst_conv snd_conv by linarith
  finally show ?thesis .
qed

lemma sint_small64:
  assumes "unat (w :: u64) < 2 ^ 62"
  shows "sint w = int (unat w)"
proof -
  have w: "uint w = int (unat w)" by (rule uint_nat)
  moreover have "int (unat w) < 2 ^ 62" using assms by (simp only: of_nat_less_numeral_power_cancel_iff)
  moreover have "(2 :: int) ^ 62 \<le> 2 ^ 63" "- (2 ^ 63) \<le> (0 :: int)" by simp_all
  ultimately have "signed_take_bit 63 (uint w) = uint w"
    using uint_ge_0 [of w] by (intro signed_take_bit_int_eq_self) linarith+
  then show ?thesis by (simp add: sint_uint w [symmetric])
qed

subsection \<open>Properties\<close>

lemma sched_inv_off_list:
  assumes "sched_inv s l xs" and "p \<notin> set xs" and "lists s l = Some L"
  shows "sched_inv (s\<lparr>tasks := (tasks s)(p := v), lists := (lists s)(l \<mapsto> L\<lparr>pool := q\<rparr>)\<rparr>) l xs"
proof -
  let ?T = "(tasks s)(p := v)"
  have cores: "same_cores {p} (tasks s) ?T" by (simp add: same_cores_def)
  have inv: "chain (tasks s) L xs" "members (tasks s) l xs" "sorted_wrt (earlier (tasks s)) xs"
    "\<forall>i. insertHint L = Some i \<longrightarrow> i \<in> set xs"
    using assms(1,3) by (auto simp: sched_inv_def)
  have "sorted_wrt (earlier ?T) xs"
    by (rule iffD2 [OF sorted_same_cores [OF cores] inv(3)]) (use assms(2) members_alloc [OF inv(2)] in auto)
  moreover have "members ?T l xs"
    by (rule members_same_cores [OF cores _ inv(2)]) (use assms(2) in auto)
  moreover have "chain ?T (L\<lparr>pool := q\<rparr>) xs"
  proof -
    have "?T x = tasks s x" if "x \<in> set xs" for x using that assms(2) by auto
    then show ?thesis
      using inv(1) chain_cong [of xs ?T "tasks s" "L\<lparr>pool := q\<rparr>" L] by simp
  qed
  ultimately show ?thesis using inv(4) by (simp add: sched_inv_def)
qed

text \<open>Where \<open>GetTask\<close> takes a task from: the pool's first struct, or a new one.\<close>

definition task_supply :: "('f, 'd, 'w) store \<Rightarrow> addr \<Rightarrow> addr list \<Rightarrow> addr \<Rightarrow> bool" where
  "task_supply st l xs p \<longleftrightarrow> p \<notin> set xs \<and> (\<exists>L. lists st l = Some L \<and>
     (case pool L of None \<Rightarrow> p = fresh_task st
      | Some q \<Rightarrow> p = q \<and> (\<exists>t. tasks st q = Some t \<and> owner t = l)))"

lemma GetTask_ok:
  assumes "sched_inv st l xs" and "task_supply st l xs p"
  obtains st' t where "GetTask l st = Some (p, st')" and "sched_inv st' l xs"
    and "tasks st' p = Some t" and "owner t = l"
    and "world st' = world st" and "clock_s st' = clock_s st" and "clock_us st' = clock_us st"
    and "\<forall>x. x \<noteq> p \<longrightarrow> tasks st' x = tasks st x" and "\<forall>k. k \<noteq> l \<longrightarrow> lists st' k = lists st k"
proof -
  from assms(2) obtain L where L: "p \<notin> set xs" "lists st l = Some L"
    "case pool L of None \<Rightarrow> p = fresh_task st | Some q \<Rightarrow> p = q \<and> (\<exists>t. tasks st q = Some t \<and> owner t = l)"
    by (auto simp: task_supply_def)
  note keep = sched_inv_off_list [OF assms(1) L(1,2)]
  show ?thesis
  proof (cases "pool L")
    case None
    define t :: "('a, 'b) task_entry" where "t = \<lparr>tnext = None, tprev = None, owner = l, seconds = 0,
      micros = 0, callback = None, tdata = None, linked = False\<rparr>"
    define st1 where "st1 = st\<lparr>tasks := (tasks st)(p \<mapsto> t), fresh_task := fresh_task st + 1, tasksAlive := tasksAlive st + 1\<rparr>"
    show ?thesis
    proof (rule that)
      show "GetTask l st = Some (p, st1)"
        using L None by (simp add: GetTask_def CreateTask_def st1_def t_def)
      show "sched_inv st1 l xs"
        using keep [where v = "Some t" and q = None] L(2) None by (auto simp: sched_inv_def chain_def st1_def)
      show "tasks st1 p = Some t" "owner t = l" by (simp_all add: st1_def t_def)
    qed (simp_all add: st1_def)
  next
    case (Some q)
    from L(3) Some have "q = p" "\<exists>t. tasks st q = Some t \<and> owner t = l" by simp_all
    then obtain t where t: "tasks st p = Some t" "owner t = l" "q = p" by blast
    let ?st = "st\<lparr>tasks := (tasks st)(p \<mapsto> t\<lparr>tnext := None\<rparr>), lists := (lists st)(l \<mapsto> L\<lparr>pool := tnext t\<rparr>)\<rparr>"
    have "GetTask l st = Some (p, ?st)" using L(2) Some t by (simp add: GetTask_def)
    moreover have "sched_inv ?st l xs" by (rule keep)
    ultimately show ?thesis by (rule that [where t = "t\<lparr>tnext := None\<rparr>"]) (simp_all add: t(2))
  qed
qed

text \<open>C7. \<open>AddTaskDelay\<close> puts a task that is not in the list behind every task due no later than it
  and before the others, whichever way the insertion hint makes it walk: the list stays sorted, equal
  times stay in the order of their insertion, and no other task or list changes but for its links.\<close>

theorem AddTaskDelay_inserts_sorted:
  assumes "sched_inv st l xs" and "tasks st p = Some t" and "owner t = l" and "p \<notin> set xs"
  shows "\<exists>st' t'. AddTaskDelay p ds dm func data st = Some st'
    \<and> sched_inv st' l (let d = dueTime (clock_s st) (clock_us st) ds dm in
        takeWhile (not_later (tasks st) (fst d) (snd d)) xs @ p
        # dropWhile (not_later (tasks st) (fst d) (snd d)) xs)
    \<and> tasks st' p = Some t' \<and> callback t' = func \<and> tdata t' = data
    \<and> (seconds t', micros t') = dueTime (clock_s st) (clock_us st) ds dm
    \<and> same_cores {p} (tasks st) (tasks st') \<and> (\<forall>k. k \<noteq> l \<longrightarrow> lists st' k = lists st k)"
proof -
  let ?d = "dueTime (clock_s st) (clock_us st) ds dm"
  obtain st' t' where r: "AddTaskDelay p ds dm func data st = Some st'"
    "sched_inv st' l (insert_due (tasks st) (fst ?d) (snd ?d) p xs)"
    "tasks st' p = Some t'" "core t' = core (armed ?d func data t)"
    "same_cores {p} (tasks st) (tasks st')" "\<forall>k. k \<noteq> l \<longrightarrow> lists st' k = lists st k"
    using AddTaskDelay_ok [OF assms refl] by metis
  have "callback t' = func" "tdata t' = data" "(seconds t', micros t') = ?d"
    using r(4) core_simps(3-8) armed_simps by (metis prod.collapse)+
  then show ?thesis using r by (auto simp: Let_def insert_due_def)
qed

text \<open>A delay in milliseconds becomes exactly the due time it asks for: the sum of the clock and the
  delay, in microseconds, with the microsecond field at most one second.\<close>

theorem AddTaskMilli_due_time:
  assumes "tasks st p = Some t" and "AddTaskMilli p ms func data st = Some st'"
    and "sched_inv st (owner t) xs" and "p \<notin> set xs"
    and "unat ms < 2 ^ 31 * 1000" and "unat (clock_s st) < 2 ^ 62" and "unat (clock_us st) < 1000000"
  shows "\<exists>t'. tasks st' p = Some t'
    \<and> us (seconds t', micros t') = us (clock_s st, clock_us st) + unat ms * 1000
    \<and> unat (micros t') \<le> 1000000"
proof -
  let ?ds = "ucast (ms div 1000) :: 32 word" and ?dm = "ucast (ms mod 1000 * 1000) :: 32 word"
  let ?d = "dueTime (clock_s st) (clock_us st) ?ds ?dm"
  have div: "unat (ms div 1000) = unat ms div 1000" by (simp add: unat_div_distrib)
  have mod: "unat (ms mod 1000 * 1000) = unat ms mod 1000 * 1000"
  proof -
    have "unat (ms mod 1000) = unat ms mod 1000" by (simp add: unat_mod_distrib)
    moreover have "unat ms mod 1000 < 1000" by simp
    ultimately show ?thesis by (simp only: unat_word_ariths) simp
  qed
  have ds: "unat ?ds = unat ms div 1000"
    using assms(5) by (simp add: unsigned_ucast_eq take_bit_eq_mod div)
  have dm: "unat ?dm = unat ms mod 1000 * 1000"
  proof -
    have "unat ms mod 1000 < 1000" by simp
    then have "unat ms mod 1000 * 1000 < 2 ^ 32" by simp
    then show ?thesis by (simp add: unsigned_ucast_eq take_bit_eq_mod mod)
  qed
  have b: "unat ?ds < 2 ^ 31" "unat ?dm < 1000000"
    using assms(5) unfolding ds dm by (simp_all add: less_mult_imp_div_less)
  obtain t' where t': "tasks st' p = Some t'" "core t' = core (armed ?d func data t)"
    using AddTaskDelay_ok [OF assms(3,1) refl assms(4) refl, of ?ds ?dm func data] assms(2)
    unfolding AddTaskMilli_def by (metis option.inject)
  have eq: "(seconds t', micros t') = ?d"
    using t'(2) core_simps(3,4) armed_simps(1,2) by (metis prod.collapse)
  have "unat ms = unat ms div 1000 * 1000 + unat ms mod 1000" by simp
  then have "unat ?ds * 1000000 + unat ?dm = unat ms * 1000" unfolding ds dm by linarith
  then show ?thesis
    using dueTime_us [OF b assms(7,6)] t'(1) eq by (intro exI [of _ t']) (simp add: prod_eq_iff)
qed

lemma wake_in_long:
  fixes a b c e :: nat
  assumes "a < 2 ^ 40" and "b < 2 ^ 40" and "c \<le> 1000000" and "e < 1000000"
  shows "in_long (int a - int b) = Some (int a - int b)"
    and "in_long ((int a - int b) * 1000000) = Some ((int a - int b) * 1000000)"
    and "in_long (int c - int e) = Some (int c - int e)"
    and "in_long ((int a - int b) * 1000000 + (int c - int e))
      = Some (int (a * 1000000 + c) - int (b * 1000000 + e))"
  using assms by (auto simp: in_long_def)

text \<open>\<open>SchedNextWakeMicros\<close> is the time until the head of the list is due, 0 if it is already: the
  main loop that sleeps exactly that long wakes when \<open>ActivateTimedTasks\<close> would take the head, and
  a result of 0 means that it would take it now.\<close>

theorem SchedNextWakeMicros_head_due:
  assumes "sched_inv st l (h # xs)" and "tasks st h = Some t"
    and "unat (micros t) \<le> 1000000" and "unat (clock_us st) < 1000000"
    and "unat (seconds t) < 2 ^ 40" and "unat (clock_s st) < 2 ^ 40"
  shows "\<exists>w. SchedNextWakeMicros l st = Some w
    \<and> unat w = us (seconds t, micros t) - us (clock_s st, clock_us st)
    \<and> (w = 0 \<longleftrightarrow> due_le t (clock_s st) (clock_us st))"
proof -
  obtain L where L: "lists st l = Some L" "lhead L = Some h"
    using assms(1) by (auto simp: sched_inv_def chain_def)
  have sint: "sint (seconds t) = int (unat (seconds t))" "sint (clock_s st) = int (unat (clock_s st))"
    "sint (micros t) = int (unat (micros t))" "sint (clock_us st) = int (unat (clock_us st))"
    by (rule sint_small64, use assms(3-6) in simp)+
  let ?due = "int (us (seconds t, micros t)) - int (us (clock_s st, clock_us st))"
  let ?w = "if ?due > 0 then word_of_int ?due else 0 :: u64"
  have pow: "(2 :: nat) ^ 40 = 1099511627776" "(2 :: int) ^ 63 = 9223372036854775808" by simp_all
  have run: "SchedNextWakeMicros l st = Some ?w"
  proof -
    note in_long = wake_in_long [OF assms(5,6,3,4)]
    have eq: "int (unat (seconds t) * 1000000 + unat (micros t))
        - int (unat (clock_s st) * 1000000 + unat (clock_us st)) = ?due" by (simp only: us_def fst_conv snd_conv)
    show ?thesis
      unfolding SchedNextWakeMicros_def L(1) assms(2) Option.bind.bind_lunit L(2) option.case sint
      by (simp only: in_long eq Option.bind.bind_lunit)
  qed
  have w: "unat ?w = us (seconds t, micros t) - us (clock_s st, clock_us st)"
  proof (cases "?due > 0")
    case True
    let ?n = "us (seconds t, micros t) - us (clock_s st, clock_us st)"
    have "?n < 2 ^ 64" using assms(3,5) unfolding us_def fst_conv snd_conv pow by simp
    moreover have "?due = int ?n" using True by simp
    ultimately show ?thesis using True by (simp only: if_True of_int_of_nat_eq unat_of_nat) simp
  next
    case False
    then show ?thesis by simp
  qed
  have "?w = 0 \<longleftrightarrow> unat ?w = 0" by (rule unat_eq_0 [symmetric])
  also have "\<dots> \<longleftrightarrow> us (seconds t, micros t) \<le> us (clock_s st, clock_us st)" unfolding w by simp
  also have "\<dots> \<longleftrightarrow> due_le t (clock_s st) (clock_us st)" using due_le_us [OF assms(3,4)] by simp
  finally show ?thesis using run w by blast
qed

text \<open>\<open>RemoveTask\<close> takes a task out of the list, wherever it stands, and parks its struct on the pool;
  the next \<open>GetTask\<close> hands back that same struct, unarmed, and leaves the pool as it was.\<close>

theorem RemoveTask_recycles:
  assumes "sched_inv st l xs" and "p \<in> set xs" and "lists st l = Some L"
  shows "\<exists>st1 st2 t. RemoveTask p st = Some st1 \<and> sched_inv st1 l (remove1 p xs)
    \<and> GetTask l st1 = Some (p, st2) \<and> sched_inv st2 l (remove1 p xs)
    \<and> tasks st2 p = Some t \<and> \<not> linked t \<and> callback t = None \<and> tdata t = None \<and> tnext t = None
    \<and> (\<exists>L2. lists st2 l = Some L2 \<and> pool L2 = pool L)"
proof -
  obtain s t' where r0: "RemoveTaskFromList p st = Some s" "sched_inv s l (remove1 p xs)"
    "tasks s p = Some t'" "\<not> linked t'" "same_cores {p} (tasks st) (tasks s)" "owner t' = l"
    "\<exists>L L'. lists st l = Some L \<and> lists s = (lists st)(l \<mapsto> L') \<and> pool L' = pool L"
    using RemoveTaskFromList_ok [OF assms(1,2)] .
  obtain L' where "lists s = (lists st)(l \<mapsto> L')" "pool L' = pool L" using r0(7) assms(3) by auto
  note r = r0(1-4,6) this
  obtain t where t: "tasks st p = Some t" "owner t = l"
    using assms(1,2) by (auto simp: sched_inv_def members_def)
  have p: "p \<notin> set (remove1 p xs)"
    using assms(1) by (auto simp: sched_inv_def chain_def)
  let ?t1 = "t'\<lparr>callback := None, tdata := None, tnext := pool L\<rparr>"
  let ?s1 = "s\<lparr>tasks := (tasks s)(p \<mapsto> ?t1), lists := (lists s)(l \<mapsto> L'\<lparr>pool := Some p\<rparr>)\<rparr>"
  let ?s2 = "s\<lparr>tasks := (tasks s)(p \<mapsto> ?t1\<lparr>tnext := None\<rparr>), lists := (lists s)(l \<mapsto> L'\<lparr>pool := pool L\<rparr>)\<rparr>"
  have L1: "lists s l = Some L'" using r(6) by simp
  have run: "RemoveTask p st = Some ?s1" "GetTask l ?s1 = Some (p, ?s2)"
    using t r(1,3,7) L1 by (simp_all add: RemoveTask_def GetTask_def)
  note keep = sched_inv_off_list [OF r(2) p L1]
  have "sched_inv ?s1 l (remove1 p xs)" by (rule keep)
  moreover have "sched_inv ?s2 l (remove1 p xs)" by (rule keep)
  ultimately show ?thesis
    using run r(4) by (intro exI [of _ ?s1] exI [of _ ?s2] exI [of _ "?t1\<lparr>tnext := None\<rparr>"]) simp
qed


subsection \<open>A concrete list\<close>

text \<open>Two armed tasks, one due and one not, a third unarmed; callbacks are numbers and a call is
  recorded in the world.\<close>

definition demo_list :: task_list where
  "demo_list = \<lparr>lhead = Some 2, ltail = Some 3, runnow = Some 6, pool = None, insertHint = Some 3\<rparr>"

definition demo_task :: "addr option \<Rightarrow> addr option \<Rightarrow> u64 \<Rightarrow> u64 \<Rightarrow> nat \<Rightarrow> bool \<Rightarrow> (nat, nat) task_entry" where
  "demo_task n p s u f b = \<lparr>tnext = n, tprev = p, owner = 5, seconds = s, micros = u, callback = Some f,
     tdata = Some (10 * f), linked = b\<rparr>"

definition demo :: "(nat, nat, (nat \<times> nat option) list) store" where
  "demo = \<lparr>tasks = [2 \<mapsto> demo_task (Some 3) None 1000 5 7 True, 3 \<mapsto> demo_task None (Some 2) 2000 0 8 True,
       4 \<mapsto> demo_task None None 0 0 9 False],
     lists = [5 \<mapsto> demo_list, 6 \<mapsto> \<lparr>lhead = None, ltail = None, runnow = None, pool = None, insertHint = None\<rparr>],
     clock_s = 1000, clock_us = 999000, fresh_task = 7, fresh_list = 7, tasksAlive = 3, world = []\<rparr>"

lemma demo_simps [simp]:
  "tasks demo 2 = Some (demo_task (Some 3) None 1000 5 7 True)"
  "tasks demo 3 = Some (demo_task None (Some 2) 2000 0 8 True)"
  "tasks demo 4 = Some (demo_task None None 0 0 9 False)"
  "lists demo 5 = Some demo_list"
  "lists demo 6 = Some \<lparr>lhead = None, ltail = None, runnow = None, pool = None, insertHint = None\<rparr>"
  "clock_s demo = 1000" "clock_us demo = 999000"
  "runnow demo_list = Some 6"
  by (simp_all add: demo_def demo_list_def)

lemma demo_task_simps [simp]:
  "seconds (demo_task n p s u f b) = s" "micros (demo_task n p s u f b) = u"
  "owner (demo_task n p s u f b) = 5" "linked (demo_task n p s u f b) = b"
  "callback (demo_task n p s u f b) = Some f" "tdata (demo_task n p s u f b) = Some (10 * f)"
  "tnext (demo_task n p s u f b) = n" "tprev (demo_task n p s u f b) = p"
  by (simp_all add: demo_task_def)

definition log_invoke :: "(nat, nat, (nat \<times> nat option) list) invoke" where
  "log_invoke f d m st = Some (st\<lparr>world := world st @ [(f, d)]\<rparr>)"

lemma demo_inv: "sched_inv demo 5 [2, 3]"
  by (simp add: sched_inv_def demo_list_def chain_def members_def earlier_def due_le_def)

lemma demo_not_later [simp]: "not_later (tasks demo) s u 2 \<longleftrightarrow> 1000 < s \<or> 1000 = s \<and> 5 \<le> u"
    "not_later (tasks demo) s u 3 \<longleftrightarrow> 2000 < s \<or> 2000 = s \<and> 0 \<le> u"
  by (simp_all add: not_later_def due_le_def)

lemma log_invoke_leaves: "leaves_runnow log_invoke l"
  by (auto simp: leaves_runnow_def log_invoke_def pending_def)

theorem AddTaskDelay_inserts_sorted_witness:
  "\<exists>st'. AddTaskDelay 4 5 0 (Some 9) (Some 1) demo = Some st' \<and> sched_inv st' 5 [2, 4, 3]"
  using AddTaskDelay_inserts_sorted [OF demo_inv demo_simps(3), of 5 0 "Some 9" "Some 1"]
  by (simp add: dueTime_def Let_def) blast

theorem AddTaskMilli_due_time_witness:
  "\<exists>st' t'. AddTaskMilli 4 2500 (Some 9) (Some 1) demo = Some st' \<and> tasks st' 4 = Some t'
     \<and> us (seconds t', micros t') = 1003499000"
proof -
  have p: "4 \<notin> set [2, 3 :: addr]" by simp
  obtain st' where st': "AddTaskMilli 4 2500 (Some 9) (Some 1) demo = Some st'"
    unfolding AddTaskMilli_def by (rule AddTaskDelay_ok [OF demo_inv demo_simps(3) _ p refl]) simp_all
  show ?thesis
    using AddTaskMilli_due_time [OF demo_simps(3) st', of "[2, 3]"] demo_inv st' by (auto simp: us_def)
qed

theorem SchedNextWakeMicros_head_due_witness:
  "\<exists>w. SchedNextWakeMicros 5 demo = Some w \<and> w = 0"
  using SchedNextWakeMicros_head_due [OF demo_inv demo_simps(1)] by (simp add: due_le_def)

theorem RemoveTask_recycles_witness:
  "\<exists>st1 st2. RemoveTask 2 demo = Some st1 \<and> sched_inv st1 5 [3] \<and> GetTask 5 st1 = Some (2, st2)"
  using RemoveTask_recycles [OF demo_inv, of 2 demo_list] by simp metis


subsection \<open>A callback that retires a task waiting in the run list\<close>

text \<open>The chain from the head of a list, read with the given fuel.\<close>

fun read_chain :: "nat \<Rightarrow> (addr \<Rightarrow> ('f, 'd) task_entry option) \<Rightarrow> addr option \<Rightarrow> addr list" where
  "read_chain 0 T p = []"
| "read_chain (Suc n) T None = []"
| "read_chain (Suc n) T (Some a) = (case T a of None \<Rightarrow> [a] | Some t \<Rightarrow> a # read_chain n T (tnext t))"

text \<open>Callback 1 retires task 1 (with \<open>RemoveTask\<close>), callback 2 deletes it, the others do nothing.\<close>

definition retire_invoke :: "(nat, nat, unit) invoke" where
  "retire_invoke f d m st = (if f = 1 then RemoveTask 1 st
     else if f = 2 then DeleteTask (\<lambda>_ _ _ st. Some st) 1 st else Some st)"

text \<open>Tasks 0 and 1 are due now, task 2 in 100 seconds; task 0's callback is the given one.  After the
  tick, task 3 is armed for 200 seconds.\<close>

definition retire_run :: "nat \<Rightarrow> (int \<times> addr list \<times> bool) option" where
  "retire_run f = (
     let (l, s0) = CreateList \<lparr>tasks = \<lambda>_. None, lists = \<lambda>_. None, clock_s = 1000, clock_us = 0,
           fresh_task = 0, fresh_list = 0, tasksAlive = 0, world = ()\<rparr>;
         (a, s1) = CreateTask l s0; (b, s2) = CreateTask l s1;
         (c, s3) = CreateTask l s2; (d, s4) = CreateTask l s3
     in do {
       s5 \<leftarrow> AddTaskNow a (Some f) None s4;
       s6 \<leftarrow> AddTaskNow b (Some 9) None s5;
       s7 \<leftarrow> AddTaskSec c 100 (Some 9) None s6;
       (r, s8) \<leftarrow> ExecTasks retire_invoke l s7;
       s9 \<leftarrow> AddTaskSec d 200 (Some 9) None s8;
       L \<leftarrow> lists s9 l;
       t \<leftarrow> tasks s9 d;
       Some (r, read_chain 10 (tasks s9) (lhead L), linked t) })"


end
