(* ===== verification/Timer.thy ===== *)
theory Timer
  imports Main "HOL-Library.Word" "HOL-Library.Monad_Syntax"
begin

text \<open>
  \<open>src/timer.c\<close>: the cached clock, the calendar, the date text, and \<open>EventDelay\<close>, the seconds until a
  scheduled event.  \<open>localtime\<close> is a parameter (a time to its broken-down form, or NULL).  C integers
  are \<open>int\<close>: the calendar quantities stay far inside 32 bits.  An array index out of range is undefined
  (\<open>None\<close>), as are the loops that do not end.
\<close>

record tm =
  tm_sec :: int
  tm_min :: int
  tm_hour :: int
  tm_mday :: int
  tm_mon :: int
  tm_year :: int
  tm_wday :: int
  tm_isdst :: int

type_synonym localtime = "int \<Rightarrow> tm option"

definition at :: "'a list \<Rightarrow> int \<Rightarrow> 'a option" where
  "at xs i = (if 0 \<le> i \<and> nat i < length xs then Some (xs ! nat i) else None)"

subsection \<open>The cached clock\<close>

record clock =
  global_seconds :: "64 word"
  global_microseconds :: "64 word"
  global_start_seconds :: "64 word"

definition GetCurrentTime :: "clock \<Rightarrow> 64 word \<times> 64 word" where
  "GetCurrentTime c = (global_seconds c, global_microseconds c)"

definition GetRunTime :: "clock \<Rightarrow> int" where
  "GetRunTime c = sint (global_seconds c - global_start_seconds c)"

text \<open>\<open>localCacheTime\<close> as the callers use it: a time of 0 stands for now.\<close>

definition orNow :: "clock \<Rightarrow> int \<Rightarrow> int" where
  "orNow c theTime = (if theTime = 0 then sint (global_seconds c) else theTime)"

text \<open>\<open>TimeUpdate\<close>, given what \<open>gettimeofday\<close> answers: the offset if the clock jumped, else 0.\<close>

definition TimeUpdate :: "64 word \<Rightarrow> 64 word \<Rightarrow> clock \<Rightarrow> clock \<times> int" where
  "TimeUpdate tv_sec tv_usec c =
     (let first = global_seconds c = 0;
          prevSecs = (if first then tv_sec else global_seconds c);
          start = (if first then tv_sec else global_start_seconds c);
          offset = sint (tv_sec - prevSecs);
          c' = c\<lparr>global_seconds := tv_sec, global_microseconds := tv_usec, global_start_seconds := start\<rparr>
      in if offset < 0 \<or> offset > 1
         then (c'\<lparr>global_start_seconds := start + word_of_int offset\<rparr>, offset)
         else (c', 0))"

subsection \<open>The calendar\<close>

text \<open>\<open>IsLeapYear\<close> takes an unsigned int.\<close>

definition IsLeapYear :: "int \<Rightarrow> bool" where
  "IsLeapYear year \<longleftrightarrow> year mod 4 \<noteq> 0 \<and> year mod 100 \<noteq> 0 \<or> year mod 400 = 0"

definition months :: "int list" where
  "months = [31, 28, 31, 30, 31, 30, 31, 31, 30, 31, 30, 31]"

definition DaysInMonth :: "int \<Rightarrow> int \<Rightarrow> int" where
  "DaysInMonth year month =
     (if month < 0 \<or> month > 11 then 0
      else if month = 1 \<and> IsLeapYear (year mod 2 ^ 32) then 29
      else months ! nat month)"

subsection \<open>The text of a date\<close>

definition ShortMonthNames :: "string list" where
  "ShortMonthNames = [''Jan'', ''Feb'', ''Mar'', ''Apr'', ''May'', ''Jun'', ''Jul'', ''Aug'', ''Sep'',
     ''Oct'', ''Nov'', ''Dec'']"

definition ShortDayNames :: "string list" where
  "ShortDayNames = [''Sun'', ''Mon'', ''Tue'', ''Wed'', ''Thu'', ''Fri'', ''Sat'']"

definition dig :: "int \<Rightarrow> char" where
  "dig i = char_of (i + 48)"

text \<open>C's division and remainder truncate; the arguments here are not negative.\<close>

definition FormatDate :: "localtime \<Rightarrow> clock \<Rightarrow> int \<Rightarrow> string option" where
  "FormatDate localtime c theTime = (case localtime (orNow c theTime) of
     None \<Rightarrow> Some ''''
   | Some t \<Rightarrow>
     if tm_year t < 104 then Some ''''
     else do {
       wday \<leftarrow> at ShortDayNames (tm_wday t);
       mon \<leftarrow> at ShortMonthNames (tm_mon t);
       let mday = (if tm_mday t < 10 then CHR '' '' else dig (tm_mday t div 10));
       let year = tm_year t + 1900;
       let y1 = year - year div 1000 * 1000;
       let y2 = y1 - y1 div 100 * 100;
       let y3 = y2 - y2 div 10 * 10;
       let pm = tm_hour t \<ge> 12;
       let h = (if pm then tm_hour t - 12 else tm_hour t);
       let hour = (if h = 0 then 12 else h);
       Some (take 3 wday @ '' '' @ take 3 mon @ '' '' @ [mday, dig (tm_mday t mod 10)] @ '' ''
         @ [dig (year div 1000), dig (y1 div 100), dig (y2 div 10), dig y3] @ '' ''
         @ [if hour < 10 then CHR ''0'' else dig (hour div 10), dig (hour mod 10)] @ '':''
         @ [if tm_min t < 10 then CHR ''0'' else dig (tm_min t div 10), dig (tm_min t mod 10)] @ '' ''
         @ [if pm then CHR ''P'' else CHR ''A'', CHR ''M'']) })"

definition DaylightSavings :: "localtime \<Rightarrow> int \<Rightarrow> int" where
  "DaylightSavings localtime theTime = (case localtime theTime of None \<Rightarrow> 0 | Some t \<Rightarrow> tm_isdst t)"

subsection \<open>Weeks\<close>

text \<open>The days the two loops of \<open>GetWeek\<close> add up, with the month of the year it stops in.\<close>

function weekMonths :: "int \<Rightarrow> int \<Rightarrow> int \<Rightarrow> int \<Rightarrow> int \<Rightarrow> int \<Rightarrow> int" where
  "weekMonths year month day currentyear currentmonth acc =
     (if currentmonth < 12 then
        if currentyear = year \<and> currentmonth = month then acc + day
        else weekMonths year month day currentyear (currentmonth + 1)
               (acc + DaysInMonth currentyear currentmonth)
      else acc)"
  by pat_completeness auto
termination
  by (relation "measure (\<lambda>(year, month, day, currentyear, currentmonth, acc). nat (12 - currentmonth))") auto

function weekYears :: "int \<Rightarrow> int \<Rightarrow> int \<Rightarrow> int \<Rightarrow> int \<Rightarrow> int" where
  "weekYears year month day currentyear acc =
     (if currentyear \<le> year
      then weekYears year month day (currentyear + 1) (weekMonths year month day currentyear 0 acc)
      else acc)"
  by pat_completeness auto
termination
  by (relation "measure (\<lambda>(year, month, day, currentyear, acc). nat (year + 1 - currentyear))") auto

declare weekMonths.simps [simp del] weekYears.simps [simp del]

definition GetWeek :: "int \<Rightarrow> int \<Rightarrow> int \<Rightarrow> int" where
  "GetWeek year month day = weekYears year month day 2004 4 div 7"

definition NumberOfWeeksInMonth :: "int \<Rightarrow> int \<Rightarrow> int" where
  "NumberOfWeeksInMonth year month =
     GetWeek year month (DaysInMonth year month) - GetWeek year month 1 + 1"

definition CurrentWeekInMonth :: "int \<Rightarrow> int \<Rightarrow> int \<Rightarrow> int" where
  "CurrentWeekInMonth year month day = GetWeek year month day - GetWeek year month 1 + 1"

subsection \<open>EventDelay\<close>

record mytime =
  State :: int
  StartOnNextMinute :: int
  Applied :: int
  MonthsOfYear :: "int list"
  DaysOfWeek :: "int list"
  StartTime :: "int list"
  Every :: "int list"
  WeeksOfMonth :: "int list"
  DaysOfMonth :: "int list"

definition FixedInterval :: int where "FixedInterval = 0"
definition EveryWeekDay :: int where "EveryWeekDay = 1"
definition EveryMonthDay :: int where "EveryMonthDay = 2"
definition ST_SLEEP :: int where "ST_SLEEP = 1"

text \<open>The seconds to the start time of today, as the code reckons them (from the hour and the second
  of the current time).\<close>

definition secondsToday :: "mytime \<Rightarrow> tm \<Rightarrow> int option" where
  "secondsToday s t = do {
     hour \<leftarrow> at (StartTime s) 0; minute \<leftarrow> at (StartTime s) 1; meridian \<leftarrow> at (StartTime s) 2;
     let shour = (if hour = 12 then 0 else hour);
     Some (((shour + meridian * 12) * 60 + minute) * 60 - (tm_hour t * 60 + tm_sec t + 1)) }"

text \<open>\<open>while (seconds < 0) seconds += Interval\<close>.\<close>

partial_function (option) catchUp :: "int \<Rightarrow> int \<Rightarrow> int option" where
  "catchUp secs interval = (if secs < 0 then catchUp (secs + interval) interval else Some secs)"

declare catchUp.simps [code]

text \<open>What the scan over the coming days starts from.\<close>

record search =
  syear :: int
  smonth :: int
  sday :: int
  yearoffset :: int
  monthoffset :: int
  dayoffset :: int
  Interval :: int
  Passed :: bool
  wday0 :: int

text \<open>The first switch ends in a return, in the daylight calculation, or in the scan.\<close>

datatype plan = Return int | Daylight int | Scan search

definition minInterval :: "int \<Rightarrow> int" where
  "minInterval i = (if i < 60 then 60 else i)"

definition fixedPlan :: "mytime \<Rightarrow> tm \<Rightarrow> int \<Rightarrow> plan option" where
  "fixedPlan s t secs = do {
     days \<leftarrow> at (Every s) 0; hours \<leftarrow> at (Every s) 1; mins \<leftarrow> at (Every s) 2;
     y \<leftarrow> at (StartTime s) 5; m \<leftarrow> at (StartTime s) 4; d \<leftarrow> at (StartTime s) 3;
     let interval = minInterval (((days * 24 + hours) * 60 + mins) * 60);
     if StartOnNextMinute s \<noteq> 0
     then Some (if Applied s = 0 then Return (60 - tm_sec t) else Daylight (interval - 1))
     else (let year = tm_year t + 1900;
               sy = (if y = 0 then year else y);
               sm = (if m = 0 then tm_mon t else m - 1);
               sd = (if d = 0 then tm_mday t else d)
           in if sy = year \<and> sm = tm_mon t \<and> sd = tm_mday t
              then map_option Daylight (catchUp secs interval)
              else (let passed = sy < year \<or> sy = year \<and> sm < tm_mon t
                          \<or> sy = year \<and> sm = tm_mon t \<and> sd < tm_mday t
                    in Some (Scan (if passed
                      then \<lparr>syear = year, smonth = tm_mon t, sday = tm_mday t, yearoffset = sy,
                             monthoffset = sm, dayoffset = sd, Interval = interval, Passed = True, wday0 = 0\<rparr>
                      else \<lparr>syear = sy, smonth = sm, sday = sd, yearoffset = year,
                             monthoffset = tm_mon t, dayoffset = tm_mday t, Interval = interval,
                             Passed = False, wday0 = 0\<rparr>)))) }"

text \<open>C's division truncates; on Feb 29 the code can have \<open>LastDay\<close> one below the day.\<close>

definition cdiv :: "int \<Rightarrow> int \<Rightarrow> int" where
  "cdiv a b = (if a < 0 then - ((- a) div b) else a div b)"

text \<open>A selected week of the month: by its number, or the last one (box 5).\<close>

definition weekSelected :: "mytime \<Rightarrow> int \<Rightarrow> int \<Rightarrow> bool option" where
  "weekSelected s day LastDay = do {
     w \<leftarrow> at (WeeksOfMonth s) (cdiv (day - 1) 7);
     if w \<noteq> 0 then Some True
     else if cdiv (LastDay - day) 7 \<noteq> 0 then Some False
     else map_option (\<lambda>l. l \<noteq> 0) (at (WeeksOfMonth s) 5) }"

definition scanFromToday :: "tm \<Rightarrow> int \<Rightarrow> search" where
  "scanFromToday t wday = \<lparr>syear = 0, smonth = 0, sday = 0, yearoffset = tm_year t + 1900,
     monthoffset = tm_mon t, dayoffset = tm_mday t, Interval = 0, Passed = False, wday0 = wday\<rparr>"

definition weekDayPlan :: "mytime \<Rightarrow> tm \<Rightarrow> int \<Rightarrow> int \<Rightarrow> plan option" where
  "weekDayPlan s t LastDay secs = do {
     today \<leftarrow> at (DaysOfWeek s) (tm_wday t);
     hit \<leftarrow> (if today \<noteq> 0 then weekSelected s (tm_mday t) LastDay else Some False);
     if hit \<and> secs > 0 then Some (Daylight secs)
     else (let w = tm_wday t + 1 in Some (Scan (scanFromToday t (if w \<ge> 7 then w - 7 else w)))) }"

definition monthDayToday :: "mytime \<Rightarrow> tm \<Rightarrow> int \<Rightarrow> bool option" where
  "monthDayToday s t LastDay = do {
     mon \<leftarrow> at (MonthsOfYear s) (tm_mon t);
     first \<leftarrow> (if mon \<noteq> 0 then map_option (\<lambda>d. d \<noteq> 0) (at (DaysOfMonth s) (tm_mday t - 1)) else Some False);
     if first then Some True
     else if LastDay \<noteq> tm_mday t then Some False
     else do {
       d \<leftarrow> at (DaysOfMonth s) (tm_mon t);
       both \<leftarrow> (if d \<noteq> 0 then map_option (\<lambda>e. e \<noteq> 0) (at (DaysOfMonth s) (LastDay - 1)) else Some False);
       if both then Some True else map_option (\<lambda>e. e \<noteq> 0) (at (DaysOfMonth s) 31) } }"

definition monthDayPlan :: "mytime \<Rightarrow> tm \<Rightarrow> int \<Rightarrow> int \<Rightarrow> plan option" where
  "monthDayPlan s t LastDay secs = do {
     hit \<leftarrow> monthDayToday s t LastDay;
     Some (if hit \<and> secs > 0 then Daylight secs else Scan (scanFromToday t 0)) }"

definition firstPlan :: "mytime \<Rightarrow> tm \<Rightarrow> int \<Rightarrow> int \<Rightarrow> plan option" where
  "firstPlan s t LastDay secs =
     (if State s = FixedInterval then fixedPlan s t secs
      else if State s = EveryWeekDay then weekDayPlan s t LastDay secs
      else if State s = EveryMonthDay then monthDayPlan s t LastDay secs
      else Some (Scan (scanFromToday t 0)))"

text \<open>Falling off the end of the month and of the year.\<close>

definition nextDay :: "int \<Rightarrow> search \<Rightarrow> search" where
  "nextDay LastDay r =
     (let r1 = (if LastDay = dayoffset r then r\<lparr>dayoffset := 0, monthoffset := monthoffset r + 1\<rparr> else r)
      in if monthoffset r1 > 11 then r1\<lparr>monthoffset := 0, yearoffset := yearoffset r1 + 1\<rparr> else r1)"

text \<open>One day of the scan: the seconds when it is the day (\<open>Inl\<close>), else the next day of the week.\<close>

definition scanDay :: "mytime \<Rightarrow> search \<Rightarrow> int \<Rightarrow> int \<Rightarrow> int \<times> int \<times> int \<Rightarrow> int \<Rightarrow> int \<Rightarrow> (int + int) option" where
  "scanDay s r secs LastDay ymd acc wday = (case ymd of (year, month, day) \<Rightarrow>
     if State s = FixedInterval then
       if year = syear r \<and> month = smonth r \<and> day = sday r then
         if Passed r then map_option Inl (catchUp (- 1 * acc * 86400 + secs) (Interval r))
         else Some (Inl (acc * 86400 + secs))
       else Some (Inr wday)
     else if State s = EveryWeekDay then do {
       today \<leftarrow> at (DaysOfWeek s) wday;
       hit \<leftarrow> (if today \<noteq> 0 then weekSelected s day LastDay else Some False);
       Some (if hit then Inl (acc * 86400 + secs)
             else Inr (if wday + 1 \<ge> 7 then wday + 1 - 7 else wday + 1)) }
     else if State s = EveryMonthDay then do {
       mon \<leftarrow> at (MonthsOfYear s) month;
       first \<leftarrow> (if mon \<noteq> 0 then map_option (\<lambda>d. d \<noteq> 0) (at (DaysOfMonth s) (day - 1)) else Some False);
       hit \<leftarrow> (if first then Some True
               else if day = LastDay \<and> mon \<noteq> 0 then do {
                 l \<leftarrow> at (DaysOfMonth s) (LastDay - 1);
                 if l \<noteq> 0 then Some True else map_option (\<lambda>e. e \<noteq> 0) (at (DaysOfMonth s) 31) }
               else Some False);
       Some (if hit then Inl (acc * 86400 + secs) else Inr wday) }
     else Some (Inr wday))"

text \<open>The three nested loops, with the days counted and the day of the week.\<close>

function scanDays :: "mytime \<Rightarrow> search \<Rightarrow> int \<Rightarrow> int \<Rightarrow> int \<Rightarrow> int \<Rightarrow> int \<Rightarrow> int \<Rightarrow> int
    \<Rightarrow> (int + int \<times> int) option" where
  "scanDays s r secs year month LastDay day acc wday =
     (if day \<le> LastDay then
        (case scanDay s r secs LastDay (year, month, day) acc wday of
           None \<Rightarrow> None | Some (Inl x) \<Rightarrow> Some (Inl x)
         | Some (Inr w) \<Rightarrow> scanDays s r secs year month LastDay (day + 1) (acc + 1) w)
      else Some (Inr (acc, wday)))"
  by pat_completeness auto
termination
  by (relation "measure (\<lambda>(s, r, secs, year, month, LastDay, day, acc, wday). nat (LastDay + 1 - day))") auto

function scanMonths :: "mytime \<Rightarrow> search \<Rightarrow> int \<Rightarrow> int \<Rightarrow> int \<Rightarrow> int \<Rightarrow> int \<Rightarrow> int \<Rightarrow> (int + int \<times> int) option" where
  "scanMonths s r secs year month doff acc wday =
     (if month < 12 then
        (case scanDays s r secs year month (DaysInMonth year month) (1 + doff) acc wday of
           None \<Rightarrow> None | Some (Inl x) \<Rightarrow> Some (Inl x)
         | Some (Inr (a, w)) \<Rightarrow> scanMonths s r secs year (month + 1) 0 a w)
      else Some (Inr (acc, wday)))"
  by pat_completeness auto
termination
  by (relation "measure (\<lambda>(s, r, secs, year, month, doff, acc, wday). nat (12 - month))") auto

text \<open>\<open>dayoffset\<close> is reset after a month, so a first year that has no month left passes it on.\<close>

function scanYears :: "mytime \<Rightarrow> search \<Rightarrow> int \<Rightarrow> int \<Rightarrow> int \<Rightarrow> int \<Rightarrow> int \<Rightarrow> int \<Rightarrow> int
    \<Rightarrow> int option option" where
  "scanYears s r secs lastyear year moff doff acc wday =
     (if year < lastyear then
        (case scanMonths s r secs year moff doff acc wday of
           None \<Rightarrow> None | Some (Inl x) \<Rightarrow> Some (Some x)
         | Some (Inr (a, w)) \<Rightarrow> scanYears s r secs lastyear (year + 1) 0 (if moff < 12 then 0 else doff) a w)
      else Some None)"
  by pat_completeness auto
termination
  by (relation "measure (\<lambda>(s, r, secs, lastyear, year, moff, doff, acc, wday). nat (lastyear - year))") auto

declare scanDays.simps [simp del] scanMonths.simps [simp del] scanYears.simps [simp del]

definition runScan :: "mytime \<Rightarrow> search \<Rightarrow> int \<Rightarrow> int option option" where
  "runScan s r secs = scanYears s r secs (yearoffset r + yearoffset r) (yearoffset r)
     (monthoffset r) (dayoffset r) 1 (wday0 r)"

text \<open>The end: a step over a change of daylight saving, and never the error value.\<close>

definition daylight :: "localtime \<Rightarrow> int \<Rightarrow> int \<Rightarrow> int" where
  "daylight localtime theTime s0 =
     (let s1 = (if DaylightSavings localtime theTime \<noteq> 0 \<and> DaylightSavings localtime (theTime + s0) = 0
                then s0 + 3600 else s0);
          s2 = (if DaylightSavings localtime theTime = 0 \<and> DaylightSavings localtime (theTime + s1) \<noteq> 0
                then s1 - 3600 else s1);
          s3 = (if s2 = ST_SLEEP then s2 + 60 else s2)
      in s3 + 1)"

definition EventDelay :: "localtime \<Rightarrow> clock \<Rightarrow> mytime list \<Rightarrow> int \<Rightarrow> int \<Rightarrow> int option" where
  "EventDelay localtime c schedTime type theTime0 = do {
     s \<leftarrow> at schedTime type;
     let theTime = orNow c theTime0;
     (case localtime theTime of None \<Rightarrow> Some ST_SLEEP
      | Some t \<Rightarrow> do {
          let LastDay = DaysInMonth (tm_year t + 1900) (tm_mon t);
          secs \<leftarrow> secondsToday s t;
          p \<leftarrow> firstPlan s t LastDay secs;
          (case p of
             Return x \<Rightarrow> Some x
           | Daylight x \<Rightarrow> Some (daylight localtime theTime x)
           | Scan r \<Rightarrow> do {
               found \<leftarrow> runScan s (nextDay LastDay r) secs;
               Some (case found of None \<Rightarrow> ST_SLEEP | Some x \<Rightarrow> daylight localtime theTime x) }) }) }"

subsection \<open>The clock and the calendar\<close>

lemma at_Some [simp]: "at xs i = Some x \<longleftrightarrow> 0 \<le> i \<and> nat i < length xs \<and> x = xs ! nat i"
  by (auto simp: at_def)

definition leap :: "int \<Rightarrow> bool" where
  "leap y \<longleftrightarrow> y mod 4 = 0 \<and> (y mod 100 \<noteq> 0 \<or> y mod 400 = 0)"

text \<open>\<open>IsLeapYear\<close> is the Gregorian rule exactly for the years divisible by 100: for every other
  year it answers the opposite (2024 is not a leap year, 2023 is).\<close>

theorem IsLeapYear_inverted:
  "(IsLeapYear y \<longleftrightarrow> leap y) \<longleftrightarrow> y mod 100 = 0"
proof -
  have "(4 :: int) dvd 100" "(100 :: int) dvd 400" by simp_all
  then have "y mod 100 = 0 \<Longrightarrow> y mod 4 = 0" "y mod 400 = 0 \<Longrightarrow> y mod 100 = 0"
    unfolding mod_eq_0_iff_dvd by (blast intro: dvd_trans)+
  then show ?thesis by (auto simp: IsLeapYear_def leap_def)
qed

lemma DaysInMonth_bounds:
  "0 \<le> m \<Longrightarrow> m \<le> 11 \<Longrightarrow> 28 \<le> DaysInMonth y m \<and> DaysInMonth y m \<le> 31"
proof -
  assume "0 \<le> m" "m \<le> 11"
  then have "nat m \<in> {0..<12}" by auto
  moreover have "\<forall>k\<in>{0..<12::nat}. 28 \<le> months ! k \<and> months ! k \<le> 31"
    by (simp add: months_def atLeast0LessThan lessThan_nat_numeral lessThan_Suc)
  ultimately have "28 \<le> months ! nat m \<and> months ! nat m \<le> 31" by blast
  then show ?thesis using \<open>0 \<le> m\<close> \<open>m \<le> 11\<close> by (simp add: DaysInMonth_def)
qed

lemma DaysInMonth_pos: "0 \<le> DaysInMonth y m"
  using DaysInMonth_bounds [of m y] by (cases "0 \<le> m \<and> m \<le> 11") (auto simp: DaysInMonth_def)

subsection \<open>Weeks\<close>

lemma weekMonths_other:
  "currentyear \<noteq> year \<Longrightarrow> weekMonths year month day currentyear m acc = weekMonths year month day' currentyear m acc"
proof (induction year month day currentyear m acc rule: weekMonths.induct)
  case (1 year month day currentyear m acc)
  then show ?case by (subst (1 2) weekMonths.simps) simp
qed

lemma weekMonths_year:
  "0 \<le> m \<Longrightarrow> m \<le> month \<Longrightarrow> month < 12 \<Longrightarrow>
   weekMonths year month day year m acc = weekMonths year month 0 year m acc + day"
proof (induction year month day year m acc rule: weekMonths.induct)
  case (1 year month day currentyear m acc)
  then show ?case by (subst (1 2) weekMonths.simps) auto
qed

text \<open>The day only counts in the end: the days before the month, plus the day.\<close>

lemma weekYears_day:
  "y0 \<le> year \<Longrightarrow> 0 \<le> month \<Longrightarrow> month < 12 \<Longrightarrow>
   weekYears year month day y0 acc = weekYears year month 0 y0 acc + day"
proof (induction year month day y0 acc rule: weekYears.induct)
  case (1 year month day y0 acc)
  show ?case
  proof (cases "y0 = year")
    case True
    then show ?thesis
      using weekMonths_year [of 0 month year day acc] "1.prems"
      by (subst (1 2) weekYears.simps) (simp add: weekYears.simps [of year month _ "year + 1"])
  next
    case False
    have "weekMonths year month day y0 0 acc = weekMonths year month 0 y0 0 acc"
      by (rule weekMonths_other) (use False in simp)
    then show ?thesis
      using "1.IH" "1.prems" False by (subst (1 2) weekYears.simps) simp
  qed
qed

text \<open>The week of the month is a number from 1 to 6, 1 for its first day, and grows by at most one
  from a day to the next.\<close>

theorem CurrentWeekInMonth_range:
  assumes "2004 \<le> year" and "0 \<le> month" and "month < 12" and "1 \<le> day" and "day \<le> 31"
  shows "CurrentWeekInMonth year month 1 = 1
    \<and> 1 \<le> CurrentWeekInMonth year month day \<and> CurrentWeekInMonth year month day \<le> 6
    \<and> (CurrentWeekInMonth year month (day + 1) = CurrentWeekInMonth year month day
       \<or> CurrentWeekInMonth year month (day + 1) = CurrentWeekInMonth year month day + 1)"
proof -
  let ?g = "weekYears year month 0 2004 4"
  have week: "CurrentWeekInMonth year month d = (?g + d) div 7 - (?g + 1) div 7 + 1" for d
    unfolding CurrentWeekInMonth_def GetWeek_def
    using weekYears_day [OF assms(1-3), of d 4] weekYears_day [OF assms(1-3), of 1 4] by simp
  have "(?g + 1) div 7 \<le> (?g + day) div 7" by (rule zdiv_mono1) (use assms(4) in simp_all)
  moreover have "(?g + day) div 7 \<le> (?g + 1 + 5 * 7) div 7"
    by (rule zdiv_mono1) (use assms(5) in simp_all)
  moreover have "(?g + 1 + 5 * 7) div 7 = 5 + (?g + 1) div 7" by (rule div_mult_self1) simp
  moreover have "(?g + day) div 7 \<le> (?g + (day + 1)) div 7" by (rule zdiv_mono1) simp_all
  moreover have "(?g + (day + 1)) div 7 \<le> (?g + day + 1 * 7) div 7" by (rule zdiv_mono1) simp_all
  moreover have "(?g + day + 1 * 7) div 7 = 1 + (?g + day) div 7" by (rule div_mult_self1) simp
  ultimately show ?thesis unfolding week by linarith
qed

theorem CurrentWeekInMonth_range_witness:
  "1 \<le> CurrentWeekInMonth 2005 1 28 \<and> CurrentWeekInMonth 2005 1 28 \<le> 6"
  using CurrentWeekInMonth_range [of 2005 1 28] by simp

text \<open>\<open>EventDelay\<close> never looks at the minute: whatever the current minute is, the delay to an event is
  the same (the second of the current time stands where the minute belongs).\<close>

theorem EventDelay_ignores_minute:
  "EventDelay (\<lambda>x. map_option (\<lambda>t. t\<lparr>tm_min := k\<rparr>) (lt x)) c schedTime type theTime
   = EventDelay lt c schedTime type theTime"
proof -
  have "DaylightSavings (\<lambda>x. map_option (\<lambda>t. t\<lparr>tm_min := k\<rparr>) (lt x)) = DaylightSavings lt"
    by (simp add: DaylightSavings_def fun_eq_iff split: option.split)
  then have dst: "daylight (\<lambda>x. map_option (\<lambda>t. t\<lparr>tm_min := k\<rparr>) (lt x)) = daylight lt"
    by (simp add: daylight_def [abs_def])
  have plan: "firstPlan s (t\<lparr>tm_min := k\<rparr>) l x = firstPlan s t l x" for s t l x
    by (cases t) (simp only: firstPlan_def fixedPlan_def weekDayPlan_def monthDayPlan_def
        monthDayToday_def scanFromToday_def tm.simps)
  have secs: "secondsToday s (t\<lparr>tm_min := k\<rparr>) = secondsToday s t" for s t
    by (simp add: secondsToday_def)
  show ?thesis
    unfolding EventDelay_def dst Let_def
    by (cases "lt (orNow c theTime)") (simp_all add: plan secs)
qed

subsection \<open>Reading a date back\<close>

definition index_of :: "string list \<Rightarrow> string \<Rightarrow> int" where
  "index_of xs x = int (length (takeWhile (\<lambda>y. y \<noteq> x) xs))"

definition digit :: "char \<Rightarrow> int" where
  "digit c = (if c = CHR '' '' then 0 else of_char c - 48)"

definition readDate :: "string \<Rightarrow> int \<times> int \<times> int \<times> int \<times> int \<times> int" where
  "readDate s = (index_of ShortDayNames (take 3 s), index_of ShortMonthNames (take 3 (drop 4 s)),
     digit (s ! 8) * 10 + digit (s ! 9),
     digit (s ! 11) * 1000 + digit (s ! 12) * 100 + digit (s ! 13) * 10 + digit (s ! 14),
     (digit (s ! 16) * 10 + digit (s ! 17)) mod 12 + (if s ! 22 = CHR ''P'' then 12 else 0),
     digit (s ! 19) * 10 + digit (s ! 20))"

definition valid_tm :: "tm \<Rightarrow> bool" where
  "valid_tm t \<longleftrightarrow> 0 \<le> tm_wday t \<and> tm_wday t < 7 \<and> 0 \<le> tm_mon t \<and> tm_mon t < 12
     \<and> 1 \<le> tm_mday t \<and> tm_mday t \<le> 31 \<and> 104 \<le> tm_year t \<and> tm_year t \<le> 8099
     \<and> 0 \<le> tm_hour t \<and> tm_hour t < 24 \<and> 0 \<le> tm_min t \<and> tm_min t < 60"

lemma index_of_nth: "distinct xs \<Longrightarrow> k < length xs \<Longrightarrow> index_of xs (xs ! k) = int k"
proof (induction xs arbitrary: k)
  case (Cons x xs)
  show ?case
  proof (cases k)
    case (Suc j)
    then have "x \<noteq> xs ! j" using Cons.prems by auto
    then show ?thesis using Suc Cons by (simp add: index_of_def)
  qed (simp add: index_of_def)
qed simp

lemma digit_dig [simp]: "0 \<le> d \<Longrightarrow> d \<le> 9 \<Longrightarrow> digit (dig d) = d"
proof -
  assume "0 \<le> d" "d \<le> 9"
  then have "of_char (dig d) = d + 48" by (simp add: dig_def)
  moreover have "dig d \<noteq> CHR '' ''"
  proof
    assume "dig d = CHR '' ''"
    then have "of_char (dig d) = (32 :: int)" by simp
    then show False using \<open>of_char (dig d) = d + 48\<close> \<open>0 \<le> d\<close> by simp
  qed
  ultimately show ?thesis by (simp add: digit_def)
qed

lemma digit_0 [simp]: "digit CHR ''0'' = 0" and digit_blank [simp]: "digit CHR '' '' = 0"
  by (simp_all add: digit_def)

lemma name3:
  assumes "\<forall>n\<in>set names. length n = 3" and "k < length names"
  obtains a b c where "names ! k = [a, b, c]"
proof -
  have "length (names ! k) = 3" using assms nth_mem by blast
  then show ?thesis using that by (auto simp: numeral_3_eq_3 length_Suc_conv)
qed

lemma two_digits: "0 \<le> n \<Longrightarrow> n < 100 \<Longrightarrow>
    digit (if n < 10 then z else dig (n div 10)) * 10 + digit (dig (n mod 10)) = n"
  if "digit z = 0" for n :: int
proof (cases "n < 10")
  case True
  assume "0 \<le> n"
  then show ?thesis using True that by simp
next
  case False
  assume "0 \<le> n" "n < 100"
  moreover have "0 \<le> n div 10" "n div 10 \<le> 9" "0 \<le> n mod 10" "n mod 10 \<le> 9"
    using \<open>0 \<le> n\<close> \<open>n < 100\<close> by (simp_all add: pos_imp_zdiv_nonneg_iff)
  ultimately show ?thesis using False by simp
qed

lemma four_digits:
  fixes y :: int
  assumes "0 \<le> y" and "y \<le> 9999" and "y1 = y - y div 1000 * 1000" and "y2 = y1 - y1 div 100 * 100"
    and "y3 = y2 - y2 div 10 * 10"
  shows "digit (dig (y div 1000)) * 1000 + digit (dig (y1 div 100)) * 100 + digit (dig (y2 div 10)) * 10
    + digit (dig y3) = y"
proof -
  have m: "y1 = y mod 1000" "y2 = y1 mod 100" "y3 = y2 mod 10"
    using assms(3-5) by (simp_all add: minus_div_mult_eq_mod)
  have b: "0 \<le> y1" "y1 < 1000" "0 \<le> y2" "y2 < 100" "0 \<le> y3" "y3 < 10"
    unfolding m(1) m(2) m(3) by simp_all
  have "0 \<le> y div 1000" "y div 1000 \<le> 9" "0 \<le> y1 div 100" "y1 div 100 \<le> 9"
    "0 \<le> y2 div 10" "y2 div 10 \<le> 9" "y3 \<le> 9"
    using assms(1,2) b by linarith+
  then have "digit (dig (y div 1000)) = y div 1000" "digit (dig (y1 div 100)) = y1 div 100"
    "digit (dig (y2 div 10)) = y2 div 10" "digit (dig y3) = y3"
    using b(5) by (simp_all only: digit_dig)
  then show ?thesis using assms(3-5) by linarith
qed

text \<open>\<open>FormatDate\<close> of a date from 2004 on is a text of 24 characters, which fit its static block of
  29, and from which the day of the week, the month, the day, the year, the hour (noon and midnight
  included) and the minute can be read back.\<close>

theorem FormatDate_readable:
  assumes "localtime (orNow c x) = Some t" and "valid_tm t"
  shows "\<exists>s. FormatDate localtime c x = Some s \<and> length s = 24
    \<and> readDate s = (tm_wday t, tm_mon t, tm_mday t, tm_year t + 1900, tm_hour t, tm_min t)"
proof -
  have v: "nat (tm_wday t) < length ShortDayNames" "nat (tm_mon t) < length ShortMonthNames"
    using assms(2) by (auto simp: valid_tm_def ShortDayNames_def ShortMonthNames_def)
  have names: "\<forall>n\<in>set ShortDayNames. length n = 3" "\<forall>n\<in>set ShortMonthNames. length n = 3"
    "distinct ShortDayNames" "distinct ShortMonthNames"
    by (simp_all add: ShortDayNames_def ShortMonthNames_def)
  obtain w1 w2 w3 where w: "ShortDayNames ! nat (tm_wday t) = [w1, w2, w3]" by (rule name3 [OF names(1) v(1)])
  obtain m1 m2 m3 where m: "ShortMonthNames ! nat (tm_mon t) = [m1, m2, m3]" by (rule name3 [OF names(2) v(2)])
  have idx: "index_of ShortDayNames [w1, w2, w3] = tm_wday t" "index_of ShortMonthNames [m1, m2, m3] = tm_mon t"
    using index_of_nth [OF names(3) v(1)] index_of_nth [OF names(4) v(2)] assms(2) w m
    by (simp_all add: valid_tm_def)
  define h where "h = (let h = if tm_hour t \<ge> 12 then tm_hour t - 12 else tm_hour t in if h = 0 then 12 else h)"
  have h: "0 \<le> h" "h < 100" "h mod 12 + (if tm_hour t \<ge> 12 then 12 else 0) = tm_hour t"
  proof -
    have b: "0 \<le> tm_hour t" "tm_hour t < 24" using assms(2) by (simp_all add: valid_tm_def)
    then show "0 \<le> h" "h < 100" by (auto simp: h_def Let_def)
    show "h mod 12 + (if tm_hour t \<ge> 12 then 12 else 0) = tm_hour t"
    proof (cases "tm_hour t \<ge> 12")
      case True
      then have "(tm_hour t - 12) mod 12 = tm_hour t - 12"
        using b by (intro mod_pos_pos_trivial) simp_all
      then show ?thesis using True by (simp add: h_def Let_def)
    next
      case False
      then have "tm_hour t mod 12 = tm_hour t" using b by (intro mod_pos_pos_trivial) simp_all
      then show ?thesis using False by (simp add: h_def Let_def)
    qed
  qed
  let ?y = "tm_year t + 1900"
  have y: "0 \<le> ?y" "?y \<le> 9999" using assms(2) by (auto simp: valid_tm_def)
  have mday: "0 \<le> tm_mday t" "tm_mday t < 100" and mins: "0 \<le> tm_min t" "tm_min t < 100"
    using assms(2) by (auto simp: valid_tm_def)
  define y1 where "y1 = ?y - ?y div 1000 * 1000"
  define y2 where "y2 = y1 - y1 div 100 * 100"
  define y3 where "y3 = y2 - y2 div 10 * 10"
  define D1 where "D1 = (if tm_mday t < 10 then CHR '' '' else dig (tm_mday t div 10))"
  define H1 where "H1 = (if h < 10 then CHR ''0'' else dig (h div 10))"
  define M1 where "M1 = (if tm_min t < 10 then CHR ''0'' else dig (tm_min t div 10))"
  define P where "P = (if tm_hour t \<ge> 12 then CHR ''P'' else CHR ''A'')"
  let ?s = "[w1, w2, w3, CHR '' '', m1, m2, m3, CHR '' '', D1, dig (tm_mday t mod 10), CHR '' '',
    dig (?y div 1000), dig (y1 div 100), dig (y2 div 10), dig y3, CHR '' '', H1, dig (h mod 10),
    CHR '':'', M1, dig (tm_min t mod 10), CHR '' '', P, CHR ''M'']"
  have at: "at ShortDayNames (tm_wday t) = Some [w1, w2, w3]" "at ShortMonthNames (tm_mon t) = Some [m1, m2, m3]"
    using v w m assms(2) by (simp_all add: valid_tm_def)
  have "\<not> tm_year t < 104" using assms(2) by (simp add: valid_tm_def)
  then have run: "FormatDate localtime c x = Some ?s"
    unfolding FormatDate_def assms(1) option.case Let_def at Option.bind.bind_lunit
      D1_def H1_def M1_def P_def y3_def y2_def y1_def h_def
    by simp
  have parts: "digit D1 * 10 + digit (dig (tm_mday t mod 10)) = tm_mday t"
    "digit (dig (?y div 1000)) * 1000 + digit (dig (y1 div 100)) * 100 + digit (dig (y2 div 10)) * 10
      + digit (dig y3) = ?y"
    "digit H1 * 10 + digit (dig (h mod 10)) = h" "digit M1 * 10 + digit (dig (tm_min t mod 10)) = tm_min t"
    "P = CHR ''P'' \<longleftrightarrow> tm_hour t \<ge> 12"
    unfolding D1_def H1_def M1_def P_def
    by (rule two_digits [OF digit_blank mday], rule four_digits [OF y y1_def y2_def y3_def],
        rule two_digits [OF digit_0 h(1,2)], rule two_digits [OF digit_0 mins], simp)
  have read: "readDate ?s = (tm_wday t, tm_mon t, tm_mday t, ?y, tm_hour t, tm_min t)"
  proof -
    have nths: "?s ! 8 = D1" "?s ! 9 = dig (tm_mday t mod 10)" "?s ! 11 = dig (?y div 1000)"
      "?s ! 12 = dig (y1 div 100)" "?s ! 13 = dig (y2 div 10)" "?s ! 14 = dig y3" "?s ! 16 = H1"
      "?s ! 17 = dig (h mod 10)" "?s ! 19 = M1" "?s ! 20 = dig (tm_min t mod 10)" "?s ! 22 = P"
      "take 3 ?s = [w1, w2, w3]" "take 3 (drop 4 ?s) = [m1, m2, m3]"
      by simp_all
    show ?thesis unfolding readDate_def nths idx parts h(3) by (rule refl)
  qed
  show ?thesis using run read by (intro exI [of _ ?s]) simp
qed

definition noon :: tm where
  "noon = \<lparr>tm_sec = 0, tm_min = 5, tm_hour = 12, tm_mday = 29, tm_mon = 1, tm_year = 124, tm_wday = 4,
     tm_isdst = 0\<rparr>"

theorem FormatDate_readable_witness:
  "\<exists>s. FormatDate (\<lambda>_. Some noon) \<lparr>global_seconds = 0, global_microseconds = 0, global_start_seconds = 0\<rparr> 1 = Some s
    \<and> length s = 24 \<and> readDate s = (4, 1, 29, 2024, 12, 5)"
  using FormatDate_readable [of "\<lambda>_. Some noon" _ 1 noon] by (simp add: noon_def valid_tm_def)

subsection \<open>The clock and the scan\<close>



lemma catchUp_mod:
  assumes "0 < i"
  shows "catchUp s i = Some (if s < 0 then s mod i else s)"
proof (induction "nat (- s)" arbitrary: s rule: less_induct)
  case less
  show ?case
  proof (cases "s < 0")
    case False
    then show ?thesis by (subst catchUp.simps) simp
  next
    case True
    have "catchUp (s + i) i = Some (if s + i < 0 then (s + i) mod i else s + i)"
      by (rule less) (use True assms in simp)
    moreover have "(s + i) mod i = s + i" if "\<not> s + i < 0" using that True by (intro mod_pos_pos_trivial) simp_all
    moreover have "(s + i) mod i = s mod i" by simp
    ultimately have "catchUp (s + i) i = Some (s mod i)" by (cases "s + i < 0") simp_all
    then show ?thesis using True by (subst catchUp.simps) simp
  qed
qed

text \<open>The days the nested loops visit, in order.\<close>

definition month_days :: "int \<Rightarrow> int \<Rightarrow> int \<Rightarrow> (int \<times> int \<times> int) list" where
  "month_days year month doff = map (\<lambda>d. (year, month, d)) [1 + doff..DaysInMonth year month]"

text \<open>The scan of a list of days.\<close>

fun scanList :: "mytime \<Rightarrow> search \<Rightarrow> int \<Rightarrow> (int \<times> int \<times> int) list \<Rightarrow> int \<Rightarrow> int \<Rightarrow> (int + int \<times> int) option" where
  "scanList s r secs [] acc wday = Some (Inr (acc, wday))"
| "scanList s r secs (d # ds) acc wday =
     (case scanDay s r secs (DaysInMonth (fst d) (fst (snd d))) d acc wday of
        None \<Rightarrow> None | Some (Inl x) \<Rightarrow> Some (Inl x) | Some (Inr w) \<Rightarrow> scanList s r secs ds (acc + 1) w)"

lemma scanList_append:
  "scanList s r secs (ds @ es) acc wday = (case scanList s r secs ds acc wday of
     None \<Rightarrow> None | Some (Inl x) \<Rightarrow> Some (Inl x) | Some (Inr (a, w)) \<Rightarrow> scanList s r secs es a w)"
  by (induction ds arbitrary: acc wday) (auto split: option.split sum.split)

lemma scanDays_scanList:
  "scanDays s r secs year month (DaysInMonth year month) day acc wday
   = scanList s r secs (map (\<lambda>d. (year, month, d)) [day..DaysInMonth year month]) acc wday"
proof (induction s r secs year month "DaysInMonth year month" day acc wday rule: scanDays.induct)
  case (1 s r secs year month day acc wday)
  show ?case
  proof (cases "day \<le> DaysInMonth year month")
    case True
    then have "[day..DaysInMonth year month] = day # [day + 1..DaysInMonth year month]" by (rule upto_rec1)
    then show ?thesis using True 1 by (subst scanDays.simps) (auto split: option.split sum.split)
  qed (subst scanDays.simps, simp)
qed

definition year_days :: "int \<Rightarrow> int \<Rightarrow> int \<Rightarrow> (int \<times> int \<times> int) list" where
  "year_days year moff doff = concat (map (\<lambda>m. month_days year m (if m = moff then doff else 0)) [moff..11])"

definition calendar :: "int \<Rightarrow> int \<Rightarrow> int \<Rightarrow> int \<Rightarrow> (int \<times> int \<times> int) list" where
  "calendar lastyear year moff doff = concat (map (\<lambda>y. if y = year then year_days y moff doff
     else year_days y 0 0) [year..lastyear - 1])"

lemma year_days_rec:
  "moff < 12 \<Longrightarrow> year_days year moff doff = month_days year moff doff @ year_days year (moff + 1) 0"
proof -
  have "map (\<lambda>m. month_days year m (if m = moff then doff else 0)) [moff + 1..11]
      = map (\<lambda>m. month_days year m 0) [moff + 1..11]"
    by (rule map_cong) auto
  moreover assume "moff < 12"
  ultimately show ?thesis unfolding year_days_def by (simp add: upto_rec1 [of moff 11] del: map_eq_conv)
qed

lemma calendar_rec:
  "year < lastyear \<Longrightarrow> calendar lastyear year moff doff
   = year_days year moff doff @ calendar lastyear (year + 1) 0 0"
proof -
  have "map (\<lambda>y. if y = year then year_days y moff doff else year_days y 0 0) [year + 1..lastyear - 1]
      = map (\<lambda>y. year_days y 0 0) [year + 1..lastyear - 1]"
    by (rule map_cong) auto
  moreover assume "year < lastyear"
  ultimately show ?thesis unfolding calendar_def by (simp add: upto_rec1 [of year "lastyear - 1"] del: map_eq_conv)
qed

lemma scanMonths_scanList:
  "scanMonths s r secs year month doff acc wday = scanList s r secs (year_days year month doff) acc wday"
proof (induction s r secs year month doff acc wday rule: scanMonths.induct)
  case (1 s r secs year month doff acc wday)
  show ?case
  proof (cases "month < 12")
    case True
    then show ?thesis
      using "1" by (subst scanMonths.simps)
        (auto simp: year_days_rec scanList_append scanDays_scanList month_days_def
          split: option.split sum.split)
  next
    case False
    then show ?thesis by (subst scanMonths.simps) (simp add: year_days_def)
  qed
qed

text \<open>The three nested loops of \<open>EventDelay\<close>, with their offsets into the first year and month, visit
  exactly the days of the calendar from the day after today on, once each and in order: the scan is
  a search of that list, and always ends.\<close>

theorem scanYears_is_calendar_search:
  assumes "moff < 12"
  shows "scanYears s r secs lastyear year moff doff acc wday
    = map_option (\<lambda>x. case x of Inl v \<Rightarrow> Some v | Inr _ \<Rightarrow> None)
        (scanList s r secs (calendar lastyear year moff doff) acc wday)"
  using assms
proof (induction s r secs lastyear year moff doff acc wday rule: scanYears.induct)
  case (1 s r secs lastyear year moff doff acc wday)
  show ?case
  proof (cases "year < lastyear")
    case True
    then show ?thesis
      using "1" by (subst scanYears.simps)
        (auto simp: calendar_rec scanList_append scanMonths_scanList split: option.split sum.split)
  next
    case False
    then show ?thesis by (subst scanYears.simps) (simp add: calendar_def)
  qed
qed

theorem scanYears_is_calendar_search_witness:
  "\<forall>s r secs. scanYears s r secs 2027 2026 11 29 1 4 = map_option (\<lambda>x. case x of Inl v \<Rightarrow> Some v | Inr _ \<Rightarrow> None)
     (scanList s r secs [(2026, 11, 30), (2026, 11, 31)] 1 4)"
  using scanYears_is_calendar_search [of 11 _ _ _ 2027 2026 29 1 4]
  by (simp add: calendar_def year_days_def month_days_def DaysInMonth_def months_def upto.simps)

end
