(* ===== verification/Node.thy ===== *)
theory Node
  imports DataObj
begin

text \<open>
  \<open>src/node.c\<close>: the node tree everything in the system is made of.  A node has a name, a data
  object, a chain of property nodes, a chain of child nodes, a parent and a link (a symlink to
  another node).  Nodes live in a heap: a finite map from addresses to structs; an address is a
  64-bit word because the code stores node pointers in \<open>LONG\<close> data objects and reads them back.
  0 is NULL and never an address of the map.  A dereference of NULL or of a freed node yields
  \<open>None\<close>.

  \<open>unused\<close> is the supply of blocks \<open>malloc\<close> can hand out (empty: \<open>malloc\<close> returns NULL); a freed
  address is not handed out again, so every use after a free shows as \<open>None\<close>.  A \<open>char *\<close> argument
  is the text it points at; a name is never NULL.  The name of a node is a \<open>STRING\<close> data object
  written by \<open>SetStr\<close> only, so it is kept as its text.  The fields \<open>type\<close> and \<open>class\<close> of the struct
  are never written or read.
\<close>

subsection \<open>The struct and the heap\<close>

type_synonym ptr = "64 word"

record node =
  nname :: string
  nvalue :: DataObj
  props :: ptr
  parent :: ptr
  child :: ptr
  nextSib :: ptr
  link :: ptr

record nheap =
  nodes :: "ptr \<Rightarrow> node option"
  unused :: "ptr list"
  nodesAlive :: int
  datasAlive :: int

definition setN :: "ptr \<Rightarrow> (node \<Rightarrow> node) \<Rightarrow> 'a nheap_scheme \<Rightarrow> 'a nheap_scheme option" where
  "setN p f h = (case nodes h p of None \<Rightarrow> None | Some n \<Rightarrow> Some (h\<lparr>nodes := (nodes h)(p \<mapsto> f n)\<rparr>))"

subsection \<open>Creating and deleting\<close>

definition NodeCount :: "'a nheap_scheme \<Rightarrow> int" where
  "NodeCount h = nodesAlive h"

definition NewNode :: "dtype \<Rightarrow> 'a nheap_scheme \<Rightarrow> ptr \<times> 'a nheap_scheme" where
  "NewNode type h = (case unused h of
     [] \<Rightarrow> (0, h)
   | p # ps \<Rightarrow> (let (d1, _) = NewData (datasAlive h) STRING;
                  (d2, v) = NewData d1 type
       in (p, h\<lparr>nodes := (nodes h)(p \<mapsto>
                   \<lparr>nname = [], nvalue = v, props = 0, parent = 0, child = 0, nextSib = 0, link = 0\<rparr>),
                unused := ps, nodesAlive := nodesAlive h + 1, datasAlive := d2\<rparr>)))"

text \<open>The test \<open>node->parent && node->parent->child == node\<close> of \<open>DelNode\<close>, with the assignment it guards.\<close>

definition unparent :: "ptr \<Rightarrow> 'a nheap_scheme \<Rightarrow> 'a nheap_scheme option" where
  "unparent p h = do {
     n \<leftarrow> nodes h p;
     if parent n = 0 then Some h
     else do {
       q \<leftarrow> nodes h (parent n);
       if child q = p then setN p (\<lambda>n. n\<lparr>parent := 0\<rparr>) h else Some h } }"

text \<open>\<open>DelNode\<close> frees the whole sibling chain from a node on, with everything below it.\<close>

partial_function (option) DelNode :: "ptr \<Rightarrow> 'a nheap_scheme \<Rightarrow> 'a nheap_scheme option" where
  "DelNode p h = (if p = 0 then Some h else do {
     n1 \<leftarrow> nodes h p;
     h1 \<leftarrow> DelNode (nextSib n1) h;
     h2 \<leftarrow> setN p (\<lambda>n. n\<lparr>nextSib := 0\<rparr>) h1;
     n2 \<leftarrow> nodes h2 p;
     h3 \<leftarrow> DelNode (props n2) h2;
     h4 \<leftarrow> setN p (\<lambda>n. n\<lparr>props := 0\<rparr>) h3;
     n4 \<leftarrow> nodes h4 p;
     h5 \<leftarrow> DelNode (child n4) h4;
     h6 \<leftarrow> setN p (\<lambda>n. n\<lparr>child := 0\<rparr>) h5;
     h7 \<leftarrow> unparent p h6;
     n7 \<leftarrow> nodes h7 p;
     Some (h7\<lparr>nodes := (nodes h7)(p := None), nodesAlive := nodesAlive h7 - 1,
              datasAlive := DelData (datasAlive h7 - 1) (nvalue n7)\<rparr>) })"

declare DelNode.simps [code]

subsection \<open>Links\<close>

definition LinkNode :: "ptr \<Rightarrow> ptr \<Rightarrow> 'a nheap_scheme \<Rightarrow> 'a nheap_scheme option" where
  "LinkNode p target h = (if p = 0 then Some h else setN p (\<lambda>n. n\<lparr>link := target\<rparr>) h)"

definition GetNodeLink :: "ptr \<Rightarrow> 'a nheap_scheme \<Rightarrow> ptr option" where
  "GetNodeLink p h = (if p = 0 then Some 0 else map_option link (nodes h p))"

fun resolveLoop :: "nat \<Rightarrow> ptr \<Rightarrow> 'a nheap_scheme \<Rightarrow> ptr option" where
  "resolveLoop depth p h = (if p = 0 then Some 0 else do {
     n \<leftarrow> nodes h p;
     if link n = 0 then Some p
     else case depth of 0 \<Rightarrow> Some p | Suc d \<Rightarrow> resolveLoop d (link n) h })"

definition ResolveNode :: "ptr \<Rightarrow> 'a nheap_scheme \<Rightarrow> ptr option" where
  "ResolveNode p h = resolveLoop 8 p h"

declare resolveLoop.simps [simp del]

subsection \<open>Name and value\<close>

definition SetName :: "ptr \<Rightarrow> string \<Rightarrow> 'a nheap_scheme \<Rightarrow> 'a nheap_scheme option" where
  "SetName p name h = (if p = 0 then Some h else setN p (\<lambda>n. n\<lparr>nname := name\<rparr>) h)"

text \<open>\<open>strncmp\<close> up to and with the terminating NUL of the name asked for: equality.\<close>

definition CmpName :: "ptr \<Rightarrow> string \<Rightarrow> 'a nheap_scheme \<Rightarrow> bool option" where
  "CmpName p name h = (if p = 0 then Some False else map_option (\<lambda>n. nname n = name) (nodes h p))"

definition GetNameStr :: "ptr \<Rightarrow> 'a nheap_scheme \<Rightarrow> string option option" where
  "GetNameStr p h = (if p = 0 then Some None else map_option (\<lambda>n. Some (nname n)) (nodes h p))"

text \<open>A read of the data object may cache a conversion in it; a write replaces it.\<close>

definition readValue :: "(DataObj \<Rightarrow> (DataObj \<times> 'v) option) \<Rightarrow> ptr \<Rightarrow> 'a nheap_scheme
    \<Rightarrow> ('v \<times> 'a nheap_scheme) option" where
  "readValue get p h = do {
     n \<leftarrow> nodes h p;
     (v, r) \<leftarrow> get (nvalue n);
     Some (r, h\<lparr>nodes := (nodes h)(p \<mapsto> n\<lparr>nvalue := v\<rparr>)\<rparr>) }"

definition writeValue :: "(DataObj \<Rightarrow> DataObj) \<Rightarrow> ptr \<Rightarrow> 'a nheap_scheme \<Rightarrow> 'a nheap_scheme option" where
  "writeValue put p h = setN p (\<lambda>n. n\<lparr>nvalue := put (nvalue n)\<rparr>) h"

definition SetValueStr :: "ptr \<Rightarrow> string option \<Rightarrow> 'a nheap_scheme \<Rightarrow> 'a nheap_scheme option" where
  "SetValueStr p value h = (if p = 0 \<or> value = None then Some h
     else writeValue (\<lambda>v. fst (SetStr v value)) p h)"

definition SetValueStrLen :: "ptr \<Rightarrow> string option \<Rightarrow> int \<Rightarrow> 'a nheap_scheme
    \<Rightarrow> 'a nheap_scheme option" where
  "SetValueStrLen p value len h = (if p = 0 then Some h else case value of None \<Rightarrow> Some h
     | Some block \<Rightarrow> do {
         n \<leftarrow> nodes h p;
         (v, _) \<leftarrow> SetStrLen (nvalue n) block len;
         setN p (\<lambda>n. n\<lparr>nvalue := v\<rparr>) h })"

definition GetValueLen :: "ptr \<Rightarrow> 'a nheap_scheme \<Rightarrow> (32 word \<times> 'a nheap_scheme) option" where
  "GetValueLen p h = (if p = 0 then Some (0, h) else readValue GetStrLen p h)"

definition SetValueInt :: "ptr \<Rightarrow> 32 word \<Rightarrow> 'a nheap_scheme \<Rightarrow> 'a nheap_scheme option" where
  "SetValueInt p value h = (if p = 0 then Some h else writeValue (\<lambda>v. fst (SetInt v value)) p h)"

definition SetValueLong :: "ptr \<Rightarrow> 64 word \<Rightarrow> 'a nheap_scheme \<Rightarrow> 'a nheap_scheme option" where
  "SetValueLong p value h = (if p = 0 then Some h else writeValue (\<lambda>v. fst (SetLong v value)) p h)"

definition GetValueStr :: "ptr \<Rightarrow> 'a nheap_scheme \<Rightarrow> (string option \<times> 'a nheap_scheme) option" where
  "GetValueStr p h = (if p = 0 then Some (None, h) else readValue GetStr p h)"

definition GetValueInt :: "ptr \<Rightarrow> 'a nheap_scheme \<Rightarrow> (32 word \<times> 'a nheap_scheme) option" where
  "GetValueInt p h = (if p = 0 then Some (0, h) else readValue GetInt p h)"

definition GetValueLong :: "ptr \<Rightarrow> 'a nheap_scheme \<Rightarrow> (64 word \<times> 'a nheap_scheme) option" where
  "GetValueLong p h = (if p = 0 then Some (0, h) else readValue GetLong p h)"

definition GetValueNode :: "ptr \<Rightarrow> 'a nheap_scheme \<Rightarrow> DataObj option" where
  "GetValueNode p h = (if p = 0 then Some None else map_option nvalue (nodes h p))"

definition GetValueType :: "ptr \<Rightarrow> 'a nheap_scheme \<Rightarrow> dtype option" where
  "GetValueType p h = (if p = 0 then Some STRING
     else map_option (\<lambda>n. GetDataType (nvalue n)) (nodes h p))"

subsection \<open>The tree\<close>

definition SetParent :: "ptr \<Rightarrow> ptr \<Rightarrow> 'a nheap_scheme \<Rightarrow> 'a nheap_scheme option" where
  "SetParent par c h = (if par = 0 \<or> c = 0 then Some h else setN c (\<lambda>n. n\<lparr>parent := par\<rparr>) h)"

definition SetChild :: "ptr \<Rightarrow> ptr \<Rightarrow> 'a nheap_scheme \<Rightarrow> 'a nheap_scheme option" where
  "SetChild p c h = (if p = 0 \<or> c = 0 then Some h else do {
     n \<leftarrow> nodes h p;
     h1 \<leftarrow> DelNode (child n) h;
     h2 \<leftarrow> setN p (\<lambda>n. n\<lparr>child := c\<rparr>) h1;
     setN c (\<lambda>n. n\<lparr>parent := p\<rparr>) h2 })"

definition GetChild :: "ptr \<Rightarrow> 'a nheap_scheme \<Rightarrow> ptr option" where
  "GetChild p h = map_option child (nodes h p)"

definition GetParent :: "ptr \<Rightarrow> 'a nheap_scheme \<Rightarrow> ptr option" where
  "GetParent p h = (if p = 0 then Some 0 else map_option parent (nodes h p))"

definition GetNextSibling :: "ptr \<Rightarrow> 'a nheap_scheme \<Rightarrow> ptr option" where
  "GetNextSibling p h = map_option nextSib (nodes h p)"

definition GetNextProp :: "ptr \<Rightarrow> 'a nheap_scheme \<Rightarrow> ptr option" where
  "GetNextProp p h = (if p = 0 then Some 0 else map_option props (nodes h p))"

text \<open>The walk of \<open>DelSibling\<close> and \<open>RemoveProp\<close>: from a node, the one before \<open>target\<close> (0: none).\<close>

partial_function (option) findPrev :: "ptr \<Rightarrow> ptr \<Rightarrow> 'a nheap_scheme \<Rightarrow> ptr option" where
  "findPrev prev target h = (if prev = 0 then Some 0 else do {
     n \<leftarrow> nodes h prev;
     if nextSib n \<noteq> target then findPrev (nextSib n) target h else Some prev })"

declare findPrev.simps [code]

definition DelSibling :: "ptr \<Rightarrow> 'a nheap_scheme \<Rightarrow> 'a nheap_scheme option" where
  "DelSibling sib h = (if sib = 0 then Some h else do {
     s \<leftarrow> nodes h sib;
     let par = parent s;
     if par = 0 then Some h
     else do {
       q \<leftarrow> nodes h par;
       h1 \<leftarrow> (if child q = sib then setN par (\<lambda>n. n\<lparr>child := nextSib s\<rparr>) h
             else do {
               prev \<leftarrow> findPrev (child q) sib h;
               if prev \<noteq> 0 then setN prev (\<lambda>n. n\<lparr>nextSib := nextSib s\<rparr>) h else Some h });
       setN sib (\<lambda>n. n\<lparr>parent := 0, nextSib := 0\<rparr>) h1 } })"

definition AddProp :: "ptr \<Rightarrow> ptr \<Rightarrow> 'a nheap_scheme \<Rightarrow> 'a nheap_scheme option" where
  "AddProp p prop h = (if p = 0 \<or> prop = 0 then Some h else do {
     n \<leftarrow> nodes h p;
     h1 \<leftarrow> setN p (\<lambda>n. n\<lparr>props := prop\<rparr>) h;
     if props n \<noteq> 0 then setN prop (\<lambda>q. q\<lparr>nextSib := props n\<rparr>) h1 else Some h1 })"

definition RemoveProp :: "ptr \<Rightarrow> ptr \<Rightarrow> 'a nheap_scheme \<Rightarrow> 'a nheap_scheme option" where
  "RemoveProp own prop h = (if own = 0 \<or> prop = 0 then Some h else do {
     n \<leftarrow> nodes h own;
     h1 \<leftarrow> (if props n = prop
           then do { q \<leftarrow> nodes h prop; setN own (\<lambda>n. n\<lparr>props := nextSib q\<rparr>) h }
           else do {
             current \<leftarrow> findPrev (props n) prop h;
             if current \<noteq> 0
             then do { q \<leftarrow> nodes h prop; setN current (\<lambda>n. n\<lparr>nextSib := nextSib q\<rparr>) h }
             else Some h });
     setN prop (\<lambda>n. n\<lparr>nextSib := 0\<rparr>) h1 })"

definition AddSibling :: "ptr \<Rightarrow> ptr \<Rightarrow> 'a nheap_scheme \<Rightarrow> 'a nheap_scheme option" where
  "AddSibling p sib h = (if p = 0 \<or> sib = 0 then Some h else do {
     n \<leftarrow> nodes h p;
     h1 \<leftarrow> setN p (\<lambda>n. n\<lparr>nextSib := sib\<rparr>) h;
     setN sib (\<lambda>q. q\<lparr>nextSib := nextSib n\<rparr>) h1 })"

definition AddChild :: "ptr \<Rightarrow> ptr \<Rightarrow> 'a nheap_scheme \<Rightarrow> 'a nheap_scheme option" where
  "AddChild par c h = (if par = 0 \<or> c = 0 then Some h else do {
     n \<leftarrow> nodes h par;
     h1 \<leftarrow> (if child n \<noteq> 0 then AddSibling (child n) c h else setN par (\<lambda>n. n\<lparr>child := c\<rparr>) h);
     setN c (\<lambda>q. q\<lparr>parent := par\<rparr>) h1 })"

partial_function (option) lastSib :: "ptr \<Rightarrow> 'a nheap_scheme \<Rightarrow> ptr option" where
  "lastSib p h = do {
     n \<leftarrow> nodes h p;
     if nextSib n \<noteq> 0 then lastSib (nextSib n) h else Some p }"

declare lastSib.simps [code]

definition AppendChild :: "ptr \<Rightarrow> ptr \<Rightarrow> 'a nheap_scheme \<Rightarrow> 'a nheap_scheme option" where
  "AppendChild par c h = (if par = 0 \<or> c = 0 then Some h else do {
     n \<leftarrow> nodes h par;
     h1 \<leftarrow> (if child n = 0 then setN par (\<lambda>n. n\<lparr>child := c\<rparr>) h
           else do { last \<leftarrow> lastSib (child n) h; setN last (\<lambda>q. q\<lparr>nextSib := c\<rparr>) h });
     setN c (\<lambda>q. q\<lparr>parent := par\<rparr>) h1 })"

subsection \<open>Properties\<close>

partial_function (option) findNamed :: "ptr \<Rightarrow> string \<Rightarrow> 'a nheap_scheme \<Rightarrow> ptr option" where
  "findNamed current name h = (if current = 0 then Some 0 else do {
     same \<leftarrow> CmpName current name h;
     if same then Some current
     else do { nxt \<leftarrow> GetNextSibling current h; findNamed nxt name h } })"

declare findNamed.simps [code]

definition GetPropNode :: "ptr \<Rightarrow> string \<Rightarrow> 'a nheap_scheme \<Rightarrow> ptr option" where
  "GetPropNode p name h = (if p = 0 then Some 0 else do {
     n \<leftarrow> nodes h p;
     findNamed (props n) name h })"

definition GetPropLong :: "ptr \<Rightarrow> string \<Rightarrow> 'a nheap_scheme \<Rightarrow> (64 word \<times> 'a nheap_scheme) option" where
  "GetPropLong p name h = do {
     current \<leftarrow> GetPropNode p name h;
     if current \<noteq> 0 then GetValueLong current h else Some (0, h) }"

definition GetPropInt :: "ptr \<Rightarrow> string \<Rightarrow> 'a nheap_scheme \<Rightarrow> (32 word \<times> 'a nheap_scheme) option" where
  "GetPropInt p name h = do {
     current \<leftarrow> GetPropNode p name h;
     if current \<noteq> 0 then GetValueInt current h else Some (0, h) }"

definition GetPropStr :: "ptr \<Rightarrow> string \<Rightarrow> 'a nheap_scheme \<Rightarrow> (string option \<times> 'a nheap_scheme) option" where
  "GetPropStr p name h = do {
     current \<leftarrow> GetPropNode p name h;
     if current \<noteq> 0 then GetValueStr current h else Some (None, h) }"

text \<open>The end of every property setter: a new property node of a type with a name and a value.\<close>

definition newProp :: "ptr \<Rightarrow> string \<Rightarrow> dtype \<Rightarrow> (DataObj \<Rightarrow> DataObj) \<Rightarrow> 'a nheap_scheme
    \<Rightarrow> 'a nheap_scheme option" where
  "newProp p name type put h = do {
     let (propnode, h1) = NewNode type h;
     h2 \<leftarrow> setN propnode (\<lambda>n. n\<lparr>nname := name\<rparr>) h1;
     h3 \<leftarrow> writeValue put propnode h2;
     AddProp p propnode h3 }"

definition setPropPrivate :: "ptr \<Rightarrow> string \<Rightarrow> dtype \<Rightarrow> (DataObj \<Rightarrow> DataObj) \<Rightarrow> 'a nheap_scheme
    \<Rightarrow> 'a nheap_scheme option" where
  "setPropPrivate p name type put h = (if p = 0 then Some h else do {
     propnode \<leftarrow> GetPropNode p name h;
     if propnode \<noteq> 0 then writeValue put propnode h else newProp p name type put h })"

definition SetPropLongPrivate :: "ptr \<Rightarrow> string \<Rightarrow> 64 word \<Rightarrow> 'a nheap_scheme \<Rightarrow> 'a nheap_scheme option" where
  "SetPropLongPrivate p name value = setPropPrivate p name LONG (\<lambda>v. fst (SetLong v value))"

definition SetPropIntPrivate :: "ptr \<Rightarrow> string \<Rightarrow> 32 word \<Rightarrow> 'a nheap_scheme \<Rightarrow> 'a nheap_scheme option" where
  "SetPropIntPrivate p name value = setPropPrivate p name INTEGER (\<lambda>v. fst (SetInt v value))"

definition SetPropStrPrivate :: "ptr \<Rightarrow> string \<Rightarrow> string option \<Rightarrow> 'a nheap_scheme
    \<Rightarrow> 'a nheap_scheme option" where
  "SetPropStrPrivate p name value = setPropPrivate p name STRING (\<lambda>v. fst (SetStr v value))"

end
