(* ===== verification/Node_Lists.thy ===== *)
theory Node_Lists
  imports Node
begin

text \<open>
  Proofs on \<open>Node\<close>: the sibling chains as lists, whole subtrees as trees, and what each operation
  of the tree does to them.
\<close>

subsection \<open>Single steps\<close>

lemma setN_Some [simp]: "nodes h p = Some n \<Longrightarrow> setN p f h = Some (h\<lparr>nodes := (nodes h)(p \<mapsto> f n)\<rparr>)"
  by (simp add: setN_def)

lemma setN_eq_Some: "setN p f h = Some h' \<longleftrightarrow> (\<exists>n. nodes h p = Some n \<and> h' = h\<lparr>nodes := (nodes h)(p \<mapsto> f n)\<rparr>)"
  by (auto simp: setN_def split: option.splits)

lemma DelNode_0 [simp]: "DelNode 0 h = Some h"
  by (subst DelNode.simps) simp

subsection \<open>Trees in the heap\<close>

datatype tree = Tree (root: ptr) (label: string) (content: DataObj) (tprops: "tree list") (tchildren: "tree list")

fun forest :: "(ptr \<Rightarrow> node option) \<Rightarrow> ptr \<Rightarrow> ptr \<Rightarrow> tree list \<Rightarrow> bool" where
  "forest m p par [] \<longleftrightarrow> p = 0"
| "forest m p par (Tree a nm v ps cs # ts) \<longleftrightarrow> p = a \<and> a \<noteq> 0
     \<and> (\<exists>n. m a = Some n \<and> nname n = nm \<and> nvalue n = v \<and> parent n = par
          \<and> forest m (props n) 0 ps \<and> forest m (child n) a cs \<and> forest m (nextSib n) par ts)"

fun addrs :: "tree list \<Rightarrow> ptr list" where
  "addrs [] = []"
| "addrs (Tree a nm v ps cs # ts) = a # addrs ps @ addrs cs @ addrs ts"

fun datas :: "tree list \<Rightarrow> int" where
  "datas [] = 0"
| "datas (Tree a nm v ps cs # ts) = (if v = None then 1 else 2) + datas ps + datas cs + datas ts"

lemma forest_frame:
  "forest m p par ts \<Longrightarrow> (\<And>a. a \<in> set (addrs ts) \<Longrightarrow> m' a = m a) \<Longrightarrow> forest m' p par ts"
proof (induction m p par ts rule: forest.induct)
  case (2 m p par a nm v ps cs ts)
  from "2.prems"(1) obtain n where n: "p = a" "a \<noteq> 0" "m a = Some n" "nname n = nm" "nvalue n = v"
    "parent n = par" "forest m (props n) 0 ps" "forest m (child n) a cs" "forest m (nextSib n) par ts"
    by auto
  have "m' a = Some n" using "2.prems"(2) [of a] n by simp
  moreover have "forest m' (props n) 0 ps" "forest m' (child n) a cs" "forest m' (nextSib n) par ts"
    using n "2.IH" "2.prems"(2) by simp_all
  ultimately show ?case using n by simp
qed simp

lemma forest_alive: "forest m p par ts \<Longrightarrow> a \<in> set (addrs ts) \<Longrightarrow> a \<noteq> 0 \<and> m a \<noteq> None"
  by (induction m p par ts rule: forest.induct) auto

lemma DelData_sub: "DelData (d - 1) v = d - (if v = None then 1 else 2)"
  by (simp add: DelData_def split: option.split)

definition freed :: "tree list \<Rightarrow> 'a nheap_scheme \<Rightarrow> 'a nheap_scheme" where
  "freed ts h = h\<lparr>nodes := nodes h |` (- set (addrs ts)),
     nodesAlive := nodesAlive h - int (length (addrs ts)), datasAlive := datasAlive h - datas ts\<rparr>"

lemma freed_sel [simp]:
  "nodes (freed ts h) = nodes h |` (- set (addrs ts))"
  "nodesAlive (freed ts h) = nodesAlive h - int (length (addrs ts))"
  "datasAlive (freed ts h) = datasAlive h - datas ts"
  "unused (freed ts h) = unused h" "nheap.more (freed ts h) = nheap.more h"
  by (simp_all add: freed_def)

lemma DelNode_frees:
  assumes "forest (nodes h) p par ts" and "distinct (addrs ts)"
    and "par = 0 \<or> par \<notin> set (addrs ts) \<and> nodes h par \<noteq> None"
  shows "DelNode p h = Some (freed ts h)"
  using assms
proof (induction ts arbitrary: h p par rule: addrs.induct)
  case 1
  then show ?case by (simp add: freed_def restrict_map_def)
next
  case (2 a nm v ps cs ts)
  from "2.prems" obtain n where n: "p = a" "a \<noteq> 0" "nodes h a = Some n" "nname n = nm" "nvalue n = v"
    "parent n = par" and f: "forest (nodes h) (props n) 0 ps" "forest (nodes h) (child n) a cs"
    "forest (nodes h) (nextSib n) par ts"
    by auto
  from "2.prems"(2) have d: "distinct (addrs ps)" "distinct (addrs cs)" "distinct (addrs ts)"
    "a \<notin> set (addrs ps)" "a \<notin> set (addrs cs)" "a \<notin> set (addrs ts)"
    "set (addrs ps) \<inter> set (addrs cs) = {}" "set (addrs ps) \<inter> set (addrs ts) = {}"
    "set (addrs cs) \<inter> set (addrs ts) = {}"
    by auto
  define h1 where "h1 = freed ts h"
  define h2 where "h2 = h1\<lparr>nodes := (nodes h1)(a \<mapsto> n\<lparr>nextSib := 0\<rparr>)\<rparr>"
  define h3 where "h3 = freed ps h2"
  define h4 where "h4 = h3\<lparr>nodes := (nodes h3)(a \<mapsto> n\<lparr>nextSib := 0, props := 0\<rparr>)\<rparr>"
  define h5 where "h5 = freed cs h4"
  define n6 where "n6 = n\<lparr>nextSib := 0, props := 0, child := 0\<rparr>"
  define h6 where "h6 = h5\<lparr>nodes := (nodes h5)(a \<mapsto> n6)\<rparr>"
  note hs = h1_def h2_def h3_def h4_def h5_def h6_def n6_def
  have s1: "DelNode (nextSib n) h = Some h1"
    using "2.IH"(3) [OF f(3) d(3)] "2.prems"(3) by (auto simp: h1_def)
  have a1: "setN a (\<lambda>n. n\<lparr>nextSib := 0\<rparr>) h1 = Some h2"
    using n d by (simp add: h1_def h2_def)
  have "DelNode (props n) h2 = Some (freed ps h2)"
    by (rule "2.IH"(1) [OF forest_frame [OF f(1)] d(1)])
      (use d in \<open>auto simp: h1_def h2_def restrict_map_def disjoint_iff\<close>)
  then have s2: "nodes h2 a = Some (n\<lparr>nextSib := 0\<rparr>)" "DelNode (props n) h2 = Some h3"
    by (simp_all add: h2_def h3_def)
  have a3: "setN a (\<lambda>n. n\<lparr>props := 0\<rparr>) h3 = Some h4"
    using d by (simp add: h2_def h3_def h4_def)
  have "DelNode (child n) h4 = Some (freed cs h4)"
    by (rule "2.IH"(2) [OF forest_frame [OF f(2)] d(2)])
      (use d in \<open>auto simp: h1_def h2_def h3_def h4_def restrict_map_def disjoint_iff\<close>)
  then have s3: "nodes h4 a = Some (n\<lparr>nextSib := 0, props := 0\<rparr>)"
    "DelNode (child n) h4 = Some h5"
    by (simp_all add: h4_def h5_def)
  have a5: "setN a (\<lambda>n. n\<lparr>child := 0\<rparr>) h5 = Some h6" "nodes h6 a = Some n6" "parent n6 = par"
    using d n by (simp_all add: h4_def h5_def h6_def n6_def)
  obtain n7 where s7: "unparent p h6 = Some (h6\<lparr>nodes := (nodes h6)(a \<mapsto> n7)\<rparr>)"
    and v7: "nvalue n7 = v"
  proof (cases "par = 0")
    case True
    then show ?thesis using that [of n6] n a5 by (simp add: h6_def n6_def unparent_def)
  next
    case False
    with "2.prems"(3) have "par \<noteq> a" "nodes h6 par = nodes h par" "nodes h par \<noteq> None"
      by (auto simp: hs)
    then obtain q where q: "nodes h6 par = Some q" by auto
    show ?thesis
      using that [of "n6\<lparr>parent := 0\<rparr>"] that [of n6] n q False a5(2)
      by (cases "child q = a") (simp_all add: n6_def h6_def unparent_def)
  qed
  have "nodes h6 |` (- {a}) = nodes h |` (- set (addrs (Tree a nm v ps cs # ts)))"
    by (auto simp: hs restrict_map_def)
  then have "(nodes h6)(a := None) = nodes h |` (- set (addrs (Tree a nm v ps cs # ts)))"
    by (metis restrict_complement_singleton_eq)
  then have fin: "h6\<lparr>nodes := (nodes h6)(a := None), nodesAlive := nodesAlive h6 - 1,
       datasAlive := DelData (datasAlive h6 - 1) v\<rparr> = freed (Tree a nm v ps cs # ts) h"
    by (simp add: freed_def DelData_sub) (simp add: hs)
  show ?case
    by (subst DelNode.simps) (simp add: n s1 a1 s2 a3 s3 a5 s7 [unfolded n(1)] v7 fin del: freed_sel)
qed

subsection \<open>Sibling chains as lists\<close>

fun path :: "(ptr \<Rightarrow> node option) \<Rightarrow> ptr \<Rightarrow> ptr list \<Rightarrow> ptr \<Rightarrow> bool" where
  "path m p [] q \<longleftrightarrow> p = q"
| "path m p (a # as) q \<longleftrightarrow> p = a \<and> a \<noteq> 0 \<and> (\<exists>n. m a = Some n \<and> path m (nextSib n) as q)"

lemma path_append: "path m p (xs @ ys) q \<longleftrightarrow> (\<exists>r. path m p xs r \<and> path m r ys q)"
  by (induction xs arbitrary: p) auto

lemma path_snoc: "path m p (xs @ [a]) q \<longleftrightarrow> path m p xs a \<and> a \<noteq> 0 \<and> (\<exists>n. m a = Some n \<and> nextSib n = q)"
  by (auto simp: path_append)

lemma path_frame:
  "path m p xs q \<Longrightarrow> (\<And>a. a \<in> set xs \<Longrightarrow> map_option nextSib (m' a) = map_option nextSib (m a)) \<Longrightarrow> path m' p xs q"
proof (induction xs arbitrary: p)
  case (Cons a xs)
  then obtain n where n: "p = a" "a \<noteq> 0" "m a = Some n" "path m (nextSib n) xs q" by auto
  from Cons.prems(2) [of a] n(3) obtain n' where "m' a = Some n'" "nextSib n' = nextSib n" by auto
  with n Cons.IH [of "nextSib n"] Cons.prems(2) show ?case by auto
qed simp

lemma path_upd [simp]: "a \<notin> set xs \<Longrightarrow> path (m(a := x)) p xs q \<longleftrightarrow> path m p xs q"
  by (induction xs arbitrary: p) auto

lemma path_upd_same: "m a = Some n \<Longrightarrow> nextSib n' = nextSib n \<Longrightarrow> path (m(a \<mapsto> n')) p xs q \<longleftrightarrow> path m p xs q"
  by (induction xs arbitrary: p) auto

lemma path_alive: "path m p xs q \<Longrightarrow> a \<in> set xs \<Longrightarrow> a \<noteq> 0 \<and> m a \<noteq> None"
  by (induction xs arbitrary: p) auto

lemma path_0_nil: "path m 0 xs q \<Longrightarrow> xs = []"
  by (cases xs) auto

lemma path_det: "path m p xs 0 \<Longrightarrow> path m p ys 0 \<Longrightarrow> xs = ys"
proof (induction xs arbitrary: p ys)
  case Nil
  then show ?case by (cases ys) auto
next
  case (Cons a xs)
  then show ?case by (cases ys) auto
qed

lemma path_distinct: "path m p xs 0 \<Longrightarrow> distinct xs"
proof (induction xs arbitrary: p)
  case (Cons a xs)
  then obtain n where n: "p = a" "m a = Some n" "path m (nextSib n) xs 0" by auto
  have "a \<notin> set xs"
  proof
    assume "a \<in> set xs"
    then obtain ys zs where xs: "xs = ys @ a # zs" by (metis split_list)
    with n have "path m a (a # zs) 0" by (auto simp: path_append)
    with Cons.prems n(1) have "a # zs = a # xs" by (metis path_det)
    with xs show False by simp
  qed
  with Cons.IH n show ?case by simp
qed simp

lemma forest_path: "forest m p par ts \<Longrightarrow> path m p (map root ts) 0"
  by (induction m p par ts rule: forest.induct) auto

text \<open>The walks.\<close>

lemma findPrev_found:
  "path (nodes h) p (xs @ b # t # ys) 0 \<Longrightarrow> findPrev p t h = Some b"
proof (induction xs arbitrary: p)
  case Nil
  then show ?case by (subst findPrev.simps) auto
next
  case (Cons a xs)
  then obtain n where n: "p = a" "a \<noteq> 0" "nodes h a = Some n" "path (nodes h) (nextSib n) (xs @ b # t # ys) 0"
    by auto
  have "nextSib n \<noteq> t"
  proof
    assume "nextSib n = t"
    with n(4) have "path (nodes h) t (xs @ b # t # ys) 0" by simp
    then have "hd (xs @ [b]) = t" by (cases xs) auto
    moreover have "distinct (xs @ b # t # ys)" by (rule path_distinct [OF n(4)])
    ultimately show False by (cases xs) auto
  qed
  with n Cons.IH show ?case by (subst findPrev.simps) simp
qed

lemma findPrev_absent:
  "path (nodes h) p xs 0 \<Longrightarrow> t \<notin> set xs \<Longrightarrow> t \<noteq> 0 \<Longrightarrow> findPrev p t h = Some 0"
proof (induction xs arbitrary: p)
  case Nil
  then show ?case by (subst findPrev.simps) simp
next
  case (Cons a xs)
  then obtain n where n: "p = a" "a \<noteq> 0" "nodes h a = Some n" "path (nodes h) (nextSib n) xs 0" by auto
  then have "nextSib n \<noteq> t" using Cons.prems by (cases xs) auto
  with n Cons show ?case by (subst findPrev.simps) simp
qed

lemma lastSib_path: "path (nodes h) p (xs @ [b]) 0 \<Longrightarrow> lastSib p h = Some b"
proof (induction xs arbitrary: p)
  case Nil
  then show ?case by (subst lastSib.simps) auto
next
  case (Cons a xs)
  then obtain n where n: "p = a" "nodes h a = Some n" "path (nodes h) (nextSib n) (xs @ [b]) 0" by auto
  then have "nextSib n \<noteq> 0" using path_0_nil by fastforce
  with n Cons.IH show ?case by (subst lastSib.simps) simp
qed

lemma findNamed_path:
  "path (nodes h) p xs 0 \<Longrightarrow> findNamed p name h
     = Some (case filter (\<lambda>a. map_option nname (nodes h a) = Some name) xs of [] \<Rightarrow> 0 | a # _ \<Rightarrow> a)"
proof (induction xs arbitrary: p)
  case Nil
  then show ?case by (subst findNamed.simps) simp
next
  case (Cons a xs)
  then obtain n where n: "p = a" "a \<noteq> 0" "nodes h a = Some n" "path (nodes h) (nextSib n) xs 0" by auto
  with Cons.IH show ?case
    by (subst findNamed.simps) (simp add: CmpName_def GetNextSibling_def)
qed

subsection \<open>Children and properties\<close>

definition children :: "'a nheap_scheme \<Rightarrow> ptr \<Rightarrow> ptr list \<Rightarrow> bool" where
  "children h p cs \<longleftrightarrow> p \<noteq> 0 \<and> p \<notin> set cs \<and> (\<exists>n. nodes h p = Some n \<and> path (nodes h) (child n) cs 0)
     \<and> (\<forall>c \<in> set cs. map_option parent (nodes h c) = Some p)"

definition proplist :: "'a nheap_scheme \<Rightarrow> ptr \<Rightarrow> ptr list \<Rightarrow> bool" where
  "proplist h p ps \<longleftrightarrow> p \<noteq> 0 \<and> p \<notin> set ps \<and> (\<exists>n. nodes h p = Some n \<and> path (nodes h) (props n) ps 0)"

definition detached :: "'a nheap_scheme \<Rightarrow> ptr \<Rightarrow> bool" where
  "detached h c \<longleftrightarrow> c \<noteq> 0 \<and> (\<exists>n. nodes h c = Some n \<and> nextSib n = 0 \<and> parent n = 0)"

text \<open>What the tree operations never change, besides every node outside \<open>S\<close>: which nodes are alive, their names, values and links,
  the supply of blocks and the counters.\<close>

definition payload :: "node \<Rightarrow> string \<times> DataObj \<times> ptr" where
  "payload n = (nname n, nvalue n, link n)"

definition relinked :: "ptr set \<Rightarrow> 'a nheap_scheme \<Rightarrow> 'a nheap_scheme \<Rightarrow> bool" where
  "relinked S h h' \<longleftrightarrow> (\<forall>a. a \<notin> S \<longrightarrow> nodes h' a = nodes h a) \<and> (\<forall>a. map_option payload (nodes h' a) = map_option payload (nodes h a))
     \<and> unused h' = unused h \<and> nodesAlive h' = nodesAlive h \<and> datasAlive h' = datasAlive h
     \<and> nheap.more h' = nheap.more h"

lemma relinked_refl [simp]: "relinked S h h"
  by (simp add: relinked_def)

lemma relinkedD:
  assumes "relinked S h h'"
  shows "a \<notin> S \<Longrightarrow> nodes h' a = nodes h a" and "map_option payload (nodes h' a) = map_option payload (nodes h a)"
    and "unused h' = unused h" and "nodesAlive h' = nodesAlive h" and "datasAlive h' = datasAlive h"
    and "nheap.more h' = nheap.more h"
  using assms by (auto simp: relinked_def)

lemma relinked_trans: "relinked S h h1 \<Longrightarrow> relinked T h1 h2 \<Longrightarrow> relinked (S \<union> T) h h2"
  by (simp add: relinked_def)

lemma unlink_path:
  assumes "path m p (xs @ b # s # ys) 0" and "m b = Some n" and "m s = Some k"
  shows "path (m(b \<mapsto> n\<lparr>nextSib := nextSib k\<rparr>)) p (xs @ b # ys) 0"
proof -
  have d: "distinct (xs @ b # s # ys)" by (rule path_distinct [OF assms(1)])
  from assms have "path m p xs b" "b \<noteq> 0" "path m (nextSib k) ys 0" by (auto simp: path_append)
  with d show ?thesis by (auto simp: path_append)
qed

lemma splice_path:
  assumes "path m p (xs @ b # ys) 0" and "m b = Some n" and "c \<noteq> 0" and "c \<notin> set (xs @ b # ys)"
  shows "path (m(b \<mapsto> n\<lparr>nextSib := c\<rparr>, c \<mapsto> k\<lparr>nextSib := nextSib n\<rparr>)) p (xs @ b # c # ys) 0"
proof -
  have d: "distinct (xs @ b # ys)" by (rule path_distinct [OF assms(1)])
  from assms have "path m p xs b" "b \<noteq> 0" "path m (nextSib n) ys 0" by (auto simp: path_append)
  with d assms(3,4) show ?thesis by (auto simp: path_append)
qed

lemma AddChild_children:
  assumes "children h p cs" and "detached h c" and "c \<noteq> p" and "c \<notin> set cs"
  shows "\<exists>h'. AddChild p c h = Some h' \<and> relinked (insert p (insert c (set cs))) h h'
    \<and> children h' p (case cs of [] \<Rightarrow> [c] | x # r \<Rightarrow> x # c # r)"
proof (cases cs)
  case Nil
  with assms show ?thesis
    unfolding AddChild_def
    by (auto simp: children_def detached_def relinked_def payload_def)
next
  case (Cons x r)
  from assms(1) Cons obtain n where n: "p \<noteq> 0" "p \<noteq> x" "p \<notin> set r" "nodes h p = Some n" "child n = x" "x \<noteq> 0"
    "path (nodes h) x (x # r) 0" "\<forall>c \<in> set (x # r). map_option parent (nodes h c) = Some p"
    by (auto simp: children_def)
  from assms(2) obtain k where k: "c \<noteq> 0" "nodes h c = Some k" by (auto simp: detached_def)
  from n(7) obtain xn where xn: "nodes h x = Some xn" by auto
  have ne: "c \<noteq> x" "c \<notin> set r" using assms(4) Cons by auto
  let ?m = "(nodes h)(x \<mapsto> xn\<lparr>nextSib := c\<rparr>, c \<mapsto> k\<lparr>nextSib := nextSib xn\<rparr>)"
  let ?m' = "?m(c \<mapsto> k\<lparr>nextSib := nextSib xn, parent := p\<rparr>)"
  have "path ?m x (x # c # r) 0"
    using splice_path [of "nodes h" x "[]" x r xn c k] n(7) xn k ne by simp
  then have "path ?m' x (x # c # r) 0" by (rule path_frame) (use xn ne in auto)
  then show ?thesis
    using n k xn ne assms(3) Cons unfolding AddChild_def AddSibling_def children_def
    by (auto simp: relinked_def payload_def)
qed

lemma AppendChild_children:
  assumes "children h p cs" and "detached h c" and "c \<noteq> p" and "c \<notin> set cs"
  shows "\<exists>h'. AppendChild p c h = Some h' \<and> relinked (insert p (insert c (set cs))) h h' \<and> children h' p (cs @ [c])"
proof (cases cs rule: rev_cases)
  case Nil
  with assms show ?thesis
    unfolding AppendChild_def
    by (auto simp: children_def detached_def relinked_def payload_def)
next
  case (snoc r b)
  from assms(1) obtain n where n: "p \<noteq> 0" "p \<notin> set cs" "nodes h p = Some n"
    "path (nodes h) (child n) (r @ [b]) 0" "\<forall>c \<in> set cs. map_option parent (nodes h c) = Some p"
    using snoc by (auto simp: children_def)
  from assms(2) obtain k where k: "c \<noteq> 0" "nodes h c = Some k" "nextSib k = 0" by (auto simp: detached_def)
  from n(4) obtain bn where bn: "nodes h b = Some bn" "nextSib bn = 0" "b \<noteq> 0" by (auto simp: path_append)
  have ne: "c \<noteq> b" "c \<notin> set r" using assms(4) snoc by auto
  have c0: "child n \<noteq> 0" using n(4) by (cases r) auto
  let ?m = "(nodes h)(b \<mapsto> bn\<lparr>nextSib := c\<rparr>, c \<mapsto> k\<lparr>parent := p\<rparr>)"
  have "path ((nodes h)(b \<mapsto> bn\<lparr>nextSib := c\<rparr>, c \<mapsto> k\<lparr>nextSib := nextSib bn\<rparr>)) (child n) (r @ [b, c]) 0"
    using splice_path [of "nodes h" "child n" r b "[]" bn c k] n(4) bn k ne by simp
  then have "path ?m (child n) (r @ [b, c]) 0"
    by (rule path_frame) (use bn k in auto)
  then show ?thesis
    using n k bn ne assms(3) snoc c0 lastSib_path [OF n(4)] unfolding AppendChild_def children_def
    by (auto simp: relinked_def payload_def)
qed


lemma DelSibling_children:
  assumes "children h p cs" and "c \<in> set cs"
  shows "\<exists>h'. DelSibling c h = Some h' \<and> relinked (insert p (set cs)) h h' \<and> children h' p (remove1 c cs) \<and> detached h' c"
proof -
  from assms(1) obtain n where n: "p \<noteq> 0" "p \<notin> set cs" "nodes h p = Some n"
    "path (nodes h) (child n) cs 0" "\<forall>c \<in> set cs. map_option parent (nodes h c) = Some p"
    by (auto simp: children_def)
  have d: "distinct cs" by (rule path_distinct [OF n(4)])
  from assms(2) n(5) obtain k where k: "nodes h c = Some k" "parent k = p" by fastforce
  from assms(2) n(2,4) have c: "c \<noteq> 0" "c \<noteq> p" by (auto dest: path_alive)
  from assms(2) obtain xs ys where cs: "cs = xs @ c # ys" by (metis split_list)
  with d have r: "remove1 c cs = xs @ ys" "c \<notin> set xs" "c \<notin> set ys" by (auto simp: remove1_append)
  show ?thesis
  proof (cases xs rule: rev_cases)
    case Nil
    with n k c cs r show ?thesis
      unfolding DelSibling_def children_def detached_def
      by (auto simp: relinked_def payload_def)
  next
    case (snoc zs b)
    with cs d have ne: "b \<noteq> c" "b \<notin> set zs" "b \<notin> set ys" by auto
    from n(4) cs snoc obtain bn where bn: "nodes h b = Some bn" "b \<noteq> 0" "nextSib bn = c" by (auto simp: path_append)
    have hd: "child n \<noteq> c" using n(4) cs snoc ne r(2) by (cases zs) auto
    have pr: "findPrev (child n) c h = Some b" by (rule findPrev_found) (use n(4) cs snoc in simp)
    have "path ((nodes h)(b \<mapsto> bn\<lparr>nextSib := nextSib k\<rparr>)) (child n) (zs @ b # ys) 0"
      by (rule unlink_path) (use n(4) cs snoc bn k in auto)
    then have "path ((nodes h)(b \<mapsto> bn\<lparr>nextSib := nextSib k\<rparr>, c \<mapsto> k\<lparr>parent := 0, nextSib := 0\<rparr>)) (child n) (zs @ b # ys) 0"
      using r ne snoc by simp
    with n k c cs r snoc ne bn hd pr show ?thesis
      unfolding DelSibling_def children_def detached_def
      by (auto simp: relinked_def payload_def)
  qed
qed

lemma AddProp_proplist:
  assumes "proplist h p ps" and "detached h q" and "q \<noteq> p" and "q \<notin> set ps"
  shows "\<exists>h'. AddProp p q h = Some h' \<and> relinked {p, q} h h' \<and> proplist h' p (q # ps)
    \<and> (\<exists>s. nodes h' q = map_option (\<lambda>k. k\<lparr>nextSib := s\<rparr>) (nodes h q))
    \<and> (\<exists>s. nodes h' p = map_option (\<lambda>k. k\<lparr>props := s\<rparr>) (nodes h p))"
proof -
  from assms obtain n k where n: "p \<noteq> 0" "p \<notin> set ps" "nodes h p = Some n" "path (nodes h) (props n) ps 0"
    "q \<noteq> 0" "nodes h q = Some k" "nextSib k = 0"
    by (auto simp: proplist_def detached_def)
  with assms(3,4) show ?thesis
    unfolding AddProp_def proplist_def
    by (cases "props n = 0") (auto simp: relinked_def payload_def dest: path_0_nil
      intro: exI [of _ "0 :: ptr"] exI [of _ "props n"] exI [of _ q])
qed

lemma RemoveProp_proplist:
  assumes "proplist h p ps" and "q \<in> set ps"
  shows "\<exists>h'. RemoveProp p q h = Some h' \<and> relinked (insert p (set ps)) h h' \<and> proplist h' p (remove1 q ps)
    \<and> map_option nextSib (nodes h' q) = Some 0"
proof -
  from assms(1) obtain n where n: "p \<noteq> 0" "p \<notin> set ps" "nodes h p = Some n" "path (nodes h) (props n) ps 0"
    by (auto simp: proplist_def)
  have d: "distinct ps" by (rule path_distinct [OF n(4)])
  from assms(2) n(2,4) obtain k where k: "nodes h q = Some k" "q \<noteq> 0" "q \<noteq> p" by (auto dest: path_alive)
  from assms(2) obtain xs ys where ps: "ps = xs @ q # ys" by (metis split_list)
  with d have r: "remove1 q ps = xs @ ys" "q \<notin> set xs" "q \<notin> set ys" by (auto simp: remove1_append)
  show ?thesis
  proof (cases xs rule: rev_cases)
    case Nil
    with n k ps r show ?thesis
      unfolding RemoveProp_def proplist_def by (auto simp: relinked_def payload_def)
  next
    case (snoc zs b)
    with ps d have ne: "b \<noteq> q" "b \<notin> set zs" "b \<notin> set ys" by auto
    from n(4) ps snoc obtain bn where bn: "nodes h b = Some bn" "b \<noteq> 0" by (auto simp: path_append)
    have hd: "props n \<noteq> q" using n(4) ps snoc ne r(2) by (cases zs) auto
    have pr: "findPrev (props n) q h = Some b" by (rule findPrev_found) (use n(4) ps snoc in simp)
    have "path ((nodes h)(b \<mapsto> bn\<lparr>nextSib := nextSib k\<rparr>)) (props n) (zs @ b # ys) 0"
      by (rule unlink_path) (use n(4) ps snoc bn k in auto)
    then have "path ((nodes h)(b \<mapsto> bn\<lparr>nextSib := nextSib k\<rparr>, q \<mapsto> k\<lparr>nextSib := 0\<rparr>)) (props n) (zs @ b # ys) 0"
      using r ne snoc by simp
    with n k ps r snoc ne bn hd pr show ?thesis
      unfolding RemoveProp_def proplist_def by (auto simp: relinked_def payload_def)
  qed
qed

subsection \<open>Properties as a map\<close>

definition heap_ok :: "'a nheap_scheme \<Rightarrow> bool" where
  "heap_ok h \<longleftrightarrow> nodes h 0 = None \<and> distinct (unused h) \<and> (\<forall>a \<in> set (unused h). a \<noteq> 0 \<and> nodes h a = None)"

lemma NewNode_ok:
  assumes "heap_ok h" and "unused h = a # r" and "NewNode type h = (q, h1)"
  shows "q = a" and "heap_ok h1" and "detached h1 a" and "unused h1 = r"
    and "\<And>b. b \<noteq> a \<Longrightarrow> nodes h1 b = nodes h b" and "nodes h a = None" and "a \<noteq> 0"
    and "nodes h1 a = Some \<lparr>nname = [], nvalue = snd (NewData (datasAlive h + 1) type), props = 0, parent = 0,
           child = 0, nextSib = 0, link = 0\<rparr>"
    and "nodesAlive h1 = nodesAlive h + 1" and "nheap.more h1 = nheap.more h"
  using assms by (auto simp: NewNode_def heap_ok_def detached_def Let_def NewData_def split: prod.splits)

definition firstNamed :: "(ptr \<Rightarrow> node option) \<Rightarrow> string \<Rightarrow> ptr list \<Rightarrow> ptr" where
  "firstNamed m name ps = (case filter (\<lambda>a. map_option nname (m a) = Some name) ps of [] \<Rightarrow> 0 | a # _ \<Rightarrow> a)"

lemma firstNamed_simps [simp]:
  "firstNamed m name [] = 0"
  "firstNamed m name (a # ps) = (if map_option nname (m a) = Some name then a else firstNamed m name ps)"
  by (simp_all add: firstNamed_def del: map_option_eq_Some)

lemma GetPropNode_first:
  "proplist h p ps \<Longrightarrow> GetPropNode p name h = Some (firstNamed (nodes h) name ps)"
  by (auto simp: proplist_def GetPropNode_def findNamed_path firstNamed_def)

lemma firstNamed_in: "firstNamed m name ps \<noteq> 0 \<Longrightarrow> firstNamed m name ps \<in> set ps \<and> map_option nname (m (firstNamed m name ps)) = Some name"
  by (induction ps) (auto split: if_splits)

lemma firstNamed_cong:
  "(\<And>a. a \<in> set ps \<Longrightarrow> map_option nname (m' a) = map_option nname (m a)) \<Longrightarrow> firstNamed m' name ps = firstNamed m name ps"
  by (induction ps) auto

text \<open>What a node's properties hold: the data object of the first property of a name.\<close>

definition prop_view :: "'a nheap_scheme \<Rightarrow> ptr \<Rightarrow> string \<Rightarrow> DataObj option" where
  "prop_view h p name = (case GetPropNode p name h of
     None \<Rightarrow> None
   | Some q \<Rightarrow> if q = 0 then None else map_option nvalue (nodes h q))"

lemma prop_view_list:
  "proplist h p ps \<Longrightarrow> prop_view h p name = (if firstNamed (nodes h) name ps = 0 then None
     else map_option nvalue (nodes h (firstNamed (nodes h) name ps)))"
  by (simp add: prop_view_def GetPropNode_first)

text \<open>What the three setters and getters share: a stored value does not depend on what was there
  before, and reading it back changes nothing.\<close>

locale typed_value =
  fixes type :: dtype
    and put :: "'v \<Rightarrow> DataObj \<Rightarrow> DataObj"
    and get :: "DataObj \<Rightarrow> (DataObj \<times> 'v) option"
    and stored :: "'v \<Rightarrow> data"
    and norm :: "'v \<Rightarrow> 'v"
  assumes put_stored: "put x (Some d) = Some (stored x)"
    and get_stored: "get (Some (stored x)) = Some (Some (stored x), norm x)"
    and new_data: "\<exists>d. snd (NewData k type) = Some d"
begin

lemma writeValue_stored:
  assumes "nodes h q = Some n" and "nvalue n \<noteq> None"
  shows "writeValue (put x) q h = Some (h\<lparr>nodes := (nodes h)(q \<mapsto> n\<lparr>nvalue := Some (stored x)\<rparr>)\<rparr>)"
  using assms by (auto simp: writeValue_def put_stored)

lemma read_stored:
  "nodes h q = Some n \<Longrightarrow> nvalue n = Some (stored x) \<Longrightarrow> readValue get q h = Some (norm x, h)"
  by (auto simp: readValue_def get_stored map_upd_triv)

lemma set_existing:
  assumes "proplist h p ps" and "firstNamed (nodes h) name ps = q" and "q \<noteq> 0"
    and "nodes h q = Some n" and "nvalue n \<noteq> None"
  shows "setPropPrivate p name type (put x) h = Some (h\<lparr>nodes := (nodes h)(q \<mapsto> n\<lparr>nvalue := Some (stored x)\<rparr>)\<rparr>)"
  using assms by (auto simp: setPropPrivate_def GetPropNode_first writeValue_stored proplist_def)

lemma set_new:
  assumes "heap_ok h" and "proplist h p ps" and "firstNamed (nodes h) name ps = 0" and "unused h = q # r"
  shows "\<exists>h'. setPropPrivate p name type (put x) h = Some h' \<and> heap_ok h' \<and> proplist h' p (q # ps) \<and> unused h' = r
    \<and> (\<exists>n'. nodes h' q = Some n' \<and> nname n' = name \<and> nvalue n' = Some (stored x) \<and> props n' = 0 \<and> child n' = 0 \<and> link n' = 0)
    \<and> (\<forall>a. a \<noteq> p \<and> a \<noteq> q \<longrightarrow> nodes h' a = nodes h a)
    \<and> map_option payload (nodes h' p) = map_option payload (nodes h p)
    \<and> nodesAlive h' = nodesAlive h + 1 \<and> nheap.more h' = nheap.more h
    \<and> (\<exists>s. nodes h' p = map_option (\<lambda>k. k\<lparr>props := s\<rparr>) (nodes h p))"
proof -
  obtain h1 where h1: "NewNode type h = (q, h1)"
    using assms(1,4) NewNode_ok(1) by (metis surj_pair)
  note N = NewNode_ok [OF assms(1,4) h1]
  have pq: "p \<noteq> q" "q \<notin> set ps" "p \<noteq> 0" using assms(2) N(6) by (auto simp: proplist_def dest: path_alive)
  obtain d where d: "snd (NewData (datasAlive h + 1) type) = Some d" using new_data by blast
  define n3 where "n3 = \<lparr>nname = name, nvalue = Some (stored x), props = 0, parent = 0, child = 0, nextSib = 0, link = 0 :: ptr\<rparr>"
  define h3 where "h3 = h1\<lparr>nodes := (nodes h1)(q \<mapsto> n3)\<rparr>"
  have c: "setPropPrivate p name type (put x) h = AddProp p q h3"
    using assms(2,3) pq N(8) d
    by (simp add: setPropPrivate_def GetPropNode_first newProp_def h1 h3_def n3_def writeValue_def put_stored)
  have same: "\<forall>a \<in> insert p (set ps). nodes h1 a = nodes h a" using pq by (metis N(5) insert_iff)
  then have p3: "proplist h3 p ps"
    using assms(2) pq by (auto simp: proplist_def h3_def elim!: path_frame)
  have "detached h3 q" by (simp add: detached_def h3_def n3_def N(7))
  from AddProp_proplist [OF p3 this] pq obtain h' where h': "AddProp p q h3 = Some h'" "relinked {p, q} h3 h'"
    "proplist h' p (q # ps)"
    "\<exists>s. nodes h' q = map_option (\<lambda>k. k\<lparr>nextSib := s\<rparr>) (nodes h3 q)"
    "\<exists>s. nodes h' p = map_option (\<lambda>k. k\<lparr>props := s\<rparr>) (nodes h3 p)" by auto
  note R = relinkedD [OF h'(2)]
  have f: "\<And>a. a \<noteq> p \<Longrightarrow> a \<noteq> q \<Longrightarrow> nodes h' a = nodes h a" using R(1) by (simp add: h3_def N(5))
  have r: "unused h' = r" "nodesAlive h' = nodesAlive h + 1" "nheap.more h' = nheap.more h"
    using R(3,4,6) by (simp_all add: h3_def N(4,9,10))
  note pay = R(2)
  have alive: "\<And>a. nodes h' a = None \<longleftrightarrow> nodes h3 a = None" by (metis pay option.map_disc_iff)
  have ok: "heap_ok h'"
    using N(2,4) pq alive assms(1,4) unfolding heap_ok_def r h3_def by auto
  have q': "\<exists>n'. nodes h' q = Some n' \<and> nname n' = name \<and> nvalue n' = Some (stored x) \<and> props n' = 0 \<and> child n' = 0 \<and> link n' = 0"
    using h'(4) by (auto simp: h3_def n3_def)
  have p': "\<exists>s. nodes h' p = map_option (\<lambda>k. k\<lparr>props := s\<rparr>) (nodes h p)"
    using h'(5) pq by (simp add: h3_def N(5))
  show ?thesis using c h'(1,3) ok q' f r pay [of p] pq p' by (simp add: h3_def N(5))
qed

text \<open>What a setter may assume of the owner and keeps: a list of properties that all hold data.\<close>

lemma set_view:
  assumes "heap_ok h" and "proplist h p ps" and "\<forall>q \<in> set ps. \<exists>n. nodes h q = Some n \<and> nvalue n \<noteq> None"
    and "unused h \<noteq> []"
  shows "\<exists>h' ps'. setPropPrivate p name type (put x) h = Some h' \<and> heap_ok h' \<and> proplist h' p ps'
    \<and> (\<forall>q \<in> set ps'. \<exists>n. nodes h' q = Some n \<and> nvalue n \<noteq> None)
    \<and> prop_view h' p = (prop_view h p)(name \<mapsto> Some (stored x))
    \<and> (\<exists>q. GetPropNode p name h' = Some q \<and> q \<noteq> 0 \<and> readValue get q h' = Some (norm x, h'))"
proof (cases "firstNamed (nodes h) name ps = 0")
  case False
  define q where "q = firstNamed (nodes h) name ps"
  have q: "q \<in> set ps" "map_option nname (nodes h q) = Some name" "q \<noteq> 0"
    using firstNamed_in [OF False] False by (auto simp: q_def)
  then obtain n where n: "nodes h q = Some n" "nvalue n \<noteq> None" "nname n = name" using assms(3) by force
  have pq: "p \<noteq> q" using assms(2) q(1) by (auto simp: proplist_def)
  define h' where "h' = h\<lparr>nodes := (nodes h)(q \<mapsto> n\<lparr>nvalue := Some (stored x)\<rparr>)\<rparr>"
  have s: "setPropPrivate p name type (put x) h = Some h'"
    unfolding h'_def by (rule set_existing [OF assms(2)]) (use q n q_def in auto)
  have pl: "proplist h' p ps"
    using assms(2) n pq by (auto simp: proplist_def h'_def path_upd_same)
  have fn: "firstNamed (nodes h') k ps = firstNamed (nodes h) k ps" for k
    by (rule firstNamed_cong) (use n in \<open>auto simp: h'_def\<close>)
  have dv: "firstNamed (nodes h) k ps = q \<Longrightarrow> k = name" for k
    using firstNamed_in [of "nodes h" k ps] n q(3) by auto
  have v: "prop_view h' p = (prop_view h p)(name \<mapsto> Some (stored x))"
  proof
    fix k
    show "prop_view h' p k = ((prop_view h p)(name \<mapsto> Some (stored x))) k"
    proof (cases "k = name")
      case True
      then show ?thesis using q(3) by (simp add: prop_view_list [OF pl] fn flip: q_def) (simp add: h'_def)
    next
      case False
      with dv have "firstNamed (nodes h) k ps \<noteq> q" by blast
      then show ?thesis using False
        by (simp add: prop_view_list [OF pl] prop_view_list [OF assms(2)] fn) (simp add: h'_def)
    qed
  qed
  have "readValue get q h' = Some (norm x, h')" by (rule read_stored) (auto simp: h'_def)
  moreover have "GetPropNode p name h' = Some q" by (simp add: GetPropNode_first [OF pl] fn q_def)
  moreover have "heap_ok h'" using assms(1) n q(3) by (auto simp: heap_ok_def h'_def)
  moreover have "\<forall>q \<in> set ps. \<exists>n. nodes h' q = Some n \<and> nvalue n \<noteq> None" using assms(3) by (auto simp: h'_def)
  ultimately show ?thesis using s pl v q(3) by blast
next
  case True
  obtain q r where u: "unused h = q # r" using assms(4) by (cases "unused h") auto
  obtain h' n' where h': "setPropPrivate p name type (put x) h = Some h'" "heap_ok h'" "proplist h' p (q # ps)"
    "nodes h' q = Some n'" "nname n' = name" "nvalue n' = Some (stored x)"
    "\<forall>a. a \<noteq> p \<and> a \<noteq> q \<longrightarrow> nodes h' a = nodes h a"
    using set_new [OF assms(1,2) True u] by blast
  have ps: "q \<noteq> 0" "q \<notin> set ps" "\<forall>a \<in> set ps. nodes h' a = nodes h a"
  proof -
    obtain m where m: "path (nodes h') m (q # ps) 0" using h'(3) by (auto simp: proplist_def)
    from path_distinct [OF m] m show "q \<noteq> 0" "q \<notin> set ps" by auto
    then show "\<forall>a \<in> set ps. nodes h' a = nodes h a" using h'(7) assms(2) by (metis proplist_def)
  qed
  have fn: "firstNamed (nodes h') k ps = firstNamed (nodes h) k ps" for k
    by (rule firstNamed_cong) (use ps in simp)
  have same: "firstNamed (nodes h) k ps \<noteq> 0 \<Longrightarrow> nodes h' (firstNamed (nodes h) k ps) = nodes h (firstNamed (nodes h) k ps)" for k
    using firstNamed_in [of "nodes h" k ps] ps(3) by blast
  have v: "prop_view h' p = (prop_view h p)(name \<mapsto> Some (stored x))"
    using h'(4-6) ps(1) same by (auto simp: fun_eq_iff prop_view_list [OF h'(3)] prop_view_list [OF assms(2)] fn)
  have "readValue get q h' = Some (norm x, h')" by (rule read_stored) (use h' in auto)
  moreover have "GetPropNode p name h' = Some q" using h'(4,5) by (simp add: GetPropNode_first [OF h'(3)])
  moreover have "\<forall>a \<in> set (q # ps). \<exists>n. nodes h' a = Some n \<and> nvalue n \<noteq> None"
    using assms(3) ps(3) h'(4,6) by simp
  ultimately show ?thesis using h'(1-3) v ps(1) by blast
qed

end

text \<open>The three types of value the setters store.\<close>

definition cleared :: "dtype \<Rightarrow> data" where
  "cleared t = (clear fresh_data)\<lparr>dtype_of := t\<rparr>"

definition stored_str :: "string option \<Rightarrow> data" where
  "stored_str x = (case x of None \<Rightarrow> cleared STRING | Some s \<Rightarrow> putStr (cleared STRING) (cstr s))"

definition stored_int :: "32 word \<Rightarrow> data" where
  "stored_int x = (cleared INTEGER)\<lparr>int_val := x, int_set := True\<rparr>"

definition stored_long :: "64 word \<Rightarrow> data" where
  "stored_long x = (cleared LONG)\<lparr>long_val := x, long_set := True\<rparr>"

lemmas data_defs = cleared_def clear_def clearAll_def fresh_data_def putStr_def datafunc_set_def datafunc_get_def

interpretation str_prop: typed_value STRING "\<lambda>x v. fst (SetStr v x)" GetStr stored_str "map_option cstr"
proof unfold_locales
  show "fst (SetStr (Some d) x) = Some (stored_str x)" for x d
    by (cases x) (simp_all add: SetStr_def stored_str_def data_defs Let_def)
  show "GetStr (Some (stored_str x)) = Some (Some (stored_str x), map_option cstr x)" for x
    by (cases x) (simp_all add: GetStr_def stored_str_def data_defs convert_def convertStr_def)
  show "\<exists>d. snd (NewData k STRING) = Some d" for k
    by (simp add: NewData_def Let_def)
qed

interpretation int_prop: typed_value INTEGER "\<lambda>x v. fst (SetInt v x)" GetInt stored_int id
  by unfold_locales (auto simp: SetInt_def GetInt_def stored_int_def data_defs NewData_def)

interpretation long_prop: typed_value LONG "\<lambda>x v. fst (SetLong v x)" GetLong stored_long id
  by unfold_locales (auto simp: SetLong_def GetLong_def stored_long_def data_defs NewData_def)

subsection \<open>Following links\<close>

fun follow :: "nat \<Rightarrow> ptr \<Rightarrow> 'a nheap_scheme \<Rightarrow> ptr option" where
  "follow 0 p h = Some p"
| "follow (Suc k) p h = do { n \<leftarrow> nodes h p; if link n = 0 then None else follow k (link n) h }"

definition links_ok :: "'a nheap_scheme \<Rightarrow> bool" where
  "links_ok h \<longleftrightarrow> nodes h 0 = None \<and> (\<forall>a n. nodes h a = Some n \<longrightarrow> link n = 0 \<or> nodes h (link n) \<noteq> None)"

lemma resolveLoop_follow:
  assumes "links_ok h" and "nodes h p \<noteq> None"
  shows "\<exists>k q n. k \<le> d \<and> resolveLoop d p h = Some q \<and> follow k p h = Some q \<and> nodes h q = Some n
    \<and> (link n = 0 \<or> k = d)"
  using assms(2)
proof (induction d arbitrary: p)
  case 0
  with assms(1) show ?case by (subst resolveLoop.simps) (auto simp: links_ok_def)
next
  case (Suc d)
  then obtain n where n: "nodes h p = Some n" by auto
  with assms(1) have p0: "p \<noteq> 0" by (auto simp: links_ok_def)
  note n = n p0
  show ?case
  proof (cases "link n = 0")
    case True
    with n show ?thesis by (intro exI [of _ 0] exI [of _ p] exI [of _ n]) (simp add: resolveLoop.simps)
  next
    case False
    with assms(1) n have "nodes h (link n) \<noteq> None" by (auto simp: links_ok_def)
    from Suc.IH [OF this] obtain k q m where k: "k \<le> d" "resolveLoop d (link n) h = Some q"
      "follow k (link n) h = Some q" "nodes h q = Some m" "link m = 0 \<or> k = d" by auto
    with n False show ?thesis
      by (intro exI [of _ "Suc k"] exI [of _ q] exI [of _ m]) (subst resolveLoop.simps, simp)
  qed
qed

subsection \<open>What the node tree guarantees\<close>

text \<open>A concrete heap: node 1 with the children 2 and 3 and the property 4, node 5 apart.\<close>

definition leaf :: "string \<Rightarrow> ptr \<Rightarrow> ptr \<Rightarrow> node" where
  "leaf nm par sib = \<lparr>nname = nm, nvalue = Some (stored_int 7), props = 0, parent = par, child = 0,
     nextSib = sib, link = 0\<rparr>"

definition family :: nheap where
  "family = \<lparr>nodes = [1 \<mapsto> (leaf ''a'' 0 0)\<lparr>props := 4, child := 2\<rparr>, 2 \<mapsto> leaf ''b'' 1 3,
       3 \<mapsto> leaf ''c'' 1 0, 4 \<mapsto> leaf ''X'' 0 0, 5 \<mapsto> leaf ''e'' 0 0],
     unused = [6, 7, 8], nodesAlive = 5, datasAlive = 10\<rparr>"

abbreviation (input) familyTree :: tree where
  "familyTree \<equiv> Tree 1 ''a'' (Some (stored_int 7)) [Tree 4 ''X'' (Some (stored_int 7)) [] []]
     [Tree 2 ''b'' (Some (stored_int 7)) [] [], Tree 3 ''c'' (Some (stored_int 7)) [] []]"

lemma family_simps [simp]:
  "nodes family 1 = Some ((leaf ''a'' 0 0)\<lparr>props := 4, child := 2\<rparr>)"
  "nodes family 2 = Some (leaf ''b'' 1 3)" "nodes family 3 = Some (leaf ''c'' 1 0)"
  "nodes family 4 = Some (leaf ''X'' 0 0)" "nodes family 5 = Some (leaf ''e'' 0 0)"
  "nodes family 0 = None" "unused family = [6, 7, 8]"
  by (simp_all add: family_def)

lemma leaf_simps [simp]:
  "nname (leaf nm par sib) = nm" "nvalue (leaf nm par sib) = Some (stored_int 7)" "props (leaf nm par sib) = 0"
  "parent (leaf nm par sib) = par" "child (leaf nm par sib) = 0" "nextSib (leaf nm par sib) = sib"
  "link (leaf nm par sib) = 0"
  by (simp_all add: leaf_def)

lemma family_ok: "heap_ok family" "children family 1 [2, 3]" "proplist family 1 [4]" "detached family 5"
  by (auto simp: heap_ok_def children_def proplist_def detached_def) (auto simp: family_def)



text \<open>C12. The properties of a node are a map: whatever was there before, after \<open>SetPropStrPrivate\<close> the
  name stands for the new text and every other name for what it stood for, the heap stays well formed,
  and \<open>GetPropStr\<close> returns the text (up to its first NUL) without changing anything.\<close>

theorem SetPropStrPrivate_updates_map:
  assumes "heap_ok h" and "proplist h p ps" and "\<forall>q \<in> set ps. \<exists>n. nodes h q = Some n \<and> nvalue n \<noteq> None"
    and "unused h \<noteq> []"
  shows "\<exists>h' ps'. SetPropStrPrivate p name v h = Some h' \<and> heap_ok h' \<and> proplist h' p ps'
    \<and> prop_view h' p = (prop_view h p)(name \<mapsto> Some (stored_str v))
    \<and> GetPropStr p name h' = Some (map_option cstr v, h')"
  using str_prop.set_view [OF assms, of name v]
  by (auto simp: SetPropStrPrivate_def GetPropStr_def GetValueStr_def)

theorem SetPropStrPrivate_updates_map_witness:
  "\<exists>h' ps'. SetPropStrPrivate 1 ''X'' (Some ''12'') family = Some h' \<and> heap_ok h' \<and> proplist h' 1 ps'
    \<and> prop_view h' 1 = (prop_view family 1)(''X'' \<mapsto> Some (stored_str (Some ''12'')))
    \<and> GetPropStr 1 ''X'' h' = Some (Some ''12'', h')"
  using SetPropStrPrivate_updates_map [OF family_ok(1,3), of "''X''" "Some ''12''"] by simp

text \<open>C13. \<open>DelNode\<close> returns on every finite tree of the heap: it frees exactly the nodes of the sibling
  chain and everything below them, once each, and the two counters drop by exactly what was freed;
  no other node is touched.\<close>

theorem DelNode_frees_subtree:
  assumes "forest (nodes h) p par ts" and "distinct (addrs ts)"
    and "par = 0 \<or> par \<notin> set (addrs ts) \<and> nodes h par \<noteq> None"
  shows "DelNode p h = Some (h\<lparr>nodes := nodes h |` (- set (addrs ts)),
     nodesAlive := nodesAlive h - int (length (addrs ts)), datasAlive := datasAlive h - datas ts\<rparr>)"
  using DelNode_frees [OF assms] by (simp add: freed_def)

theorem DelNode_frees_subtree_witness:
  "DelNode 1 family = Some (family\<lparr>nodes := nodes family |` (- {1, 4, 2, 3}), nodesAlive := 1, datasAlive := 2\<rparr>)"
  using DelNode_frees_subtree [of family 1 0 "[familyTree]"] by (simp add: family_def)

text \<open>Deleting a first child leaves its parent pointing at freed memory: the code clears the dying
  node's own \<open>parent\<close> where the parent's \<open>child\<close> field is meant, so the next walk over the parent's children
  (here \<open>AppendChild\<close>) dereferences the freed node.\<close>

theorem DelNode_leaves_parent_dangling:
  assumes "children h p (c # cs)" and "forest (nodes h) c p ts" and "distinct (addrs ts)" and "p \<notin> set (addrs ts)"
    and "d \<noteq> 0"
  shows "\<exists>h' n. DelNode c h = Some h' \<and> nodes h' p = Some n \<and> child n = c \<and> nodes h' c = None \<and> AppendChild p d h' = None"
proof -
  from assms(1) obtain n where n: "p \<noteq> 0" "nodes h p = Some n" "child n = c" "c \<noteq> 0" by (auto simp: children_def)
  from n(4) assms(2) have c: "c \<in> set (addrs ts)" by (cases ts rule: addrs.cases) auto
  have d: "DelNode c h = Some (freed ts h)" by (rule DelNode_frees [OF assms(2,3)]) (use assms(4) n in auto)
  have "nodes (freed ts h) p = Some n" "nodes (freed ts h) c = None" using n c assms(4) by simp_all
  with d n assms(5) show ?thesis
    by (intro exI [of _ "freed ts h"] exI [of _ n]) (simp add: AppendChild_def lastSib.simps)
qed

theorem DelNode_leaves_parent_dangling_witness:
  "\<exists>h' n. DelNode 2 family = Some h' \<and> nodes h' 1 = Some n \<and> child n = 2 \<and> nodes h' 2 = None \<and> AppendChild 1 5 h' = None"
  using DelNode_leaves_parent_dangling [OF family_ok(2), of "tchildren familyTree" 5] by simp

text \<open>\<open>ResolveNode\<close> always returns, even on a cycle of links: the node it returns is alive, it is
  reached by following at most eight links, and it has no link of its own unless all eight were used.\<close>

theorem ResolveNode_returns:
  assumes "links_ok h" and "nodes h p \<noteq> None"
  shows "\<exists>k q n. ResolveNode p h = Some q \<and> k \<le> 8 \<and> follow k p h = Some q \<and> nodes h q = Some n
    \<and> (link n = 0 \<or> k = 8)"
  using resolveLoop_follow [OF assms, of 8] by (auto simp: ResolveNode_def)

theorem ResolveNode_returns_witness:
  "\<exists>q. ResolveNode 5 (family\<lparr>nodes := [5 \<mapsto> (leaf ''e'' 0 0)\<lparr>link := 5\<rparr>]\<rparr>) = Some q \<and> q = 5"
proof -
  have "\<exists>k q n. ResolveNode 5 (family\<lparr>nodes := [5 \<mapsto> (leaf ''e'' 0 0)\<lparr>link := 5\<rparr>]\<rparr>) = Some q \<and> k \<le> 8
      \<and> follow k 5 (family\<lparr>nodes := [5 \<mapsto> (leaf ''e'' 0 0)\<lparr>link := 5\<rparr>]\<rparr>) = Some q
      \<and> nodes (family\<lparr>nodes := [5 \<mapsto> (leaf ''e'' 0 0)\<lparr>link := 5\<rparr>]\<rparr>) q = Some n \<and> (link n = 0 \<or> k = 8)"
    by (rule ResolveNode_returns) (simp_all add: links_ok_def)
  then show ?thesis by (auto split: if_splits)
qed

end
