(* ===== verification/Fabric.thy ===== *)
theory Fabric
  imports Sched Node Namespace
begin

text \<open>
  The message fabric: the property writes that fan out (\<open>src/node.c\<close>) and the queue that carries
  them (\<open>src/object.c\<close>).  A write of a property that has a \<open>Subscriber\<close> puts one task with an envelope
  on the scheduler; \<open>DispatchMsg\<close>, run from \<open>ExecTasks\<close>, walks the subscribers and delivers.

  The state is the scheduler's store, whose \<open>world\<close> is the node heap with the fabric's own globals
  and the envelopes.  Handlers are function pointers kept as \<open>LONG\<close> values in properties: \<open>call\<close> says
  what calling the function at an address does to everything, and with which verdict.  Text for
  \<open>DebugPrint\<close> is not built, but the reads it makes of the nodes are made.  A \<open>char *\<close> read from a
  property is the text it points at then.
\<close>

subsection \<open>The state\<close>

datatype func = FDispatchMsg | FOther ptr

record envelope =
  einst :: ptr
  eport :: ptr
  emessage :: int
  edata :: ptr
  etask :: addr

record fabric = nheap +
  curFromNode :: ptr
  objTaskList :: "addr option"
  envelopes :: "ptr \<Rightarrow> envelope option"
  envelopesAlive :: int
  pathIndex :: "ns option"
  classIndex :: "ns option"
  regObjList :: ptr

type_synonym machine = "(func, ptr, fabric) store"

text \<open>A handler at an address, called with an instance, a message and a data node.\<close>

type_synonym caller = "ptr \<Rightarrow> ptr \<Rightarrow> int \<Rightarrow> ptr \<Rightarrow> machine \<Rightarrow> (int \<times> machine) option"

definition rtrn_handled :: int where "rtrn_handled = 0"
definition rtrn_propagate :: int where "rtrn_propagate = 1"
definition rtrn_dropped :: int where "rtrn_dropped = 2"
definition rtrn_unhandled :: int where "rtrn_unhandled = 3"

definition msg_change :: int where "msg_change = 0"
definition msg_send :: int where "msg_send = 3"

text \<open>Operations of the node heap inside the machine.\<close>

definition onNodes :: "(fabric \<Rightarrow> ('v \<times> fabric) option) \<Rightarrow> machine \<Rightarrow> ('v \<times> machine) option" where
  "onNodes f m = (case f (world m) of None \<Rightarrow> None | Some (v, w) \<Rightarrow> Some (v, m\<lparr>world := w\<rparr>))"

definition doNodes :: "(fabric \<Rightarrow> fabric option) \<Rightarrow> machine \<Rightarrow> machine option" where
  "doNodes f m = (case f (world m) of None \<Rightarrow> None | Some w \<Rightarrow> Some (m\<lparr>world := w\<rparr>))"

definition newNode :: "dtype \<Rightarrow> machine \<Rightarrow> ptr \<times> machine" where
  "newNode type m = (let (p, w) = NewNode type (world m) in (p, m\<lparr>world := w\<rparr>))"

text \<open>A read made only for the log.\<close>

definition logName :: "ptr \<Rightarrow> machine \<Rightarrow> machine option" where
  "logName p m = map_option snd (onNodes (GetPropStr p ''Name'') m)"

definition logValue :: "ptr \<Rightarrow> machine \<Rightarrow> machine option" where
  "logValue p m = map_option snd (onNodes (GetValueStr p) m)"

subsection \<open>Handlers\<close>

partial_function (option) handlerLoop :: "caller \<Rightarrow> ptr \<Rightarrow> int \<Rightarrow> ptr \<Rightarrow> ptr \<Rightarrow> bool \<Rightarrow> machine
    \<Rightarrow> ((int option \<times> bool) \<times> machine) option" where
  "handlerLoop call own message data rec found m = (if rec = 0 then Some ((None, found), m) else do {
     is \<leftarrow> CmpName rec ''Handler'' (world m);
     (fn, m1) \<leftarrow> (if is then onNodes (GetPropLong rec ''OnMsg'') m else Some (0, m));
     if fn = 0
     then do { nxt \<leftarrow> GetNextSibling rec (world m1); handlerLoop call own message data nxt found m1 }
     else do {
       (verdict, m2) \<leftarrow> call fn own message data m1;
       if verdict \<noteq> rtrn_unhandled then Some ((Some verdict, True), m2)
       else do { nxt \<leftarrow> GetNextSibling rec (world m2); handlerLoop call own message data nxt True m2 } } })"

declare handlerLoop.simps [code]

definition DeliverToHandlers :: "caller \<Rightarrow> ptr \<Rightarrow> ptr \<Rightarrow> int \<Rightarrow> ptr \<Rightarrow> machine
    \<Rightarrow> ((int \<times> bool) \<times> machine) option" where
  "DeliverToHandlers call own propNode message data m =
     (if propNode = 0 then Some ((rtrn_unhandled, False), m) else do {
        rec \<leftarrow> GetNextProp propNode (world m);
        ((stop, found), m1) \<leftarrow> handlerLoop call own message data rec False m;
        (case stop of
           Some verdict \<Rightarrow> Some ((verdict, found), m1)
         | None \<Rightarrow> do {
             (fn, m2) \<leftarrow> onNodes (GetPropLong propNode ''OnMsg'') m1;
             if fn \<noteq> 0
             then do { (verdict, m3) \<leftarrow> call fn own message data m2; Some ((verdict, True), m3) }
             else Some ((rtrn_unhandled, found), m2) }) })"

partial_function (option) hasHandlerLoop :: "ptr \<Rightarrow> machine \<Rightarrow> (bool \<times> machine) option" where
  "hasHandlerLoop rec m = (if rec = 0 then Some (False, m) else do {
     is \<leftarrow> CmpName rec ''Handler'' (world m);
     (fn, m1) \<leftarrow> (if is then onNodes (GetPropLong rec ''OnMsg'') m else Some (0, m));
     if fn \<noteq> 0 then Some (True, m1)
     else do { nxt \<leftarrow> GetNextSibling rec (world m1); hasHandlerLoop nxt m1 } })"

declare hasHandlerLoop.simps [code]

definition HasHandler :: "ptr \<Rightarrow> machine \<Rightarrow> (bool \<times> machine) option" where
  "HasHandler propNode m = (if propNode = 0 then Some (False, m) else do {
     (fn, m1) \<leftarrow> onNodes (GetPropLong propNode ''OnMsg'') m;
     if fn \<noteq> 0 then Some (True, m1)
     else do { rec \<leftarrow> GetNextProp propNode (world m1); hasHandlerLoop rec m1 } })"

definition MsgFromNode :: "machine \<Rightarrow> ptr" where
  "MsgFromNode m = curFromNode (world m)"

definition setFrom :: "ptr \<Rightarrow> machine \<Rightarrow> machine" where
  "setFrom p m = m\<lparr>world := (world m)\<lparr>curFromNode := p\<rparr>\<rparr>"

subsection \<open>The class chain\<close>

definition IsClassNode :: "ptr \<Rightarrow> machine \<Rightarrow> (bool \<times> machine) option" where
  "IsClassNode n m = (if n = 0 then Some (False, m)
     else do { (i, m1) \<leftarrow> onNodes (GetPropInt n ''IsClass'') m; Some (i \<noteq> 0, m1) })"

definition ClassOfInstance :: "ptr \<Rightarrow> machine \<Rightarrow> ptr option" where
  "ClassOfInstance inst m = (if inst = 0 then Some 0 else GetParent inst (world m))"

text \<open>The walk up the classes: a verdict other than unhandled and dropped ends it.\<close>

partial_function (option) puntLoop :: "caller \<Rightarrow> ptr \<Rightarrow> int \<Rightarrow> ptr \<Rightarrow> ptr \<Rightarrow> machine
    \<Rightarrow> (int \<times> machine) option" where
  "puntLoop call inst message data cls m = do {
     (is, m1) \<leftarrow> IsClassNode cls m;
     if \<not> is then Some (rtrn_dropped, m1)
     else do {
       (handler, m2) \<leftarrow> onNodes (GetPropLong cls ''ClassMsg'') m1;
       if handler = 0
       then do { up \<leftarrow> GetParent cls (world m2); puntLoop call inst message data up m2 }
       else do {
         (verdict, m3) \<leftarrow> call handler inst message data m2;
         m4 \<leftarrow> logName inst m3;
         _ \<leftarrow> GetNameStr data (world m4);
         _ \<leftarrow> GetNameStr cls (world m4);
         if verdict \<noteq> rtrn_unhandled \<and> verdict \<noteq> rtrn_dropped then Some (verdict, m4)
         else do { up \<leftarrow> GetParent cls (world m4); puntLoop call inst message data up m4 } } } }"

declare puntLoop.simps [code]

definition PuntToClass :: "caller \<Rightarrow> ptr \<Rightarrow> int \<Rightarrow> ptr \<Rightarrow> machine \<Rightarrow> (int \<times> machine) option" where
  "PuntToClass call inst message data m = do {
     cls \<leftarrow> ClassOfInstance inst m;
     puntLoop call inst message data cls m }"

subsection \<open>Sending\<close>

definition ObjSetTaskList :: "addr option \<Rightarrow> machine \<Rightarrow> machine" where
  "ObjSetTaskList l m = m\<lparr>world := (world m)\<lparr>objTaskList := l\<rparr>\<rparr>"

definition ObjGetTaskList :: "machine \<Rightarrow> addr option" where
  "ObjGetTaskList m = objTaskList (world m)"

definition EnvelopeCount :: "machine \<Rightarrow> int" where
  "EnvelopeCount m = envelopesAlive (world m)"

text \<open>The allocation of an envelope; the code does not test it, so a failure is undefined.\<close>

definition newEnvelope :: "envelope \<Rightarrow> machine \<Rightarrow> (ptr \<times> machine) option" where
  "newEnvelope env m = (let w = world m in case unused w of
     [] \<Rightarrow> None
   | e # rest \<Rightarrow> Some (e, m\<lparr>world := w\<lparr>unused := rest, envelopes := (envelopes w)(e \<mapsto> env),
                                    envelopesAlive := envelopesAlive w + 1\<rparr>\<rparr>))"

definition setEnvelope :: "ptr \<Rightarrow> (envelope \<Rightarrow> envelope) \<Rightarrow> machine \<Rightarrow> machine option" where
  "setEnvelope e f m = (case envelopes (world m) e of None \<Rightarrow> None
     | Some env \<Rightarrow> Some (m\<lparr>world := (world m)\<lparr>envelopes := (envelopes (world m))(e \<mapsto> f env)\<rparr>\<rparr>))"

text \<open>\<open>SndMsgNode\<close> takes over the data node: it goes with the envelope, or is freed when there is no
  property to send from.\<close>

definition SndMsgNode :: "ptr \<Rightarrow> ptr \<Rightarrow> int \<Rightarrow> ptr \<Rightarrow> machine \<Rightarrow> (int \<times> machine) option" where
  "SndMsgNode inst outPort message data m =
     (if outPort = 0
      then do { m1 \<leftarrow> (if data \<noteq> 0 then doNodes (DelNode data) m else Some m); Some (0, m1) }
      else do {
        (e, m1) \<leftarrow> newEnvelope \<lparr>einst = inst, eport = outPort, emessage = message, edata = data, etask = 0\<rparr> m;
        l \<leftarrow> ObjGetTaskList m1;
        (task, m2) \<leftarrow> GetTask l m1;
        m3 \<leftarrow> setEnvelope e (\<lambda>env. env\<lparr>etask := task\<rparr>) m2;
        m4 \<leftarrow> AddTaskNow task (Some FDispatchMsg) (Some e) m3;
        Some (1, m4) })"

subsection \<open>Property writes\<close>

text \<open>The number of properties of a name from one on (for the log).\<close>

partial_function (option) countNamed :: "ptr \<Rightarrow> string \<Rightarrow> machine \<Rightarrow> nat option" where
  "countNamed s name m = (if s = 0 then Some 0 else do {
     same \<leftarrow> CmpName s name (world m);
     nxt \<leftarrow> GetNextSibling s (world m);
     n \<leftarrow> countNamed nxt name m;
     Some (if same then n + 1 else n) })"

declare countNamed.simps [code]

definition FanOutSubscribers :: "ptr \<Rightarrow> ptr \<Rightarrow> machine \<Rightarrow> machine option" where
  "FanOutSubscribers own propnode m = (case ObjGetTaskList m of
     None \<Rightarrow> Some m
   | Some _ \<Rightarrow> do {
       first \<leftarrow> GetNextProp propnode (world m);
       sub \<leftarrow> findNamed first ''Subscriber'' (world m);
       if sub = 0 then Some m
       else do {
         _ \<leftarrow> countNamed first ''Subscriber'' m;
         m1 \<leftarrow> logName own m;
         m2 \<leftarrow> logValue propnode m1;
         let (chunk, m3) = newNode STRING m2;
         name \<leftarrow> GetNameStr propnode (world m3);
         m4 \<leftarrow> (case name of None \<Rightarrow> Some m3 | Some s \<Rightarrow> doNodes (SetName chunk s) m3);
         (v, m5) \<leftarrow> onNodes (GetValueStr propnode) m4;
         m6 \<leftarrow> doNodes (SetValueStr chunk v) m5;
         map_option snd (SndMsgNode own propnode msg_change chunk m6) } })"

text \<open>A property that links elsewhere: the node that owns the value, and the instance that owns it.\<close>

definition ResolveOwned :: "ptr \<Rightarrow> ptr \<Rightarrow> machine \<Rightarrow> ((ptr \<times> ptr) \<times> machine) option" where
  "ResolveOwned own propnode m = (if propnode = 0 then Some ((own, propnode), m) else do {
     l \<leftarrow> GetNodeLink propnode (world m);
     if l = 0 then Some ((own, propnode), m)
     else do {
       (inst, m1) \<leftarrow> onNodes (GetPropLong propnode ''LinkInst'') m;
       r \<leftarrow> ResolveNode propnode (world m1);
       Some ((if inst \<noteq> 0 then inst else own, r), m1) } })"

text \<open>The body of the three public setters.\<close>

definition setProp :: "ptr \<Rightarrow> string \<Rightarrow> dtype \<Rightarrow> (DataObj \<Rightarrow> DataObj) \<Rightarrow> machine \<Rightarrow> machine option" where
  "setProp p name type put m = (if p = 0 then Some m else do {
     propnode \<leftarrow> GetPropNode p name (world m);
     if propnode \<noteq> 0 then do {
       ((own, q), m1) \<leftarrow> ResolveOwned p propnode m;
       m2 \<leftarrow> doNodes (writeValue put q) m1;
       FanOutSubscribers own q m2 }
     else doNodes (newProp p name type put) m })"

definition SetPropLong :: "ptr \<Rightarrow> string \<Rightarrow> 64 word \<Rightarrow> machine \<Rightarrow> machine option" where
  "SetPropLong p name val = setProp p name LONG (\<lambda>v. fst (SetLong v val))"

definition SetPropInt :: "ptr \<Rightarrow> string \<Rightarrow> 32 word \<Rightarrow> machine \<Rightarrow> machine option" where
  "SetPropInt p name val = setProp p name INTEGER (\<lambda>v. fst (SetInt v val))"

definition SetPropStr :: "ptr \<Rightarrow> string \<Rightarrow> string option \<Rightarrow> machine \<Rightarrow> machine option" where
  "SetPropStr p name val = setProp p name STRING (\<lambda>v. fst (SetStr v val))"

subsection \<open>Delivery\<close>

text \<open>A message node: a \<open>STRING\<close> node with the property's name and the value.\<close>

definition newChunk :: "string \<Rightarrow> string option \<Rightarrow> machine \<Rightarrow> (ptr \<times> machine) option" where
  "newChunk name val m = (let (chunk, m1) = newNode STRING m in do {
     m2 \<leftarrow> doNodes (SetName chunk name) m1;
     m3 \<leftarrow> doNodes (SetValueStr chunk val) m2;
     Some (chunk, m3) })"

text \<open>The universal default: a property with a handler gets the message and answers whether the value
  is still to be stored; one without is offered to the class chain, then stored.\<close>

definition deliverDefault :: "caller \<Rightarrow> ptr \<Rightarrow> string \<Rightarrow> string \<Rightarrow> int \<Rightarrow> machine \<Rightarrow> machine option" where
  "deliverDefault call toInstance port val message m = do {
     portnode \<leftarrow> GetPropNode toInstance port (world m);
     (has, m1) \<leftarrow> HasHandler portnode m;
     (chunk, m2) \<leftarrow> newChunk port (Some val) m1;
     if has then do {
       ((v1, _), m3) \<leftarrow> DeliverToHandlers call toInstance portnode message chunk m2;
       (verdict, m4) \<leftarrow> (if v1 = rtrn_dropped then PuntToClass call toInstance message chunk m3
                         else Some (v1, m3));
       m5 \<leftarrow> doNodes (DelNode chunk) m4;
       if verdict = rtrn_propagate then SetPropStr toInstance port (Some val) m5 else Some m5 }
     else do {
       (verdict, m3) \<leftarrow> PuntToClass call toInstance message chunk m2;
       m4 \<leftarrow> doNodes (DelNode chunk) m3;
       if verdict = rtrn_handled then Some m4 else SetPropStr toInstance port (Some val) m4 } }"

definition DeliverToSubscriber :: "caller \<Rightarrow> ptr \<Rightarrow> int \<Rightarrow> ptr \<Rightarrow> ptr \<Rightarrow> machine \<Rightarrow> machine option" where
  "DeliverToSubscriber call sub message data fromNode m = do {
     (fn, m1) \<leftarrow> onNodes (GetPropLong sub ''Callback'') m;
     (toInstance, m2) \<leftarrow> onNodes (GetPropLong sub ''Instance'') m1;
     let prevFrom = curFromNode (world m2);
     let m3 = setFrom fromNode m2;
     m4 \<leftarrow> (if fn \<noteq> 0 then map_option snd (call fn toInstance message data m3)
       else do {
         (port, m5) \<leftarrow> onNodes (GetPropStr sub ''Port'') m3;
         (val, m6) \<leftarrow> onNodes (GetValueStr data) m5;
         (case (port, val) of
            (Some pt, Some v) \<Rightarrow> if toInstance = 0 then Some m6
                                 else deliverDefault call toInstance pt v message m6
          | _ \<Rightarrow> Some m6) });
     Some (setFrom prevFrom m4) }"

text \<open>The walk of \<open>DispatchMsg\<close>: the envelope is read again for each subscriber, and the sibling after the
  delivery.\<close>

partial_function (option) dispatchLoop :: "caller \<Rightarrow> ptr \<Rightarrow> ptr \<Rightarrow> machine \<Rightarrow> machine option" where
  "dispatchLoop call e sub m = (if sub = 0 then Some m else do {
     is \<leftarrow> CmpName sub ''Subscriber'' (world m);
     m1 \<leftarrow> (if is then do {
               env \<leftarrow> envelopes (world m) e;
               DeliverToSubscriber call sub (emessage env) (edata env) (eport env) m }
           else Some m);
     nxt \<leftarrow> GetNextSibling sub (world m1);
     dispatchLoop call e nxt m1 })"

declare dispatchLoop.simps [code]

definition freeEnvelope :: "ptr \<Rightarrow> machine \<Rightarrow> machine" where
  "freeEnvelope e m = m\<lparr>world := (world m)\<lparr>envelopes := (envelopes (world m))(e := None),
     envelopesAlive := envelopesAlive (world m) - 1\<rparr>\<rparr>"

definition DispatchMsg :: "caller \<Rightarrow> ptr \<Rightarrow> int \<Rightarrow> machine \<Rightarrow> machine option" where
  "DispatchMsg call e reason m = do {
     env \<leftarrow> envelopes (world m) e;
     m1 \<leftarrow> (if reason = task_callback \<and> eport env \<noteq> 0
           then do { sub \<leftarrow> GetNextProp (eport env) (world m); dispatchLoop call e sub m }
           else Some m);
     env1 \<leftarrow> envelopes (world m1) e;
     m2 \<leftarrow> (if reason = task_callback then RemoveTask (etask env1) m1 else Some m1);
     m3 \<leftarrow> (if edata env1 \<noteq> 0 then doNodes (DelNode (edata env1)) m2 else Some m2);
     _ \<leftarrow> envelopes (world m3) e;
     Some (freeEnvelope e m3) }"

text \<open>What the scheduler does with a task of the fabric; the other callbacks are code of the objects.\<close>

definition fabricInvoke :: "caller \<Rightarrow> (ptr \<Rightarrow> ptr option \<Rightarrow> int \<Rightarrow> machine \<Rightarrow> machine option)
    \<Rightarrow> func \<Rightarrow> ptr option \<Rightarrow> int \<Rightarrow> machine \<Rightarrow> machine option" where
  "fabricInvoke call other f d reason m = (case f of
     FDispatchMsg \<Rightarrow> (case d of None \<Rightarrow> None | Some e \<Rightarrow> DispatchMsg call e reason m)
   | FOther g \<Rightarrow> other g d reason m)"

subsection \<open>Cancelling the sends of a dying instance\<close>

definition GetTaskListHead :: "addr option \<Rightarrow> machine \<Rightarrow> addr option option" where
  "GetTaskListHead l m = (case l of None \<Rightarrow> Some None | Some k \<Rightarrow> map_option lhead (lists m k))"

definition GetTaskListRunnow :: "addr option \<Rightarrow> machine \<Rightarrow> addr option option" where
  "GetTaskListRunnow l m = (case l of None \<Rightarrow> None | Some k \<Rightarrow> map_option runnow (lists m k))"

partial_function (option) cancelFrom :: "ptr \<Rightarrow> addr option \<Rightarrow> machine \<Rightarrow> machine option" where
  "cancelFrom dead cur m = (case cur of None \<Rightarrow> Some m
     | Some c \<Rightarrow> do {
         t \<leftarrow> tasks m c;
         m1 \<leftarrow> (if callback t \<noteq> Some FDispatchMsg then Some m
               else case tdata t of None \<Rightarrow> None
                 | Some e \<Rightarrow> do {
                     env \<leftarrow> envelopes (world m) e;
                     if einst env = dead then setEnvelope e (\<lambda>v. v\<lparr>eport := 0\<rparr>) m else Some m });
         cancelFrom dead (tnext t) m1 })"

declare cancelFrom.simps [code]

definition CancelPendingSends :: "ptr \<Rightarrow> machine \<Rightarrow> machine option" where
  "CancelPendingSends dead m = do {
     let l = ObjGetTaskList m;
     head \<leftarrow> GetTaskListHead l m;
     m1 \<leftarrow> cancelFrom dead head m;
     r \<leftarrow> GetTaskListRunnow l m1;
     head2 \<leftarrow> GetTaskListHead r m1;
     cancelFrom dead head2 m1 }"

subsection \<open>Ports\<close>

text \<open>\<open>ResolvePort\<close>: the property of a name, through a link to the one it stands for, with the instance
  that owns it.\<close>

definition ResolvePort :: "ptr \<Rightarrow> string \<Rightarrow> machine \<Rightarrow> ((ptr \<times> ptr) \<times> machine) option" where
  "ResolvePort inst name m = (if inst = 0 then Some ((inst, 0), m) else do {
     raw \<leftarrow> GetPropNode inst name (world m);
     if raw = 0 then Some ((inst, 0), m)
     else do {
       l \<leftarrow> GetNodeLink raw (world m);
       if l = 0 then Some ((inst, raw), m)
       else do {
         (own, m1) \<leftarrow> onNodes (GetPropLong raw ''LinkInst'') m;
         r \<leftarrow> ResolveNode raw (world m1);
         Some ((if own \<noteq> 0 then own else inst, r), m1) } } })"

definition SndMsg :: "ptr \<Rightarrow> string \<Rightarrow> int \<Rightarrow> ptr \<Rightarrow> machine \<Rightarrow> (int \<times> machine) option" where
  "SndMsg inst port message data m = do {
     ((own, outPort), m1) \<leftarrow> ResolvePort inst port m;
     SndMsgNode own outPort message data m1 }"

definition DeliverMsg :: "caller \<Rightarrow> ptr \<Rightarrow> string \<Rightarrow> int \<Rightarrow> ptr \<Rightarrow> machine \<Rightarrow> (int \<times> machine) option" where
  "DeliverMsg call target port message data m = (if target = 0 then Some (0, m) else do {
     portNode \<leftarrow> GetPropNode target port (world m);
     if portNode = 0 then Some (0, m)
     else do {
       ((_, found), m1) \<leftarrow> DeliverToHandlers call target portNode message data m;
       Some (if found then 1 else 0, m1) } })"

text \<open>\<open>SetOrDeliverProp\<close>: a write from outside goes to the handler of the property it names, if there is
  one, and is stored otherwise.\<close>

definition SetOrDeliverProp :: "caller \<Rightarrow> ptr \<Rightarrow> string \<Rightarrow> string option \<Rightarrow> machine \<Rightarrow> machine option" where
  "SetOrDeliverProp call target asked val m = (if target = 0 \<or> val = None then Some m else do {
     ((own, propnode), m1) \<leftarrow> ResolvePort target asked m;
     nm \<leftarrow> (if propnode \<noteq> 0 then GetNameStr propnode (world m1) else Some (Some asked));
     propname \<leftarrow> nm;
     m2 \<leftarrow> logName target m1;
     (has, m3) \<leftarrow> HasHandler propnode m2;
     m4 \<leftarrow> logName own m3;
     (chunk, m5) \<leftarrow> newChunk propname val m4;
     if has then do {
       ((v1, _), m6) \<leftarrow> DeliverToHandlers call own propnode msg_send chunk m5;
       m7 \<leftarrow> doNodes (DelNode chunk) m6;
       m8 \<leftarrow> logName own m7;
       (verdict, m9) \<leftarrow> (if v1 = rtrn_dropped then do {
                            (chunk2, ma) \<leftarrow> newChunk propname val m8;
                            (v2, mb) \<leftarrow> PuntToClass call own msg_send chunk2 ma;
                            mc \<leftarrow> doNodes (DelNode chunk2) mb;
                            Some (v2, mc) }
                         else Some (v1, m8));
       if verdict = rtrn_propagate then SetPropStr own propname val m9 else Some m9 }
     else do {
       let inst = (if propnode \<noteq> 0 then own else target);
       (verdict, m6) \<leftarrow> PuntToClass call inst msg_send chunk m5;
       m7 \<leftarrow> doNodes (DelNode chunk) m6;
       if verdict = rtrn_handled then Some m7 else SetPropStr inst propname val m7 } })"

end
