(* ===== verification/Fabric_Delivery.thy ===== *)
theory Fabric_Delivery
  imports Fabric Sched_Lists Node_Lists
begin

text \<open>
  Proofs on \<open>Fabric\<close>: which handlers a delivery calls and in which order, the current source of a
  message as a stack, what a property write queues, and what dispatching it does.
\<close>

subsection \<open>The machine around the node heap\<close>

lemma onNodes_Some: "f (world m) = Some (v, w) \<Longrightarrow> onNodes f m = Some (v, m\<lparr>world := w\<rparr>)"
  by (simp add: onNodes_def)

lemma onNodes_read [simp]: "f (world m) = Some (v, world m) \<Longrightarrow> onNodes f m = Some (v, m)"
  by (simp add: onNodes_def)

lemma doNodes_Some: "f (world m) = Some w \<Longrightarrow> doNodes f m = Some (m\<lparr>world := w\<rparr>)"
  by (simp add: doNodes_def)

subsection \<open>The source of a delivery\<close>

text \<open>Operations of the node heap leave the globals of the fabric alone.\<close>

lemma readValue_more: "readValue get p h = Some (v, h') \<Longrightarrow> nheap.more h' = nheap.more h"
  by (auto simp: readValue_def split: bind_splits)

lemma get_more:
  "GetValueLong p h = Some (l, h') \<Longrightarrow> nheap.more h' = nheap.more h"
  "GetValueInt p h = Some (i, h') \<Longrightarrow> nheap.more h' = nheap.more h"
  "GetValueStr p h = Some (s, h') \<Longrightarrow> nheap.more h' = nheap.more h"
  by (auto simp: GetValueLong_def GetValueInt_def GetValueStr_def dest: readValue_more split: if_splits)

lemma get_prop_more:
  "GetPropLong p name h = Some (l, h') \<Longrightarrow> nheap.more h' = nheap.more h"
  "GetPropInt p name h = Some (i, h') \<Longrightarrow> nheap.more h' = nheap.more h"
  "GetPropStr p name h = Some (s, h') \<Longrightarrow> nheap.more h' = nheap.more h"
  by (auto simp: GetPropLong_def GetPropInt_def GetPropStr_def dest: get_more split: bind_splits if_splits)

lemma from_more: "nheap.more (w :: fabric) = nheap.more w' \<Longrightarrow> curFromNode w = curFromNode w'"
  by (cases w; cases w') simp


subsection \<open>The handlers of a property\<close>

text \<open>What a delivery to a property can reach: its properties \<open>rs\<close>, of which \<open>hs\<close> are the \<open>Handler\<close>
  records, the function each of them holds, and the property's own \<open>OnMsg\<close>.\<close>

definition handlers :: "fabric \<Rightarrow> ptr \<Rightarrow> ptr list \<Rightarrow> ptr list \<Rightarrow> (ptr \<Rightarrow> ptr) \<Rightarrow> ptr \<Rightarrow> bool" where
  "handlers w p rs hs fn own \<longleftrightarrow> proplist w p rs
     \<and> hs = filter (\<lambda>r. map_option nname (nodes w r) = Some ''Handler'') rs
     \<and> (\<forall>r \<in> set hs. GetPropLong r ''OnMsg'' w = Some (fn r, w))
     \<and> GetPropLong p ''OnMsg'' w = Some (own, w)"

text \<open>The functions in the order they are to be tried: the records from the newest on, the property's
  own handler last.\<close>

definition callOrder :: "ptr list \<Rightarrow> (ptr \<Rightarrow> ptr) \<Rightarrow> ptr \<Rightarrow> ptr list" where
  "callOrder hs fn own = filter (\<lambda>f. f \<noteq> 0) (map fn hs @ [own])"

text \<open>The reference: call them one after the other until one does not answer \<open>rtrn_unhandled\<close>.\<close>

fun callUntil :: "caller \<Rightarrow> ptr \<Rightarrow> int \<Rightarrow> ptr \<Rightarrow> ptr list \<Rightarrow> machine \<Rightarrow> (int \<times> machine) option" where
  "callUntil call own message data [] m = Some (rtrn_unhandled, m)"
| "callUntil call own message data (f # fs) m = do {
     (verdict, m1) \<leftarrow> call f own message data m;
     if verdict \<noteq> rtrn_unhandled then Some (verdict, m1) else callUntil call own message data fs m1 }"

lemma handlers_record:
  assumes "handlers w p (xs @ r # ys) hs fn own"
  shows "r \<noteq> 0" and "\<exists>n. nodes w r = Some n \<and> nextSib n = (case ys of [] \<Rightarrow> 0 | y # _ \<Rightarrow> y)"
    and "CmpName r ''Handler'' w = Some (r \<in> set hs)"
    and "GetNextSibling r w = Some (case ys of [] \<Rightarrow> 0 | y # _ \<Rightarrow> y)"
proof -
  from assms obtain k where k: "path (nodes w) k (xs @ r # ys) 0"
    and hs: "hs = filter (\<lambda>r. map_option nname (nodes w r) = Some ''Handler'') (xs @ r # ys)"
    by (auto simp: handlers_def proplist_def)
  from k obtain n where n: "r \<noteq> 0" "nodes w r = Some n" "path (nodes w) (nextSib n) ys 0"
    by (auto simp: path_append)
  then show "r \<noteq> 0" by simp
  have nx: "nextSib n = (case ys of [] \<Rightarrow> 0 | y # _ \<Rightarrow> y)" using n(3) by (cases ys) auto
  with n show "\<exists>n. nodes w r = Some n \<and> nextSib n = (case ys of [] \<Rightarrow> 0 | y # _ \<Rightarrow> y)" by blast
  show "CmpName r ''Handler'' w = Some (r \<in> set hs)"
    using n by (auto simp: CmpName_def hs)
  show "GetNextSibling r w = Some (case ys of [] \<Rightarrow> 0 | y # _ \<Rightarrow> y)"
    using n nx by (simp add: GetNextSibling_def)
qed

text \<open>The handlers may do anything except rearrange the handlers of the property they are called for.\<close>

definition keeps :: "caller \<Rightarrow> ptr \<Rightarrow> int \<Rightarrow> ptr \<Rightarrow> (fabric \<Rightarrow> bool) \<Rightarrow> bool" where
  "keeps call own message data P \<longleftrightarrow> (\<forall>f m v m'. call f own message data m = Some (v, m') \<longrightarrow> P (world m) \<longrightarrow> P (world m'))"

lemma handlerLoop_callUntil:
  assumes "keeps call own message data (\<lambda>w. handlers w p (xs @ ys) hs fn f0)"
    and "handlers (world m) p (xs @ ys) hs fn f0"
  shows "handlerLoop call own message data (case ys of [] \<Rightarrow> 0 | y # _ \<Rightarrow> y) found m
    = map_option (\<lambda>(v, m'). ((if v = rtrn_unhandled then None else Some v,
          found \<or> filter (\<lambda>f. f \<noteq> 0) (map fn (filter (\<lambda>r. r \<in> set hs) ys)) \<noteq> []), m'))
        (callUntil call own message data (filter (\<lambda>f. f \<noteq> 0) (map fn (filter (\<lambda>r. r \<in> set hs) ys))) m)"
  using assms
proof (induction ys arbitrary: xs found m)
  case Nil
  then show ?case by (subst handlerLoop.simps) simp
next
  case (Cons r ys)
  note R = handlers_record [OF Cons.prems(2)]
  have step: "xs @ r # ys = (xs @ [r]) @ ys" by simp
  note IH = Cons.IH [of "xs @ [r]", unfolded append_assoc append_Cons append_Nil, OF Cons.prems(1)]
  show ?case
  proof (cases "r \<in> set hs \<and> fn r \<noteq> 0")
    case False
    have "(if r \<in> set hs then onNodes (GetPropLong r ''OnMsg'') m else Some (0, m)) = Some (0, m)"
      using False Cons.prems(2) by (auto simp: handlers_def)
    then show ?thesis
      using R IH [OF Cons.prems(2)] False by (subst handlerLoop.simps) auto
  next
    case True
    then have g: "onNodes (GetPropLong r ''OnMsg'') m = Some (fn r, m)"
      using Cons.prems(2) by (simp add: handlers_def)
    show ?thesis
    proof (cases "call (fn r) own message data m")
      case None
      then show ?thesis using R True g by (subst handlerLoop.simps) simp
    next
      case (Some vm)
      then obtain v m' where c: "call (fn r) own message data m = Some (v, m')" by (cases vm) auto
      then have h': "handlers (world m') p (xs @ r # ys) hs fn f0"
        using Cons.prems by (auto simp: keeps_def)
      note R' = handlers_record [OF h']
      show ?thesis
        using R R'(4) True g c IH [OF h']
        by (subst handlerLoop.simps) (auto simp: option.map_comp intro!: option.map_cong)
    qed
  qed
qed

lemma callUntil_append:
  "callUntil call own message data (fs @ gs) m = do {
     (v, m1) \<leftarrow> callUntil call own message data fs m;
     if v \<noteq> rtrn_unhandled then Some (v, m1) else callUntil call own message data gs m1 }"
proof (induction fs arbitrary: m)
  case (Cons f fs)
  show ?case
  proof (cases "call f own message data m")
    case (Some vm)
    then show ?thesis using Cons by (cases vm) simp
  qed simp
qed simp

lemma callOrder_split:
  "handlers w p rs hs fn f0 \<Longrightarrow> callOrder hs fn f0
     = filter (\<lambda>f. f \<noteq> 0) (map fn (filter (\<lambda>r. r \<in> set hs) rs)) @ (if f0 = 0 then [] else [f0])"
proof -
  assume "handlers w p rs hs fn f0"
  then have "hs = filter (\<lambda>r. map_option nname (nodes w r) = Some ''Handler'') rs" by (simp add: handlers_def)
  then have "filter (\<lambda>r. r \<in> set hs) rs = hs" by (auto intro: filter_cong)
  then show ?thesis by (simp add: callOrder_def)
qed

lemma callUntil_keeps:
  "keeps call own message data P \<Longrightarrow> P (world m) \<Longrightarrow> callUntil call own message data fs m = Some (v, m') \<Longrightarrow> P (world m')"
proof (induction fs arbitrary: m)
  case (Cons f fs)
  from Cons.prems(3) obtain v1 m1 where c: "call f own message data m = Some (v1, m1)" by (auto split: bind_splits)
  with Cons.prems(1,2) have "P (world m1)" by (auto simp: keeps_def)
  with Cons c show ?case by (auto split: if_splits)
qed simp

lemma handlers_start:
  assumes "handlers w p rs hs fn f0"
  shows "p \<noteq> 0" and "GetNextProp p w = Some (case rs of [] \<Rightarrow> 0 | y # _ \<Rightarrow> y)"
  using assms by (cases rs; auto simp: handlers_def proplist_def GetNextProp_def)+


lemma hasHandlerLoop_filter:
  assumes "handlers (world m) p (xs @ ys) hs fn f0"
  shows "hasHandlerLoop (case ys of [] \<Rightarrow> 0 | y # _ \<Rightarrow> y) m
    = Some (filter (\<lambda>f. f \<noteq> 0) (map fn (filter (\<lambda>r. r \<in> set hs) ys)) \<noteq> [], m)"
  using assms
proof (induction ys arbitrary: xs)
  case Nil
  then show ?case by (subst hasHandlerLoop.simps) simp
next
  case (Cons r ys)
  note R = handlers_record [OF Cons.prems]
  have "(if r \<in> set hs then onNodes (GetPropLong r ''OnMsg'') m else Some (0, m)) = Some (if r \<in> set hs then fn r else 0, m)"
    using Cons.prems by (auto simp: handlers_def)
  moreover have "handlers (world m) p ((xs @ [r]) @ ys) hs fn f0" using Cons.prems by simp
  note Cons.IH [OF this]
  ultimately show ?case using R by (subst hasHandlerLoop.simps) auto
qed

text \<open>\<open>HasHandler\<close>, which decides between delivering and storing, says exactly whether
  \<open>DeliverToHandlers\<close> would find anything to call, and changes nothing.\<close>

theorem HasHandler_iff_found:
  assumes "handlers (world m) p rs hs fn f0"
  shows "HasHandler p m = Some (callOrder hs fn f0 \<noteq> [], m)"
proof -
  note S = handlers_start [OF assms]
  have g: "onNodes (GetPropLong p ''OnMsg'') m = Some (f0, m)" using assms by (simp add: handlers_def)
  show ?thesis
    using S g hasHandlerLoop_filter [of m p "[]" rs hs fn f0] assms
    by (auto simp: HasHandler_def callOrder_split [OF assms])
qed

subsection \<open>Writing a property that is subscribed to\<close>

lemma countNamed_total: "path (nodes (world m)) s xs 0 \<Longrightarrow> \<exists>n. countNamed s name m = Some n"
proof (induction xs arbitrary: s)
  case Nil
  then show ?case by (subst countNamed.simps) simp
next
  case (Cons a xs)
  then obtain n where n: "s = a" "a \<noteq> 0" "nodes (world m) a = Some n" "path (nodes (world m)) (nextSib n) xs 0" by auto
  with Cons.IH [OF n(4)] show ?case by (subst countNamed.simps) (auto simp: CmpName_def GetNextSibling_def)
qed

lemma read_str:
  "nodes h q = Some n \<Longrightarrow> nvalue n = Some (stored_str x) \<Longrightarrow> q \<noteq> 0 \<Longrightarrow> GetValueStr q h = Some (map_option cstr x, h)"
  by (simp add: GetValueStr_def str_prop.read_stored)

text \<open>The name of an instance, when it has one, is text: reading it for the log changes nothing.\<close>

definition name_ok :: "fabric \<Rightarrow> ptr \<Rightarrow> ptr list \<Rightarrow> bool" where
  "name_ok w p ps \<longleftrightarrow> proplist w p ps \<and> (firstNamed (nodes w) ''Name'' ps = 0
     \<or> (\<exists>n x. nodes w (firstNamed (nodes w) ''Name'' ps) = Some n \<and> nvalue n = Some (stored_str x)))"

lemma logName_ok:
  assumes "name_ok (world m) p ps"
  shows "logName p m = Some m"
proof -
  have "\<exists>s. GetPropStr p ''Name'' (world m) = Some (s, world m)"
    using assms by (auto simp: name_ok_def GetPropStr_def GetPropNode_first read_str)
  then show ?thesis by (auto simp: logName_def)
qed

lemma name_ok_write:
  assumes "name_ok w p ps" and "nodes w q = Some n" and "q \<in> set ps"
  shows "name_ok (w\<lparr>nodes := (nodes w)(q \<mapsto> n\<lparr>nvalue := Some (stored_str x)\<rparr>)\<rparr>) p ps"
proof -
  let ?m = "(nodes w)(q \<mapsto> n\<lparr>nvalue := Some (stored_str x)\<rparr>)"
  have "firstNamed ?m ''Name'' ps = firstNamed (nodes w) ''Name'' ps"
    by (rule firstNamed_cong) (use assms(2) in auto)
  moreover have "proplist (w\<lparr>nodes := ?m\<rparr>) p ps"
    using assms by (auto simp: name_ok_def proplist_def path_upd_same)
  ultimately show ?thesis using assms by (auto simp: name_ok_def)
qed

text \<open>The envelope and the task of a message.\<close>

lemma SndMsgNode_queues:
  assumes "outPort \<noteq> 0" and "unused (world m) = e # rest" and "objTaskList (world m) = Some l"
    and "sched_inv m l xs" and "task_supply m l xs t"
    and "d = dueTime (clock_s m) (clock_us m) 0 0"
  obtains m' k where "SndMsgNode inst outPort message data m = Some (1, m')"
    and "sched_inv m' l (insert_due (tasks m) (fst d) (snd d) t xs)"
    and "tasks m' t = Some k" and "callback k = Some FDispatchMsg" and "tdata k = Some e"
    and "world m' = (world m)\<lparr>unused := rest, envelopes := (envelopes (world m))(e \<mapsto>
           \<lparr>einst = inst, eport = outPort, emessage = message, edata = data, etask = t\<rparr>),
           envelopesAlive := envelopesAlive (world m) + 1\<rparr>"
    and "clock_s m' = clock_s m" and "clock_us m' = clock_us m"
proof -
  define env where "env = \<lparr>einst = inst, eport = outPort, emessage = message, edata = data, etask = 0\<rparr>"
  define m1 where "m1 = m\<lparr>world := (world m)\<lparr>unused := rest, envelopes := (envelopes (world m))(e \<mapsto> env),
     envelopesAlive := envelopesAlive (world m) + 1\<rparr>\<rparr>"
  have s1: "newEnvelope env m = Some (e, m1)" by (simp add: newEnvelope_def assms(2) m1_def Let_def)
  have i1: "sched_inv m1 l xs" "task_supply m1 l xs t" using assms(4,5)
    by (auto simp: m1_def sched_inv_def task_supply_def split: option.splits)
  obtain m2 k where m2: "GetTask l m1 = Some (t, m2)" "sched_inv m2 l xs" "tasks m2 t = Some k" "owner k = l"
    "world m2 = world m1" "clock_s m2 = clock_s m1" "clock_us m2 = clock_us m1"
    "\<forall>x. x \<noteq> t \<longrightarrow> tasks m2 x = tasks m1 x"
    by (rule GetTask_ok [OF i1])
  define m3 where "m3 = m2\<lparr>world := (world m2)\<lparr>envelopes := (envelopes (world m2))(e \<mapsto> env\<lparr>etask := t\<rparr>)\<rparr>\<rparr>"
  have s3: "setEnvelope e (\<lambda>env. env\<lparr>etask := t\<rparr>) m2 = Some m3"
    by (simp add: setEnvelope_def m2(5) m1_def m3_def)
  have i3: "sched_inv m3 l xs" "tasks m3 t = Some k" using m2 by (auto simp: m3_def sched_inv_def)
  have tx: "t \<notin> set xs" using assms(5) by (simp add: task_supply_def)
  have d3: "d = dueTime (clock_s m3) (clock_us m3) 0 0" using m2 assms(6) by (simp add: m3_def m1_def)
  obtain m4 k' where m4: "AddTaskDelay t 0 0 (Some FDispatchMsg) (Some e) m3 = Some m4"
    "sched_inv m4 l (insert_due (tasks m3) (fst d) (snd d) t xs)"
    "tasks m4 t = Some k'" "core k' = core (armed d (Some FDispatchMsg) (Some e) k)"
    "clock_s m4 = clock_s m3" "clock_us m4 = clock_us m3" "world m4 = world m3"
    by (rule AddTaskDelay_ok [OF i3(1,2) m2(4) tx d3, of "Some FDispatchMsg" "Some e"])
  have "insert_due (tasks m3) (fst d) (snd d) t xs = insert_due (tasks m) (fst d) (snd d) t xs"
    by (rule insert_due_cong) (use tx m2(8) in \<open>auto simp: m3_def m1_def\<close>)
  moreover have "callback k' = Some FDispatchMsg" "tdata k' = Some e"
    using m4(4) core_simps(7,8) [of k'] core_simps(7,8) [of "armed d (Some FDispatchMsg) (Some e) k"] by simp_all
  moreover have "SndMsgNode inst outPort message data m = Some (1, m4)"
    using assms(1,3) s1 m2(1) s3 m4(1)
    by (simp add: SndMsgNode_def ObjGetTaskList_def AddTaskNow_def m1_def flip: env_def)
  ultimately show ?thesis
    using m4 by (intro that [of m4 k']) (simp_all add: m3_def m2 m1_def env_def)
qed


lemma NewNode_fresh:
  assumes "unused h = c # rest"
  shows "NewNode STRING h = (c, h\<lparr>nodes := (nodes h)(c \<mapsto> \<lparr>nname = [], nvalue = Some (stored_str (Some [])), props = 0,
      parent = 0, child = 0, nextSib = 0, link = 0\<rparr>), unused := rest, nodesAlive := nodesAlive h + 1,
      datasAlive := datasAlive h + 2\<rparr>)"
  using assms by (simp add: NewNode_def NewData_def stored_str_def cleared_def putStr_def clear_def fresh_data_def dup_def cstr_def Let_def)

lemma chunk_filled: "fst (SetStr (Some (stored_str (Some []))) (Some s)) = Some (stored_str (Some s))"
  by (rule str_prop.put_stored)

definition message_node :: "string \<Rightarrow> string \<Rightarrow> node" where
  "message_node name s = \<lparr>nname = name, nvalue = Some (stored_str (Some s)), props = 0, parent = 0, child = 0,
     nextSib = 0, link = 0\<rparr>"

lemma stored_cstr: "stored_str (Some (cstr s)) = stored_str (Some s)"
  by (simp add: stored_str_def cstr_def)

lemma FanOutSubscribers_queues:
  assumes h: "heap_ok (world m)" "unused (world m) = c # e # rest" and l: "objTaskList (world m) = Some l"
    and s: "sched_inv m l xs" "task_supply m l xs t" and d: "d = dueTime (clock_s m) (clock_us m) 0 0"
    and p: "name_ok (world m) p ps"
    and q: "proplist (world m) q qs" "nodes (world m) q = Some n" "nvalue n = Some (stored_str (Some v))" "nname n = name"
    and sub: "\<exists>r \<in> set qs. map_option nname (nodes (world m) r) = Some ''Subscriber''"
  obtains m' k where "FanOutSubscribers p q m = Some m'"
    and "sched_inv m' l (insert_due (tasks m) (fst d) (snd d) t xs)"
    and "tasks m' t = Some k" and "callback k = Some FDispatchMsg" and "tdata k = Some e"
    and "envelopes (world m') = (envelopes (world m))(e \<mapsto>
           \<lparr>einst = p, eport = q, emessage = msg_change, edata = c, etask = t\<rparr>)"
    and "nodes (world m') = (nodes (world m))(c \<mapsto> message_node name v)"
    and "EnvelopeCount m' = EnvelopeCount m + 1" and "unused (world m') = rest"
    and "MsgFromNode m' = MsgFromNode m"
proof -
  from q(1) obtain k where k: "q \<noteq> 0" "nodes (world m) q = Some k" "path (nodes (world m)) (props k) qs 0"
    by (auto simp: proplist_def)
  with q(2) have f: "GetNextProp q (world m) = Some (props n)" "path (nodes (world m)) (props n) qs 0"
    by (simp_all add: GetNextProp_def)
  have fn: "findNamed (props n) ''Subscriber'' (world m) = Some (firstNamed (nodes (world m)) ''Subscriber'' qs)"
    using findNamed_path [OF f(2)] by (simp add: firstNamed_def)
  have ne: "firstNamed (nodes (world m)) ''Subscriber'' qs \<noteq> 0"
    using sub path_alive [OF f(2)] by (induction qs) (auto simp: firstNamed_def)
  obtain cnt where cnt: "countNamed (props n) ''Subscriber'' m = Some cnt" using countNamed_total [OF f(2)] by blast
  have lv: "logValue q m = Some m" using read_str [OF q(2,3) k(1)] by (simp add: logValue_def)
  have c: "c \<noteq> 0" "c \<noteq> q" "nodes (world m) c = None" using h q(2) by (auto simp: heap_ok_def)
  define w2 where "w2 = (world m)\<lparr>nodes := (nodes (world m))(c \<mapsto> message_node name v), unused := e # rest,
     nodesAlive := nodesAlive (world m) + 1, datasAlive := datasAlive (world m) + 2\<rparr>"
  define w0 where "w0 x = w2\<lparr>nodes := (nodes (world m))(c \<mapsto> message_node x [])\<rparr>" for x
  note NN = NewNode_fresh [OF h(2)]
  have s1: "newNode STRING m = (c, m\<lparr>world := w0 []\<rparr>)"
    by (simp add: newNode_def NN w0_def w2_def message_node_def)
  have s2: "doNodes (SetName c name) (m\<lparr>world := w0 []\<rparr>) = Some (m\<lparr>world := w0 name\<rparr>)"
    using c by (simp add: doNodes_def SetName_def w0_def message_node_def)
  have "GetValueStr q (w0 name) = Some (map_option cstr (Some v), w0 name)"
    by (rule read_str [of _ _ n]) (use q(2,3) k(1) c(2) in \<open>simp_all add: w0_def\<close>)
  then have s3: "onNodes (GetValueStr q) (m\<lparr>world := w0 name\<rparr>) = Some (Some (cstr v), m\<lparr>world := w0 name\<rparr>)"
    by (simp add: onNodes_def)
  have s4: "doNodes (SetValueStr c (Some (cstr v))) (m\<lparr>world := w0 name\<rparr>) = Some (m\<lparr>world := w2\<rparr>)"
    using c by (simp add: doNodes_def SetValueStr_def writeValue_def w0_def w2_def message_node_def
      str_prop.put_stored stored_cstr)
  have s5: "GetNameStr q (w0 []) = Some (Some name)"
    using q(2,4) k(1) c(2) by (simp add: GetNameStr_def w0_def)
  have q0: "q \<noteq> 0" by (rule k(1))
  have pre: "unused (world (m\<lparr>world := w2\<rparr>)) = e # rest" "objTaskList (world (m\<lparr>world := w2\<rparr>)) = Some l"
    "sched_inv (m\<lparr>world := w2\<rparr>) l xs" "task_supply (m\<lparr>world := w2\<rparr>) l xs t"
    "d = dueTime (clock_s (m\<lparr>world := w2\<rparr>)) (clock_us (m\<lparr>world := w2\<rparr>)) 0 0"
    using l s d by (auto simp: w2_def sched_inv_def task_supply_def split: option.splits)
  obtain m' k' where m': "SndMsgNode p q msg_change c (m\<lparr>world := w2\<rparr>) = Some (1, m')"
    "sched_inv m' l (insert_due (tasks (m\<lparr>world := w2\<rparr>)) (fst d) (snd d) t xs)"
    "tasks m' t = Some k'" "callback k' = Some FDispatchMsg" "tdata k' = Some e"
    "world m' = (world (m\<lparr>world := w2\<rparr>))\<lparr>unused := rest, envelopes := (envelopes (world (m\<lparr>world := w2\<rparr>)))(e \<mapsto>
           \<lparr>einst = p, eport = q, emessage = msg_change, edata = c, etask = t\<rparr>),
           envelopesAlive := envelopesAlive (world (m\<lparr>world := w2\<rparr>)) + 1\<rparr>"
    by (rule SndMsgNode_queues [OF q0 pre, of p msg_change c])
  have "FanOutSubscribers p q m = Some m'"
    using l f(1) fn ne cnt logName_ok [OF p] lv s1 s2 s3 s4 s5 m'(1)
    by (simp add: FanOutSubscribers_def ObjGetTaskList_def)
  then show ?thesis
    by (rule that [of m' k']) (use m'(2-) in \<open>simp_all add: w2_def EnvelopeCount_def MsgFromNode_def\<close>)
qed

text \<open>C16. Writing a property somebody subscribes to calls nobody: it stores the text, puts one task in the
  scheduler's list behind everything due by now, and hands that task one envelope with a message node
  that carries the property's name and value; nothing else of the heap changes, and the current
  source is as before.\<close>

theorem SetPropStr_queues_one_message:
  assumes h: "heap_ok (world m)" "unused (world m) = c # e # rest" and l: "objTaskList (world m) = Some l"
    and s: "sched_inv m l xs" "task_supply m l xs t"
    and p: "name_ok (world m) p ps" "firstNamed (nodes (world m)) name ps = q" "q \<noteq> 0"
    and q: "proplist (world m) q qs" "nodes (world m) q = Some n" "link n = 0" "nvalue n \<noteq> None"
    and sub: "\<exists>r \<in> set qs. map_option nname (nodes (world m) r) = Some ''Subscriber''"
  shows "\<exists>m' k. SetPropStr p name (Some v) m = Some m'
    \<and> sched_inv m' l (insert_due (tasks m) (fst (dueTime (clock_s m) (clock_us m) 0 0))
         (snd (dueTime (clock_s m) (clock_us m) 0 0)) t xs)
    \<and> tasks m' t = Some k \<and> callback k = Some FDispatchMsg \<and> tdata k = Some e
    \<and> envelopes (world m') = (envelopes (world m))(e \<mapsto>
         \<lparr>einst = p, eport = q, emessage = msg_change, edata = c, etask = t\<rparr>)
    \<and> nodes (world m') = (nodes (world m))(q \<mapsto> n\<lparr>nvalue := Some (stored_str (Some v))\<rparr>, c \<mapsto> message_node name v)
    \<and> EnvelopeCount m' = EnvelopeCount m + 1 \<and> MsgFromNode m' = MsgFromNode m"
proof -
  have pl: "proplist (world m) p ps" using p(1) by (simp add: name_ok_def)
  have fi: "q \<in> set ps" "nname n = name"
    using firstNamed_in [of "nodes (world m)" name ps] p(2,3) q(2) by auto
  have qp: "q \<noteq> p" "p \<noteq> 0" using pl fi by (auto simp: proplist_def)
  define n' where "n' = n\<lparr>nvalue := Some (stored_str (Some v))\<rparr>"
  define w where "w = (world m)\<lparr>nodes := (nodes (world m))(q \<mapsto> n')\<rparr>"
  define m1 where "m1 = m\<lparr>world := w\<rparr>"
  have g: "GetPropNode p name (world m) = Some q" by (simp add: GetPropNode_first [OF pl] p(2))
  have r: "ResolveOwned p q m = Some ((p, q), m)" using q(2,3) by (simp add: ResolveOwned_def GetNodeLink_def)
  have wr: "doNodes (writeValue (\<lambda>x. fst (SetStr x (Some v))) q) m = Some m1"
    using str_prop.writeValue_stored [OF q(2,4), of "Some v"] by (simp add: doNodes_def m1_def w_def n'_def)
  have pre: "heap_ok (world m1)" "unused (world m1) = c # e # rest" "objTaskList (world m1) = Some l"
    "sched_inv m1 l xs" "task_supply m1 l xs t"
    "dueTime (clock_s m) (clock_us m) 0 0 = dueTime (clock_s m1) (clock_us m1) 0 0"
    using h l s q(2) p(3) by (auto simp: m1_def w_def heap_ok_def sched_inv_def task_supply_def split: option.splits)
  have nk: "name_ok (world m1) p ps"
    unfolding m1_def w_def n'_def using name_ok_write [OF p(1) q(2) fi(1)] by simp
  have qq: "proplist (world m1) q qs" "nodes (world m1) q = Some n'" "nvalue n' = Some (stored_str (Some v))" "nname n' = name"
    using q(1,2) fi(2) by (auto simp: m1_def w_def n'_def proplist_def)
  have sb: "\<exists>r \<in> set qs. map_option nname (nodes (world m1) r) = Some ''Subscriber''"
    using sub q(1) by (auto simp: m1_def w_def proplist_def)
  obtain m' k where m': "FanOutSubscribers p q m1 = Some m'"
    "sched_inv m' l (insert_due (tasks m1) (fst (dueTime (clock_s m) (clock_us m) 0 0)) (snd (dueTime (clock_s m) (clock_us m) 0 0)) t xs)"
    "tasks m' t = Some k" "callback k = Some FDispatchMsg" "tdata k = Some e"
    "envelopes (world m') = (envelopes (world m1))(e \<mapsto> \<lparr>einst = p, eport = q, emessage = msg_change, edata = c, etask = t\<rparr>)"
    "nodes (world m') = (nodes (world m1))(c \<mapsto> message_node name v)"
    "EnvelopeCount m' = EnvelopeCount m1 + 1" "unused (world m') = rest" "MsgFromNode m' = MsgFromNode m1"
    by (rule FanOutSubscribers_queues [OF pre nk qq sb])
  have "SetPropStr p name (Some v) m = Some m'"
    using g r wr m'(1) qp p(3) by (simp add: SetPropStr_def setProp_def)
  with m' show ?thesis
    by (intro exI [of _ m'] exI [of _ k]) (simp add: m1_def w_def n'_def EnvelopeCount_def MsgFromNode_def)
qed

subsection \<open>Dispatching\<close>

lemma setN_more: "setN p f h = Some h' \<Longrightarrow> nheap.more h' = nheap.more h"
  by (auto simp: setN_eq_Some)

lemma unparent_more: "unparent p h = Some h' \<Longrightarrow> nheap.more h' = nheap.more h"
  by (auto simp: unparent_def dest: setN_more split: bind_splits if_splits)

lemma DelNode_more: "DelNode p h = Some h' \<Longrightarrow> nheap.more h' = nheap.more h"
proof (rule DelNode.raw_induct [where P = "\<lambda>p h h'. nheap.more h' = nheap.more h", rotated])
  fix D :: "ptr \<Rightarrow> 'a nheap_scheme \<Rightarrow> 'a nheap_scheme option" and p h h'
  assume ih: "\<And>p h y. D p h = Some y \<Longrightarrow> nheap.more y = nheap.more h"
  assume "(if p = 0 then Some h else do {
     n1 \<leftarrow> nodes h p;
     h1 \<leftarrow> D (nextSib n1) h;
     h2 \<leftarrow> setN p (\<lambda>n. n\<lparr>nextSib := 0\<rparr>) h1;
     n2 \<leftarrow> nodes h2 p;
     h3 \<leftarrow> D (props n2) h2;
     h4 \<leftarrow> setN p (\<lambda>n. n\<lparr>props := 0\<rparr>) h3;
     n4 \<leftarrow> nodes h4 p;
     h5 \<leftarrow> D (child n4) h4;
     h6 \<leftarrow> setN p (\<lambda>n. n\<lparr>child := 0\<rparr>) h5;
     h7 \<leftarrow> unparent p h6;
     n7 \<leftarrow> nodes h7 p;
     Some (h7\<lparr>nodes := (nodes h7)(p := None), nodesAlive := nodesAlive h7 - 1,
              datasAlive := DelData (datasAlive h7 - 1) (nvalue n7)\<rparr>) }) = Some h'"
  then show "nheap.more h' = nheap.more h"
    by (auto split: if_splits bind_splits dest!: ih setN_more unparent_more)
qed

lemma setT_world: "setT p f st = Some st' \<Longrightarrow> world st' = world st"
  and setL_world: "setL l g st = Some st' \<Longrightarrow> world st' = world st"
  by (auto simp: setT_def setL_def split: option.splits)

lemma RemoveTaskFromList_world: "RemoveTaskFromList p st = Some st' \<Longrightarrow> world st' = world st"
  by (auto simp: RemoveTaskFromList_def Let_def dest!: setT_world setL_world split: bind_splits if_splits option.splits)

lemma RemoveTask_world: "RemoveTask p st = Some st' \<Longrightarrow> world st' = world st"
  by (auto simp: RemoveTask_def Let_def dest!: RemoveTaskFromList_world setT_world setL_world split: bind_splits)

text \<open>The reference: the subscribers one after the other.\<close>

fun deliverAll :: "caller \<Rightarrow> envelope \<Rightarrow> ptr list \<Rightarrow> machine \<Rightarrow> machine option" where
  "deliverAll call env [] m = Some m"
| "deliverAll call env (s # ss) m = do {
     m1 \<leftarrow> DeliverToSubscriber call s (emessage env) (edata env) (eport env) m;
     deliverAll call env ss m1 }"

text \<open>A message on its way: the property it goes out of, with its records \<open>rs\<close>, of which \<open>subs\<close> are
  the subscribers.\<close>

definition in_flight :: "fabric \<Rightarrow> ptr \<Rightarrow> envelope \<Rightarrow> ptr list \<Rightarrow> ptr list \<Rightarrow> bool" where
  "in_flight w e env rs subs \<longleftrightarrow> envelopes w e = Some env \<and> proplist w (eport env) rs
     \<and> subs = filter (\<lambda>r. map_option nname (nodes w r) = Some ''Subscriber'') rs"

definition delivery_keeps :: "caller \<Rightarrow> envelope \<Rightarrow> ptr list \<Rightarrow> (fabric \<Rightarrow> bool) \<Rightarrow> bool" where
  "delivery_keeps call env subs P \<longleftrightarrow> (\<forall>s \<in> set subs. \<forall>m m'.
     DeliverToSubscriber call s (emessage env) (edata env) (eport env) m = Some m' \<longrightarrow> P (world m) \<longrightarrow> P (world m'))"

lemma in_flight_record:
  assumes "in_flight w e env (xs @ r # ys) subs"
  shows "r \<noteq> 0" and "CmpName r ''Subscriber'' w = Some (r \<in> set subs)"
    and "GetNextSibling r w = Some (case ys of [] \<Rightarrow> 0 | y # _ \<Rightarrow> y)"
proof -
  from assms obtain k where k: "path (nodes w) k (xs @ r # ys) 0"
    and s: "subs = filter (\<lambda>r. map_option nname (nodes w r) = Some ''Subscriber'') (xs @ r # ys)"
    by (auto simp: in_flight_def proplist_def)
  from k obtain n where n: "r \<noteq> 0" "nodes w r = Some n" "path (nodes w) (nextSib n) ys 0"
    by (auto simp: path_append)
  then show "r \<noteq> 0" by simp
  show "CmpName r ''Subscriber'' w = Some (r \<in> set subs)" using n by (auto simp: CmpName_def s)
  show "GetNextSibling r w = Some (case ys of [] \<Rightarrow> 0 | y # _ \<Rightarrow> y)"
    using n by (cases ys) (auto simp: GetNextSibling_def)
qed

lemma dispatchLoop_deliverAll:
  assumes "delivery_keeps call env subs P" and "\<forall>w. P w \<longrightarrow> in_flight w e env (xs @ ys) subs" and "P (world m)"
  shows "dispatchLoop call e (case ys of [] \<Rightarrow> 0 | y # _ \<Rightarrow> y) m = deliverAll call env (filter (\<lambda>r. r \<in> set subs) ys) m"
  using assms
proof (induction ys arbitrary: xs m)
  case Nil
  then show ?case by (subst dispatchLoop.simps) simp
next
  case (Cons r ys)
  have fl: "in_flight (world m) e env (xs @ r # ys) subs" using Cons.prems(2,3) by blast
  note R = in_flight_record [OF fl]
  note IH = Cons.IH [of "xs @ [r]", unfolded append_assoc append_Cons append_Nil, OF Cons.prems(1,2)]
  have env: "envelopes (world m) e = Some env" using fl by (simp add: in_flight_def)
  show ?case
  proof (cases "r \<in> set subs")
    case False
    then show ?thesis using R IH [OF Cons.prems(3)] by (subst dispatchLoop.simps) simp
  next
    case True
    show ?thesis
    proof (cases "DeliverToSubscriber call r (emessage env) (edata env) (eport env) m")
      case None
      then show ?thesis using R True env by (subst dispatchLoop.simps) simp
    next
      case (Some m')
      then have p': "P (world m')" using Cons.prems(1,3) True by (auto simp: delivery_keeps_def)
      then have h': "in_flight (world m') e env (xs @ r # ys) subs" using Cons.prems(2) by blast
      show ?thesis
        using R in_flight_record(3) [OF h'] True Some env IH [OF p'] by (subst dispatchLoop.simps) simp
    qed
  qed
qed

lemma deliverAll_keeps:
  "delivery_keeps call env subs P \<Longrightarrow> P (world m) \<Longrightarrow> set ss \<subseteq> set subs \<Longrightarrow> deliverAll call env ss m = Some m' \<Longrightarrow> P (world m')"
proof (induction ss arbitrary: m)
  case (Cons s ss)
  from Cons.prems(4) obtain m1 where m1: "DeliverToSubscriber call s (emessage env) (edata env) (eport env) m = Some m1"
    by (auto split: bind_splits)
  with Cons.prems have "P (world m1)" by (auto simp: delivery_keeps_def)
  with Cons m1 show ?case by simp
qed simp

text \<open>C17. Dispatching a queued message delivers it to every subscriber of the property it came out of,
  once each and in the order of the records, then retires the task, frees the message node and the
  envelope, and takes the envelope off the count.  (\<open>P\<close> is what the deliveries keep:
  they may change everything but the records of that property and the envelope.)\<close>

theorem DispatchMsg_delivers_in_order:
  assumes "P (world m)" and "\<forall>w. P w \<longrightarrow> in_flight w e env rs subs" and "eport env \<noteq> 0"
    and "delivery_keeps call env subs P"
  shows "DispatchMsg call e task_callback m = do {
      m1 \<leftarrow> deliverAll call env subs m;
      m2 \<leftarrow> RemoveTask (etask env) m1;
      m3 \<leftarrow> doNodes (DelNode (edata env)) m2;
      Some (m3\<lparr>world := (world m3)\<lparr>envelopes := (envelopes (world m3))(e := None),
         envelopesAlive := envelopesAlive (world m3) - 1\<rparr>\<rparr>) }"
proof -
  have env: "envelopes (world m) e = Some env" and pl: "proplist (world m) (eport env) rs"
    and fs: "filter (\<lambda>r. r \<in> set subs) rs = subs"
    using assms(1,2) by (auto simp: in_flight_def intro: filter_cong)
  have nx: "GetNextProp (eport env) (world m) = Some (case rs of [] \<Rightarrow> 0 | y # _ \<Rightarrow> y)"
    using pl assms(3) by (cases rs) (auto simp: GetNextProp_def proplist_def)
  have loop: "dispatchLoop call e (case rs of [] \<Rightarrow> 0 | y # _ \<Rightarrow> y) m = deliverAll call env subs m"
    using dispatchLoop_deliverAll [of call env subs P e "[]" rs m] assms fs by simp
  show ?thesis
  proof (cases "deliverAll call env subs m")
    case None
    then show ?thesis using env assms(3) nx loop by (simp add: DispatchMsg_def)
  next
    case (Some m1)
    have e1: "envelopes (world m1) e = Some env"
      using deliverAll_keeps [OF assms(4,1) _ Some] assms(2) by (auto simp: in_flight_def)
    have e3: "envelopes (world m3) e = Some env"
      if "RemoveTask (etask env) m1 = Some m2" "doNodes (DelNode (edata env)) m2 = Some m3" for m2 m3
    proof -
      have "nheap.more (world m3) = nheap.more (world m2)"
        using that(2) DelNode_more by (auto simp: doNodes_def split: option.splits)
      then have "envelopes (world m3) = envelopes (world m2)"
        by (cases "world m3"; cases "world m2") simp
      then show ?thesis using e1 RemoveTask_world [OF that(1)] by simp
    qed
    have d0: "doNodes (DelNode 0) m2 = Some m2" for m2 by (simp add: doNodes_def)
    show ?thesis
      using env assms(3) nx loop Some e1 e3
      by (auto simp: DispatchMsg_def task_callback_def freeEnvelope_def d0 split: bind_split)
  qed
qed

subsection \<open>Cancelling\<close>

text \<open>The envelope of a task, when it is one of the fabric's.\<close>

definition envOf :: "(addr \<Rightarrow> (func, ptr) task_entry option) \<Rightarrow> addr \<Rightarrow> ptr option" where
  "envOf T c = (case T c of None \<Rightarrow> None | Some t \<Rightarrow> if callback t = Some FDispatchMsg then tdata t else None)"

definition queued_ok :: "machine \<Rightarrow> addr list \<Rightarrow> bool" where
  "queued_ok m xs \<longleftrightarrow> (\<forall>c \<in> set xs. \<exists>t. tasks m c = Some t \<and>
     (callback t = Some FDispatchMsg \<longrightarrow> (\<exists>e. tdata t = Some e \<and> envelopes (world m) e \<noteq> None)))"

definition cancelled :: "ptr \<Rightarrow> ptr set \<Rightarrow> (ptr \<Rightarrow> envelope option) \<Rightarrow> ptr \<Rightarrow> envelope option" where
  "cancelled dead E v e = map_option (\<lambda>env. if e \<in> E \<and> einst env = dead then env\<lparr>eport := 0\<rparr> else env) (v e)"

definition envsOf :: "machine \<Rightarrow> addr list \<Rightarrow> ptr set" where
  "envsOf m xs = {e. \<exists>c \<in> set xs. envOf (tasks m) c = Some e}"

lemma cancelled_empty [simp]: "cancelled dead {} v = v"
  by (auto simp: cancelled_def fun_eq_iff option.map_ident)

lemma cancelled_union: "cancelled dead E (cancelled dead F v) = cancelled dead (F \<union> E) v"
  by (auto simp: cancelled_def fun_eq_iff map_option_case split: option.split)

lemma envsOf_append: "envsOf m (xs @ ys) = envsOf m xs \<union> envsOf m ys"
  and envsOf_Cons: "envsOf m (c # xs) = set_option (envOf (tasks m) c) \<union> envsOf m xs"
  and envsOf_world [simp]: "envsOf (m\<lparr>world := w\<rparr>) xs = envsOf m xs"
  by (auto simp: envsOf_def)

lemma cancelled_none: "\<forall>env. v e = Some env \<longrightarrow> einst env \<noteq> dead \<Longrightarrow> cancelled dead {e} v = v"
  by (auto simp: cancelled_def fun_eq_iff map_option_case split: option.split)

lemma cancelFrom_cancels:
  assumes "fwd (tasks m) xs" and "queued_ok m xs"
  shows "cancelFrom dead (first xs None) m
    = Some (m\<lparr>world := (world m)\<lparr>envelopes := cancelled dead (envsOf m xs) (envelopes (world m))\<rparr>\<rparr>)"
  using assms
proof (induction xs arbitrary: m)
  case Nil
  then show ?case by (subst cancelFrom.simps) (simp add: envsOf_def)
next
  case (Cons c xs)
  from Cons.prems obtain t where t: "tasks m c = Some t" "tnext t = first xs None" "fwd (tasks m) xs"
    and q: "callback t = Some FDispatchMsg \<longrightarrow> (\<exists>e. tdata t = Some e \<and> envelopes (world m) e \<noteq> None)"
    by (auto simp: queued_ok_def)
  define e where "e = envOf (tasks m) c"
  define m1 where "m1 = m\<lparr>world := (world m)\<lparr>envelopes := cancelled dead (set_option e) (envelopes (world m))\<rparr>\<rparr>"
  have step: "(if callback t \<noteq> Some FDispatchMsg then Some m
       else case tdata t of None \<Rightarrow> None
         | Some e \<Rightarrow> do {
             env \<leftarrow> envelopes (world m) e;
             if einst env = dead then setEnvelope e (\<lambda>v. v\<lparr>eport := 0\<rparr>) m else Some m }) = Some m1"
  proof (cases "callback t = Some FDispatchMsg")
    case True
    with q obtain e' env where e': "tdata t = Some e'" "envelopes (world m) e' = Some env" by auto
    have "cancelled dead {e'} (envelopes (world m)) = (envelopes (world m))(e' \<mapsto> env\<lparr>eport := 0\<rparr>)" if "einst env = dead"
      using e' that by (auto simp: cancelled_def fun_eq_iff map_option_case split: option.split)
    with True t(1) e' cancelled_none [of "envelopes (world m)" e' dead] show ?thesis
      by (auto simp: m1_def e_def envOf_def setEnvelope_def)
  qed (simp add: m1_def e_def envOf_def t(1))
  have "queued_ok m1 xs" using Cons.prems(2) by (fastforce simp: queued_ok_def m1_def cancelled_def)
  from Cons.IH [OF _ this] t(3)
  have "cancelFrom dead (first xs None) m1
      = Some (m1\<lparr>world := (world m1)\<lparr>envelopes := cancelled dead (envsOf m1 xs) (envelopes (world m1))\<rparr>\<rparr>)"
    by (simp add: m1_def)
  moreover have "cancelled dead (envsOf m1 xs) (envelopes (world m1)) = cancelled dead (envsOf m (c # xs)) (envelopes (world m))"
    by (simp add: m1_def cancelled_union e_def envsOf_Cons)
  ultimately show ?case using t step by (subst cancelFrom.simps) (simp add: m1_def)
qed


subsection \<open>A concrete fabric\<close>

text \<open>Instance 10 has the property 11 (\<open>Value\<close>), to which instance 20 subscribes (record 12) with the
  handler 900; its property 21 (\<open>In\<close>) has a handler record (22) with the function 901.  Task 7 carries
  envelope 40 with the message node 41.\<close>

definition nd :: "string \<Rightarrow> data \<Rightarrow> ptr \<Rightarrow> ptr \<Rightarrow> node" where
  "nd nm d p s = \<lparr>nname = nm, nvalue = Some d, props = p, parent = 0, child = 0, nextSib = s, link = 0\<rparr>"

lemma nd_simps [simp]:
  "nname (nd nm d p s) = nm" "nvalue (nd nm d p s) = Some d" "props (nd nm d p s) = p" "parent (nd nm d p s) = 0"
  "child (nd nm d p s) = 0" "nextSib (nd nm d p s) = s" "link (nd nm d p s) = 0"
  by (simp_all add: nd_def)

definition wired_nodes :: "ptr \<Rightarrow> node option" where
  "wired_nodes = [10 \<mapsto> nd ''Button'' (stored_int 0) 11 0, 11 \<mapsto> nd ''Value'' (stored_str (Some ''0'')) 12 0,
     12 \<mapsto> nd ''Subscriber'' (stored_int 0) 13 0, 13 \<mapsto> nd ''Callback'' (stored_long 900) 0 14,
     14 \<mapsto> nd ''Instance'' (stored_long 20) 0 0, 20 \<mapsto> nd ''Panel'' (stored_int 0) 21 0,
     21 \<mapsto> nd ''In'' (stored_str (Some [])) 22 0, 22 \<mapsto> nd ''Handler'' (stored_int 0) 23 0,
     23 \<mapsto> nd ''OnMsg'' (stored_long 901) 0 0, 41 \<mapsto> nd ''Value'' (stored_str (Some ''0'')) 0 0]"

definition wired_env :: envelope where
  "wired_env = \<lparr>einst = 10, eport = 11, emessage = msg_change, edata = 41, etask = 7\<rparr>"

definition wired :: machine where
  "wired = \<lparr>tasks = [7 \<mapsto> \<lparr>tnext = None, tprev = None, owner = 1, seconds = 100, micros = 5, callback = Some FDispatchMsg,
       tdata = Some 40, linked = True\<rparr>],
     lists = [1 \<mapsto> \<lparr>lhead = Some 7, ltail = Some 7, runnow = Some 2, pool = None, insertHint = None\<rparr>,
              2 \<mapsto> \<lparr>lhead = None, ltail = None, runnow = None, pool = None, insertHint = None\<rparr>],
     clock_s = 100, clock_us = 5, fresh_task = 8, fresh_list = 3, tasksAlive = 1,
     world = \<lparr>nodes = wired_nodes, unused = [50, 51], nodesAlive = 10, datasAlive = 20, curFromNode = 0,
       objTaskList = Some 1, envelopes = [40 \<mapsto> wired_env], envelopesAlive = 1, pathIndex = None,
       classIndex = None, regObjList = 0\<rparr>\<rparr>"

text \<open>A handler that does nothing and answers that it has handled the message.\<close>

definition quiet :: caller where
  "quiet f own message data m = Some (rtrn_handled, m)"

lemma wired_world [simp]:
  "nodes (world wired) = wired_nodes" "unused (world wired) = [50, 51]" "objTaskList (world wired) = Some 1"
  "envelopes (world wired) = [40 \<mapsto> wired_env]" "clock_s wired = 100" "clock_us wired = 5"
  by (simp_all add: wired_def)

lemma wired_sel [simp]:
  "wired_nodes 10 = Some (nd ''Button'' (stored_int 0) 11 0)" "wired_nodes 11 = Some (nd ''Value'' (stored_str (Some ''0'')) 12 0)"
  "wired_nodes 12 = Some (nd ''Subscriber'' (stored_int 0) 13 0)" "wired_nodes 13 = Some (nd ''Callback'' (stored_long 900) 0 14)"
  "wired_nodes 14 = Some (nd ''Instance'' (stored_long 20) 0 0)" "wired_nodes 20 = Some (nd ''Panel'' (stored_int 0) 21 0)"
  "wired_nodes 21 = Some (nd ''In'' (stored_str (Some [])) 22 0)" "wired_nodes 22 = Some (nd ''Handler'' (stored_int 0) 23 0)"
  "wired_nodes 23 = Some (nd ''OnMsg'' (stored_long 901) 0 0)" "wired_nodes 41 = Some (nd ''Value'' (stored_str (Some ''0'')) 0 0)"
  "wired_nodes 0 = None" "wired_nodes 50 = None" "wired_nodes 51 = None"
  by (simp_all add: wired_nodes_def)

lemma prop_long:
  assumes "proplist w p ps" and "firstNamed (nodes w) name ps = q" and "q \<noteq> 0"
    and "nodes w q = Some n" and "nvalue n = Some (stored_long v)"
  shows "GetPropLong p name w = Some (v, w)"
  using assms long_prop.read_stored [of w q n v] by (simp add: GetPropLong_def GetPropNode_first GetValueLong_def)

lemma prop_long_absent: "proplist w p ps \<Longrightarrow> firstNamed (nodes w) name ps = 0 \<Longrightarrow> GetPropLong p name w = Some (0, w)"
  by (simp add: GetPropLong_def GetPropNode_first)

lemma wired_lists:
  "nodes w = wired_nodes \<Longrightarrow> proplist w 10 [11]" "nodes w = wired_nodes \<Longrightarrow> proplist w 11 [12]"
  "nodes w = wired_nodes \<Longrightarrow> proplist w 12 [13, 14]" "nodes w = wired_nodes \<Longrightarrow> proplist w 21 [22]"
  "nodes w = wired_nodes \<Longrightarrow> proplist w 22 [23]"
  by (simp_all add: proplist_def)

lemma wired_handlers: "handlers (world wired) 21 [22] [22] (\<lambda>_. 901) 0"
  using wired_lists(4,5) [of "world wired"] prop_long [OF wired_lists(5), of "world wired" "''OnMsg''" 23]
    prop_long_absent [OF wired_lists(4), of "world wired" "''OnMsg''"]
  by (simp add: handlers_def)

lemma wired_sched: "sched_inv wired 1 [7]" "task_supply wired 1 [7] 8"
  by (simp_all add: sched_inv_def task_supply_def chain_def members_def wired_def)


theorem HasHandler_iff_found_witness: "HasHandler 21 wired = Some (True, wired)"
  using HasHandler_iff_found [OF wired_handlers] by (simp add: callOrder_def)

theorem SetPropStr_queues_one_message_witness:
  "\<exists>m' k. SetPropStr 10 ''Value'' (Some ''1'') wired = Some m' \<and> sched_inv m' 1 [7, 8]
     \<and> tasks m' 8 = Some k \<and> callback k = Some FDispatchMsg \<and> tdata k = Some 51 \<and> EnvelopeCount m' = EnvelopeCount wired + 1"
proof -
  have h: "heap_ok (world wired)" "unused (world wired) = 50 # 51 # []" by (simp_all add: heap_ok_def)
  have n: "name_ok (world wired) 10 [11]" using wired_lists(1) [of "world wired"] by (simp add: name_ok_def)
  have i: "insert_due (tasks wired) 100 5 8 [7] = [7, 8]"
    by (simp add: insert_due_def not_later_def due_le_def wired_def)
  show ?thesis
    using SetPropStr_queues_one_message [OF h wired_world(3) wired_sched n _ _ wired_lists(2), of "''Value''" "nd ''Value'' (stored_str (Some ''0'')) 12 0" "''1''"] i
    by (auto simp: dueTime_def)
qed

theorem DispatchMsg_delivers_in_order_witness:
  "DispatchMsg quiet 40 task_callback wired = do {
      m1 \<leftarrow> deliverAll quiet wired_env [12] wired;
      m2 \<leftarrow> RemoveTask 7 m1;
      m3 \<leftarrow> doNodes (DelNode 41) m2;
      Some (m3\<lparr>world := (world m3)\<lparr>envelopes := (envelopes (world m3))(40 := None),
         envelopesAlive := envelopesAlive (world m3) - 1\<rparr>\<rparr>) }"
proof -
  let ?P = "\<lambda>w. nodes w = wired_nodes \<and> envelopes w = [40 \<mapsto> wired_env]"
  have fl: "\<forall>w. ?P w \<longrightarrow> in_flight w 40 wired_env [12] [12]"
    using wired_lists(2) by (auto simp: in_flight_def wired_env_def)
  have "DeliverToSubscriber quiet 12 msg d f m = Some m' \<Longrightarrow> ?P (world m) \<Longrightarrow> ?P (world m')" for msg d f m m'
    using prop_long [OF wired_lists(3), of "world m" "''Callback''" 13] prop_long [OF wired_lists(3), of "world m" "''Instance''" 14]
    by (auto simp: DeliverToSubscriber_def quiet_def setFrom_def Let_def)
  then have "delivery_keeps quiet wired_env [12] ?P" by (simp add: delivery_keeps_def)
  then show ?thesis
    using DispatchMsg_delivers_in_order [of ?P wired 40 wired_env "[12]" "[12]" quiet] fl by (simp add: wired_env_def)
qed



end
