(* ===== verification/NodeText.thy ===== *)
theory NodeText
  imports Fabric "HOL-Library.Log_Nat"
begin

text \<open>
  The text format of \<open>src/node.c\<close>: a node tree as JSON text and back, and the flat objects of the
  bridge protocol.

  A C text is the list of its characters before the NUL; a cursor is what is left of it, and a read
  past the NUL yields \<open>None\<close>.  The text buffer is its contents and the size of its block.  Encoding
  and parsing are recursive over the heap and the text; what does not return is \<open>None\<close> as well.
  A number out of the range of its type, and a real whose text is not a plain decimal (infinities,
  NaN, hexadecimal floats), are not modelled: \<open>None\<close>.
\<close>

subsection \<open>Types by name\<close>

definition TypeName :: "dtype \<Rightarrow> string" where
  "TypeName type = (case type of INTEGER \<Rightarrow> ''integer'' | HEX \<Rightarrow> ''hex'' | REAL \<Rightarrow> ''real'' | LONG \<Rightarrow> ''long''
     | _ \<Rightarrow> ''string'')"

definition TypeFromName :: "string option \<Rightarrow> dtype" where
  "TypeFromName name = (case name of None \<Rightarrow> STRING
     | Some s \<Rightarrow> if s = ''integer'' then INTEGER else if s = ''hex'' then HEX else if s = ''real'' then REAL
                 else if s = ''long'' then LONG else STRING)"

subsection \<open>The text buffer\<close>

record strbuf =
  sbuf :: string
  cap :: nat

definition sbInit :: strbuf where
  "sbInit = \<lparr>sbuf = [], cap = 256\<rparr>"

function growCap :: "nat \<Rightarrow> nat \<Rightarrow> nat" where
  "growCap c need = (if need > c \<and> c > 0 then growCap (c * 2) need else c)"
  by auto
termination by (relation "measure (\<lambda>(c, need). need - c)") auto

declare growCap.simps [simp del]

definition sbAppendN :: "strbuf \<Rightarrow> string \<Rightarrow> strbuf" where
  "sbAppendN sb s = \<lparr>sbuf = sbuf sb @ s, cap = growCap (cap sb) (length (sbuf sb) + length s + 1)\<rparr>"

definition sbAppend :: "strbuf \<Rightarrow> string \<Rightarrow> strbuf" where
  "sbAppend sb s = sbAppendN sb s"

definition sbAppendChar :: "strbuf \<Rightarrow> char \<Rightarrow> strbuf" where
  "sbAppendChar sb c = sbAppendN sb [c]"

subsection \<open>Encoding\<close>

abbreviation (input) "QUOTE \<equiv> CHR 0x22"
abbreviation (input) "BACKSLASH \<equiv> CHR 0x5C"

text \<open>The four digits of \<open>snprintf\<close> with \<open>%04x\<close>.\<close>

definition hex4 :: "nat \<Rightarrow> string" where
  "hex4 n = replicate (4 - length (show_base 16 n)) (CHR ''0'') @ show_base 16 n"

definition escapeChar :: "char \<Rightarrow> string" where
  "escapeChar c =
     (if c = QUOTE then [BACKSLASH, QUOTE]
      else if c = BACKSLASH then [BACKSLASH, BACKSLASH]
      else if c = CHR 0x0A then BACKSLASH # ''n''
      else if c = CHR 0x0D then BACKSLASH # ''r''
      else if c = CHR 0x09 then BACKSLASH # ''t''
      else if c = CHR 0x08 then BACKSLASH # ''b''
      else if c = CHR 0x0C then BACKSLASH # ''f''
      else if of_char c < (32 :: nat) then BACKSLASH # CHR ''u'' # hex4 (of_char c)
      else [c])"

definition sbAppendJsonString :: "strbuf \<Rightarrow> string option \<Rightarrow> strbuf" where
  "sbAppendJsonString sb s = (let sb1 = sbAppendChar sb QUOTE;
       sb2 = (case s of None \<Rightarrow> sb1 | Some t \<Rightarrow> foldl (\<lambda>b c. sbAppend b (escapeChar c)) sb1 (cstr t))
     in sbAppendChar sb2 QUOTE)"

text \<open>\<open>EncodeNode\<close> of one node and the loop of \<open>EncodeList\<close> over a sibling chain (with \<open>first\<close>) call each
  other; reading a value may cache its text in the node.\<close>

datatype encJob = ENode ptr | ESibs ptr bool

partial_function (option) encode :: "encJob \<Rightarrow> strbuf \<Rightarrow> 'a nheap_scheme \<Rightarrow> (strbuf \<times> 'a nheap_scheme) option" where
  "encode job sb h = (case job of
     ENode p \<Rightarrow> do {
       n \<leftarrow> nodes h p;
       let sb1 = sbAppendJsonString (sbAppend (sbAppendChar sb (CHR ''{'')) (QUOTE # ''name'' @ [QUOTE, CHR '':''])) (Some (nname n));
       let sb2 = sbAppendJsonString (sbAppend sb1 (CHR '','' # QUOTE # ''type'' @ [QUOTE, CHR '':'']))
                   (Some (TypeName (GetDataType (nvalue n))));
       (v, h1) \<leftarrow> readValue GetStr p h;
       let sb3 = sbAppendJsonString (sbAppend sb2 (CHR '','' # QUOTE # ''value'' @ [QUOTE, CHR '':''])) v;
       n1 \<leftarrow> nodes h1 p;
       (sb4, h2) \<leftarrow> encode (ESibs (props n1) True)
          (sbAppendChar (sbAppend sb3 (CHR '','' # QUOTE # ''props'' @ [QUOTE, CHR '':''])) (CHR ''['')) h1;
       n2 \<leftarrow> nodes h2 p;
       (sb5, h3) \<leftarrow> encode (ESibs (child n2) True)
          (sbAppendChar (sbAppend (sbAppendChar sb4 (CHR '']'')) (CHR '','' # QUOTE # ''children'' @ [QUOTE, CHR '':''])) (CHR ''['')) h2;
       Some (sbAppendChar (sbAppendChar sb5 (CHR '']'')) (CHR ''}''), h3) }
   | ESibs current first \<Rightarrow>
       if current = 0 then Some (sb, h)
       else do {
         (sb1, h1) \<leftarrow> encode (ENode current) (if first then sb else sbAppendChar sb (CHR '','')) h;
         n \<leftarrow> nodes h1 current;
         encode (ESibs (nextSib n) False) sb1 h1 })"

declare encode.simps [code]

definition EncodeNode :: "ptr \<Rightarrow> strbuf \<Rightarrow> 'a nheap_scheme \<Rightarrow> (strbuf \<times> 'a nheap_scheme) option" where
  "EncodeNode p sb h = encode (ENode p) sb h"

definition EncodeList :: "ptr \<Rightarrow> strbuf \<Rightarrow> 'a nheap_scheme \<Rightarrow> (strbuf \<times> 'a nheap_scheme) option" where
  "EncodeList head sb h = do {
     (sb1, h1) \<leftarrow> encode (ESibs head True) (sbAppendChar sb (CHR ''['')) h;
     Some (sbAppendChar sb1 (CHR '']''), h1) }"

definition NodeToText :: "ptr \<Rightarrow> 'a nheap_scheme \<Rightarrow> (string option \<times> 'a nheap_scheme) option" where
  "NodeToText p h = (if p = 0 then Some (None, h)
     else do { (sb, h1) \<leftarrow> EncodeNode p sbInit h; Some (Some (sbuf sb), h1) })"

definition JsonEscapeStr :: "string option \<Rightarrow> string" where
  "JsonEscapeStr s = sbuf (sbAppendJsonString sbInit s)"

subsection \<open>Parsing texts\<close>

definition SkipWs :: "string \<Rightarrow> string" where
  "SkipWs s = dropWhile (\<lambda>c. c = CHR '' '' \<or> c = CHR 0x09 \<or> c = CHR 0x0A \<or> c = CHR 0x0D) s"

definition hexDigit :: "char \<Rightarrow> nat" where
  "hexDigit h = (if isdigit h then of_char h - 48
     else if 97 \<le> (of_char h :: nat) \<and> of_char h \<le> (102 :: nat) then of_char h - 87
     else if 65 \<le> (of_char h :: nat) \<and> of_char h \<le> (70 :: nat) then of_char h - 55 else 0)"

text \<open>The code point as UTF-8, one to three bytes.\<close>

definition utf8 :: "nat \<Rightarrow> string" where
  "utf8 cp = (if cp < 128 then [char_of cp]
     else if cp < 2048 then [char_of (192 + cp div 64), char_of (128 + cp mod 64)]
     else [char_of (224 + cp div 4096), char_of (128 + cp div 64 mod 64), char_of (128 + cp mod 64)])"

text \<open>What one escape stands for, from the character after the backslash: the bytes and the rest.  The code
  steps over the NUL when the text ends inside the escape.\<close>

fun unescape :: "string \<Rightarrow> (string \<times> string) option" where
  "unescape [] = None"
| "unescape (c # s) =
     (if c = QUOTE \<or> c = BACKSLASH \<or> c = CHR ''/'' then Some ([c], s)
      else if c = CHR ''n'' then Some ([CHR 0x0A], s)
      else if c = CHR ''r'' then Some ([CHR 0x0D], s)
      else if c = CHR ''t'' then Some ([CHR 0x09], s)
      else if c = CHR ''b'' then Some ([CHR 0x08], s)
      else if c = CHR ''f'' then Some ([CHR 0x0C], s)
      else if c = CHR ''u'' then
        (case s of h1 # h2 # h3 # h4 # t \<Rightarrow>
            Some (utf8 (((hexDigit h1 * 16 + hexDigit h2) * 16 + hexDigit h3) * 16 + hexDigit h4), t)
         | _ \<Rightarrow> None)
      else Some ([], s))"

lemma unescape_shorter: "unescape s = Some (b, t) \<Longrightarrow> length t < length s"
  by (cases s) (auto split: if_splits list.splits)

text \<open>The loop of \<open>ParseJsonString\<close>, with what is in the buffer.\<close>

function stringLoop :: "string \<Rightarrow> string \<Rightarrow> (string \<times> string) option" where
  "stringLoop buf [] = Some (buf, [])"
| "stringLoop buf (c # s) =
     (if c = QUOTE then Some (buf, c # s)
      else if c = BACKSLASH then (case unescape s of None \<Rightarrow> None | Some (b, t) \<Rightarrow> stringLoop (buf @ b) t)
      else stringLoop (buf @ [c]) s)"
  by pat_completeness auto
termination
  by (relation "measure (\<lambda>(buf, s). length s)") (auto dest: unescape_shorter)

definition ParseJsonString :: "string \<Rightarrow> (string \<times> string) option" where
  "ParseJsonString s = (case s of
     [] \<Rightarrow> Some ([], [])
   | c # t \<Rightarrow> if c \<noteq> QUOTE then Some ([], s)
       else do {
         (buf, r) \<leftarrow> stringLoop [] t;
         Some (cstr buf, case r of [] \<Rightarrow> [] | d # u \<Rightarrow> if d = QUOTE then u else r) })"

subsection \<open>Numbers from text\<close>

text \<open>\<open>atoi\<close> and \<open>atol\<close>: white space, a sign, digits; out of range is undefined.\<close>

definition decimal :: "string \<Rightarrow> int" where
  "decimal s = (let t = dropWhile isspace s in case t of
     [] \<Rightarrow> 0
   | c # u \<Rightarrow> if c = CHR ''-'' then - int (dec_fold 0 (takeWhile isdigit u))
              else if c = CHR ''+'' then int (dec_fold 0 (takeWhile isdigit u))
              else int (dec_fold 0 (takeWhile isdigit t)))"

definition atoi :: "string \<Rightarrow> 32 word option" where
  "atoi s = (let i = decimal s in if - (2 ^ 31) \<le> i \<and> i < 2 ^ 31 then Some (word_of_int i) else None)"

definition atol :: "string \<Rightarrow> 64 word option" where
  "atol s = (let i = decimal s in if - (2 ^ 63) \<le> i \<and> i < 2 ^ 63 then Some (word_of_int i) else None)"

text \<open>The \<open>double\<close> nearest to a positive rational \<open>a / b\<close> (ties to even): 53 significant bits, no bit
  below \<open>2 ^ (-1074)\<close>; \<open>None\<close> when it is too large.\<close>

definition pow2 :: "int \<Rightarrow> rat" where
  "pow2 e = (if 0 \<le> e then 2 ^ nat e else 1 / 2 ^ nat (- e))"

definition nearestDouble :: "nat \<Rightarrow> nat \<Rightarrow> rat option" where
  "nearestDouble a b = (if a = 0 then Some 0 else
     let x = of_nat a / of_nat b;
         e0 = int (floorlog 2 a) - int (floorlog 2 b);
         e1 = (if x < pow2 e0 then e0 - 1 else e0);
         e = max (e1 - 52) (- 1074);
         y = of_int (round_even (x / pow2 e)) * pow2 e
     in if y < pow2 1024 then Some y else None)"

text \<open>\<open>atof\<close>: a sign, digits with an optional point, an optional exponent.\<close>

definition atof :: "string \<Rightarrow> rat option" where
  "atof s = (let t = dropWhile isspace s;
       neg = (t \<noteq> [] \<and> hd t = CHR ''-'');
       u = (if t \<noteq> [] \<and> (hd t = CHR ''-'' \<or> hd t = CHR ''+'') then tl t else t);
       ip = takeWhile isdigit u; r1 = dropWhile isdigit u;
       fp = (if r1 \<noteq> [] \<and> hd r1 = CHR ''.'' then takeWhile isdigit (tl r1) else []);
       r2 = (if r1 \<noteq> [] \<and> hd r1 = CHR ''.'' then dropWhile isdigit (tl r1) else r1);
       r3 = (if r2 \<noteq> [] \<and> (hd r2 = CHR ''e'' \<or> hd r2 = CHR ''E'') then tl r2 else []);
       ex = (if r3 \<noteq> [] \<and> (isdigit (hd r3) \<or> (hd r3 = CHR ''-'' \<or> hd r3 = CHR ''+'') \<and> tl r3 \<noteq> [] \<and> isdigit (hd (tl r3)))
             then decimal r3 else 0);
       k = ex - int (length fp);
       d = dec_fold 0 (ip @ fp)
     in if u \<noteq> [] \<and> hd u \<in> {CHR ''i'', CHR ''I'', CHR ''n'', CHR ''N''} then None
        else if ip = ''0'' \<and> r1 \<noteq> [] \<and> hd r1 \<in> {CHR ''x'', CHR ''X''} then None
        else if ip @ fp = [] then Some 0
        else map_option (\<lambda>y. if neg then - y else y)
               (if 0 \<le> k then nearestDouble (d * 10 ^ nat k) 1 else nearestDouble d (10 ^ nat (- k))))"

subsection \<open>Parsing nodes\<close>

text \<open>What \<open>ParseNodeObject\<close> has collected of an object.\<close>

record fields =
  fname :: "string option"
  ftype :: "string option"
  fvalue :: "string option"
  fprops :: ptr
  fchildren :: ptr

definition noFields :: fields where
  "noFields = \<lparr>fname = None, ftype = None, fvalue = None, fprops = 0, fchildren = 0\<rparr>"

definition peek :: "string \<Rightarrow> char" where
  "peek s = (case s of [] \<Rightarrow> CHR 0x00 | c # _ \<Rightarrow> c)"

partial_function (option) adopt :: "ptr \<Rightarrow> ptr \<Rightarrow> 'a nheap_scheme \<Rightarrow> 'a nheap_scheme option" where
  "adopt p ch h = (if ch = 0 then Some h else do {
     h1 \<leftarrow> setN ch (\<lambda>n. n\<lparr>parent := p\<rparr>) h;
     n \<leftarrow> nodes h1 ch;
     adopt p (nextSib n) h1 })"

declare adopt.simps [code]

text \<open>The end of \<open>ParseNodeObject\<close>: the value by its type, then the node.\<close>

definition setByType :: "dtype \<Rightarrow> string \<Rightarrow> ptr \<Rightarrow> 'a nheap_scheme \<Rightarrow> 'a nheap_scheme option" where
  "setByType type s p h = (case type of
     INTEGER \<Rightarrow> do { i \<leftarrow> atoi s; SetValueInt p i h }
   | LONG \<Rightarrow> do { l \<leftarrow> atol s; SetValueLong p l h }
   | HEX \<Rightarrow> writeValue (\<lambda>v. fst (SetHex v (Some s))) p h
   | REAL \<Rightarrow> do { r \<leftarrow> atof s; writeValue (\<lambda>v. fst (SetReal v r)) p h }
   | _ \<Rightarrow> SetValueStr p (Some s) h)"

definition buildNode :: "fields \<Rightarrow> 'a nheap_scheme \<Rightarrow> (ptr \<times> 'a nheap_scheme) option" where
  "buildNode f h = do {
     let type = TypeFromName (ftype f);
     let (p, h1) = NewNode type h;
     h2 \<leftarrow> (case fname f of None \<Rightarrow> Some h1 | Some s \<Rightarrow> SetName p s h1);
     h3 \<leftarrow> (case fvalue f of None \<Rightarrow> Some h2 | Some s \<Rightarrow> setByType type s p h2);
     h4 \<leftarrow> setN p (\<lambda>n. n\<lparr>props := fprops f\<rparr>) h3;
     h5 \<leftarrow> setN p (\<lambda>n. n\<lparr>child := fchildren f\<rparr>) h4;
     h6 \<leftarrow> adopt p (fchildren f) h5;
     Some (p, h6) }"

text \<open>The four loops of the parser call each other: an object, its fields, an array, its items (with the
  first and the last node so far).  The result is a node, the fields, the rest of the text and the heap.\<close>

datatype parseJob = JObject | JFields fields | JArray | JItems ptr ptr

partial_function (option) parse :: "parseJob \<Rightarrow> string \<Rightarrow> 'a nheap_scheme
    \<Rightarrow> ((ptr \<times> fields) \<times> string \<times> 'a nheap_scheme) option" where
  "parse job s h = (case job of
     JObject \<Rightarrow>
       if peek s \<noteq> CHR ''{'' then Some ((0, noFields), s, h)
       else do {
         let s1 = SkipWs (tl s);
         ((_, f), s2, h1) \<leftarrow> (if peek s1 = CHR ''}'' then Some ((0, noFields), tl s1, h)
                            else parse (JFields noFields) s1 h);
         (p, h2) \<leftarrow> buildNode f h1;
         Some ((p, f), s2, h2) }
   | JFields f \<Rightarrow> do {
       let s1 = SkipWs s;
       if peek s1 \<noteq> QUOTE then Some ((0, f), s1, h)
       else do {
         (key, s2) \<leftarrow> ParseJsonString s1;
         let s3 = SkipWs s2;
         let s4 = SkipWs (if peek s3 = CHR '':'' then tl s3 else s3);
         (f1, s5, h1) \<leftarrow>
           (if key = ''name'' then do { (v, r) \<leftarrow> ParseJsonString s4; Some (f\<lparr>fname := Some v\<rparr>, r, h) }
            else if key = ''type'' then do { (v, r) \<leftarrow> ParseJsonString s4; Some (f\<lparr>ftype := Some v\<rparr>, r, h) }
            else if key = ''value'' then do { (v, r) \<leftarrow> ParseJsonString s4; Some (f\<lparr>fvalue := Some v\<rparr>, r, h) }
            else if key = ''props'' then do { ((p, _), r, h1) \<leftarrow> parse JArray s4 h; Some (f\<lparr>fprops := p\<rparr>, r, h1) }
            else if key = ''children'' then do { ((p, _), r, h1) \<leftarrow> parse JArray s4 h; Some (f\<lparr>fchildren := p\<rparr>, r, h1) }
            else if peek s4 = QUOTE then do { (_, r) \<leftarrow> ParseJsonString s4; Some (f, r, h) }
            else Some (f, s4, h));
         let s6 = SkipWs s5;
         if peek s6 = CHR '','' then parse (JFields f1) (tl s6) h1
         else if peek s6 = CHR ''}'' then Some ((0, f1), tl s6, h1)
         else Some ((0, f1), s6, h1) } }
   | JArray \<Rightarrow>
       if peek s \<noteq> CHR ''['' then Some ((0, noFields), s, h)
       else do {
         let s1 = SkipWs (tl s);
         if peek s1 = CHR '']'' then Some ((0, noFields), tl s1, h)
         else parse (JItems 0 0) s1 h }
   | JItems head tail \<Rightarrow> do {
       ((n, _), s1, h1) \<leftarrow> parse JObject (SkipWs s) h;
       (head1, tail1, h2) \<leftarrow>
         (if n = 0 then Some (head, tail, h1)
          else if tail = 0 then Some (n, n, h1)
          else do { h2 \<leftarrow> setN tail (\<lambda>k. k\<lparr>nextSib := n\<rparr>) h1; Some (head, n, h2) });
       let s2 = SkipWs s1;
       if peek s2 = CHR '','' then parse (JItems head1 tail1) (tl s2) h2
       else if peek s2 = CHR '']'' then Some ((head1, noFields), tl s2, h2)
       else Some ((head1, noFields), s2, h2) })"

declare parse.simps [code]

definition ParseNodeObject :: "string \<Rightarrow> 'a nheap_scheme \<Rightarrow> (ptr \<times> string \<times> 'a nheap_scheme) option" where
  "ParseNodeObject s h = map_option (\<lambda>((p, _), r, h1). (p, r, h1)) (parse JObject s h)"

definition ParseArray :: "string \<Rightarrow> 'a nheap_scheme \<Rightarrow> (ptr \<times> string \<times> 'a nheap_scheme) option" where
  "ParseArray s h = map_option (\<lambda>((p, _), r, h1). (p, r, h1)) (parse JArray s h)"

definition TextToNode :: "string option \<Rightarrow> 'a nheap_scheme \<Rightarrow> (ptr \<times> 'a nheap_scheme) option" where
  "TextToNode text h = (case text of None \<Rightarrow> Some (0, h)
     | Some t \<Rightarrow> let s = SkipWs t in
         if peek s \<noteq> CHR ''{'' then Some (0, h)
         else map_option (\<lambda>(p, _, h1). (p, h1)) (ParseNodeObject s h))"

text \<open>The flat objects of the bridge protocol: the pairs become text properties.\<close>

partial_function (option) pairLoop :: "ptr \<Rightarrow> string \<Rightarrow> machine \<Rightarrow> machine option" where
  "pairLoop p s m = (let s1 = SkipWs s in
     if peek s1 \<noteq> QUOTE then Some m
     else do {
       (key, s2) \<leftarrow> ParseJsonString s1;
       let s3 = SkipWs s2;
       (val, s4) \<leftarrow> ParseJsonString (SkipWs (if peek s3 = CHR '':'' then tl s3 else s3));
       m1 \<leftarrow> SetPropStr p key (Some val) m;
       let s5 = SkipWs s4;
       if peek s5 = CHR '','' then pairLoop p (tl s5) m1 else Some m1 })"

declare pairLoop.simps [code]

definition TextToProps :: "string option \<Rightarrow> machine \<Rightarrow> (ptr \<times> machine) option" where
  "TextToProps text m = (case text of None \<Rightarrow> Some (0, m)
     | Some t \<Rightarrow> let s = SkipWs t in
         if peek s \<noteq> CHR ''{'' then Some (0, m)
         else let (p, m1) = newNode INTEGER m in do {
           m2 \<leftarrow> doNodes (SetName p ''Command'') m1;
           let s1 = SkipWs (tl s);
           if peek s1 = CHR ''}'' then Some (p, m2)
           else map_option (\<lambda>m3. (p, m3)) (pairLoop p s1 m2) })"

end
