(* ===== verification/NodeText_Print.thy ===== *)
theory NodeText_Print
  imports NodeText Node_Lists
begin

text \<open>
  Proofs on \<open>NodeText\<close>: escapes and their parsing, the growth of the text buffer, the text of a tree,
  that encoding writes exactly it, and what a text keeps of a tree.
\<close>

subsection \<open>Escapes\<close>

lemma hexDigit_digit_char [simp]: "d < 16 \<Longrightarrow> hexDigit (digit_char d) = d"
  by (drule less_16_cases) (auto simp: hexDigit_def digit_char_def isdigit_def)

lemma show_base_16_small: "n < 16 \<Longrightarrow> show_base 16 n = [digit_char n]"
  by (subst show_base.simps) simp

lemma show_base_16_byte: "16 \<le> n \<Longrightarrow> n < 256 \<Longrightarrow> show_base 16 n = [digit_char (n div 16), digit_char (n mod 16)]"
  by (subst show_base.simps) (simp add: show_base_16_small less_mult_imp_div_less)

lemma hex4_byte: "n < 256 \<Longrightarrow> hex4 n = [CHR ''0'', CHR ''0'', digit_char (n div 16), digit_char (n mod 16)]"
proof (cases "n < 16")
  case True
  have "replicate (4 - 1) (CHR ''0'') = ''000''" by (simp add: replicate_eqI eval_nat_numeral)
  moreover have "digit_char 0 = CHR ''0''" by (simp add: digit_char_def)
  ultimately show ?thesis using True by (simp add: hex4_def show_base_16_small)
next
  case False
  moreover assume "n < 256"
  ultimately have "show_base 16 n = [digit_char (n div 16), digit_char (n mod 16)]" by (simp add: show_base_16_byte)
  moreover have "replicate (4 - 2) (CHR ''0'') = ''00''" by (simp add: eval_nat_numeral)
  ultimately show ?thesis by (simp add: hex4_def)
qed

lemma escapeChar_shape: "escapeChar c = [c] \<and> c \<noteq> QUOTE \<and> c \<noteq> BACKSLASH \<or> (\<exists>e. escapeChar c = BACKSLASH # e)"
  by (simp add: escapeChar_def)

lemma unescape_escapeChar:
  assumes "escapeChar c = BACKSLASH # e"
  shows "unescape (e @ t) = Some ([c], t)"
proof -
  have z: "hexDigit (CHR ''0'') = 0" using hexDigit_digit_char [of 0] by (simp add: digit_char_def)
  have "(of_char c :: nat) < 32 \<Longrightarrow> unescape (CHR ''u'' # hex4 (of_char c) @ t) = Some ([c], t)"
    by (simp add: hex4_byte z utf8_def)
  with assms show ?thesis by (auto simp: escapeChar_def split: if_splits)
qed

definition escaped :: "string \<Rightarrow> string" where
  "escaped s = concat (map escapeChar s)"

lemma stringLoop_escaped: "stringLoop buf (escaped s @ QUOTE # t) = Some (buf @ s, QUOTE # t)"
proof (induction s arbitrary: buf)
  case Nil
  then show ?case by (simp add: escaped_def)
next
  case (Cons c s)
  show ?case
  proof (cases "escapeChar c = [c] \<and> c \<noteq> QUOTE \<and> c \<noteq> BACKSLASH")
    case True
    with Cons show ?thesis by (simp add: escaped_def)
  next
    case False
    then obtain e where e: "escapeChar c = BACKSLASH # e" using escapeChar_shape [of c] by auto
    then show ?thesis
      using unescape_escapeChar [OF e] Cons by (simp add: escaped_def)
  qed
qed

definition quoted :: "string \<Rightarrow> string" where
  "quoted s = QUOTE # escaped s @ [QUOTE]"

lemma ParseJsonString_quoted:
  "CHR 0x00 \<notin> set s \<Longrightarrow> ParseJsonString (quoted s @ t) = Some (s, t)"
  by (simp add: ParseJsonString_def quoted_def stringLoop_escaped)

subsection \<open>The buffer\<close>

text \<open>The room is doubled until the text and its NUL fit.\<close>

lemma growCap_ge: "0 < c \<Longrightarrow> need \<le> growCap c need"
  by (induction c need rule: growCap.induct) (subst growCap.simps, simp)

lemma growCap_twice: "n \<le> k \<Longrightarrow> growCap (growCap c n) k = growCap c k"
proof (induction c n rule: growCap.induct)
  case (1 c n)
  show ?case
  proof (cases "n > c \<and> c > 0")
    case True
    with 1 have "growCap c n = growCap (c * 2) n" "growCap c k = growCap (c * 2) k"
      by (subst growCap.simps, simp)+
    with 1 True show ?thesis by simp
  next
    case False
    then have "growCap c n = c" by (subst growCap.simps) auto
    then show ?thesis by simp
  qed
qed

definition put :: "strbuf \<Rightarrow> string \<Rightarrow> strbuf" where
  "put sb s = (if s = [] then sb else sbAppendN sb s)"

lemma put_simps [simp]:
  "put sb [] = sb" "put (put sb s) t = put sb (s @ t)" "sbuf (put sb s) = sbuf sb @ s"
  by (simp_all add: put_def sbAppendN_def growCap_twice add.assoc)

lemma append_put: "s \<noteq> [] \<Longrightarrow> sbAppend sb s = put sb s" "sbAppendChar sb c = put sb [c]"
  by (simp_all add: put_def sbAppend_def sbAppendChar_def)

lemma escapeChar_nonempty: "escapeChar c \<noteq> []"
  by (simp add: escapeChar_def)

lemma sbAppendJsonString_put: "sbAppendJsonString sb s = put sb (quoted (case s of None \<Rightarrow> [] | Some t \<Rightarrow> cstr t))"
proof -
  have "foldl (\<lambda>b c. sbAppend b (escapeChar c)) b t = put b (escaped t)" for b t
    by (induction t arbitrary: b) (simp_all add: escaped_def append_put escapeChar_nonempty)
  then show ?thesis
    by (cases s) (simp_all add: sbAppendJsonString_def Let_def append_put quoted_def escaped_def)
qed

subsection \<open>The text of a tree\<close>

definition valueText :: "DataObj \<Rightarrow> string" where
  "valueText v = (case GetStr v of Some (_, Some s) \<Rightarrow> cstr s | _ \<Rightarrow> [])"

text \<open>The siblings of a list, with a comma in front of all but the first.\<close>

fun treesText :: "bool \<Rightarrow> tree list \<Rightarrow> string" where
  "treesText start [] = []"
| "treesText start (Tree a nm v ps cs # ts) = (if start then [] else [CHR '','']) @ [CHR ''{'']
     @ quoted ''name'' @ [CHR '':''] @ quoted nm @ [CHR '','']
     @ quoted ''type'' @ [CHR '':''] @ quoted (TypeName (GetDataType v)) @ [CHR '','']
     @ quoted ''value'' @ [CHR '':''] @ quoted (valueText v) @ [CHR '','']
     @ quoted ''props'' @ [CHR '':'', CHR ''[''] @ treesText True ps @ [CHR '']'', CHR '','']
     @ quoted ''children'' @ [CHR '':'', CHR ''[''] @ treesText True cs @ [CHR '']'', CHR ''}'']
     @ treesText False ts"

text \<open>Trees whose names hold no NUL and whose values have a text.\<close>

fun printable :: "tree list \<Rightarrow> bool" where
  "printable [] \<longleftrightarrow> True"
| "printable (Tree a nm v ps cs # ts) \<longleftrightarrow> CHR 0x00 \<notin> set nm \<and> GetStr v \<noteq> None \<and> printable ps \<and> printable cs \<and> printable ts"

definition readText :: "node \<Rightarrow> node" where
  "readText n = n\<lparr>nvalue := fst (the (GetStr (nvalue n)))\<rparr>"

text \<open>The heap after the values of some nodes have been read as text.\<close>

definition textRead :: "ptr set \<Rightarrow> 'a nheap_scheme \<Rightarrow> 'a nheap_scheme" where
  "textRead S h = h\<lparr>nodes := \<lambda>a. if a \<in> S then map_option readText (nodes h a) else nodes h a\<rparr>"

lemma textRead_simps [simp]:
  "textRead {} h = h"
  "nodes (textRead S h) a = (if a \<in> S then map_option readText (nodes h a) else nodes h a)"
  by (simp_all add: textRead_def)

lemma textRead_union: "S \<inter> T = {} \<Longrightarrow> textRead T (textRead S h) = textRead (S \<union> T) h"
  by (rule nheap.equality) (auto simp: textRead_def fun_eq_iff)

lemma readText_sel [simp]:
  "nname (readText n) = nname n" "props (readText n) = props n" "child (readText n) = child n"
  "nextSib (readText n) = nextSib n" "parent (readText n) = parent n" "link (readText n) = link n"
  by (simp_all add: readText_def)

lemma readValue_GetStr:
  assumes "nodes h p = Some n" and "GetStr (nvalue n) \<noteq> None"
  shows "readValue GetStr p h = Some (snd (the (GetStr (nvalue n))), textRead {p} h)"
proof -
  obtain v s where g: "GetStr (nvalue n) = Some (v, s)" using assms(2) by (cases "GetStr (nvalue n)") auto
  then have "h\<lparr>nodes := (nodes h)(p \<mapsto> n\<lparr>nvalue := v\<rparr>)\<rparr> = textRead {p} h"
    using assms(1) by (auto simp: textRead_def readText_def fun_eq_iff)
  with g assms(1) show ?thesis by (simp add: readValue_def)
qed

lemma valueText_quoted:
  "GetStr v \<noteq> None \<Longrightarrow> (case snd (the (GetStr v)) of None \<Rightarrow> [] | Some t \<Rightarrow> cstr t) = valueText v"
  by (auto simp: valueText_def split: option.splits)

lemma TypeName_cstr [simp]: "cstr (TypeName t) = TypeName t" "CHR 0x00 \<notin> set (TypeName t)"
  by (cases t; simp add: TypeName_def)+

lemma key_quoted:
  "QUOTE # ''name'' @ [QUOTE] = quoted ''name''" "QUOTE # ''type'' @ [QUOTE] = quoted ''type''"
  "QUOTE # ''value'' @ [QUOTE] = quoted ''value''" "QUOTE # ''props'' @ [QUOTE] = quoted ''props''"
  "QUOTE # ''children'' @ [QUOTE] = quoted ''children''"
  by (simp_all add: quoted_def escaped_def escapeChar_def)

text \<open>Reading the values of disjoint nodes leaves a forest a forest up to the cached texts.\<close>

lemma forest_textRead:
  assumes "forest (nodes h) p par ts" and "set (addrs ts) \<inter> S = {}"
  shows "forest (nodes (textRead S h)) p par ts"
  by (rule forest_frame [OF assms(1)]) (use assms(2) in auto)

text \<open>One node, when its two chains encode as they should.\<close>

lemma encode_one:
  assumes n: "nodes h a = Some n" "nname n = nm" "nvalue n = v" and pr: "CHR 0x00 \<notin> set nm" "GetStr v \<noteq> None"
    and a: "a \<notin> S" "a \<notin> T" "S \<inter> T = {}"
    and ps: "\<And>b. encode (ESibs (props n) True) b (textRead {a} h) = Some (put b (treesText True ps), textRead S (textRead {a} h))"
    and cs: "\<And>b. encode (ESibs (child n) True) b (textRead (insert a S) h)
          = Some (put b (treesText True cs), textRead T (textRead (insert a S) h))"
  shows "encode (ENode a) b h = Some (put b (treesText True [Tree a nm v ps cs]), textRead (insert a (S \<union> T)) h)"
proof -
  have rv: "readValue GetStr a h = Some (snd (the (GetStr v)), textRead {a} h)"
    using readValue_GetStr [OF n(1)] n(3) pr(2) by simp
  have u: "textRead S (textRead {a} h) = textRead (insert a S) h"
    "textRead T (textRead (insert a S) h) = textRead (insert a (S \<union> T)) h"
    using a by (simp_all add: textRead_union)
  show ?thesis
    using n rv ps cs pr(1)
    by (subst encode.simps)
      (simp add: u append_put sbAppendJsonString_put valueText_quoted [OF pr(2)] flip: key_quoted)
qed

lemma encode_siblings:
  assumes "forest (nodes h) p par ts" and "distinct (addrs ts)" and "printable ts"
  shows "encode (ESibs p first) sb h = Some (put sb (treesText first ts), textRead (set (addrs ts)) h)"
  using assms
proof (induction ts arbitrary: p par first sb h rule: addrs.induct)
  case 1
  then show ?case by (subst encode.simps) simp
next
  case (2 a nm v ps cs ts)
  from "2.prems" obtain n where n: "p = a" "a \<noteq> 0" "nodes h a = Some n" "nname n = nm" "nvalue n = v"
    and f: "forest (nodes h) (props n) 0 ps" "forest (nodes h) (child n) a cs" "forest (nodes h) (nextSib n) par ts"
    and pr: "CHR 0x00 \<notin> set nm" "GetStr v \<noteq> None" "printable ps" "printable cs" "printable ts"
    by auto
  from "2.prems"(2) have d: "distinct (addrs ps)" "distinct (addrs cs)" "distinct (addrs ts)"
    "a \<notin> set (addrs ps)" "a \<notin> set (addrs cs)" "a \<notin> set (addrs ts)"
    "set (addrs ps) \<inter> set (addrs cs) = {}" "set (addrs ps) \<inter> set (addrs ts) = {}"
    "set (addrs cs) \<inter> set (addrs ts) = {}"
    by auto
  define h3 where "h3 = textRead (insert a (set (addrs ps) \<union> set (addrs cs))) h"
  have u: "textRead (set (addrs ts)) h3 = textRead (set (addrs (Tree a nm v ps cs # ts))) h"
    unfolding h3_def using d by (subst textRead_union) (auto simp: Un_assoc)
  have f1: "forest (nodes (textRead {a} h)) (props n) 0 ps"
    "forest (nodes (textRead (insert a (set (addrs ps))) h)) (child n) a cs" "forest (nodes h3) (nextSib n) par ts"
    unfolding h3_def using d by (auto intro!: forest_textRead f)
  have node: "encode (ENode a) b h = Some (put b (treesText True [Tree a nm v ps cs]), h3)" for b
    unfolding h3_def
    by (rule encode_one [OF n(3-5) pr(1,2) d(4,5,7) "2.IH"(1) [OF f1(1) d(1) pr(3)] "2.IH"(2) [OF f1(2) d(2) pr(4)]])
  have rest: "encode (ESibs (nextSib n) False) b h3
      = Some (put b (treesText False ts), textRead (set (addrs (Tree a nm v ps cs # ts))) h)" for b
    using "2.IH"(3) [OF f1(3) d(3) pr(5)] u by simp
  have "nodes h3 a = Some (readText n)" using n(3) by (simp add: h3_def)
  then show ?case
    using n node rest by (subst encode.simps) (simp add: append_put)
qed

lemma encode_node:
  assumes "forest (nodes h) p par (t # ts)" and "distinct (addrs [t])" and "printable [t]"
  shows "encode (ENode p) sb h = Some (put sb (treesText True [t]), textRead (set (addrs [t])) h)"
proof -
  obtain a nm v ps cs where t: "t = Tree a nm v ps cs" by (cases t)
  from assms t obtain n where n: "p = a" "nodes h a = Some n" "nname n = nm" "nvalue n = v"
    and f: "forest (nodes h) (props n) 0 ps" "forest (nodes h) (child n) a cs"
    and pr: "CHR 0x00 \<notin> set nm" "GetStr v \<noteq> None" "printable ps" "printable cs"
    by auto
  from assms(2) t have d: "distinct (addrs ps)" "distinct (addrs cs)" "a \<notin> set (addrs ps)" "a \<notin> set (addrs cs)"
    "set (addrs ps) \<inter> set (addrs cs) = {}" by auto
  have f1: "forest (nodes (textRead {a} h)) (props n) 0 ps"
    "forest (nodes (textRead (insert a (set (addrs ps))) h)) (child n) a cs"
    using d by (auto intro!: forest_textRead f)
  show ?thesis
    using encode_one [OF n(2-4) pr(1,2) d(3,4,5) encode_siblings [OF f1(1) d(1) pr(3)]
        encode_siblings [OF f1(2) d(2) pr(4)], of sb] by (simp add: t n(1))
qed

subsection \<open>What a text keeps of a tree\<close>

text \<open>Names, authoritative values and structure; not the addresses and not the cached conversions.\<close>

datatype shape = Shape string "cval option" "shape list" "shape list"

fun shapes :: "tree list \<Rightarrow> shape list" where
  "shapes [] = []"
| "shapes (Tree a nm v ps cs # ts) = Shape nm (map_option auth v) (shapes ps) (shapes cs) # shapes ts"

text \<open>The values that survive: texts and hexadecimal texts without NULs, integers that fit the text
  block of \<open>Int2Str\<close>, longs.\<close>

definition portableValue :: "DataObj \<Rightarrow> bool" where
  "portableValue v \<longleftrightarrow> (\<exists>d. v = Some d \<and> coherent d \<and> (case auth d of
     VStr (Some s) \<Rightarrow> CHR 0x00 \<notin> set s | VHex (Some s) \<Rightarrow> CHR 0x00 \<notin> set s
   | VInt i \<Rightarrow> Int2Str i \<noteq> None | VLong l \<Rightarrow> True | _ \<Rightarrow> False))"

fun portable :: "tree list \<Rightarrow> bool" where
  "portable [] \<longleftrightarrow> True"
| "portable (Tree a nm v ps cs # ts) \<longleftrightarrow> CHR 0x00 \<notin> set nm \<and> portableValue v \<and> portable ps \<and> portable cs \<and> portable ts"

lemma decimal_sprintf_d: "decimal (sprintf_d i) = i"
proof -
  have tw: "takeWhile isdigit (show_base 10 n) = show_base 10 n" for n
    using show_base_digits by (simp add: takeWhile_eq_all_conv)
  have hd: "\<exists>c cs. show_base 10 n = c # cs \<and> isdigit c" for n
    using show_base_digits [of "hd (show_base 10 n)" n] by (cases "show_base 10 n") auto
  show ?thesis
  proof (cases "i < 0")
    case True
    then show ?thesis by (simp add: decimal_def sprintf_d_def tw isspace_def)
  next
    case False
    obtain c cs where c: "show_base 10 (nat i) = c # cs" "isdigit c" using hd by blast
    then have ns: "\<not> isspace c" "c \<noteq> CHR ''-''" "c \<noteq> CHR ''+''" using digit_not_space by (auto simp: isdigit_def)
    have "int (dec_fold 0 (takeWhile isdigit (show_base 10 (nat i)))) = i" using False by (simp add: tw)
    then have "int (dec_fold 0 (takeWhile isdigit (c # cs))) = i" using c(1) by simp
    with False c ns show ?thesis by (simp add: decimal_def sprintf_d_def Let_def)
  qed
qed

lemma atoi_sprintf_d: "atoi (sprintf_d (sint i)) = Some i"
  using sint_ge [of i] sint_lt [of i] by (simp add: atoi_def decimal_sprintf_d)

lemma atol_sprintf_d: "atol (sprintf_d (sint l)) = Some l"
  using sint_ge [of l] sint_lt [of l] by (simp add: atol_def decimal_sprintf_d)

lemma sprintf_d_no_NUL: "CHR 0x00 \<notin> set (sprintf_d i)"
proof -
  have "CHR 0x00 \<notin> set (show_base 10 n)" for n using show_base_digits digit_not_NUL by blast
  then show ?thesis by (simp add: sprintf_d_def)
qed

lemma valueText_auth:
  assumes "portableValue v"
  shows "GetStr v \<noteq> None" and "CHR 0x00 \<notin> set (valueText v)"
    and "v = Some d \<Longrightarrow> as_str (auth d) = Some (Some (valueText v))"
proof -
  from assms obtain d where d: "v = Some d" "coherent d" by (auto simp: portableValue_def)
  have g: "map_option snd (GetStr (Some d)) = as_str (auth d)" by (rule get_values(2) [OF d(2)])
  have "\<exists>s. as_str (auth d) = Some (Some s) \<and> CHR 0x00 \<notin> set s"
    using assms d sprintf_d_no_NUL
    by (auto simp: portableValue_def Int2Str_def sprintf_into_def Long2Str_fits split: cval.splits option.splits if_splits)
  then obtain s where s: "as_str (auth d) = Some (Some s)" "CHR 0x00 \<notin> set s" by blast
  with g obtain v' where v': "GetStr (Some d) = Some (v', Some s)" by (cases "GetStr (Some d)") auto
  with d s show "GetStr v \<noteq> None" "CHR 0x00 \<notin> set (valueText v)" by (simp_all add: valueText_def)
  show "as_str (auth d') = Some (Some (valueText v))" if "v = Some d'" for d'
    using that d s v' by (simp add: valueText_def)
qed

lemma portable_printable: "portable ts \<Longrightarrow> printable ts"
  by (induction ts rule: portable.induct) (auto dest: valueText_auth)

text \<open>Storing the text of a value under its type gives the value back.\<close>

lemma setByType_restores:
  assumes "portableValue v" and "nodes h q = Some n" and "q \<noteq> 0" and "nvalue n = Some d0"
  shows "\<exists>d'. setByType (GetDataType v) (valueText v) q h
      = Some (h\<lparr>nodes := (nodes h)(q \<mapsto> n\<lparr>nvalue := Some d'\<rparr>)\<rparr>) \<and> map_option auth v = Some (auth d')"
proof -
  from assms(1) obtain d where d: "v = Some d" "coherent d" by (auto simp: portableValue_def)
  have t: "as_str (auth d) = Some (Some (valueText v))" by (rule valueText_auth(3) [OF assms(1) d(1)])
  have a: "auth d = stored (auth d)"
    using assms(1) d(1) by (auto simp: portableValue_def dup_def split: cval.splits option.splits)
  show ?thesis
  proof (cases "dtype_of d")
    case STRING
    then have "auth d = VStr (Some (valueText v))" using t by (simp add: auth_def)
    then show ?thesis using assms d STRING a set_values(2) [of d0 "VStr (Some (valueText v))"]
      by (auto simp: setByType_def GetDataType_def SetValueStr_def writeValue_def set_accessors)
  next
    case INTEGER
    then have ad: "auth d = VInt (int_val d)" and i: "Int2Str (int_val d) = Some (valueText v)"
      using t by (auto simp: auth_def)
    from i have "atoi (valueText v) = Some (int_val d)"
      using atoi_sprintf_d [of "int_val d"] by (auto simp: Int2Str_def sprintf_into_def split: if_splits)
    then show ?thesis using assms d INTEGER a set_values(2) [of d0 "VInt (int_val d)"] ad
      by (auto simp: setByType_def GetDataType_def SetValueInt_def writeValue_def set_accessors)
  next
    case LONG
    then have ad: "auth d = VLong (long_val d)" and l: "Long2Str (long_val d) = Some (valueText v)"
      using t by (auto simp: auth_def)
    from l have "atol (valueText v) = Some (long_val d)"
      using atol_sprintf_d by (simp add: Long2Str_fits) metis
    then show ?thesis using assms d LONG a set_values(2) [of d0 "VLong (long_val d)"] ad
      by (auto simp: setByType_def GetDataType_def SetValueLong_def writeValue_def set_accessors)
  next
    case HEX
    then obtain s where s: "auth d = VHex (Some s)" "CHR 0x00 \<notin> set s"
      using assms(1) d(1) by (auto simp: portableValue_def auth_def split: option.splits)
    with t have "valueText v = s" by simp
    then show ?thesis using assms d HEX a s set_values(2) [of d0 "VHex (Some s)"]
      by (auto simp: setByType_def GetDataType_def writeValue_def set_accessors)
  next
    case REAL
    then show ?thesis using assms(1) d(1) by (auto simp: portableValue_def auth_def)
  next
    case (OTHER k)
    then show ?thesis using assms(1) d(1) by (auto simp: portableValue_def auth_def)
  qed
qed

end
