(* ===== verification/NodeText_Roundtrip.thy ===== *)
theory NodeText_Roundtrip
  imports NodeText_Print
begin

text \<open>
  Proofs on \<open>NodeText\<close>: what the parser builds out of the text of a tree, the round trip through the
  text, and the texts the parser does not survive.
\<close>

subsection \<open>Building nodes\<close>

text \<open>Growth: some blocks of the supply have become nodes, nothing else has changed.\<close>

definition grown :: "nat \<Rightarrow> 'a nheap_scheme \<Rightarrow> 'a nheap_scheme \<Rightarrow> bool" where
  "grown k h h' \<longleftrightarrow> k \<le> length (unused h) \<and> unused h' = drop k (unused h) \<and> heap_ok h'
     \<and> (\<forall>a. a \<notin> set (take k (unused h)) \<longrightarrow> nodes h' a = nodes h a)
     \<and> nodesAlive h' = nodesAlive h + int k \<and> nheap.more h' = nheap.more h"

lemma grown_refl: "heap_ok h \<Longrightarrow> grown 0 h h"
  by (simp add: grown_def)

lemma grown_trans:
  assumes "grown j h h1" and "grown k h1 h2"
  shows "grown (j + k) h h2"
proof -
  have "set (take (j + k) (unused h)) = set (take j (unused h)) \<union> set (take k (drop j (unused h)))"
    by (simp add: take_add)
  with assms show ?thesis by (auto simp: grown_def add.commute)
qed

lemma supply_split:
  assumes "heap_ok h" and "j \<le> length (unused h)"
  shows "set (take j (unused h)) \<inter> set (take k (drop j (unused h))) = {}"
proof -
  have "distinct (take (j + k) (unused h))" using assms(1) by (simp add: heap_ok_def)
  then show ?thesis by (simp add: take_add)
qed

text \<open>A forest built out of the supply.\<close>

definition built :: "shape list \<Rightarrow> nat \<Rightarrow> 'a nheap_scheme \<Rightarrow> ptr \<Rightarrow> 'a nheap_scheme \<Rightarrow> tree list \<Rightarrow> bool" where
  "built ss k h p h' ts \<longleftrightarrow> grown k h h' \<and> forest (nodes h') p 0 ts \<and> distinct (addrs ts)
     \<and> set (addrs ts) \<subseteq> set (take k (unused h)) \<and> shapes ts = ss"

lemma forest_frame_grown:
  assumes "forest (nodes h) p par ts" and "heap_ok h" and "grown k h h'"
  shows "forest (nodes h') p par ts"
proof (rule forest_frame [OF assms(1)])
  fix a assume "a \<in> set (addrs ts)"
  then have "nodes h a \<noteq> None" using forest_alive [OF assms(1)] by blast
  then have "a \<notin> set (take k (unused h))" using assms(2) by (auto simp: heap_ok_def dest: in_set_takeD)
  then show "nodes h' a = nodes h a" using assms(3) by (simp add: grown_def)
qed

lemma roots_in_addrs: "a \<in> root ` set ts \<Longrightarrow> a \<in> set (addrs ts)"
  by (induction ts rule: addrs.induct) auto

lemma forest_reparent:
  assumes "forest m p par ts" and "distinct (addrs ts)"
    and "\<And>a. a \<in> set (addrs ts) \<Longrightarrow> m' a = (if a \<in> root ` set ts then map_option (\<lambda>n. n\<lparr>parent := q\<rparr>) (m a) else m a)"
  shows "forest m' p q ts"
  using assms
proof (induction ts arbitrary: p par rule: addrs.induct)
  case (2 a nm v ps cs ts)
  from "2.prems"(1) obtain n where n: "p = a" "a \<noteq> 0" "m a = Some n" "nname n = nm" "nvalue n = v"
    and f: "forest m (props n) 0 ps" "forest m (child n) a cs" "forest m (nextSib n) par ts" by auto
  have d: "distinct (addrs ts)" "a \<notin> set (addrs ts)" "set (addrs ps) \<inter> set (addrs ts) = {}"
    "set (addrs cs) \<inter> set (addrs ts) = {}" "a \<notin> set (addrs ps)" "a \<notin> set (addrs cs)"
    using "2.prems"(2) by auto
  have inner: "m' x = m x" if "x \<in> set (addrs ps) \<union> set (addrs cs)" for x
  proof -
    have "x \<noteq> a" "x \<notin> set (addrs ts)" using that d by auto
    then have "x \<notin> root ` set (Tree a nm v ps cs # ts)" using roots_in_addrs [of x ts] by auto
    with that "2.prems"(3) [of x] show ?thesis by auto
  qed
  have "forest m' (nextSib n) q ts"
  proof (rule "2.IH"(3) [OF f(3) d(1)])
    fix x assume x: "x \<in> set (addrs ts)"
    with d(2) have "x \<noteq> a" by auto
    with x "2.prems"(3) [of x] show "m' x = (if x \<in> root ` set ts then map_option (\<lambda>n. n\<lparr>parent := q\<rparr>) (m x) else m x)"
      by simp
  qed
  moreover have "forest m' (props n) 0 ps" "forest m' (child n) a cs"
    using inner by (auto intro: forest_frame [OF f(1)] forest_frame [OF f(2)])
  moreover have "m' a = Some (n\<lparr>parent := q\<rparr>)" using "2.prems"(3) [of a] n(3) by simp
  ultimately show ?case using n by simp
qed simp

lemma adopt_path:
  assumes "path (nodes h) c xs 0"
  shows "adopt p c h = Some (h\<lparr>nodes := \<lambda>a. if a \<in> set xs then map_option (\<lambda>n. n\<lparr>parent := p\<rparr>) (nodes h a) else nodes h a\<rparr>)"
  using assms
proof (induction xs arbitrary: c h)
  case Nil
  then show ?case by (subst adopt.simps) simp
next
  case (Cons x xs)
  then obtain n where n: "c = x" "x \<noteq> 0" "nodes h x = Some n" "path (nodes h) (nextSib n) xs 0" by auto
  have x: "x \<notin> set xs" using path_distinct [OF Cons.prems] by simp
  let ?h1 = "h\<lparr>nodes := (nodes h)(x \<mapsto> n\<lparr>parent := p\<rparr>)\<rparr>"
  have "path (nodes ?h1) (nextSib n) xs 0" using n(4) x by simp
  from Cons.IH [OF this] show ?case
    using n x by (subst adopt.simps) (auto intro!: arg_cong [where f = "\<lambda>f. h\<lparr>nodes := f\<rparr>"] simp: fun_eq_iff)
qed

lemma forest_ConsI:
  assumes "p = a" and "a \<noteq> 0" and "m a = Some n" and "nname n = nm" and "nvalue n = v" and "parent n = par"
    and "forest m (props n) 0 ps" and "forest m (child n) a cs" and "forest m (nextSib n) par ts"
  shows "forest m p par (Tree a nm v ps cs # ts)"
  using assms by simp

lemma forest_snoc:
  assumes "forest m p par ts" and "ts \<noteq> []" and "distinct (addrs (ts @ [t]))"
    and "m (root (last ts)) = Some k" and "forest m q par [t]"
  shows "forest (m(root (last ts) \<mapsto> k\<lparr>nextSib := q\<rparr>)) p par (ts @ [t])"
  using assms
proof (induction ts arbitrary: p rule: addrs.induct)
  case (2 a nm v ps cs ts)
  let ?b = "root (last (Tree a nm v ps cs # ts))"
  let ?m = "m(?b \<mapsto> k\<lparr>nextSib := q\<rparr>)"
  from "2.prems"(1) obtain n where n: "p = a" "a \<noteq> 0" "m a = Some n" "nname n = nm" "nvalue n = v" "parent n = par"
    and f: "forest m (props n) 0 ps" "forest m (child n) a cs" "forest m (nextSib n) par ts" by auto
  have d: "distinct (addrs (ts @ [t]))" "a \<notin> set (addrs (ts @ [t]))" "a \<notin> set (addrs ps)" "a \<notin> set (addrs cs)"
    "set (addrs ps) \<inter> set (addrs (ts @ [t])) = {}" "set (addrs cs) \<inter> set (addrs (ts @ [t])) = {}"
    using "2.prems"(3) by auto
  have app: "set (addrs (xs @ ys)) = set (addrs xs) \<union> set (addrs ys)" for xs ys
    by (induction xs rule: addrs.induct) auto
  show ?case
  proof (cases "ts = []")
    case True
    then have b: "?b = a" "k = n" using "2.prems"(4) n(3) by auto
    have t: "a \<notin> set (addrs [t])" using d(2) True by simp
    have "forest ?m (props n) 0 ps" "forest ?m (child n) a cs" "forest ?m q par [t]"
      unfolding b using d t f "2.prems"(5) by (auto intro: forest_frame)
    moreover have "?m a = Some (n\<lparr>nextSib := q\<rparr>)" unfolding b by simp
    ultimately show ?thesis unfolding True append_Nil append_Cons
      by - (rule forest_ConsI [where n = "n\<lparr>nextSib := q\<rparr>"], insert n, simp_all only: node.select_convs node.update_convs fun_upd_def, auto)
  next
    case False
    then have b: "?b = root (last ts)" by simp
    have bin: "?b \<in> set (addrs ts)" unfolding b using False roots_in_addrs [of "root (last ts)" ts] by simp
    have "forest ?m (nextSib n) par (ts @ [t])"
      unfolding b by (rule "2.IH"(3) [OF f(3) False d(1)]) (use "2.prems"(4,5) b in auto)
    moreover have "forest ?m (props n) 0 ps" "forest ?m (child n) a cs"
      using bin d(5,6) f app by (auto intro!: forest_frame [OF f(1)] forest_frame [OF f(2)])
    moreover have "?m a = Some n" using bin d(2) app n(3) by auto
    ultimately show ?thesis unfolding append_Cons
      by - (rule forest_ConsI [OF n(1,2) _ n(4-6)])
  qed
qed simp

definition collected :: "string \<Rightarrow> DataObj \<Rightarrow> ptr \<Rightarrow> ptr \<Rightarrow> fields" where
  "collected nm v pp cp = \<lparr>fname = Some nm, ftype = Some (TypeName (GetDataType v)), fvalue = Some (valueText v),
     fprops = pp, fchildren = cp\<rparr>"

lemma TypeFromName_TypeName: "portableValue v \<Longrightarrow> TypeFromName (Some (TypeName (GetDataType v))) = GetDataType v"
  by (cases "GetDataType v")
    (auto simp: TypeFromName_def TypeName_def portableValue_def GetDataType_def auth_def split: option.splits)

lemma NewData_Some: "portableValue v \<Longrightarrow> \<exists>d. snd (NewData k (GetDataType v)) = Some d"
  by (cases "GetDataType v") (auto simp: NewData_def Let_def portableValue_def GetDataType_def auth_def)

lemma buildNode_builds:
  assumes v: "portableValue v" and h: "heap_ok h" and u: "unused h = q # r" and xs: "path (nodes h) cp xs 0"
  shows "\<exists>d' h'. buildNode (collected nm v pp cp) h = Some (q, h') \<and> map_option auth v = Some (auth d')
    \<and> heap_ok h' \<and> unused h' = r \<and> nodesAlive h' = nodesAlive h + 1 \<and> nheap.more h' = nheap.more h
    \<and> nodes h' q = Some \<lparr>nname = nm, nvalue = Some d', props = pp, parent = 0, child = cp, nextSib = 0, link = 0\<rparr>
    \<and> (\<forall>a. a \<noteq> q \<longrightarrow> nodes h' a
         = (if a \<in> set xs then map_option (\<lambda>n. n\<lparr>parent := q\<rparr>) (nodes h a) else nodes h a))"
proof -
  obtain h1 where nn: "NewNode (GetDataType v) h = (q, h1)"
    using u by (cases "NewNode (GetDataType v) h") (auto simp: NewNode_def Let_def split: prod.splits)
  note n1 = NewNode_ok [OF h u nn]
  obtain d0 where d0: "snd (NewData (datasAlive h + 1) (GetDataType v)) = Some d0" using NewData_Some [OF v] by blast
  define n2 where "n2 = \<lparr>nname = nm, nvalue = Some d0, props = 0, parent = 0, child = 0, nextSib = 0, link = 0\<rparr>"
  define h2 where "h2 = h1\<lparr>nodes := (nodes h1)(q \<mapsto> n2)\<rparr>"
  have s2: "SetName q nm h1 = Some h2" using n1(7,8) d0 by (simp add: SetName_def h2_def n2_def)
  have q2: "nodes h2 q = Some n2" "nvalue n2 = Some d0" by (simp_all add: h2_def n2_def)
  obtain d' where d': "setByType (GetDataType v) (valueText v) q h2
      = Some (h2\<lparr>nodes := (nodes h2)(q \<mapsto> n2\<lparr>nvalue := Some d'\<rparr>)\<rparr>)" "map_option auth v = Some (auth d')"
    using setByType_restores [OF v q2(1) n1(7) q2(2)] by blast
  define n5 where "n5 = \<lparr>nname = nm, nvalue = Some d', props = pp, parent = 0, child = cp, nextSib = 0, link = 0\<rparr>"
  define h5 where "h5 = h1\<lparr>nodes := (nodes h1)(q \<mapsto> n5)\<rparr>"
  have qx: "q \<notin> set xs" using path_alive [OF xs, of q] n1(6) by auto
  have "nodes h5 a = nodes h a" if "a \<noteq> q" for a using that n1(5) by (simp add: h5_def)
  with qx have px: "path (nodes h5) cp xs 0" by (metis path_frame [OF xs])
  let ?h = "h5\<lparr>nodes := \<lambda>a. if a \<in> set xs then map_option (\<lambda>n. n\<lparr>parent := q\<rparr>) (nodes h5 a) else nodes h5 a\<rparr>"
  have "buildNode (collected nm v pp cp) h = Some (q, ?h)"
    using adopt_path [OF px, of q] nn s2 d'
    by (simp add: buildNode_def collected_def TypeFromName_TypeName [OF v] h2_def h5_def n2_def n5_def)
  moreover have "heap_ok ?h" using n1(2,4) h u by (auto simp: heap_ok_def h5_def n1(5))
  ultimately show ?thesis using n1 qx d'(2) by (intro exI [of _ d'] exI [of _ ?h]) (auto simp: h5_def n5_def)
qed


subsection \<open>Parsing the text of a tree\<close>

definition nodeText :: "string \<Rightarrow> DataObj \<Rightarrow> tree list \<Rightarrow> tree list \<Rightarrow> string" where
  "nodeText nm v ps cs = CHR ''{'' # quoted ''name'' @ CHR '':'' # quoted nm @ CHR '','' #
     quoted ''type'' @ CHR '':'' # quoted (TypeName (GetDataType v)) @ CHR '','' #
     quoted ''value'' @ CHR '':'' # quoted (valueText v) @ CHR '','' #
     quoted ''props'' @ CHR '':'' # CHR ''['' # treesText True ps @ CHR '']'' # CHR '','' #
     quoted ''children'' @ CHR '':'' # CHR ''['' # treesText True cs @ CHR '']'' # [CHR ''}'']"

lemma treesText_Cons: "treesText start (Tree a nm v ps cs # ts) @ u
    = (if start then [] else [CHR '','']) @ nodeText nm v ps cs @ treesText False ts @ u"
  by (simp add: nodeText_def)

lemma SkipWs_solid [simp]: "c \<notin> {CHR '' '', CHR 0x09, CHR 0x0A, CHR 0x0D} \<Longrightarrow> SkipWs (c # s) = c # s"
  by (simp add: SkipWs_def)

lemma SkipWs_quoted [simp]: "SkipWs (quoted k @ s) = quoted k @ s" "peek (quoted k @ s) = QUOTE"
  by (simp_all add: quoted_def peek_def)

lemma peek_Cons [simp]: "peek (c # s) = c"
  by (simp add: peek_def)

lemma parse_fields:
  assumes "CHR 0x00 \<notin> set key" and "SkipWs s = s"
  shows "parse (JFields f) (quoted key @ CHR '':'' # s) h = do {
      (f1, s5, h1) \<leftarrow>
         (if key = ''name'' then do { (v, r) \<leftarrow> ParseJsonString s; Some (f\<lparr>fname := Some v\<rparr>, r, h) }
          else if key = ''type'' then do { (v, r) \<leftarrow> ParseJsonString s; Some (f\<lparr>ftype := Some v\<rparr>, r, h) }
          else if key = ''value'' then do { (v, r) \<leftarrow> ParseJsonString s; Some (f\<lparr>fvalue := Some v\<rparr>, r, h) }
          else if key = ''props'' then do { ((p, _), r, h1) \<leftarrow> parse JArray s h; Some (f\<lparr>fprops := p\<rparr>, r, h1) }
          else if key = ''children'' then do { ((p, _), r, h1) \<leftarrow> parse JArray s h; Some (f\<lparr>fchildren := p\<rparr>, r, h1) }
          else if peek s = QUOTE then do { (_, r) \<leftarrow> ParseJsonString s; Some (f, r, h) }
          else Some (f, s, h));
       let s6 = SkipWs s5;
       if peek s6 = CHR '','' then parse (JFields f1) (tl s6) h1
       else if peek s6 = CHR ''}'' then Some ((0, f1), tl s6, h1)
       else Some ((0, f1), s6, h1) }"
  by (subst parse.simps) (simp add: ParseJsonString_quoted assms split del: if_split)

lemma parse_text_field:
  assumes "CHR 0x00 \<notin> set t"
  shows "parse (JFields f) (quoted ''name'' @ CHR '':'' # quoted t @ CHR '','' # s) h = parse (JFields (f\<lparr>fname := Some t\<rparr>)) s h"
    and "parse (JFields f) (quoted ''type'' @ CHR '':'' # quoted t @ CHR '','' # s) h = parse (JFields (f\<lparr>ftype := Some t\<rparr>)) s h"
    and "parse (JFields f) (quoted ''value'' @ CHR '':'' # quoted t @ CHR '','' # s) h = parse (JFields (f\<lparr>fvalue := Some t\<rparr>)) s h"
  by (simp add: parse_fields ParseJsonString_quoted assms split del: if_split)+

lemma parse_array_field:
  assumes "parse JArray (CHR ''['' # t) h = Some ((p, g), r, h1)" and "r = c # s" and "c = CHR '','' \<or> c = CHR ''}''"
  shows "parse (JFields f) (quoted ''props'' @ CHR '':'' # CHR ''['' # t) h
      = (if c = CHR '','' then parse (JFields (f\<lparr>fprops := p\<rparr>)) s h1 else Some ((0, f\<lparr>fprops := p\<rparr>), s, h1))"
    and "parse (JFields f) (quoted ''children'' @ CHR '':'' # CHR ''['' # t) h
      = (if c = CHR '','' then parse (JFields (f\<lparr>fchildren := p\<rparr>)) s h1 else Some ((0, f\<lparr>fchildren := p\<rparr>), s, h1))"
  using assms(3) by (auto simp: parse_fields assms(1,2))

lemma parse_object_text:
  assumes nm: "CHR 0x00 \<notin> set nm" and v: "portableValue v"
    and ps: "\<And>s. parse JArray (CHR ''['' # treesText True ps @ CHR '']'' # s) h = Some ((pp, noFields), s, h1)"
    and cs: "\<And>s. parse JArray (CHR ''['' # treesText True cs @ CHR '']'' # s) h1 = Some ((cp, noFields), s, h2)"
    and b: "buildNode (collected nm v pp cp) h2 = Some (q, h3)"
  shows "parse JObject (nodeText nm v ps cs @ s) h = Some ((q, collected nm v pp cp), s, h3)"
proof -
  have "parse (JFields noFields) (tl (nodeText nm v ps cs @ s)) h = Some ((0, collected nm v pp cp), s, h2)"
    using parse_array_field(1) [OF ps refl] parse_array_field(2) [OF cs refl]
    by (simp add: nodeText_def parse_text_field nm valueText_auth(2) [OF v] noFields_def collected_def)
  then show ?thesis using b by (subst parse.simps) (simp add: nodeText_def)
qed

lemma built_nil: "heap_ok h \<Longrightarrow> built [] 0 h 0 h []"
  by (simp add: built_def grown_refl)

lemma built_ok: "built ss k h p h' ts \<Longrightarrow> heap_ok h'"
  by (simp add: built_def grown_def)

lemma build_tree:
  assumes ok: "heap_ok h" and v: "portableValue v"
    and ps: "built (shapes ps) j h pp h1 psd" and cs: "built (shapes cs) k h1 cp h2 csd"
    and room: "j + k < length (unused h)"
  shows "\<exists>q h3 d. buildNode (collected nm v pp cp) h2 = Some (q, h3)
    \<and> built [Shape nm (map_option auth v) (shapes ps) (shapes cs)] (j + k + 1) h q h3 [Tree q nm (Some d) psd csd]"
proof -
  have g: "grown j h h1" "grown k h1 h2" "grown (j + k) h h2"
    using ps cs by (auto simp: built_def intro: grown_trans)
  then have ok12: "heap_ok h1" "heap_ok h2" and u1: "unused h1 = drop j (unused h)" and u2: "unused h2 = drop (j + k) (unused h)"
    by (simp_all add: grown_def)
  define q where "q = unused h ! (j + k)"
  have q: "unused h2 = q # drop (j + k + 1) (unused h)"
    using room by (simp add: u2 q_def Cons_nth_drop_Suc)
  have f: "forest (nodes h2) pp 0 psd" "forest (nodes h2) cp 0 csd"
    using ps cs forest_frame_grown [OF _ ok12(1) g(2)] by (auto simp: built_def)
  obtain d h3 where b: "buildNode (collected nm v pp cp) h2 = Some (q, h3)" "map_option auth v = Some (auth d)"
    "heap_ok h3" "unused h3 = drop (j + k + 1) (unused h)" "nodesAlive h3 = nodesAlive h2 + 1" "nheap.more h3 = nheap.more h2"
    "nodes h3 q = Some \<lparr>nname = nm, nvalue = Some d, props = pp, parent = 0, child = cp, nextSib = 0, link = 0\<rparr>"
    and fr: "\<And>a. a \<noteq> q \<Longrightarrow> nodes h3 a
         = (if a \<in> set (map root csd) then map_option (\<lambda>n. n\<lparr>parent := q\<rparr>) (nodes h2 a) else nodes h2 a)"
    using buildNode_builds [OF v ok12(2) q forest_path [OF f(2)], of nm pp] by metis
  have d: "distinct (addrs psd)" "distinct (addrs csd)"
    and in1: "set (addrs psd) \<subseteq> set (take j (unused h))" and in2: "set (addrs csd) \<subseteq> set (take k (unused h1))"
    using ps cs by (simp_all add: built_def)
  have all: "distinct (take (j + k + 1) (unused h))" using ok by (simp add: heap_ok_def)
  have tk: "take (j + k + 1) (unused h) = take j (unused h) @ take k (unused h1) @ [q]"
    using room by (simp add: u1 q_def take_add take_Suc_conv_app_nth)
  from all [unfolded tk] in1 in2 have dis: "set (addrs psd) \<inter> set (addrs csd) = {}" "q \<notin> set (addrs psd)" "q \<notin> set (addrs csd)"
    by auto
  have q0: "q \<noteq> 0" using ok12(2) q by (simp add: heap_ok_def)
  have rts: "root ` set csd \<subseteq> set (addrs csd)" using roots_in_addrs by blast
  have "forest (nodes h3) pp 0 psd"
  proof (rule forest_frame [OF f(1)])
    fix a assume "a \<in> set (addrs psd)"
    with dis rts have "a \<noteq> q" "a \<notin> set (map root csd)" by auto
    then show "nodes h3 a = nodes h2 a" by (simp add: fr)
  qed
  moreover have "forest (nodes h3) cp q csd"
  proof (rule forest_reparent [OF f(2) d(2)])
    fix a assume "a \<in> set (addrs csd)"
    with dis have "a \<noteq> q" by auto
    then show "nodes h3 a = (if a \<in> root ` set csd then map_option (\<lambda>n. n\<lparr>parent := q\<rparr>) (nodes h2 a) else nodes h2 a)"
      by (simp add: fr)
  qed
  ultimately have "forest (nodes h3) q 0 [Tree q nm (Some d) psd csd]"
    using b(7) q0 by simp
  moreover have "grown (j + k + 1) h h3"
    unfolding grown_def
  proof (intro conjI allI impI)
    show "nodes h3 a = nodes h a" if "a \<notin> set (take (j + k + 1) (unused h))" for a
    proof -
      have "a \<noteq> q" "a \<notin> set (take k (unused h1))" "a \<notin> set (take j (unused h))" using that unfolding tk by auto
      moreover from this have "a \<notin> set (map root csd)" using in2 rts by auto
      ultimately show ?thesis using fr g by (simp add: grown_def)
    qed
  qed (use b g room in \<open>simp_all add: grown_def\<close>)
  moreover have "set (addrs [Tree q nm (Some d) psd csd]) \<subseteq> set (take (j + k + 1) (unused h))"
    using in1 in2 unfolding tk by auto
  ultimately show ?thesis
    using b(1,2) d dis ps cs by (intro exI [of _ q] exI [of _ h3] exI [of _ d]) (auto simp: built_def)
qed

lemma shapes_append: "shapes (xs @ ys) = shapes xs @ shapes ys"
  by (induction xs rule: shapes.induct) auto

lemma addrs_append: "addrs (xs @ ys) = addrs xs @ addrs ys"
  by (induction xs rule: addrs.induct) auto

text \<open>The list a loop builds: one more tree at its end.\<close>

lemma built_snoc:
  assumes ok: "heap_ok h0" and ds: "built ss k h0 p h ds" and t: "built [sh] j h q h1 [t]"
  shows "\<exists>p' h2. (if ds = [] then Some (q, q, h1)
      else do { h2 \<leftarrow> setN (root (last ds)) (\<lambda>n. n\<lparr>nextSib := q\<rparr>) h1; Some (p, q, h2) }) = Some (p', root t, h2)
    \<and> built (ss @ [sh]) (k + j) h0 p' h2 (ds @ [t])"
proof -
  have g: "grown k h0 h" "grown j h h1" "grown (k + j) h0 h1"
    using ds t by (auto simp: built_def intro: grown_trans)
  then have okh: "heap_ok h" and u: "unused h = drop k (unused h0)" by (simp_all add: grown_def)
  have q: "q = root t" using t by (cases t) (simp add: built_def)
  have dis: "set (addrs ds) \<inter> set (addrs [t]) = {}"
    using ds t supply_split [OF ok, of k j] g(1) unfolding built_def u grown_def by blast
  have inn: "set (addrs (ds @ [t])) \<subseteq> set (take (k + j) (unused h0))"
    using ds t by (auto simp: built_def addrs_append take_add u)
  have dd: "distinct (addrs (ds @ [t]))" using ds t dis by (simp add: built_def addrs_append)
  have sh: "shapes (ds @ [t]) = ss @ [sh]" using ds t by (simp add: built_def shapes_append)
  have fd: "forest (nodes h1) p 0 ds" using ds forest_frame_grown [OF _ okh g(2)] by (simp add: built_def)
  show ?thesis
  proof (cases "ds = []")
    case True
    then show ?thesis using g(3) t inn dd sh q by (simp add: built_def)
  next
    case False
    let ?b = "root (last ds)"
    have bin: "?b \<in> set (addrs ds)" using roots_in_addrs [of ?b ds] False by simp
    with forest_alive [OF fd] obtain n where n: "nodes h1 ?b = Some n" by blast
    let ?h = "h1\<lparr>nodes := (nodes h1)(?b \<mapsto> n\<lparr>nextSib := q\<rparr>)\<rparr>"
    have "forest (nodes ?h) p 0 (ds @ [t])"
      using forest_snoc [OF fd False dd n, of q] t by (simp add: built_def)
    moreover have "grown (k + j) h0 ?h"
    proof -
      have "?b \<in> set (take (k + j) (unused h0))" using inn bin by (auto simp: addrs_append)
      moreover have "?b \<notin> set (unused h1)"
        using n g(3) by (auto simp: grown_def heap_ok_def)
      moreover have "?b \<noteq> 0" using n g(3) by (auto simp: grown_def heap_ok_def)
      ultimately show ?thesis using g(3) by (auto simp: grown_def heap_ok_def)
    qed
    ultimately have "built (ss @ [sh]) (k + j) h0 p ?h (ds @ [t])" using inn dd sh by (simp add: built_def)
    with False n q show ?thesis by (intro exI [of _ p] exI [of _ ?h]) simp
  qed
qed

lemma parse_array_items:
  assumes "heap_ok h" and "length (addrs ts) \<le> length (unused h)"
    and items: "ts \<noteq> [] \<Longrightarrow> \<exists>p h' ds. (\<forall>s. parse (JItems 0 0) (treesText True ts @ CHR '']'' # s) h = Some ((p, noFields), s, h'))
      \<and> built (shapes ts) (length (addrs ts)) h p h' ds"
  shows "\<exists>p h' ds. (\<forall>s. parse JArray (CHR ''['' # treesText True ts @ CHR '']'' # s) h = Some ((p, noFields), s, h'))
      \<and> built (shapes ts) (length (addrs ts)) h p h' ds"
proof (cases ts)
  case Nil
  with built_nil [OF assms(1)] show ?thesis
    by (intro exI [of _ "0 :: ptr"] exI [of _ h] exI [of _ "[]"]) (subst parse.simps, simp)
next
  case (Cons t r)
  then have "\<exists>u. treesText True ts = CHR ''{'' # u" by (cases t) simp
  then obtain u where u: "treesText True ts = CHR ''{'' # u" by blast
  have "parse JArray (CHR ''['' # treesText True ts @ CHR '']'' # s) h = parse (JItems 0 0) (treesText True ts @ CHR '']'' # s) h" for s
    by (subst parse.simps) (simp add: u)
  with items Cons show ?thesis by simp
qed

lemma parse_items_step:
  assumes obj: "\<And>s. parse JObject (CHR ''{'' # x @ s) h = Some ((q, f), s, h1)" and "q \<noteq> 0"
    and lnk: "(if tail = 0 then Some (q, q, h1)
      else do { h2 \<leftarrow> setN tail (\<lambda>n. n\<lparr>nextSib := q\<rparr>) h1; Some (p, q, h2) }) = Some (p', q, h2)"
  shows "parse (JItems p tail) (CHR ''{'' # x @ CHR '','' # s) h = parse (JItems p' q) s h2"
    and "parse (JItems p tail) (CHR ''{'' # x @ CHR '']'' # s) h = Some ((p', noFields), s, h2)"
  by (subst parse.simps, simp add: obj assms(2) lnk split del: if_split)+

lemma parse_items:
  assumes "portable ts" and "ts \<noteq> []" and "heap_ok (h0 :: 'a nheap_scheme)" and "built ss k h0 p h ds"
    and "length (addrs ts) \<le> length (unused h)"
  shows "\<exists>p' h' ds'. (\<forall>s. parse (JItems p (if ds = [] then 0 else root (last ds))) (treesText True ts @ CHR '']'' # s) h
      = Some ((p', noFields), s, h')) \<and> built (ss @ shapes ts) (k + length (addrs ts)) h0 p' h' ds'"
  using assms
proof (induction ts arbitrary: ss k h0 p h ds rule: addrs.induct)
  case (2 a nm v ps cs ts)
  let ?T = "Tree a nm v ps cs"
  have okh: "heap_ok h" using "2.prems"(4) by (rule built_ok)
  have pt: "CHR 0x00 \<notin> set nm" "portableValue v" "portable ps" "portable cs" "portable ts"
    using "2.prems"(1) by auto
  have room: "length (addrs ps) + length (addrs cs) < length (unused h)" using "2.prems"(5) by simp
  have arr: "\<exists>q h' ds. (\<forall>s. parse JArray (CHR ''['' # treesText True xs @ CHR '']'' # s) g = Some ((q, noFields), s, h'))
      \<and> built (shapes xs) (length (addrs xs)) g q h' ds"
    if "xs = ps \<or> xs = cs" and g: "heap_ok g" "length (addrs xs) \<le> length (unused g)" for xs and g :: "'a nheap_scheme"
    by (rule parse_array_items [OF g])
      (use that "2.IH"(1) [OF pt(3) _ g(1) built_nil [OF g(1)]] "2.IH"(2) [OF pt(4) _ g(1) built_nil [OF g(1)]] in auto)
  obtain pp h1 psd where ps: "\<And>s. parse JArray (CHR ''['' # treesText True ps @ CHR '']'' # s) h = Some ((pp, noFields), s, h1)"
    "built (shapes ps) (length (addrs ps)) h pp h1 psd"
    using arr [of ps h] okh room by auto
  have u1: "unused h1 = drop (length (addrs ps)) (unused h)" using ps(2) by (simp add: built_def grown_def)
  obtain cp h2 csd where cs: "\<And>s. parse JArray (CHR ''['' # treesText True cs @ CHR '']'' # s) h1 = Some ((cp, noFields), s, h2)"
    "built (shapes cs) (length (addrs cs)) h1 cp h2 csd"
    using arr [of cs h1] built_ok [OF ps(2)] room by (fastforce simp: u1)
  obtain q h3 d where b: "buildNode (collected nm v pp cp) h2 = Some (q, h3)"
    "built [Shape nm (map_option auth v) (shapes ps) (shapes cs)] (length (addrs ps) + length (addrs cs) + 1) h q h3
       [Tree q nm (Some d) psd csd]"
    using build_tree [OF okh pt(2) ps(2) cs(2) room] by metis
  let ?t = "Tree q nm (Some d) psd csd"
  obtain x where x: "nodeText nm v ps cs = CHR ''{'' # x" by (simp add: nodeText_def)
  have obj: "parse JObject (CHR ''{'' # x @ s) h = Some ((q, collected nm v pp cp), s, h3)" for s
    using parse_object_text [OF pt(1,2) ps(1) cs(1) b(1)] by (simp add: x)
  obtain p' h4 where lnk: "(if ds = [] then Some (q, q, h3)
      else do { h2 \<leftarrow> setN (root (last ds)) (\<lambda>n. n\<lparr>nextSib := q\<rparr>) h3; Some (p, q, h2) }) = Some (p', q, h4)"
    and bs: "built (ss @ [Shape nm (map_option auth v) (shapes ps) (shapes cs)])
       (k + (length (addrs ps) + length (addrs cs) + 1)) h0 p' h4 (ds @ [?t])"
    using built_snoc [OF "2.prems"(3,4) b(2)] by auto
  have q0: "q \<noteq> 0" using b(2) by (simp add: built_def)
  have nz: "root (last ds) \<noteq> 0" if "ds \<noteq> []"
  proof -
    have "root (last ds) \<in> set (addrs ds)" using that roots_in_addrs [of "root (last ds)" ds] by simp
    then show ?thesis using forest_alive "2.prems"(4) unfolding built_def by blast
  qed
  have lnk': "(if (if ds = [] then 0 else root (last ds)) = 0 then Some (q, q, h3)
      else do { h2 \<leftarrow> setN (if ds = [] then 0 else root (last ds)) (\<lambda>n. n\<lparr>nextSib := q\<rparr>) h3; Some (p, q, h2) }) = Some (p', q, h4)"
    using lnk nz by (cases "ds = []") simp_all
  note step = parse_items_step [OF obj q0 lnk']
  have text_eq: "treesText True (?T # ts) @ u = CHR ''{'' # x @ treesText False ts @ u" for u
    unfolding treesText_Cons by (simp add: x)
  show ?case
  proof (cases ts)
    case Nil
    with bs step(2) show ?thesis
      unfolding text_eq by (intro exI [of _ p'] exI [of _ h4] exI [of _ "ds @ [?t]"]) simp
  next
    case (Cons t r)
    have room': "length (addrs ts) \<le> length (unused h4)"
      using bs "2.prems"(4,5) by (simp add: built_def grown_def)
    have comma: "treesText False ts = CHR '','' # treesText True ts" using Cons by (cases t) simp
    obtain p2 h5 ds2 where "\<And>s. parse (JItems p' q) (treesText True ts @ CHR '']'' # s) h4 = Some ((p2, noFields), s, h5)"
      "built ((ss @ [Shape nm (map_option auth v) (shapes ps) (shapes cs)]) @ shapes ts)
        (k + (length (addrs ps) + length (addrs cs) + 1) + length (addrs ts)) h0 p2 h5 ds2"
      using "2.IH"(3) [OF pt(5) _ "2.prems"(3) bs, simplified] room' Cons by auto
    then show ?thesis
      unfolding text_eq using step(1)
      by (intro exI [of _ p2] exI [of _ h5] exI [of _ ds2]) (simp add: comma add_ac)
  qed
qed simp

lemma parse_array:
  assumes "portable ts" and "heap_ok h" and "length (addrs ts) \<le> length (unused h)"
  shows "\<exists>p h' ds. (\<forall>s. parse JArray (CHR ''['' # treesText True ts @ CHR '']'' # s) h = Some ((p, noFields), s, h'))
      \<and> built (shapes ts) (length (addrs ts)) h p h' ds"
  by (rule parse_array_items [OF assms(2,3)])
    (use parse_items [OF assms(1) _ assms(2) built_nil [OF assms(2)] assms(3)] in auto)

subsection \<open>What the text format guarantees\<close>

lemma portable_family: "portableValue (Some (stored_int 7))"
  by (simp add: portableValue_def stored_int_def data_defs coherent_def auth_def Int2Str_fits)

lemma unquoted_no_close: "QUOTE \<notin> set s \<Longrightarrow> BACKSLASH \<notin> set s \<Longrightarrow> stringLoop buf (s @ t) = stringLoop (buf @ s) t"
  by (induction s arbitrary: buf) auto

lemma parse_None_key:
  assumes "ParseJsonString (QUOTE # s) = None"
  shows "parse (JFields f) (QUOTE # s) h = None"
  using assms by (subst parse.simps) simp

text \<open>Every step of the encoder keeps room for the NUL that ends the text.\<close>

definition roomy :: "strbuf \<Rightarrow> bool" where
  "roomy sb \<longleftrightarrow> length (sbuf sb) < cap sb"

lemma roomy_append [simp]:
  "roomy sb \<Longrightarrow> roomy (sbAppendN sb s)" "roomy sb \<Longrightarrow> roomy (sbAppend sb s)" "roomy sb \<Longrightarrow> roomy (sbAppendChar sb c)"
  using growCap_ge [of "cap sb" "length (sbuf sb) + length s + 1"] growCap_ge [of "cap sb" "length (sbuf sb) + 1 + 1"]
  by (auto simp: roomy_def sbAppendN_def sbAppend_def sbAppendChar_def)

lemma roomy_string [simp]: "roomy sb \<Longrightarrow> roomy (sbAppendJsonString sb s)"
proof -
  have "roomy b \<Longrightarrow> roomy (foldl (\<lambda>b c. sbAppend b (escapeChar c)) b t)" for b t
    by (induction t arbitrary: b) simp_all
  then show "roomy sb \<Longrightarrow> ?thesis" by (simp add: sbAppendJsonString_def Let_def split: option.split)
qed

lemma encode_roomy:
  assumes "encode job sb h = Some (sb', h')" and "roomy sb"
  shows "roomy sb'"
proof -
  have "roomy sb \<longrightarrow> roomy (fst (sb', h'))"
  proof (rule encode.raw_induct [where P = "\<lambda>job sb h r. roomy sb \<longrightarrow> roomy (fst r)", OF _ assms(1)])
    fix enc :: "encJob \<Rightarrow> strbuf \<Rightarrow> 'a nheap_scheme \<Rightarrow> (strbuf \<times> 'a nheap_scheme) option"
      and job sb and h :: "'a nheap_scheme" and r
    assume IH: "\<And>job sb h r. enc job sb h = Some r \<Longrightarrow> roomy sb \<longrightarrow> roomy (fst r)"
    note IH' = IH [of _ _ _ "(x, y)" for x y, simplified, rule_format]
    assume step: "(case job of
       ENode p \<Rightarrow> do {
         n \<leftarrow> nodes h p;
         let sb1 = sbAppendJsonString (sbAppend (sbAppendChar sb (CHR ''{'')) (QUOTE # ''name'' @ [QUOTE, CHR '':''])) (Some (nname n));
         let sb2 = sbAppendJsonString (sbAppend sb1 (CHR '','' # QUOTE # ''type'' @ [QUOTE, CHR '':'']))
                     (Some (TypeName (GetDataType (nvalue n))));
         (v, h1) \<leftarrow> readValue GetStr p h;
         let sb3 = sbAppendJsonString (sbAppend sb2 (CHR '','' # QUOTE # ''value'' @ [QUOTE, CHR '':''])) v;
         n1 \<leftarrow> nodes h1 p;
         (sb4, h2) \<leftarrow> enc (ESibs (props n1) True)
            (sbAppendChar (sbAppend sb3 (CHR '','' # QUOTE # ''props'' @ [QUOTE, CHR '':''])) (CHR ''['')) h1;
         n2 \<leftarrow> nodes h2 p;
         (sb5, h3) \<leftarrow> enc (ESibs (child n2) True)
            (sbAppendChar (sbAppend (sbAppendChar sb4 (CHR '']'')) (CHR '','' # QUOTE # ''children'' @ [QUOTE, CHR '':''])) (CHR ''['')) h2;
         Some (sbAppendChar (sbAppendChar sb5 (CHR '']'')) (CHR ''}''), h3) }
     | ESibs current first \<Rightarrow>
         if current = 0 then Some (sb, h)
         else do {
           (sb1, h1) \<leftarrow> enc (ENode current) (if first then sb else sbAppendChar sb (CHR '','')) h;
           n \<leftarrow> nodes h1 current;
           enc (ESibs (nextSib n) False) sb1 h1 }) = Some r"
    show "roomy sb \<longrightarrow> roomy (fst r)"
      using step by (auto split: encJob.splits Option.bind_splits prod.splits if_splits dest!: IH' dest: IH)
  qed
  with assms(2) show ?thesis by simp
qed



text \<open>A text survives the JSON text form: whatever bytes it holds (up to its first NUL), parsing the quoted text
  gives them back and stops right behind it.\<close>

theorem JsonEscapeStr_roundtrip: "ParseJsonString (JsonEscapeStr (Some s) @ t) = Some (cstr s, t)"
  by (simp add: JsonEscapeStr_def sbAppendJsonString_put sbInit_def ParseJsonString_quoted cstr_no_NUL)



text \<open>A text that ends inside an escape makes the parser read past the terminating NUL.\<close>

theorem TextToNode_overreads:
  assumes "QUOTE \<notin> set s" and "BACKSLASH \<notin> set s"
  shows "TextToNode (Some (CHR ''{'' # QUOTE # s @ [BACKSLASH])) h = None"
proof -
  have "ParseJsonString (QUOTE # s @ [BACKSLASH]) = None"
    using unquoted_no_close [OF assms, of "[]" "[BACKSLASH]"] by (simp add: ParseJsonString_def)
  then show ?thesis
    by (simp add: TextToNode_def ParseNodeObject_def parse.simps [of JObject] parse_None_key split del: if_split)
qed

theorem TextToNode_overreads_witness: "TextToNode (Some [CHR ''{'', QUOTE, CHR ''a'', BACKSLASH]) family = None"
  using TextToNode_overreads [of "''a''" family] by simp

end
