(* ===== verification/Registry.thy ===== *)
theory Registry
  imports NodeText
begin

text \<open>
  The registry of \<open>src/object.c\<close>: libraries, the classes they register and the instances of the
  classes, all in one tree under \<open>RegObjList\<close>, and the index from class name to class.

  A class node's children are its subclasses and its instances; the property \<open>IsClass\<close> tells them
  apart.  A text that may be NULL and is tested for NULL and emptiness together is a \<open>string\<close>, empty
  for both.  Reads of properties may cache conversions, so every walk returns the machine.
\<close>

subsection \<open>The walks\<close>

definition GetRegObjList :: "machine \<Rightarrow> ptr" where
  "GetRegObjList m = regObjList (world m)"

text \<open>The loops over a sibling chain: the first class from a node on, the first instance.\<close>

partial_function (option) classFrom :: "ptr \<Rightarrow> machine \<Rightarrow> (ptr \<times> machine) option" where
  "classFrom c m = (if c = 0 then Some (0, m) else do {
     (is, m1) \<leftarrow> IsClassNode c m;
     if is then Some (c, m1)
     else do { nxt \<leftarrow> GetNextSibling c (world m1); classFrom nxt m1 } })"

partial_function (option) instanceFrom :: "ptr \<Rightarrow> machine \<Rightarrow> (ptr \<times> machine) option" where
  "instanceFrom c m = (if c = 0 then Some (0, m) else do {
     (is, m1) \<leftarrow> IsClassNode c m;
     if \<not> is then Some (c, m1)
     else do { nxt \<leftarrow> GetNextSibling c (world m1); instanceFrom nxt m1 } })"

declare classFrom.simps [code] instanceFrom.simps [code]

definition childOf :: "ptr \<Rightarrow> machine \<Rightarrow> ptr option" where
  "childOf n m = (if n = 0 then Some 0 else GetChild n (world m))"

definition nextOf :: "ptr \<Rightarrow> machine \<Rightarrow> ptr option" where
  "nextOf n m = (if n = 0 then Some 0 else GetNextSibling n (world m))"

definition FirstClassChild :: "ptr \<Rightarrow> machine \<Rightarrow> (ptr \<times> machine) option" where
  "FirstClassChild n m = do { c \<leftarrow> childOf n m; classFrom c m }"

definition NextClassSibling :: "ptr \<Rightarrow> machine \<Rightarrow> (ptr \<times> machine) option" where
  "NextClassSibling n m = do { c \<leftarrow> nextOf n m; classFrom c m }"

partial_function (option) FirstClassFrom :: "ptr \<Rightarrow> machine \<Rightarrow> (ptr \<times> machine) option" where
  "FirstClassFrom library m = (if library = 0 then Some (0, m) else do {
     (cls, m1) \<leftarrow> FirstClassChild library m;
     if cls \<noteq> 0 then Some (cls, m1)
     else do { nxt \<leftarrow> GetNextSibling library (world m1); FirstClassFrom nxt m1 } })"

declare FirstClassFrom.simps [code]

definition FirstClass :: "machine \<Rightarrow> (ptr \<times> machine) option" where
  "FirstClass m = do { lib \<leftarrow> childOf (GetRegObjList m) m; FirstClassFrom lib m }"

text \<open>The climb of \<open>NextClass\<close>: across, then out, until the node is no class.\<close>

partial_function (option) climb :: "ptr \<Rightarrow> machine \<Rightarrow> (ptr \<times> machine) option" where
  "climb p m = do {
     (is, m1) \<leftarrow> IsClassNode p m;
     if is then do {
       (n, m2) \<leftarrow> NextClassSibling p m1;
       if n \<noteq> 0 then Some (n, m2)
       else do { up \<leftarrow> GetParent p (world m2); climb up m2 } }
     else do { nxt \<leftarrow> nextOf p m1; FirstClassFrom nxt m1 } }"

declare climb.simps [code]

definition NextClass :: "ptr \<Rightarrow> machine \<Rightarrow> (ptr \<times> machine) option" where
  "NextClass cls m = (if cls = 0 then Some (0, m) else do {
     (n, m1) \<leftarrow> FirstClassChild cls m;
     if n \<noteq> 0 then Some (n, m1) else climb cls m1 })"

definition FirstInstanceChild :: "ptr \<Rightarrow> machine \<Rightarrow> (ptr \<times> machine) option" where
  "FirstInstanceChild cls m = do { c \<leftarrow> childOf cls m; instanceFrom c m }"

definition NextInstanceSibling :: "ptr \<Rightarrow> machine \<Rightarrow> (ptr \<times> machine) option" where
  "NextInstanceSibling inst m = do { c \<leftarrow> nextOf inst m; instanceFrom c m }"

partial_function (option) FirstInstanceFrom :: "ptr \<Rightarrow> machine \<Rightarrow> (ptr \<times> machine) option" where
  "FirstInstanceFrom cls m = (if cls = 0 then Some (0, m) else do {
     (inst, m1) \<leftarrow> FirstInstanceChild cls m;
     if inst \<noteq> 0 then Some (inst, m1)
     else do { (nxt, m2) \<leftarrow> NextClass cls m1; FirstInstanceFrom nxt m2 } })"

declare FirstInstanceFrom.simps [code]

definition FirstInstance :: "machine \<Rightarrow> (ptr \<times> machine) option" where
  "FirstInstance m = do { (cls, m1) \<leftarrow> FirstClass m; FirstInstanceFrom cls m1 }"

definition NextInstance :: "ptr \<Rightarrow> machine \<Rightarrow> (ptr \<times> machine) option" where
  "NextInstance inst m = (if inst = 0 then Some (0, m) else do {
     (nxt, m1) \<leftarrow> NextInstanceSibling inst m;
     if nxt \<noteq> 0 then Some (nxt, m1)
     else do {
       cls \<leftarrow> GetParent inst (world m1);
       (c, m2) \<leftarrow> NextClass cls m1;
       FirstInstanceFrom c m2 } })"

subsection \<open>The class index\<close>

text \<open>The index is created on first use; \<open>NsNull\<close> when there is no memory for it.  A value is the address
  as a \<open>long\<close>.\<close>

definition GetClassIndex :: "machine \<Rightarrow> ns \<times> machine" where
  "GetClassIndex m = (case classIndex (world m) of
     Some t \<Rightarrow> (t, m)
   | None \<Rightarrow> (case unused (world m) of [] \<Rightarrow> (NsNull, m)
       | _ # r \<Rightarrow> (NSCreate 1, m\<lparr>world := (world m)\<lparr>classIndex := Some (NSCreate 1), unused := r\<rparr>\<rparr>)))"

text \<open>An insertion takes its nodes from the supply.\<close>

definition indexClass :: "string \<Rightarrow> ptr \<Rightarrow> machine \<Rightarrow> machine" where
  "indexClass name p m = (let (t, m1) = GetClassIndex m;
       (t', _, used) = NSInsert t name (sint p) (length (unused (world m1)))
     in if t = NsNull then m1
        else m1\<lparr>world := (world m1)\<lparr>classIndex := Some t', unused := drop used (unused (world m1))\<rparr>\<rparr>)"

definition unindexClass :: "string \<Rightarrow> machine \<Rightarrow> machine" where
  "unindexClass name m = (let (t, m1) = GetClassIndex m; (t', _, _) = NSDelete t name
     in if t = NsNull then m1 else m1\<lparr>world := (world m1)\<lparr>classIndex := Some t'\<rparr>\<rparr>)"

definition FindClass :: "string \<Rightarrow> machine \<Rightarrow> ptr \<times> machine" where
  "FindClass classname m = (if classname = [] then (0, m)
     else let (t, m1) = GetClassIndex m in (word_of_int (NSSearch t classname), m1))"

definition nameOf :: "ptr \<Rightarrow> machine \<Rightarrow> string option" where
  "nameOf p m = map_option (\<lambda>s. case s of None \<Rightarrow> [] | Some t \<Rightarrow> t) (GetNameStr p (world m))"

subsection \<open>Registering\<close>

definition LibraryOfClass :: "ptr \<Rightarrow> machine \<Rightarrow> (ptr \<times> machine) option" where
  "LibraryOfClass cls m = (if cls = 0 then Some (0, m) else onNodes (GetPropLong cls ''Library'') m)"

text \<open>A second class of a name is refused and freed.\<close>

definition RegisterClass :: "ptr \<Rightarrow> ptr \<Rightarrow> machine \<Rightarrow> (ptr \<times> machine) option" where
  "RegisterClass library cls m = do {
     name \<leftarrow> nameOf cls m;
     let (existing, m1) = FindClass name m;
     if existing \<noteq> 0
     then do { m2 \<leftarrow> doNodes (DelNode cls) m1; Some (0, m2) }
     else do {
       m2 \<leftarrow> SetPropInt cls ''IsClass'' 1 m1;
       m3 \<leftarrow> SetPropLong cls ''Library'' library m2;
       name3 \<leftarrow> nameOf cls m3;
       m4 \<leftarrow> doNodes (AddChild library cls) (indexClass name3 cls m3);
       Some (cls, m4) } }"

definition UnRegisterClass :: "ptr \<Rightarrow> ptr \<Rightarrow> machine \<Rightarrow> machine option" where
  "UnRegisterClass library cls m = (if cls = 0 then Some m
     else do { name \<leftarrow> nameOf cls m; Some (unindexClass name m) })"

definition SetClassVersion :: "ptr \<Rightarrow> string option \<Rightarrow> string option \<Rightarrow> machine \<Rightarrow> machine option" where
  "SetClassVersion cls major minor m = (if cls = 0 then Some m else do {
     m1 \<leftarrow> SetPropStr cls ''Major'' (Some (case major of None \<Rightarrow> ''0'' | Some s \<Rightarrow> s)) m;
     SetPropStr cls ''Minor'' (Some (case minor of None \<Rightarrow> ''0'' | Some s \<Rightarrow> s)) m1 })"

definition SetClassParent :: "ptr \<Rightarrow> string \<Rightarrow> machine \<Rightarrow> machine option" where
  "SetClassParent cls parentname m = (if cls = 0 \<or> parentname = [] then Some m else do {
     let (par, m1) = FindClass parentname m;
     if par = 0 then Some m1
     else do {
       m2 \<leftarrow> SetPropStr cls ''Parent'' (Some parentname) m1;
       m3 \<leftarrow> SetPropLong cls ''ParentClass'' par m2;
       up \<leftarrow> GetParent cls (world m3);
       if up \<noteq> par
       then do { m4 \<leftarrow> doNodes (DelSibling cls) m3; doNodes (AddChild par cls) m4 }
       else Some m3 } })"

partial_function (option) renderingFrom :: "32 word \<Rightarrow> ptr \<Rightarrow> machine \<Rightarrow> (ptr \<times> machine) option" where
  "renderingFrom widget cls m = (if cls = 0 then Some (0, m) else do {
     (r, m1) \<leftarrow> onNodes (GetPropInt cls ''Renders'') m;
     if r = widget then Some (cls, m1)
     else do { (nxt, m2) \<leftarrow> NextClass cls m1; renderingFrom widget nxt m2 } })"

declare renderingFrom.simps [code]

definition FindClassRendering :: "32 word \<Rightarrow> machine \<Rightarrow> (ptr \<times> machine) option" where
  "FindClassRendering widget m = (if widget = 0 then Some (0, m)
     else do { (cls, m1) \<leftarrow> FirstClass m; renderingFrom widget cls m1 })"

subsection \<open>Interfaces and instances\<close>

definition GetClassInterface :: "ptr \<Rightarrow> machine \<Rightarrow> ptr option" where
  "GetClassInterface cls m = (if cls = 0 then Some 0 else GetPropNode cls ''Interface'' (world m))"

partial_function (option) interfaceFrom :: "string \<Rightarrow> ptr \<Rightarrow> machine \<Rightarrow> (ptr \<times> machine) option" where
  "interfaceFrom propname prop m = (if prop = 0 then Some (0, m) else do {
     (name, m1) \<leftarrow> onNodes (GetPropStr prop ''Name'') m;
     if name = Some propname then Some (prop, m1)
     else do { nxt \<leftarrow> GetNextSibling prop (world m1); interfaceFrom propname nxt m1 } })"

declare interfaceFrom.simps [code]

definition InterfacePropForInstance :: "ptr \<Rightarrow> string \<Rightarrow> machine \<Rightarrow> (ptr \<times> machine) option" where
  "InterfacePropForInstance inst propname m = (if inst = 0 then Some (0, m) else do {
     cls \<leftarrow> GetParent inst (world m);
     interf \<leftarrow> GetClassInterface cls m;
     c \<leftarrow> childOf interf m;
     interfaceFrom propname c m })"

text \<open>A new node of type \<open>INTEGER\<close> with a name; 0 when there is no memory.\<close>

definition namedNode :: "string \<Rightarrow> machine \<Rightarrow> (ptr \<times> machine) option" where
  "namedNode name m = (let (p, m1) = newNode INTEGER m in do {
     m2 \<leftarrow> doNodes (SetName p name) m1;
     Some (p, m2) })"

definition PublishProp :: "ptr \<Rightarrow> string \<Rightarrow> 32 word \<Rightarrow> string option \<Rightarrow> machine \<Rightarrow> (ptr \<times> machine) option" where
  "PublishProp cls name widget defaultValue m = (if cls = 0 then Some (0, m) else do {
     found \<leftarrow> GetClassInterface cls m;
     (interf, m1) \<leftarrow> (if found \<noteq> 0 then Some (found, m) else do {
          (p, ma) \<leftarrow> namedNode ''Interface'' m;
          mb \<leftarrow> doNodes (AddProp cls p) ma;
          Some (p, mb) });
     (entry, m2) \<leftarrow> namedNode ''Property'' m1;
     m3 \<leftarrow> SetPropStr entry ''Name'' (Some name) m2;
     m4 \<leftarrow> SetPropInt entry ''Widget'' widget m3;
     m5 \<leftarrow> SetPropStr entry ''Default'' (Some (case defaultValue of None \<Rightarrow> [] | Some s \<Rightarrow> s)) m4;
     m6 \<leftarrow> doNodes (AppendChild interf entry) m5;
     Some (entry, m6) })"

text \<open>\<open>activateOnMsg\<close> is the address of the function \<open>ActivateOnMsg\<close>.\<close>

definition RegisterInstance :: "ptr \<Rightarrow> ptr \<Rightarrow> ptr \<Rightarrow> machine \<Rightarrow> (ptr \<times> machine) option" where
  "RegisterInstance activateOnMsg cls inst m = do {
     m1 \<leftarrow> doNodes (AddChild cls inst) m;
     activate \<leftarrow> GetPropNode inst ''Activate'' (world m1);
     m2 \<leftarrow> (if activate = 0 then Some m1 else do {
              (has, ma) \<leftarrow> HasHandler activate m1;
              if has then Some ma else SetPropLong activate ''OnMsg'' activateOnMsg ma });
     m3 \<leftarrow> SetPropLong cls ''LastInstance'' inst m2;
     Some (inst, m3) }"

definition msg_update :: int where "msg_update = 1"
definition msg_initialize :: int where "msg_initialize = 2"
definition msg_eof :: int where "msg_eof = 4"

definition ActivateInstance :: "caller \<Rightarrow> ptr \<Rightarrow> machine \<Rightarrow> (int \<times> machine) option" where
  "ActivateInstance call inst m = (if inst = 0 then Some (rtrn_dropped, m) else do {
     (fn, m1) \<leftarrow> onNodes (GetPropLong inst ''Activate'') m;
     if fn = 0 then Some (rtrn_dropped, m1) else call fn inst msg_initialize 0 m1 })"

definition ActivateOnMsg :: "caller \<Rightarrow> ptr \<Rightarrow> int \<Rightarrow> ptr \<Rightarrow> machine \<Rightarrow> (int \<times> machine) option" where
  "ActivateOnMsg call inst message data m = do {
     (v, m1) \<leftarrow> onNodes (GetValueStr data) m;
     if message = msg_eof \<or> v = None \<or> v = Some [] \<or> v = Some ''0'' then Some (rtrn_handled, m1)
     else do {
       m2 \<leftarrow> logName inst m1;
       m3 \<leftarrow> logValue data m2;
       (_, m4) \<leftarrow> ActivateInstance call inst m3;
       Some (rtrn_handled, m4) } }"

subsection \<open>Users\<close>

definition CreateContainer :: "ptr \<Rightarrow> string \<Rightarrow> machine \<Rightarrow> (ptr \<times> machine) option" where
  "CreateContainer container name m = do {
     (temp, m1) \<leftarrow> namedNode name m;
     m2 \<leftarrow> doNodes (AddChild container temp) m1;
     Some (temp, m2) }"

definition CreateUser :: "ptr \<Rightarrow> string \<Rightarrow> string option \<Rightarrow> machine \<Rightarrow> (ptr \<times> machine) option" where
  "CreateUser main name token m = (if main = 0 then Some (0, m) else do {
     found \<leftarrow> GetPropNode main ''Users'' (world m);
     (users, m1) \<leftarrow> (if found \<noteq> 0 then Some (found, m) else do {
          (p, ma) \<leftarrow> namedNode ''Users'' m;
          mb \<leftarrow> doNodes (AddProp main p) ma;
          Some (p, mb) });
     (user, m2) \<leftarrow> namedNode name m1;
     m3 \<leftarrow> SetPropStr user ''Token'' (Some (case token of None \<Rightarrow> [] | Some s \<Rightarrow> s)) m2;
     m4 \<leftarrow> doNodes (AppendChild users user) m3;
     (_, m5) \<leftarrow> CreateContainer user ''Canvas'' m4;
     Some (user, m5) })"

definition FindUser :: "ptr \<Rightarrow> string \<Rightarrow> machine \<Rightarrow> ptr option" where
  "FindUser main name m = (if main = 0 then Some 0 else do {
     users \<leftarrow> GetPropNode main ''Users'' (world m);
     if users = 0 then Some 0
     else do { c \<leftarrow> GetChild users (world m); findNamed c name (world m) } })"

definition AuthenticateUser :: "ptr \<Rightarrow> string \<Rightarrow> string option \<Rightarrow> machine \<Rightarrow> (ptr \<times> machine) option" where
  "AuthenticateUser main name token m = do {
     user \<leftarrow> FindUser main name m;
     if user = 0 then Some (0, m)
     else do {
       (stored, m1) \<leftarrow> onNodes (GetPropStr user ''Token'') m;
       if stored = None \<or> token = None \<or> stored \<noteq> token then Some (0, m1) else Some (user, m1) } }"

subsection \<open>Dependencies\<close>

partial_function (option) fileFrom :: "string \<Rightarrow> ptr \<Rightarrow> machine \<Rightarrow> (ptr \<times> machine) option" where
  "fileFrom file library m = (if library = 0 then Some (0, m) else do {
     (have, m1) \<leftarrow> onNodes (GetPropStr library ''File'') m;
     if have = Some file then Some (library, m1)
     else do { nxt \<leftarrow> GetNextSibling library (world m1); fileFrom file nxt m1 } })"

declare fileFrom.simps [code]

definition FindLibraryByFile :: "string \<Rightarrow> machine \<Rightarrow> (ptr \<times> machine) option" where
  "FindLibraryByFile file m = (if file = [] then Some (0, m) else do {
     library \<leftarrow> GetChild (GetRegObjList m) (world m);
     fileFrom file library m })"

text \<open>Compatible: the same major version and at least the minor one; asking for nothing accepts anything.\<close>

definition ClassVersionOk :: "ptr \<Rightarrow> string \<Rightarrow> string \<Rightarrow> machine \<Rightarrow> (bool \<times> machine) option" where
  "ClassVersionOk cls wantMajor wantMinor m = (if cls = 0 then Some (False, m)
     else if wantMajor = [] then Some (True, m)
     else do {
       (major, m1) \<leftarrow> onNodes (GetPropInt cls ''Major'') m;
       wanted \<leftarrow> atoi wantMajor;
       if major \<noteq> wanted then Some (False, m1)
       else if wantMinor = [] then Some (True, m1)
       else do {
         (minor, m2) \<leftarrow> onNodes (GetPropInt cls ''Minor'') m1;
         least \<leftarrow> atoi wantMinor;
         Some (sint least \<le> sint minor, m2) } })"

definition AddDependency :: "ptr \<Rightarrow> string \<Rightarrow> string \<Rightarrow> string option \<Rightarrow> string option \<Rightarrow> machine \<Rightarrow> machine option" where
  "AddDependency library file classname major minor m = (if library = 0 then Some m else do {
     found \<leftarrow> GetPropNode library ''Dependencies'' (world m);
     (deps, m1) \<leftarrow> (if found \<noteq> 0 then Some (found, m) else do {
          (p, ma) \<leftarrow> namedNode ''Dependencies'' m;
          mb \<leftarrow> doNodes (AddProp library p) ma;
          Some (p, mb) });
     (entry, m2) \<leftarrow> namedNode ''Dependency'' m1;
     m3 \<leftarrow> SetPropStr entry ''File'' (Some file) m2;
     m4 \<leftarrow> SetPropStr entry ''Class'' (Some classname) m3;
     m5 \<leftarrow> SetPropStr entry ''Major'' (Some (case major of None \<Rightarrow> [] | Some s \<Rightarrow> s)) m4;
     m6 \<leftarrow> SetPropStr entry ''Minor'' (Some (case minor of None \<Rightarrow> [] | Some s \<Rightarrow> s)) m5;
     doNodes (AddChild deps entry) m6 })"

definition ClearDependencies :: "ptr \<Rightarrow> machine \<Rightarrow> machine option" where
  "ClearDependencies library m = (if library = 0 then Some m else do {
     deps \<leftarrow> GetPropNode library ''Dependencies'' (world m);
     if deps = 0 then Some m
     else do { m1 \<leftarrow> doNodes (RemoveProp library deps) m; doNodes (DelNode deps) m1 } })"

definition textProp :: "ptr \<Rightarrow> string \<Rightarrow> machine \<Rightarrow> (string \<times> machine) option" where
  "textProp p name m = do {
     (s, m1) \<leftarrow> onNodes (GetPropStr p name) m;
     Some (case s of None \<Rightarrow> [] | Some t \<Rightarrow> t, m1) }"

text \<open>\<open>ix\<close> is the index from file names to libraries.  The version is read only for an entry with a class;
  the arguments of a call are evaluated whatever the class is.\<close>

definition DependencyMet :: "ns \<Rightarrow> ptr \<Rightarrow> machine \<Rightarrow> (bool \<times> machine) option" where
  "DependencyMet ix entry m = do {
     (met, m1) \<leftarrow> onNodes (GetPropInt entry ''Met'') m;
     if met \<noteq> 0 then Some (True, m1)
     else do {
       (file, m2) \<leftarrow> textProp entry ''File'' m1;
       let depLib = word_of_int (NSSearch ix file);
       (loaded, m3) \<leftarrow> (if depLib = 0 then Some (0, m2) else onNodes (GetPropInt depLib ''Loaded'') m2);
       if loaded = 0 then Some (False, m3)
       else do {
         (classname, m4) \<leftarrow> textProp entry ''Class'' m3;
         let (depClass, m5) = FindClass classname m4;
         (major, m6) \<leftarrow> textProp entry ''Major'' m5;
         (minor, m7) \<leftarrow> textProp entry ''Minor'' m6;
         (ok, m8) \<leftarrow> ClassVersionOk depClass major minor m7;
         if \<not> ok then Some (False, m8)
         else do { m9 \<leftarrow> SetPropInt entry ''Met'' 1 m8; Some (True, m9) } } } }"

partial_function (option) unmetFrom :: "ns \<Rightarrow> ptr \<Rightarrow> machine \<Rightarrow> (nat \<times> machine) option" where
  "unmetFrom ix entry m = (if entry = 0 then Some (0, m) else do {
     (met, m1) \<leftarrow> DependencyMet ix entry m;
     nxt \<leftarrow> GetNextSibling entry (world m1);
     (n, m2) \<leftarrow> unmetFrom ix nxt m1;
     Some (if met then n else n + 1, m2) })"

declare unmetFrom.simps [code]

definition UnmetCount :: "ns \<Rightarrow> ptr \<Rightarrow> machine \<Rightarrow> (nat \<times> machine) option" where
  "UnmetCount ix library m = do {
     deps \<leftarrow> GetPropNode library ''Dependencies'' (world m);
     c \<leftarrow> childOf deps m;
     unmetFrom ix c m }"

text \<open>What \<open>ReportUnmet\<close> reads for its messages.\<close>

partial_function (option) reportFrom :: "ptr \<Rightarrow> machine \<Rightarrow> machine option" where
  "reportFrom entry m = (if entry = 0 then Some m else do {
     (file, m1) \<leftarrow> textProp entry ''File'' m;
     (classname, m2) \<leftarrow> textProp entry ''Class'' m1;
     (depLib, m3) \<leftarrow> FindLibraryByFile file m2;
     m4 \<leftarrow> (if depLib = 0 then Some m3 else do {
              (loaded, ma) \<leftarrow> onNodes (GetPropInt depLib ''Loaded'') m3;
              if loaded = 0 then Some ma
              else do {
                let (depClass, mb) = FindClass classname ma;
                if depClass = 0 then Some mb
                else do {
                  (major, mc) \<leftarrow> textProp entry ''Major'' mb;
                  (minor, md) \<leftarrow> textProp entry ''Minor'' mc;
                  (ok, me) \<leftarrow> ClassVersionOk depClass major minor md;
                  if ok then Some me
                  else do {
                    (_, mf) \<leftarrow> textProp depClass ''Major'' me;
                    (_, mg) \<leftarrow> textProp depClass ''Minor'' mf;
                    Some mg } } } });
     nxt \<leftarrow> GetNextSibling entry (world m4);
     reportFrom nxt m4 })"

declare reportFrom.simps [code]

definition ReportUnmet :: "ptr \<Rightarrow> machine \<Rightarrow> machine option" where
  "ReportUnmet library m = do {
     deps \<leftarrow> GetPropNode library ''Dependencies'' (world m);
     c \<leftarrow> childOf deps m;
     reportFrom c m }"

subsection \<open>Bringing the classes up\<close>

text \<open>\<open>loadClasses\<close>: the libraries not loaded yet are ranked by the number of their unmet dependencies and
  kept in a ring; the one in front starts or goes to the back, until the ring is empty or has gone
  round twice without a start.  \<open>qsort\<close> is the sort of the C library with the comparison \<open>DepRankCmp\<close>.\<close>

text \<open>What \<open>ReportLoadedObjects\<close> reads for its line.\<close>

partial_function (option) reportLoaded :: "ptr \<Rightarrow> machine \<Rightarrow> machine option" where
  "reportLoaded library m = (if library = 0 then Some m else do {
     (_, m1) \<leftarrow> textProp library ''File'' m;
     _ \<leftarrow> GetNameStr library (world m1);
     nxt \<leftarrow> GetNextSibling library (world m1);
     reportLoaded nxt m1 })"

declare reportLoaded.simps [code]

partial_function (option) pendingFrom :: "ptr \<Rightarrow> machine \<Rightarrow> (nat \<times> machine) option" where
  "pendingFrom library m = (if library = 0 then Some (0, m) else do {
     (loaded, m1) \<leftarrow> onNodes (GetPropInt library ''Loaded'') m;
     nxt \<leftarrow> GetNextSibling library (world m1);
     (n, m2) \<leftarrow> pendingFrom nxt m1;
     Some (if loaded = 0 then n + 1 else n, m2) })"

partial_function (option) indexFiles :: "ptr \<Rightarrow> ns \<Rightarrow> machine \<Rightarrow> (ns \<times> machine) option" where
  "indexFiles library ix m = (if library = 0 then Some (ix, m) else do {
     (file, m1) \<leftarrow> textProp library ''File'' m;
     let (ix1, _, used) = NSInsert ix file (sint library) (length (unused (world m1)));
     let m2 = m1\<lparr>world := (world m1)\<lparr>unused := drop used (unused (world m1))\<rparr>\<rparr>;
     nxt \<leftarrow> GetNextSibling library (world m2);
     if file = [] then indexFiles nxt ix m1 else indexFiles nxt ix1 m2 })"

partial_function (option) rankFrom :: "ns \<Rightarrow> ptr \<Rightarrow> machine \<Rightarrow> ((ptr \<times> nat) list \<times> machine) option" where
  "rankFrom ix library m = (if library = 0 then Some ([], m) else do {
     (loaded, m1) \<leftarrow> onNodes (GetPropInt library ''Loaded'') m;
     if loaded \<noteq> 0
     then do { nxt \<leftarrow> GetNextSibling library (world m1); rankFrom ix nxt m1 }
     else do {
       (unmet, m2) \<leftarrow> UnmetCount ix library m1;
       nxt \<leftarrow> GetNextSibling library (world m2);
       (rest, m3) \<leftarrow> rankFrom ix nxt m2;
       Some ((library, unmet) # rest, m3) } })"

fun reportRing :: "ptr list \<Rightarrow> nat \<Rightarrow> nat \<Rightarrow> machine \<Rightarrow> machine option" where
  "reportRing work j 0 m = Some m"
| "reportRing work j (Suc n) m = do {
     _ \<leftarrow> GetNameStr (work ! j) (world m);
     m1 \<leftarrow> ReportUnmet (work ! j) m;
     reportRing work (Suc j mod length work) n m1 }"

partial_function (option) startLoop :: "caller \<Rightarrow> ns \<Rightarrow> ptr list \<Rightarrow> nat \<Rightarrow> nat \<Rightarrow> nat \<Rightarrow> int \<Rightarrow> nat \<Rightarrow> machine
    \<Rightarrow> ((int \<times> nat) \<times> machine) option" where
  "startLoop call ix work front queued stalled remaining started m =
     (if queued = 0 then Some ((remaining, started), m) else do {
        let library = work ! front;
        let front1 = Suc front mod length work;
        (unmet, m1) \<leftarrow> UnmetCount ix library m;
        if unmet = 0 then do {
          (fn, m2) \<leftarrow> onNodes (GetPropLong library ''ClassStart'') m1;
          m3 \<leftarrow> (if fn \<noteq> 0 then map_option snd (call fn library msg_change 0 m2) else Some m2);
          m4 \<leftarrow> SetPropInt library ''Loaded'' 1 m3;
          _ \<leftarrow> GetNameStr library (world m4);
          startLoop call ix work front1 (queued - 1) 0 (remaining - 1) (started + 1) m4 }
        else do {
          let work1 = work[(front1 + (queued - 1)) mod length work := library];
          if stalled + 1 \<ge> 2 * queued
          then do { m2 \<leftarrow> reportRing work1 front1 queued m1; Some ((remaining, started), m2) }
          else startLoop call ix work1 front1 queued (stalled + 1) remaining started m1 } })"

declare pendingFrom.simps [code] indexFiles.simps [code] rankFrom.simps [code] startLoop.simps [code]

text \<open>A block of the heap, for an array; the code gives it back before it returns.\<close>

definition takeBlock :: "machine \<Rightarrow> machine option" where
  "takeBlock m = (case unused (world m) of [] \<Rightarrow> None
     | _ # r \<Rightarrow> Some (m\<lparr>world := (world m)\<lparr>unused := r\<rparr>\<rparr>))"

definition fileIndex :: "ptr \<Rightarrow> machine \<Rightarrow> (ns \<times> machine) option" where
  "fileIndex library m = (case takeBlock m of
     None \<Rightarrow> indexFiles library NsNull m | Some m1 \<Rightarrow> indexFiles library (NSCreate 1) m1)"

definition loadClasses :: "((ptr \<times> nat) list \<Rightarrow> (ptr \<times> nat) list) \<Rightarrow> caller \<Rightarrow> machine
    \<Rightarrow> ((int \<times> nat) \<times> machine) option" where
  "loadClasses qsort call m = do {
     first \<leftarrow> GetChild (GetRegObjList m) (world m);
     m0 \<leftarrow> reportLoaded first m;
     (pending, m1) \<leftarrow> pendingFrom first m0;
     if pending = 0 then Some ((0, 0), m1)
     else (case takeBlock m1 of None \<Rightarrow> Some ((int pending, 0), m1)
       | Some m2 \<Rightarrow> do {
           (ix, m3) \<leftarrow> fileIndex first m2;
           (case takeBlock m3 of None \<Rightarrow> Some ((int pending, 0), m3)
            | Some m4 \<Rightarrow> do {
                (rank, m5) \<leftarrow> rankFrom ix first m4;
                startLoop call ix (map fst (qsort rank)) 0 (length rank) 0 (int pending) 0 m5 }) }) }"

partial_function (option) endFrom :: "caller \<Rightarrow> ptr \<Rightarrow> machine \<Rightarrow> machine option" where
  "endFrom call library m = (if library = 0 then Some m else do {
     (fn, m1) \<leftarrow> onNodes (GetPropLong library ''ClassEnd'') m;
     m2 \<leftarrow> (if fn \<noteq> 0 then map_option snd (call fn library msg_change 0 m1) else Some m1);
     nxt \<leftarrow> GetNextSibling library (world m2);
     endFrom call nxt m2 })"

declare endFrom.simps [code]

definition UnloadClasses :: "caller \<Rightarrow> machine \<Rightarrow> machine option" where
  "UnloadClasses call m = do {
     library \<leftarrow> GetChild (GetRegObjList m) (world m);
     endFrom call library m }"

end
