(* ===== verification/Registry_Walks.thy ===== *)
theory Registry_Walks
  imports Registry Fabric_Delivery
begin

text \<open>
  Proofs on \<open>Registry\<close>: the registry as a tree of classes and instances, and that the two cursors visit
  every class and every instance exactly once.
\<close>

subsection \<open>The registry as a tree\<close>

datatype rtree = R (raddr: ptr) (rclass: bool) (rkids: "rtree list")

text \<open>Reading \<open>IsClass\<close> of a node changes nothing (the value is cached as an integer) and answers \<open>k\<close>.\<close>

definition class_flag :: "fabric \<Rightarrow> ptr \<Rightarrow> bool \<Rightarrow> bool" where
  "class_flag w a k \<longleftrightarrow> (\<exists>i. GetPropInt a ''IsClass'' w = Some (i, w) \<and> (i \<noteq> 0) = k)"

fun regs :: "fabric \<Rightarrow> ptr \<Rightarrow> ptr \<Rightarrow> rtree list \<Rightarrow> bool" where
  "regs w p par [] \<longleftrightarrow> p = 0"
| "regs w p par (R a k ts # rs) \<longleftrightarrow> p = a \<and> a \<noteq> 0 \<and> class_flag w a k
     \<and> (\<exists>n. nodes w a = Some n \<and> parent n = par \<and> regs w (child n) a ts \<and> regs w (nextSib n) par rs)"

text \<open>The libraries under the root; no library is a class.\<close>

definition registry :: "machine \<Rightarrow> rtree list \<Rightarrow> bool" where
  "registry m libs \<longleftrightarrow> regObjList (world m) \<noteq> 0
     \<and> (\<exists>n. nodes (world m) (regObjList (world m)) = Some n \<and> regs (world m) (child n) (regObjList (world m)) libs)
     \<and> (\<forall>t \<in> set libs. \<not> rclass t)"

text \<open>The classes of a sibling list, each before its subclasses; the instances of a class.\<close>

fun classTrees :: "rtree list \<Rightarrow> rtree list" where
  "classTrees [] = []"
| "classTrees (R a k ts # rs) = (if k then R a k ts # classTrees ts else []) @ classTrees rs"

definition allClasses :: "rtree list \<Rightarrow> rtree list" where
  "allClasses libs = concat (map (\<lambda>t. classTrees (rkids t)) libs)"

definition instKids :: "rtree \<Rightarrow> ptr list" where
  "instKids t = map raddr (filter (\<lambda>u. \<not> rclass u) (rkids t))"

definition allInstances :: "rtree list \<Rightarrow> ptr list" where
  "allInstances libs = concat (map instKids (allClasses libs))"

definition classAddrs :: "rtree list \<Rightarrow> ptr list" where
  "classAddrs rs = map raddr (classTrees rs)"

lemma classAddrs_simps [simp]:
  "classAddrs [] = []"
  "classAddrs (R a k ts # rs) = (if k then a # classAddrs ts else []) @ classAddrs rs"
  by (simp_all add: classAddrs_def)

text \<open>The first of a list of addresses, or NULL.\<close>

definition headOr :: "ptr list \<Rightarrow> ptr \<Rightarrow> ptr" where
  "headOr xs z = (case xs of [] \<Rightarrow> z | a # _ \<Rightarrow> a)"

lemma headOr_simps [simp]:
  "headOr [] z = z" "headOr (a # xs) z = a" "headOr (xs @ ys) z = headOr xs (headOr ys z)"
  by (auto simp: headOr_def split: list.split)

lemma IsClassNode_flag: "class_flag (world m) a k \<Longrightarrow> a \<noteq> 0 \<Longrightarrow> IsClassNode a m = Some (k, m)"
  by (auto simp: class_flag_def IsClassNode_def)

lemma regs_nz: "regs w p par rs \<Longrightarrow> a \<in> set (classAddrs rs) \<Longrightarrow> a \<noteq> 0"
  by (induction rs arbitrary: p par rule: classTrees.induct) (auto split: if_splits)

subsection \<open>The class walk\<close>

lemma classFrom_first: "regs (world m) p par rs \<Longrightarrow> classFrom p m = Some (headOr (classAddrs rs) 0, m)"
proof (induction rs arbitrary: p par rule: classTrees.induct)
  case 1
  then show ?case by (subst classFrom.simps) simp
next
  case (2 a k ts rs)
  then obtain n where n: "p = a" "a \<noteq> 0" "class_flag (world m) a k" "nodes (world m) a = Some n"
    "regs (world m) (nextSib n) par rs" by auto
  then have isc: "IsClassNode a m = Some (k, m)" by (simp add: IsClassNode_flag)
  show ?case
  proof (cases k)
    case True
    with n isc show ?thesis by (subst classFrom.simps) simp
  next
    case False
    with n isc "2.IH"(2) [OF n(5)] show ?thesis
      by (subst classFrom.simps) (simp add: GetNextSibling_def)
  qed
qed

lemma FirstClassChild_first:
  assumes "nodes (world m) a = Some n" and "a \<noteq> 0" and "regs (world m) (child n) a ts"
  shows "FirstClassChild a m = Some (headOr (classAddrs ts) 0, m)"
  using classFrom_first [OF assms(3)] assms(1,2) by (simp add: FirstClassChild_def childOf_def GetChild_def)

lemma headOr_eq_0: "regs w p par rs \<Longrightarrow> headOr (classAddrs rs) 0 = 0 \<longleftrightarrow> classAddrs rs = []"
  using regs_nz [of w p par rs] by (cases "classAddrs rs") auto

text \<open>Below a node whose climb leads to \<open>z\<close>, every class leads to the next one, the last to \<open>z\<close>.\<close>

lemma NextClass_below:
  assumes "regs (world m) p par rs" and "climb par m = Some (z, m)" and "classAddrs rs = xs @ a # ys"
  shows "NextClass a m = Some (headOr ys z, m)"
  using assms
proof (induction rs arbitrary: p par z xs ys rule: classTrees.induct)
  case 1
  then show ?case by simp
next
  case (2 b k ts rs)
  then obtain n where n: "p = b" "b \<noteq> 0" "class_flag (world m) b k" "nodes (world m) b = Some n" "parent n = par"
    "regs (world m) (child n) b ts" "regs (world m) (nextSib n) par rs" by auto
  have isc: "IsClassNode b m = Some (k, m)" using n by (simp add: IsClassNode_flag)
  show ?case
  proof (cases k)
    case False
    with "2.prems"(2,3) show ?thesis using "2.IH"(2) [OF n(7)] by simp
  next
    case True
    have nx: "NextClassSibling b m = Some (headOr (classAddrs rs) 0, m)"
      using classFrom_first [OF n(7)] n(2,4) by (simp add: NextClassSibling_def nextOf_def GetNextSibling_def)
    have up: "climb b m = Some (headOr (classAddrs rs) z, m)"
      using isc nx n(2,4,5) True "2.prems"(2) headOr_eq_0 [OF n(7)]
      by (subst climb.simps) (cases "classAddrs rs"; simp add: GetParent_def)
    have nxt: "NextClass b m = Some (headOr (classAddrs ts @ classAddrs rs) z, m)"
      using FirstClassChild_first [OF n(4,2,6)] headOr_eq_0 [OF n(6)] up n(2)
      by (cases "classAddrs ts") (simp_all add: NextClass_def)
    consider "xs = []" "b = a" "classAddrs ts @ classAddrs rs = ys"
      | xs' where "classAddrs ts @ classAddrs rs = xs' @ a # ys"
      using "2.prems"(3) True by (cases xs) auto
    then show ?thesis
    proof cases
      case 1
      with nxt show ?thesis by auto
    next
      case 2
      from this [unfolded append_eq_append_conv2] show ?thesis
      proof (elim exE disjE conjE)
        fix rs' assume e: "classAddrs ts = xs' @ rs'" "rs' @ classAddrs rs = a # ys"
        show ?thesis
        proof (cases rs')
          case Nil
          with e have "classAddrs rs = [] @ a # ys" by simp
          then show ?thesis using "2.IH"(2) [OF n(7) "2.prems"(2)] by blast
        next
          case (Cons c zs)
          with e have "classAddrs ts = xs' @ a # zs" "ys = zs @ classAddrs rs" by auto
          then show ?thesis using "2.IH"(1) [OF True n(6) up] by simp
        qed
      next
        fix rs' assume "classAddrs ts @ rs' = xs'" "classAddrs rs = rs' @ a # ys"
        then show ?thesis using "2.IH"(2) [OF n(7) "2.prems"(2)] by simp
      qed
    qed
  qed
qed

lemma FirstClassFrom_libs:
  assumes "regs (world m) p par libs"
  shows "FirstClassFrom p m = Some (headOr (map raddr (allClasses libs)) 0, m)"
  using assms
proof (induction libs arbitrary: p)
  case Nil
  then show ?case by (subst FirstClassFrom.simps) (simp add: allClasses_def)
next
  case (Cons t libs)
  obtain a k ts where t: "t = R a k ts" by (cases t)
  with Cons.prems obtain n where n: "p = a" "a \<noteq> 0" "nodes (world m) a = Some n"
    "regs (world m) (child n) a ts" "regs (world m) (nextSib n) par libs" by auto
  have all: "map raddr (allClasses (t # libs)) = classAddrs ts @ map raddr (allClasses libs)"
    by (simp add: allClasses_def classAddrs_def t)
  show ?case
    using FirstClassChild_first [OF n(3,2,4)] headOr_eq_0 [OF n(4)] Cons.IH [OF n(5)] n(1-3)
    by (subst FirstClassFrom.simps) (cases "classAddrs ts"; simp add: all GetNextSibling_def)
qed

lemma NextClass_libs:
  assumes "regs (world m) p par libs" and "\<forall>t \<in> set libs. \<not> rclass t"
    and "map raddr (allClasses libs) = xs @ a # ys"
  shows "NextClass a m = Some (headOr ys 0, m)"
  using assms
proof (induction libs arbitrary: p xs)
  case Nil
  then show ?case by (simp add: allClasses_def)
next
  case (Cons t libs)
  obtain l ts where t: "t = R l False ts" using Cons.prems(2) by (cases t) auto
  with Cons.prems(1) obtain n where n: "p = l" "l \<noteq> 0" "class_flag (world m) l False" "nodes (world m) l = Some n"
    "regs (world m) (child n) l ts" "regs (world m) (nextSib n) par libs" by auto
  have all: "map raddr (allClasses (t # libs)) = classAddrs ts @ map raddr (allClasses libs)"
    by (simp add: allClasses_def classAddrs_def t)
  have up: "climb l m = Some (headOr (map raddr (allClasses libs)) 0, m)"
    using FirstClassFrom_libs [OF n(6)] IsClassNode_flag [OF n(3,2)] n(2,4)
    by (subst climb.simps) (simp add: nextOf_def GetNextSibling_def)
  from Cons.prems(3) [unfolded all append_eq_append_conv2] show ?case
  proof (elim exE disjE conjE)
    fix rs assume e: "classAddrs ts = xs @ rs" "rs @ map raddr (allClasses libs) = a # ys"
    show ?thesis
    proof (cases rs)
      case Nil
      with e show ?thesis using Cons.IH [OF n(6), of "[]"] Cons.prems(2) by simp
    next
      case (Cons c zs)
      with e have "classAddrs ts = xs @ a # zs" "ys = zs @ map raddr (allClasses libs)" by auto
      then show ?thesis using NextClass_below [OF n(5) up] by simp
    qed
  next
    fix rs assume "classAddrs ts @ rs = xs" "map raddr (allClasses libs) = rs @ a # ys"
    then show ?thesis using Cons.IH [OF n(6)] Cons.prems(2) by simp
  qed
qed

lemma FirstClass_registry: "registry m libs \<Longrightarrow> FirstClass m = Some (headOr (map raddr (allClasses libs)) 0, m)"
  by (auto simp: registry_def FirstClass_def childOf_def GetRegObjList_def GetChild_def FirstClassFrom_libs)

lemma NextClass_registry:
  "registry m libs \<Longrightarrow> map raddr (allClasses libs) = xs @ a # ys \<Longrightarrow> NextClass a m = Some (headOr ys 0, m)"
  using NextClass_libs by (auto simp: registry_def)

subsection \<open>The instance walk\<close>

definition instAddrs :: "rtree list \<Rightarrow> ptr list" where
  "instAddrs ts = map raddr (filter (\<lambda>u. \<not> rclass u) ts)"

lemma instAddrs_simps [simp]:
  "instAddrs [] = []" "instAddrs (R a k ts # rs) = (if k then [] else [a]) @ instAddrs rs"
  by (simp_all add: instAddrs_def)

lemma instanceFrom_first: "regs (world m) p par rs \<Longrightarrow> instanceFrom p m = Some (headOr (instAddrs rs) 0, m)"
proof (induction rs arbitrary: p)
  case Nil
  then show ?case by (subst instanceFrom.simps) simp
next
  case (Cons t rs)
  obtain a k ts where t: "t = R a k ts" by (cases t)
  with Cons.prems obtain n where n: "p = a" "a \<noteq> 0" "class_flag (world m) a k" "nodes (world m) a = Some n"
    "regs (world m) (nextSib n) par rs" by auto
  with t Cons.IH [OF n(5)] show ?case
    by (subst instanceFrom.simps) (simp add: IsClassNode_flag GetNextSibling_def)
qed

lemma instance_node:
  assumes "regs (world m) p par rs" and "instAddrs rs = xs @ i # ys"
  shows "i \<noteq> 0 \<and> (\<exists>n. nodes (world m) i = Some n \<and> parent n = par \<and> instanceFrom (nextSib n) m = Some (headOr ys 0, m))"
  using assms
proof (induction rs arbitrary: p xs)
  case (Cons t rs)
  obtain a k ts where t: "t = R a k ts" by (cases t)
  with Cons.prems obtain n where n: "p = a" "a \<noteq> 0" "nodes (world m) a = Some n" "parent n = par"
    "regs (world m) (nextSib n) par rs" by auto
  show ?case
  proof (cases "\<not> k \<and> xs = []")
    case True
    with Cons.prems(2) t n instanceFrom_first [OF n(5)] show ?thesis by auto
  next
    case False
    with Cons.prems(2) t have "\<exists>zs. instAddrs rs = zs @ i # ys" by (cases xs) (auto split: if_splits)
    with Cons.IH [OF n(5)] show ?thesis by blast
  qed
qed simp

lemma instAddrs_nz: "regs (world (m :: machine)) p par rs \<Longrightarrow> i \<in> set (instAddrs rs) \<Longrightarrow> i \<noteq> 0"
  by (drule split_list, elim exE) (drule (1) instance_node, simp)

lemma classTrees_node:
  "regs w p par rs \<Longrightarrow> T \<in> set (classTrees rs)
    \<Longrightarrow> raddr T \<noteq> 0 \<and> (\<exists>n. nodes w (raddr T) = Some n \<and> regs w (child n) (raddr T) (rkids T))"
  by (induction rs arbitrary: p par rule: classTrees.induct) (auto split: if_splits)

lemma class_node:
  assumes "registry m libs" and "T \<in> set (allClasses libs)"
  shows "raddr T \<noteq> 0 \<and> (\<exists>n. nodes (world m) (raddr T) = Some n \<and> regs (world m) (child n) (raddr T) (rkids T))"
proof -
  have "\<exists>n. nodes w (raddr l) = Some n \<and> regs w (child n) (raddr l) (rkids l)"
    if "regs w p par ls" "l \<in> set ls" for w p par ls l
    using that
  proof (induction ls arbitrary: p)
    case (Cons t ls)
    then show ?case by (cases t) auto
  qed simp
  with assms show ?thesis unfolding registry_def allClasses_def by (fastforce dest: classTrees_node)
qed

lemma instKids_first:
  assumes "registry m libs" and "T \<in> set (allClasses libs)"
  shows "FirstInstanceChild (raddr T) m = Some (headOr (instKids T) 0, m)" and "\<forall>i \<in> set (instKids T). i \<noteq> 0"
proof -
  obtain n where n: "raddr T \<noteq> 0" "nodes (world m) (raddr T) = Some n" "regs (world m) (child n) (raddr T) (rkids T)"
    using class_node [OF assms] by blast
  then show "FirstInstanceChild (raddr T) m = Some (headOr (instKids T) 0, m)"
    by (simp add: FirstInstanceChild_def childOf_def GetChild_def instanceFrom_first instKids_def flip: instAddrs_def)
  show "\<forall>i \<in> set (instKids T). i \<noteq> 0"
    using instAddrs_nz [OF n(3)] by (simp add: instKids_def instAddrs_def)
qed

lemma FirstInstanceFrom_suffix:
  assumes "registry m libs" and "allClasses libs = Xs @ Ts"
  shows "FirstInstanceFrom (headOr (map raddr Ts) 0) m = Some (headOr (concat (map instKids Ts)) 0, m)"
  using assms(2)
proof (induction Ts arbitrary: Xs)
  case Nil
  then show ?case by (subst FirstInstanceFrom.simps) simp
next
  case (Cons T Ts)
  have T: "T \<in> set (allClasses libs)" using Cons.prems by simp
  note f = instKids_first [OF assms(1) T]
  have nx: "NextClass (raddr T) m = Some (headOr (map raddr Ts) 0, m)"
    by (rule NextClass_registry [OF assms(1), of "map raddr Xs"]) (simp add: Cons.prems)
  have IH: "FirstInstanceFrom (headOr (map raddr Ts) 0) m = Some (headOr (concat (map instKids Ts)) 0, m)"
    by (rule Cons.IH [of "Xs @ [T]"]) (simp add: Cons.prems)
  show ?case
  proof (cases "instKids T")
    case Nil
    with f nx IH class_node [OF assms(1) T] show ?thesis by (subst FirstInstanceFrom.simps) simp
  next
    case (Cons i is')
    with f class_node [OF assms(1) T] show ?thesis by (subst FirstInstanceFrom.simps) simp
  qed
qed

lemma FirstInstance_registry: "registry m libs \<Longrightarrow> FirstInstance m = Some (headOr (allInstances libs) 0, m)"
  using FirstInstanceFrom_suffix [of m libs "[]"]
  by (simp add: FirstInstance_def FirstClass_registry allInstances_def)

lemma concat_split:
  "concat xss = xs @ a # ys \<Longrightarrow>
   \<exists>us as bs vs. xss = us @ (as @ a # bs) # vs \<and> ys = bs @ concat vs"
proof (induction xss arbitrary: xs)
  case (Cons zs xss)
  from Cons.prems have "zs @ concat xss = xs @ a # ys" by simp
  then show ?case unfolding append_eq_append_conv2
  proof (elim exE disjE conjE)
    fix k assume k: "zs = xs @ k" "k @ concat xss = a # ys"
    show ?thesis
    proof (cases k)
      case Nil
      with k have "concat xss = [] @ a # ys" by simp
      from Cons.IH [OF this] obtain us as bs vs where "xss = us @ (as @ a # bs) # vs" "ys = bs @ concat vs" by blast
      then show ?thesis by (intro exI [of _ "zs # us"]) auto
    next
      case (Cons c ks)
      with k have "zs # xss = [] @ (xs @ a # ks) # xss" "ys = ks @ concat xss" by auto
      then show ?thesis by blast
    qed
  next
    fix k assume "zs @ k = xs" "concat xss = k @ a # ys"
    from Cons.IH [OF this(2)] obtain us as bs vs where "xss = us @ (as @ a # bs) # vs" "ys = bs @ concat vs" by blast
    then show ?thesis by (intro exI [of _ "zs # us"]) auto
  qed
qed simp

lemma NextInstance_registry:
  assumes "registry m libs" and "allInstances libs = xs @ a # ys"
  shows "NextInstance a m = Some (headOr ys 0, m)"
proof -
  obtain us as bs vs where s: "map instKids (allClasses libs) = us @ (as @ a # bs) # vs" "ys = bs @ concat vs"
    using concat_split [of "map instKids (allClasses libs)" xs a ys] assms(2) by (auto simp: allInstances_def)
  then obtain Us T Vs where c: "allClasses libs = Us @ T # Vs" "instKids T = as @ a # bs" "map instKids Vs = vs"
    by (auto simp: map_eq_append_conv)
  then have T: "T \<in> set (allClasses libs)" by simp
  obtain n where n: "raddr T \<noteq> 0" "nodes (world m) (raddr T) = Some n" "regs (world m) (child n) (raddr T) (rkids T)"
    using class_node [OF assms(1) T] by blast
  obtain k where k: "a \<noteq> 0" "nodes (world m) a = Some k" "parent k = raddr T"
    "instanceFrom (nextSib k) m = Some (headOr bs 0, m)"
    using instance_node [OF n(3), of as a bs] c(2) by (auto simp: instKids_def instAddrs_def)
  have nx: "NextClass (raddr T) m = Some (headOr (map raddr Vs) 0, m)"
    by (rule NextClass_registry [OF assms(1), of "map raddr Us"]) (simp add: c(1))
  have fi: "FirstInstanceFrom (headOr (map raddr Vs) 0) m = Some (headOr (concat (map instKids Vs)) 0, m)"
    by (rule FirstInstanceFrom_suffix [OF assms(1), of "Us @ [T]"]) (simp add: c(1))
  have "b \<noteq> 0" if "b \<in> set bs" for b using instKids_first(2) [OF assms(1) T] c(2) that by simp
  then have z: "headOr bs 0 = 0 \<longleftrightarrow> bs = []" by (cases bs) auto
  show ?thesis
    using k nx fi z s(2) c(3)
    by (cases bs) (simp_all add: NextInstance_def NextInstanceSibling_def nextOf_def GetNextSibling_def GetParent_def)
qed

subsection \<open>What the cursors guarantee\<close>

text \<open>\<open>for (c = first; c; c = next(c))\<close>, with the nodes it visits.\<close>

partial_function (option) cursor :: "(ptr \<Rightarrow> machine \<Rightarrow> (ptr \<times> machine) option) \<Rightarrow> ptr \<Rightarrow> machine
    \<Rightarrow> (ptr list \<times> machine) option" where
  "cursor step c m = (if c = 0 then Some ([], m) else do {
     (n, m1) \<leftarrow> step c m;
     (cs, m2) \<leftarrow> cursor step n m1;
     Some (c # cs, m2) })"

lemma cursor_list:
  assumes "\<And>xs a ys. as = xs @ a # ys \<Longrightarrow> step a m = Some (headOr ys 0, m)" and "\<forall>a \<in> set as. a \<noteq> 0"
  shows "cursor step (headOr as 0) m = Some (as, m)"
  using assms
proof (induction as)
  case Nil
  then show ?case by (subst cursor.simps) simp
next
  case (Cons a as)
  have "step a m = Some (headOr as 0, m)" by (rule Cons.prems(1) [of "[]"]) simp
  moreover have "cursor step (headOr as 0) m = Some (as, m)"
    by (rule Cons.IH) (use Cons.prems(1) [of "a # xs" for xs] Cons.prems(2) in auto)
  ultimately show ?case using Cons.prems(2) by (subst cursor.simps) simp
qed

lemma allInstances_nz: "registry m libs \<Longrightarrow> \<forall>i \<in> set (allInstances libs). i \<noteq> 0"
  using instKids_first(2) by (auto simp: allInstances_def)

text \<open>A concrete registry: library 2 under the root 1, class 3 with the subclass 6, instances 5 and 8.\<close>

definition kid :: "string \<Rightarrow> ptr \<Rightarrow> ptr \<Rightarrow> ptr \<Rightarrow> ptr \<Rightarrow> node" where
  "kid nm pr par ch s = (nd nm (stored_int 0) pr s)\<lparr>parent := par, child := ch\<rparr>"

lemma kid_simps [simp]:
  "nname (kid nm pr par ch s) = nm" "props (kid nm pr par ch s) = pr" "parent (kid nm pr par ch s) = par"
  "child (kid nm pr par ch s) = ch" "nextSib (kid nm pr par ch s) = s" "link (kid nm pr par ch s) = 0"
  by (simp_all add: kid_def)

definition town_nodes :: "ptr \<Rightarrow> node option" where
  "town_nodes = [1 \<mapsto> kid ''Objects'' 0 0 2 0, 2 \<mapsto> kid ''Lib'' 0 1 3 0, 3 \<mapsto> kid ''Object'' 4 2 5 0,
     4 \<mapsto> nd ''IsClass'' (stored_int 1) 0 0, 5 \<mapsto> kid ''Object'' 0 3 0 6, 6 \<mapsto> kid ''View'' 7 3 8 0,
     7 \<mapsto> nd ''IsClass'' (stored_int 1) 0 0, 8 \<mapsto> kid ''View'' 9 6 0 0,
     9 \<mapsto> nd ''Name'' (stored_str (Some ''v_1'')) 0 0]"

definition town :: machine where
  "town = wired\<lparr>world := (world wired)\<lparr>nodes := town_nodes, unused := [60, 61, 62, 63], pathIndex := Some (NSCreate 1),
     regObjList := 1\<rparr>\<rparr>"

abbreviation (input) town_libs :: "rtree list" where
  "town_libs \<equiv> [R 2 False [R 3 True [R 5 False [], R 6 True [R 8 False []]]]]"

lemma town_world [simp]: "nodes (world town) = town_nodes" "regObjList (world town) = 1"
  "pathIndex (world town) = Some (NSCreate 1)"
  by (simp_all add: town_def)

lemma town_sel [simp]:
  "town_nodes 1 = Some (kid ''Objects'' 0 0 2 0)" "town_nodes 2 = Some (kid ''Lib'' 0 1 3 0)"
  "town_nodes 3 = Some (kid ''Object'' 4 2 5 0)" "town_nodes 4 = Some (nd ''IsClass'' (stored_int 1) 0 0)"
  "town_nodes 5 = Some (kid ''Object'' 0 3 0 6)" "town_nodes 6 = Some (kid ''View'' 7 3 8 0)"
  "town_nodes 7 = Some (nd ''IsClass'' (stored_int 1) 0 0)" "town_nodes 8 = Some (kid ''View'' 9 6 0 0)"
  "town_nodes 9 = Some (nd ''Name'' (stored_str (Some ''v_1'')) 0 0)"
  by (simp_all add: town_nodes_def)

lemma prop_int:
  assumes "proplist w p ps" and "firstNamed (nodes w) name ps = q" and "q \<noteq> 0"
    and "nodes w q = Some n" and "nvalue n = Some (stored_int v)"
  shows "GetPropInt p name w = Some (v, w)"
  using assms int_prop.read_stored [of w q n v] by (simp add: GetPropInt_def GetPropNode_first GetValueInt_def)

lemma prop_int_absent: "proplist w p ps \<Longrightarrow> firstNamed (nodes w) name ps = 0 \<Longrightarrow> GetPropInt p name w = Some (0, w)"
  by (simp add: GetPropInt_def GetPropNode_first)

lemma prop_str_absent: "proplist w p ps \<Longrightarrow> firstNamed (nodes w) name ps = 0 \<Longrightarrow> GetPropStr p name w = Some (None, w)"
  by (simp add: GetPropStr_def GetPropNode_first)

lemma prop_str:
  assumes "proplist w p ps" and "firstNamed (nodes w) name ps = q" and "q \<noteq> 0"
    and "nodes w q = Some n" and "nvalue n = Some (stored_str s)"
  shows "GetPropStr p name w = Some (map_option cstr s, w)"
  using assms str_prop.read_stored [of w q n s] by (simp add: GetPropStr_def GetPropNode_first GetValueStr_def)

lemma town_lists:
  "proplist (world town) 2 []" "proplist (world town) 3 [4]" "proplist (world town) 5 []"
  "proplist (world town) 6 [7]" "proplist (world town) 8 [9]"
  by (simp_all add: proplist_def)

lemma town_flags:
  "class_flag (world town) 2 False" "class_flag (world town) 3 True" "class_flag (world town) 5 False"
  "class_flag (world town) 6 True" "class_flag (world town) 8 False"
  using prop_int [OF town_lists(2), of "''IsClass''" 4] prop_int [OF town_lists(4), of "''IsClass''" 7]
    prop_int_absent [OF town_lists(1), of "''IsClass''"] prop_int_absent [OF town_lists(3), of "''IsClass''"]
    prop_int_absent [OF town_lists(5), of "''IsClass''"]
  by (auto simp: class_flag_def)

lemma town_registry: "registry town town_libs"
  by (simp add: registry_def town_flags)

text \<open>C22. The two cursors over the registry visit what the tree holds and nothing else: \<open>FirstClass\<close> and
  \<open>NextClass\<close> every class, a class before its subclasses and one library after the other; \<open>FirstInstance\<close>
  and \<open>NextInstance\<close> the instances of every class in that order.  Both end and change nothing.\<close>

theorem cursors_visit_registry:
  assumes "registry m libs"
  shows "do { (c, m1) \<leftarrow> FirstClass m; cursor NextClass c m1 } = Some (map raddr (allClasses libs), m)
    \<and> do { (i, m1) \<leftarrow> FirstInstance m; cursor NextInstance i m1 } = Some (allInstances libs, m)"
proof -
  have "\<forall>a \<in> set (map raddr (allClasses libs)). a \<noteq> 0" using class_node [OF assms] by auto
  then have "cursor NextClass (headOr (map raddr (allClasses libs)) 0) m = Some (map raddr (allClasses libs), m)"
    using NextClass_registry [OF assms] by (intro cursor_list) auto
  moreover have "cursor NextInstance (headOr (allInstances libs) 0) m = Some (allInstances libs, m)"
    using NextInstance_registry [OF assms] allInstances_nz [OF assms] by (intro cursor_list) auto
  ultimately show ?thesis using FirstClass_registry [OF assms] FirstInstance_registry [OF assms] by simp
qed

theorem cursors_visit_registry_witness:
  "do { (c, m1) \<leftarrow> FirstClass town; cursor NextClass c m1 } = Some ([3, 6], town)
    \<and> do { (i, m1) \<leftarrow> FirstInstance town; cursor NextInstance i m1 } = Some ([5, 8], town)"
  using cursors_visit_registry [OF town_registry] by (simp add: allClasses_def allInstances_def instKids_def)

subsection \<open>Who may come in\<close>

text \<open>\<open>AuthenticateUser\<close> admits exactly the first user of a name, and only with the very token stored for
  it; a name registered again never matters.  (A user created without a token has the empty one, which
  \<open>CreateUser\<close> stores and the empty token matches.)\<close>

theorem AuthenticateUser_first_match:
  assumes "proplist (world m) main ps" and "firstNamed (nodes (world m)) ''Users'' ps = u" and "u \<noteq> 0"
    and "children (world m) u cs" and "\<forall>c \<in> set cs. GetPropStr c ''Token'' (world m) = Some (tok c, world m)"
  shows "AuthenticateUser main name token m = Some (case filter (\<lambda>c. map_option nname (nodes (world m) c) = Some name) cs of
      [] \<Rightarrow> 0 | c # _ \<Rightarrow> if token \<noteq> None \<and> tok c = token then c else 0, m)"
proof -
  from assms(4) obtain n where n: "nodes (world m) u = Some n" "path (nodes (world m)) (child n) cs 0" by (auto simp: children_def)
  have "main \<noteq> 0" using assms(1) by (simp add: proplist_def)
  then have f: "FindUser main name m = Some (firstNamed (nodes (world m)) name cs)"
    using assms(1-3) n findNamed_path [OF n(2), of name]
    by (simp add: FindUser_def GetPropNode_first GetChild_def firstNamed_def)
  show ?thesis
  proof (cases "filter (\<lambda>c. map_option nname (nodes (world m) c) = Some name) cs")
    case Nil
    with f show ?thesis by (simp add: AuthenticateUser_def firstNamed_def)
  next
    case (Cons c as)
    then have "c \<in> set cs" by (metis filter_eq_ConsD in_set_conv_decomp)
    then have "c \<noteq> 0" "GetPropStr c ''Token'' (world m) = Some (tok c, world m)" using n(2) assms(5) by (auto dest: path_alive)
    with f Cons show ?thesis by (auto simp: AuthenticateUser_def firstNamed_def)
  qed
qed

definition gate_nodes :: "ptr \<Rightarrow> node option" where
  "gate_nodes = [1 \<mapsto> kid ''Main'' 2 0 0 0, 2 \<mapsto> kid ''Users'' 0 0 3 0, 3 \<mapsto> kid ''ann'' 4 2 0 5,
     4 \<mapsto> nd ''Token'' (stored_str (Some ''x'')) 0 0, 5 \<mapsto> kid ''ann'' 6 2 0 0, 6 \<mapsto> nd ''Token'' (stored_str (Some ''y'')) 0 0]"

definition gate :: machine where
  "gate = wired\<lparr>world := (world wired)\<lparr>nodes := gate_nodes\<rparr>\<rparr>"

lemma gate_sel [simp]:
  "nodes (world gate) = gate_nodes" "gate_nodes 1 = Some (kid ''Main'' 2 0 0 0)" "gate_nodes 2 = Some (kid ''Users'' 0 0 3 0)"
  "gate_nodes 3 = Some (kid ''ann'' 4 2 0 5)" "gate_nodes 4 = Some (nd ''Token'' (stored_str (Some ''x'')) 0 0)"
  "gate_nodes 5 = Some (kid ''ann'' 6 2 0 0)" "gate_nodes 6 = Some (nd ''Token'' (stored_str (Some ''y'')) 0 0)"
  by (simp_all add: gate_def gate_nodes_def)

lemma gate_lists: "proplist (world gate) 1 [2]" "proplist (world gate) 3 [4]" "proplist (world gate) 5 [6]"
  "children (world gate) 2 [3, 5]"
  by (simp_all add: proplist_def children_def)

theorem AuthenticateUser_first_match_witness:
  "AuthenticateUser 1 ''ann'' (Some ''x'') gate = Some (3, gate) \<and> AuthenticateUser 1 ''ann'' (Some ''y'') gate = Some (0, gate)"
  using AuthenticateUser_first_match [OF gate_lists(1) _ _ gate_lists(4), of "\<lambda>c. Some (if c = 3 then ''x'' else ''y'')" "''ann''"]
    prop_str [OF gate_lists(2), of "''Token''" 4] prop_str [OF gate_lists(3), of "''Token''" 6]
  by (simp add: cstr_def)

end
