(* ===== verification/Registry_Load.thy ===== *)
theory Registry_Load
  imports Registry_Walks
begin

text \<open>
  Proofs on the loading of classes in \<open>Registry\<close>: the ring of waiting libraries is a queue, its loop ends, and
  it starts exactly the libraries whose dependencies can be met.
\<close>

subsection \<open>The ring as a queue\<close>

text \<open>The entries of the ring, from the front on.\<close>

definition ring :: "ptr list \<Rightarrow> nat \<Rightarrow> nat \<Rightarrow> ptr list" where
  "ring work front queued = map (\<lambda>i. work ! ((front + i) mod length work)) [0..<queued]"

lemma length_ring [simp]: "length (ring work front k) = k"
  by (simp add: ring_def)

lemma ring_0 [simp]: "ring work front 0 = []"
  by (simp add: ring_def)

lemma ring_Suc:
  assumes "front < length work"
  shows "ring work front (Suc k) = work ! front # ring work (Suc front mod length work) k"
proof (rule nth_equalityI)
  fix i assume i: "i < length (ring work front (Suc k))"
  have "(Suc front mod length work + j) mod length work = (front + Suc j) mod length work" for j
    by (simp add: mod_add_left_eq)
  with i assms show "ring work front (Suc k) ! i = (work ! front # ring work (Suc front mod length work) k) ! i"
    by (cases i) (simp_all add: ring_def del: upt_Suc)
qed simp

lemma ring_push:
  assumes "k < length work"
  shows "ring (work[(front + k) mod length work := x]) front (Suc k) = ring work front k @ [x]"
proof (rule nth_equalityI)
  fix i assume "i < length (ring (work[(front + k) mod length work := x]) front (Suc k))"
  then have i: "i \<le> k" by simp
  have "(front + k) mod length work \<noteq> (front + i) mod length work" if "i < k"
  proof
    assume "(front + k) mod length work = (front + i) mod length work"
    then have "length work dvd (front + k) - (front + i)" using that by (intro mod_eq_dvd_iff_nat [THEN iffD1]) auto
    then have "length work dvd k - i" by simp
    then have "length work \<le> k - i" using that by (intro dvd_imp_le) auto
    then show False using assms that by simp
  qed
  moreover have "(front + k) mod length work < length work" by (rule mod_less_divisor) (use assms in linarith)
  ultimately show "ring (work[(front + k) mod length work := x]) front (Suc k) ! i = (ring work front k @ [x]) ! i"
    using i by (cases "i = k") (simp_all add: ring_def nth_append del: upt_Suc)
qed simp

text \<open>The reference: a queue of libraries.  One that can start leaves it, another goes to its end; it stops when
  it is empty or when everything in it has been tried twice in a row.\<close>

definition startOne :: "caller \<Rightarrow> ptr \<Rightarrow> machine \<Rightarrow> machine option" where
  "startOne call library m = do {
     (fn, m2) \<leftarrow> onNodes (GetPropLong library ''ClassStart'') m;
     m3 \<leftarrow> (if fn \<noteq> 0 then map_option snd (call fn library msg_change 0 m2) else Some m2);
     m4 \<leftarrow> SetPropInt library ''Loaded'' 1 m3;
     _ \<leftarrow> GetNameStr library (world m4);
     Some m4 }"

fun reportAll :: "ptr list \<Rightarrow> machine \<Rightarrow> machine option" where
  "reportAll [] m = Some m"
| "reportAll (library # q) m = do {
     _ \<leftarrow> GetNameStr library (world m);
     m1 \<leftarrow> ReportUnmet library m;
     reportAll q m1 }"

function startQueue :: "caller \<Rightarrow> ns \<Rightarrow> ptr list \<Rightarrow> nat \<Rightarrow> int \<Rightarrow> nat \<Rightarrow> machine \<Rightarrow> ((int \<times> nat) \<times> machine) option" where
  "startQueue call ix [] stalled remaining started m = Some ((remaining, started), m)"
| "startQueue call ix (library # q) stalled remaining started m = do {
     (unmet, m1) \<leftarrow> UnmetCount ix library m;
     if unmet = 0 then do {
       m2 \<leftarrow> startOne call library m1;
       startQueue call ix q 0 (remaining - 1) (started + 1) m2 }
     else if stalled + 1 \<ge> 2 * length (library # q)
     then do { m2 \<leftarrow> reportAll (q @ [library]) m1; Some ((remaining, started), m2) }
     else startQueue call ix (q @ [library]) (stalled + 1) remaining started m1 }"
  by pat_completeness auto

termination
  by (relation "measures [\<lambda>(call, ix, q, stalled, remaining, started, m). length q,
      \<lambda>(call, ix, q, stalled, remaining, started, m). 2 * length q - stalled]") auto

lemma reportRing_reportAll: "j < length work \<Longrightarrow> reportRing work j n m = reportAll (ring work j n) m"
proof (induction n arbitrary: j m)
  case (Suc n)
  then have "Suc j mod length work < length work" by (intro mod_less_divisor) linarith
  with Suc have "reportRing work (Suc j mod length work) n = reportAll (ring work (Suc j mod length work) n)" by (intro ext)
  with Suc show ?case by (simp add: ring_Suc)
qed simp

lemma startOne_bind:
  "startOne call library m \<bind> h = do {
     (fn, m2) \<leftarrow> onNodes (GetPropLong library ''ClassStart'') m;
     m3 \<leftarrow> (if fn \<noteq> 0 then map_option snd (call fn library msg_change 0 m2) else Some m2);
     m4 \<leftarrow> SetPropInt library ''Loaded'' 1 m3;
     _ \<leftarrow> GetNameStr library (world m4);
     h m4 }"
  by (cases "onNodes (GetPropLong library ''ClassStart'') m") (auto simp: startOne_def)

lemma startLoop_step:
  "startLoop call ix work front queued stalled remaining started m =
     (if queued = 0 then Some ((remaining, started), m) else do {
        (unmet, m1) \<leftarrow> UnmetCount ix (work ! front) m;
        if unmet = 0 then do {
          m4 \<leftarrow> startOne call (work ! front) m1;
          startLoop call ix work (Suc front mod length work) (queued - 1) 0 (remaining - 1) (started + 1) m4 }
        else do {
          let work1 = work[(Suc front mod length work + (queued - 1)) mod length work := work ! front];
          if stalled + 1 \<ge> 2 * queued
          then do { m2 \<leftarrow> reportRing work1 (Suc front mod length work) queued m1; Some ((remaining, started), m2) }
          else startLoop call ix work1 (Suc front mod length work) queued (stalled + 1) remaining started m1 } })"
  by (subst startLoop.simps) (simp only: startOne_bind Let_def)

text \<open>The ring buffer of \<open>loadClasses\<close> is a queue: walking the array with a front index modulo its length
  starts, sends to the back and reports exactly as the queue does.  The queue's recursion is well-founded,
  so the loop ends whatever the libraries do when they start.\<close>

theorem startLoop_is_queue:
  assumes "work \<noteq> []" and "front < length work" and "queued \<le> length work"
  shows "startLoop call ix work front queued stalled remaining started m
    = startQueue call ix (ring work front queued) stalled remaining started m"
  using assms
proof (induction call ix "ring work front queued" stalled remaining started m
    arbitrary: work front queued rule: startQueue.induct)
  case (1 call ix stalled remaining started m)
  then have "queued = 0" by (metis length_ring list.size(3))
  then show ?case by (subst startLoop.simps) simp
next
  case (2 call ix library q stalled remaining started m)
  let ?f = "Suc front mod length work"
  obtain k where k: "queued = Suc k" using 2(3) by (cases queued) auto
  have r: "library = work ! front" "q = ring work ?f k" using 2(3,5) by (simp_all add: k ring_Suc)
  have f: "?f < length work" by (rule mod_less_divisor) (use 2(5) in linarith)
  let ?w = "work[(?f + k) mod length work := library]"
  have p: "ring ?w ?f (Suc k) = q @ [library]" using 2(6) by (simp add: k ring_push r(2))
  have start: "startLoop call ix work ?f k 0 (remaining - 1) (started + 1) m2 = startQueue call ix q 0 (remaining - 1) (started + 1) m2"
    if "UnmetCount ix library m = Some (0, m1)" "startOne call library m1 = Some m2" for m1 m2
    using 2(1) [OF that(1) refl refl that(2) r(2) 2(4) f] 2(6) k r(2) by simp
  have again: "startLoop call ix ?w ?f (Suc k) (stalled + 1) remaining started m1
      = startQueue call ix (q @ [library]) (stalled + 1) remaining started m1"
    if "UnmetCount ix library m = Some (u, m1)" "u \<noteq> 0" "\<not> 2 * length (library # q) \<le> stalled + 1" for u m1
    using 2(2) [OF that(1) refl that(2,3) p [symmetric]] 2(4,6) f k p by simp
  have rep: "reportRing ?w ?f (Suc k) m1 = reportAll (q @ [library]) m1" for m1
    using reportRing_reportAll [of ?f ?w "Suc k" m1] f by (simp only: length_list_update p)
  show ?case
  proof (cases "UnmetCount ix library m")
    case None
    then show ?thesis unfolding 2(3) [symmetric] by (subst startLoop_step) (simp add: k r(1))
  next
    case (Some um)
    then obtain u m1 where u: "UnmetCount ix library m = Some (u, m1)" by (cases um) auto
    show ?thesis
    proof (cases "u = 0")
      case True
      then show ?thesis unfolding 2(3) [symmetric] using u start
        by (subst startLoop_step) (auto simp: k r(1) [symmetric] intro!: Option.bind_cong)
    next
      case False
      have "length q = k" using r(2) by simp
      with False show ?thesis unfolding 2(3) [symmetric] using u again [OF u False] rep
        by (subst startLoop_step) (simp add: k r(1) [symmetric] Let_def del: reportRing.simps)
    qed
  qed
qed

theorem startLoop_is_queue_witness:
  "startLoop quiet NsNull [2, 3, 4] 2 2 0 2 0 town = startQueue quiet NsNull [4, 2] 0 2 0 town"
  using startLoop_is_queue [of "[2, 3, 4]" 2 2 quiet NsNull 0 2 0 town] by (simp add: ring_def upt_rec)

subsection \<open>What comes up\<close>

text \<open>What \<open>L\<close> needs: counting the unmet dependencies of a library answers from the set \<open>S\<close> of libraries that
  are up, starting one whose dependencies are up adds it to \<open>S\<close>, and reporting returns.  \<open>P S m\<close> says that
  \<open>S\<close> is up in \<open>m\<close>.\<close>

definition loads_ok :: "caller \<Rightarrow> ns \<Rightarrow> ptr set \<Rightarrow> (ptr \<Rightarrow> ptr set) \<Rightarrow> (ptr set \<Rightarrow> machine \<Rightarrow> bool) \<Rightarrow> bool" where
  "loads_ok call ix L deps P \<longleftrightarrow> (\<forall>S m l. P S m \<and> l \<in> L - S \<longrightarrow>
     (\<exists>k m'. UnmetCount ix l m = Some (k, m') \<and> (k = 0 \<longleftrightarrow> deps l \<subseteq> S) \<and> P S m')
   \<and> (deps l \<subseteq> S \<longrightarrow> (\<exists>m'. startOne call l m = Some m' \<and> P (insert l S) m'))
   \<and> (\<exists>m'. GetNameStr l (world m) \<noteq> None \<and> ReportUnmet l m = Some m' \<and> P S m'))"

text \<open>The libraries of \<open>Q\<close> that can be brought up when \<open>S\<close> is.\<close>

inductive comes_up :: "(ptr \<Rightarrow> ptr set) \<Rightarrow> ptr set \<Rightarrow> ptr set \<Rightarrow> ptr \<Rightarrow> bool" for deps S Q where
  "l \<in> Q \<Longrightarrow> \<forall>d \<in> deps l. d \<in> S \<or> comes_up deps S Q d \<Longrightarrow> comes_up deps S Q l"

lemma reportAll_returns:
  assumes "loads_ok call ix L deps P"
  shows "P S m \<Longrightarrow> set q \<subseteq> L - S \<Longrightarrow> \<exists>m'. reportAll q m = Some m' \<and> P S m'"
proof (induction q arbitrary: m)
  case (Cons l q)
  from assms Cons.prems obtain m1 where 1: "GetNameStr l (world m) \<noteq> None" "ReportUnmet l m = Some m1" "P S m1"
    unfolding loads_ok_def by (metis list.set_intros(1) subset_iff)
  with Cons.IH [of m1] Cons.prems(2) show ?case by auto
qed auto

text \<open>Between two steps of the queue: what is up could come up, and the last \<open>stalled\<close> libraries of the queue
  cannot start yet.\<close>

definition queue_inv :: "(ptr \<Rightarrow> ptr set) \<Rightarrow> ptr set \<Rightarrow> ptr set \<Rightarrow> ptr list \<Rightarrow> nat \<Rightarrow> ptr set \<Rightarrow> bool" where
  "queue_inv deps S Q q stalled S1 \<longleftrightarrow> S \<subseteq> S1 \<and> S1 \<subseteq> S \<union> {l. comes_up deps S Q l} \<and> S1 \<union> set q = S \<union> Q
     \<and> distinct q \<and> set q \<inter> S1 = {} \<and> finite S1 \<and> (\<forall>l \<in> set (drop (length q - stalled) q). \<not> deps l \<subseteq> S1)"

lemma queue_inv_start:
  assumes "queue_inv deps S Q (l # q) k S1" and "deps l \<subseteq> S1"
  shows "queue_inv deps S Q q 0 (insert l S1)"
proof -
  have "l \<notin> S" "l \<in> S \<union> Q" using assms(1) by (auto simp: queue_inv_def)
  then have "comes_up deps S Q l" using assms by (intro comes_up.intros) (auto simp: queue_inv_def)
  with assms show ?thesis by (auto simp: queue_inv_def)
qed

lemma queue_inv_rotate:
  assumes "queue_inv deps S Q (l # q) k S1" and "\<not> deps l \<subseteq> S1"
  shows "queue_inv deps S Q (q @ [l]) (Suc k) S1"
proof -
  have "set (drop (length (q @ [l]) - Suc k) (q @ [l])) \<subseteq> insert l (set (drop (length (l # q) - k) (l # q)))"
  proof (cases "k \<le> length q")
    case True
    then have "drop (length (l # q) - k) (l # q) = drop (length q - k) q" by (simp add: Suc_diff_le)
    then show ?thesis by simp
  next
    case False
    then show ?thesis by (auto simp: drop_Cons' dest: in_set_dropD)
  qed
  with assms show ?thesis by (auto simp: queue_inv_def)
qed

lemma queue_inv_stalled:
  assumes "queue_inv deps S Q q k S1" and "length q \<le> k"
  shows "S1 = S \<union> {l. comes_up deps S Q l}"
proof -
  have "comes_up deps S Q l \<Longrightarrow> l \<in> S1" for l
  proof (induction rule: comes_up.induct)
    case (1 l)
    then have "deps l \<subseteq> S1" using assms(1) by (auto simp: queue_inv_def)
    with 1 assms show ?case by (auto simp: queue_inv_def)
  qed
  with assms(1) show ?thesis by (auto simp: queue_inv_def)
qed

lemma loads_okD:
  assumes "loads_ok call ix L deps P" and "P S m" and "l \<in> L" and "l \<notin> S"
  obtains k m1 where "UnmetCount ix l m = Some (k, m1)" and "k = 0 \<longleftrightarrow> deps l \<subseteq> S" and "P S m1"
proof -
  from assms(1) [unfolded loads_ok_def, rule_format, of S m l] assms(2-) show thesis using that by auto
qed

lemma loads_ok_startD:
  assumes "loads_ok call ix L deps P" and "P S m" and "l \<in> L" and "l \<notin> S" and "deps l \<subseteq> S"
  obtains m1 where "startOne call l m = Some m1" and "P (insert l S) m1"
proof -
  from assms(1) [unfolded loads_ok_def, rule_format, of S m l] assms(2-) show thesis using that by auto
qed

lemma comes_up_finite:
  "queue_inv deps S Q q k S1 \<Longrightarrow> finite (S \<union> {l. comes_up deps S Q l})"
proof -
  assume a: "queue_inv deps S Q q k S1"
  then have "finite (S \<union> Q)" by (metis queue_inv_def finite_Un finite_set)
  moreover have "{l. comes_up deps S Q l} \<subseteq> Q" by (auto elim: comes_up.cases)
  ultimately show ?thesis by (meson finite_subset finite_Un Un_mono subset_refl)
qed

lemma startQueue_brings_up:
  assumes "loads_ok call ix L deps P"
  shows "P S1 m \<Longrightarrow> set q \<subseteq> L \<Longrightarrow> queue_inv deps S Q q stalled S1 \<Longrightarrow>
    \<exists>n m'. startQueue call ix q stalled remaining started m = Some ((remaining - int n, started + n), m')
      \<and> P (S \<union> {l. comes_up deps S Q l}) m' \<and> n = card ((S \<union> {l. comes_up deps S Q l}) - S1)"
  using assms
proof (induction call ix q stalled remaining started m arbitrary: S1 rule: startQueue.induct)
  case (1 call ix stalled remaining started m)
  then show ?case using queue_inv_stalled [OF 1(3)] by (intro exI [of _ 0]) auto
next
  case (2 call ix l q stalled remaining started m)
  let ?T = "S \<union> {l. comes_up deps S Q l}"
  note ok = "2.prems"(4) and inv = "2.prems"(3)
  have l: "l \<in> L" "l \<notin> S1" "set q \<subseteq> L" using "2.prems"(2,3) by (auto simp: queue_inv_def)
  from loads_okD [OF ok "2.prems"(1) l(1,2)] obtain k m1 where
    u: "UnmetCount ix l m = Some (k, m1)" "k = 0 \<longleftrightarrow> deps l \<subseteq> S1" "P S1 m1" .
  show ?case
  proof (cases "k = 0")
    case True
    with u have d: "UnmetCount ix l m = Some (0, m1)" "deps l \<subseteq> S1" by auto
    from loads_ok_startD [OF ok u(3) l(1,2) d(2)] obtain m2 where s: "startOne call l m1 = Some m2" "P (insert l S1) m2" .
    note inv1 = queue_inv_start [OF inv d(2)]
    from "2.IH"(1) [OF d(1) refl refl s l(3) inv1 ok] obtain n m' where
      n: "startQueue call ix q 0 (remaining - 1) (started + 1) m2 = Some ((remaining - 1 - int n, started + 1 + n), m')" "P ?T m'"
      "n = card (?T - insert l S1)" by blast
    have "insert l S1 \<subseteq> ?T" using inv1 by (simp add: queue_inv_def)
    then have "?T - S1 = insert l (?T - insert l S1)" using l(2) by auto
    then have "card (?T - S1) = Suc n" using n(3) comes_up_finite [OF inv] by (subst \<open>?T - S1 = _\<close>) simp
    with d(1) s(1) n(1,2) show ?thesis by (intro exI [of _ "Suc n"]) (simp add: algebra_simps)
  next
    case False
    with u(2) have d: "\<not> deps l \<subseteq> S1" by simp
    note inv1 = queue_inv_rotate [OF inv d]
    show ?thesis
    proof (cases "2 * length (l # q) \<le> stalled + 1")
      case True
      then have T: "S1 = ?T" by (intro queue_inv_stalled [OF inv1]) simp
      have "set (q @ [l]) \<subseteq> L - S1" using l inv by (auto simp: queue_inv_def)
      from reportAll_returns [OF ok u(3) this] obtain m' where "reportAll (q @ [l]) m1 = Some m'" "P S1 m'" by blast
      with u(1) False True T show ?thesis by (intro exI [of _ 0]) (simp flip: T)
    next
      case F: False
      have "set (q @ [l]) \<subseteq> L" using l by simp
      from "2.IH"(2) [OF u(1) refl False F u(3) this _ ok] inv1 obtain n m' where
        "startQueue call ix (q @ [l]) (stalled + 1) remaining started m1 = Some ((remaining - int n, started + n), m')" "P ?T m'"
        "n = card (?T - S1)" by auto
      with u(1) False F show ?thesis by auto
    qed
  qed
qed


subsection \<open>Two libraries\<close>

text \<open>Library 3 depends on library 2 and on the class \<open>K\<close>; \<open>x\<close> and \<open>y\<close> say which is up, \<open>z\<close> whether the
  dependency is marked as met.\<close>

definition flag :: "bool \<Rightarrow> data" where
  "flag b = stored_int (if b then 1 else 0)"

definition dock_nodes :: "bool \<Rightarrow> bool \<Rightarrow> bool \<Rightarrow> ptr \<Rightarrow> node option" where
  "dock_nodes x y z = [1 \<mapsto> kid ''Objects'' 0 0 2 0, 2 \<mapsto> kid ''LibA'' 20 1 0 3, 3 \<mapsto> kid ''LibB'' 30 1 0 0,
     6 \<mapsto> kid ''K'' 0 2 0 0, 20 \<mapsto> nd ''File'' (stored_str (Some ''a'')) 0 21, 21 \<mapsto> nd ''Loaded'' (flag x) 0 0,
     30 \<mapsto> nd ''Loaded'' (flag y) 0 31, 31 \<mapsto> kid ''Dependencies'' 0 0 32 0, 32 \<mapsto> nd ''Dependency'' (stored_int 0) 33 0,
     33 \<mapsto> nd ''Met'' (flag z) 0 34, 34 \<mapsto> nd ''File'' (stored_str (Some ''a'')) 0 35,
     35 \<mapsto> nd ''Class'' (stored_str (Some ''K'')) 0 0]"

definition dock :: "bool \<Rightarrow> bool \<Rightarrow> bool \<Rightarrow> machine" where
  "dock x y z = wired\<lparr>world := (world wired)\<lparr>nodes := dock_nodes x y z, objTaskList := None, regObjList := 1,
     classIndex := Some (NsNode (CHR 0x00) 0 (NsNode (CHR ''K'') 6 NsNull NsNull) NsNull)\<rparr>\<rparr>"

abbreviation dock_files :: ns where
  "dock_files \<equiv> NsNode (CHR 0x00) 0 (NsNode (CHR ''a'') 2 NsNull NsNull) NsNull"

lemma dock_sel [simp]:
  "nodes (world (dock x y z)) = dock_nodes x y z" "objTaskList (world (dock x y z)) = None" "regObjList (world (dock x y z)) = 1"
  "classIndex (world (dock x y z)) = Some (NsNode (CHR 0x00) 0 (NsNode (CHR ''K'') 6 NsNull NsNull) NsNull)"
  "dock_nodes x y z 1 = Some (kid ''Objects'' 0 0 2 0)"
  "dock_nodes x y z 2 = Some (kid ''LibA'' 20 1 0 3)" "dock_nodes x y z 3 = Some (kid ''LibB'' 30 1 0 0)"
  "dock_nodes x y z 6 = Some (kid ''K'' 0 2 0 0)" "dock_nodes x y z 20 = Some (nd ''File'' (stored_str (Some ''a'')) 0 21)"
  "dock_nodes x y z 21 = Some (nd ''Loaded'' (flag x) 0 0)" "dock_nodes x y z 30 = Some (nd ''Loaded'' (flag y) 0 31)"
  "dock_nodes x y z 31 = Some (kid ''Dependencies'' 0 0 32 0)" "dock_nodes x y z 32 = Some (nd ''Dependency'' (stored_int 0) 33 0)"
  "dock_nodes x y z 33 = Some (nd ''Met'' (flag z) 0 34)" "dock_nodes x y z 34 = Some (nd ''File'' (stored_str (Some ''a'')) 0 35)"
  "dock_nodes x y z 35 = Some (nd ''Class'' (stored_str (Some ''K'')) 0 0)"
  by (simp_all add: dock_def dock_nodes_def)

lemma dock_lists:
  "proplist (world (dock x y z)) 2 [20, 21]" "proplist (world (dock x y z)) 3 [30, 31]" "proplist (world (dock x y z)) 6 []"
  "proplist (world (dock x y z)) 32 [33, 34, 35]"
  by (simp_all add: proplist_def)

lemma dock_first [simp]:
  "GetPropNode 2 k (world (dock x y z)) = Some (if k = ''File'' then 20 else if k = ''Loaded'' then 21 else 0)"
  "GetPropNode 3 k (world (dock x y z)) = Some (if k = ''Loaded'' then 30 else if k = ''Dependencies'' then 31 else 0)"
  "GetPropNode 6 k (world (dock x y z)) = Some 0"
  "GetPropNode 32 k (world (dock x y z)) = Some (if k = ''Met'' then 33 else if k = ''File'' then 34 else if k = ''Class'' then 35 else 0)"
  using GetPropNode_first [OF dock_lists(1), of k] GetPropNode_first [OF dock_lists(2), of k]
    GetPropNode_first [OF dock_lists(3), of k] GetPropNode_first [OF dock_lists(4), of k] by auto

lemma dock_values [simp]:
  "GetValueInt 21 (world (dock x y z)) = Some (if x then 1 else 0, world (dock x y z))"
  "GetValueInt 30 (world (dock x y z)) = Some (if y then 1 else 0, world (dock x y z))"
  "GetValueInt 33 (world (dock x y z)) = Some (if z then 1 else 0, world (dock x y z))"
  "GetValueStr 20 (world (dock x y z)) = Some (Some ''a'', world (dock x y z))"
  "GetValueStr 34 (world (dock x y z)) = Some (Some ''a'', world (dock x y z))"
  "GetValueStr 35 (world (dock x y z)) = Some (Some ''K'', world (dock x y z))"
  by (simp_all add: GetValueInt_def GetValueStr_def flag_def int_prop.read_stored str_prop.read_stored cstr_def)

lemma dock_index [simp]: "NSSearch dock_files ''a'' = 2" "FindClass ''K'' (dock x y z) = (6, dock x y z)"
  by (simp_all add: NSSearch_def FindClass_def GetClassIndex_def)

lemmas dock_reads = textProp_def GetPropStr_def GetPropInt_def GetPropLong_def

lemma dock_nodes_upd:
  "(dock_nodes x y z)(21 \<mapsto> nd ''Loaded'' (stored_int 1) 0 0) = dock_nodes True y z"
  "(dock_nodes x y z)(30 \<mapsto> nd ''Loaded'' (stored_int 1) 0 31) = dock_nodes x True z"
  "(dock_nodes x y z)(33 \<mapsto> nd ''Met'' (stored_int 1) 0 34) = dock_nodes x y True"
  by (rule ext, simp add: dock_nodes_def flag_def)+

lemma dock_upd: "(dock x y z)\<lparr>world := (world (dock x y z))\<lparr>nodes := dock_nodes x' y' z'\<rparr>\<rparr> = dock x' y' z'"
  by (simp add: dock_def)

lemma nd_upd: "(nd nm v pr s)\<lparr>nvalue := Some v'\<rparr> = nd nm v' pr s"
  by (simp add: nd_def)

lemma dock_write:
  "SetPropInt 2 ''Loaded'' 1 (dock x y z) = Some (dock True y z)" "SetPropInt 3 ''Loaded'' 1 (dock x y z) = Some (dock x True z)"
  "SetPropInt 32 ''Met'' 1 (dock x y z) = Some (dock x y True)"
  by (simp_all add: SetPropInt_def setProp_def ResolveOwned_def GetNodeLink_def doNodes_def FanOutSubscribers_def
      ObjGetTaskList_def int_prop.writeValue_stored nd_upd dock_nodes_upd dock_upd)

definition dock_up :: "ptr set \<Rightarrow> machine \<Rightarrow> bool" where
  "dock_up S m \<longleftrightarrow> (\<exists>z. m = dock (2 \<in> S) (3 \<in> S) z \<and> (z \<longrightarrow> 2 \<in> S))"

lemma dock_unmet: "UnmetCount dock_files 2 (dock x y z) = Some (0, dock x y z)"
  "UnmetCount dock_files 3 (dock x y z) = Some (if z \<or> x then 0 else 1, dock x y (z \<or> x))"
  by (simp_all add: UnmetCount_def childOf_def GetChild_def unmetFrom.simps [of _ 0] unmetFrom.simps [of _ 32]
      DependencyMet_def dock_reads ClassVersionOk_def dock_write GetNextSibling_def)

lemma dock_start:
  "startOne quiet 2 (dock x y z) = Some (dock True y z)" "startOne quiet 3 (dock x y z) = Some (dock x True z)"
  by (simp_all add: startOne_def dock_reads dock_write GetNameStr_def)

lemma dock_report: "ReportUnmet 2 (dock x y z) = Some (dock x y z)" "ReportUnmet 3 (dock x y z) = Some (dock x y z)"
  by (subst ReportUnmet_def, simp add: childOf_def GetChild_def, subst reportFrom.simps,
      simp add: dock_reads ClassVersionOk_def FindLibraryByFile_def GetRegObjList_def GetChild_def GetNextSibling_def
        fileFrom.simps [of _ 2] reportFrom.simps [of 0])+

lemma dock_loads: "loads_ok quiet dock_files {2, 3} (\<lambda>l. if l = 3 then {2} else {}) dock_up"
  unfolding loads_ok_def
proof (intro allI impI)
  fix S m and l :: ptr assume a: "dock_up S m \<and> l \<in> {2, 3} - S"
  then obtain z where z: "m = dock (2 \<in> S) (3 \<in> S) z" "z \<longrightarrow> 2 \<in> S" by (auto simp: dock_up_def)
  from a consider "l = 2" "2 \<notin> S" | "l = 3" "3 \<notin> S" by auto
  then show "(\<exists>k m'. UnmetCount dock_files l m = Some (k, m') \<and> (k = 0 \<longleftrightarrow> (if l = 3 then {2} else {}) \<subseteq> S) \<and> dock_up S m')
    \<and> ((if l = 3 then {2} else {}) \<subseteq> S \<longrightarrow> (\<exists>m'. startOne quiet l m = Some m' \<and> dock_up (insert l S) m'))
    \<and> (\<exists>m'. GetNameStr l (world m) \<noteq> None \<and> ReportUnmet l m = Some m' \<and> dock_up S m')"
    using z by cases (auto simp: dock_unmet dock_start dock_report dock_up_def GetNameStr_def)
qed


end
