(* ===== verification/Paths.thy ===== *)
theory Paths
  imports Registry
begin

text \<open>
  Names and places in \<open>src/object.c\<close>: the index from session paths to instances, the members a
  container knows of, naming, creation and moving.

  A path is a text; NULL and empty are the same to every function here.  The fixed text buffers of the
  code are written by \<open>snprintf\<close>, which truncates: \<open>take\<close> of the size less one.
\<close>

subsection \<open>The path index\<close>

definition GetPathIndex :: "machine \<Rightarrow> ns \<times> machine" where
  "GetPathIndex m = (case pathIndex (world m) of
     Some t \<Rightarrow> (t, m)
   | None \<Rightarrow> (case unused (world m) of [] \<Rightarrow> (NsNull, m)
       | _ # r \<Rightarrow> (NSCreate 1, m\<lparr>world := (world m)\<lparr>pathIndex := Some (NSCreate 1), unused := r\<rparr>\<rparr>)))"

definition indexPath :: "string \<Rightarrow> ptr \<Rightarrow> machine \<Rightarrow> machine" where
  "indexPath path p m = (let (t, m1) = GetPathIndex m;
       (t', _, used) = NSInsert t path (sint p) (length (unused (world m1)))
     in if t = NsNull then m1
        else m1\<lparr>world := (world m1)\<lparr>pathIndex := Some t', unused := drop used (unused (world m1))\<rparr>\<rparr>)"

definition unindexPath :: "string \<Rightarrow> machine \<Rightarrow> machine" where
  "unindexPath path m = (let (t, m1) = GetPathIndex m; (t', _, _) = NSDelete t path
     in if t = NsNull then m1 else m1\<lparr>world := (world m1)\<lparr>pathIndex := Some t'\<rparr>\<rparr>)"

definition ResolvePath :: "string \<Rightarrow> machine \<Rightarrow> ptr \<times> machine" where
  "ResolvePath path m = (if path = [] then (0, m)
     else let (t, m1) = GetPathIndex m in (word_of_int (NSSearch t path), m1))"

text \<open>What stands before and behind the last slash of a path; nothing before it is no container.\<close>

abbreviation (input) "SLASH \<equiv> CHR ''/''"

definition dirOf :: "string \<Rightarrow> string" where
  "dirOf path = rev (tl (dropWhile (\<lambda>c. c \<noteq> SLASH) (rev (take 299 path))))"

definition baseOf :: "string \<Rightarrow> string" where
  "baseOf path = rev (takeWhile (\<lambda>c. c \<noteq> SLASH) (rev path))"

definition ContainerOfPath :: "string \<Rightarrow> machine \<Rightarrow> ptr \<times> machine" where
  "ContainerOfPath path m = (if dirOf path = [] then (0, m) else ResolvePath (dirOf path) m)"

subsection \<open>Members\<close>

definition MembersOf :: "ptr \<Rightarrow> bool \<Rightarrow> machine \<Rightarrow> (ptr \<times> machine) option" where
  "MembersOf container create m = (if container = 0 then Some (0, m) else do {
     list \<leftarrow> GetPropNode container ''Members'' (world m);
     if list = 0 \<and> create then do {
       let (p, m1) = newNode LONG m;
       m2 \<leftarrow> doNodes (SetName p ''Members'') m1;
       m3 \<leftarrow> doNodes (AddProp container p) m2;
       Some (p, m3) }
     else Some (list, m) })"

text \<open>The entry that stands for an instance, from an entry on; 0 when there is none.\<close>

partial_function (option) entryFrom :: "ptr \<Rightarrow> ptr \<Rightarrow> machine \<Rightarrow> (ptr \<times> machine) option" where
  "entryFrom inst entry m = (if entry = 0 then Some (0, m) else do {
     (i, m1) \<leftarrow> onNodes (GetPropLong entry ''Instance'') m;
     if i = inst then Some (entry, m1)
     else do { nxt \<leftarrow> GetNextSibling entry (world m1); entryFrom inst nxt m1 } })"

declare entryFrom.simps [code]

definition AddMember :: "ptr \<Rightarrow> ptr \<Rightarrow> machine \<Rightarrow> machine option" where
  "AddMember container inst m = (if container = 0 \<or> inst = 0 then Some m else do {
     (list, m1) \<leftarrow> MembersOf container True m;
     if list = 0 then Some m1
     else do {
       first \<leftarrow> GetChild list (world m1);
       (found, m2) \<leftarrow> entryFrom inst first m1;
       if found \<noteq> 0 then Some m2
       else do {
         (entry, m3) \<leftarrow> namedNode ''Member'' m2;
         m4 \<leftarrow> SetPropLong entry ''Instance'' inst m3;
         doNodes (AppendChild list entry) m4 } } })"

definition RemoveMember :: "ptr \<Rightarrow> ptr \<Rightarrow> machine \<Rightarrow> machine option" where
  "RemoveMember container inst m = do {
     (list, m1) \<leftarrow> MembersOf container False m;
     first \<leftarrow> childOf list m1;
     (entry, m2) \<leftarrow> entryFrom inst first m1;
     if entry = 0 then Some m2
     else do { m3 \<leftarrow> doNodes (DelSibling entry) m2; doNodes (DelNode entry) m3 } }"

definition FirstMember :: "ptr \<Rightarrow> machine \<Rightarrow> (ptr \<times> machine) option" where
  "FirstMember container m = do {
     (list, m1) \<leftarrow> MembersOf container False m;
     c \<leftarrow> childOf list m1;
     Some (c, m1) }"

definition MemberInstance :: "ptr \<Rightarrow> machine \<Rightarrow> (ptr \<times> machine) option" where
  "MemberInstance entry m = (if entry = 0 then Some (0, m) else onNodes (GetPropLong entry ''Instance'') m)"

subsection \<open>Naming\<close>

text \<open>Container and name; whether that path leads back to the instance.\<close>

definition PathOfInstance :: "ptr \<Rightarrow> nat \<Rightarrow> machine \<Rightarrow> ((bool \<times> string) \<times> machine) option" where
  "PathOfInstance inst outlen m = (if inst = 0 \<or> outlen < 2 then Some ((False, []), m) else do {
     (name, m1) \<leftarrow> textProp inst ''Name'' m;
     if name = [] then Some ((False, []), m1)
     else do {
       (cont, m2) \<leftarrow> textProp inst ''Container'' m1;
       let out = take (outlen - 1) (cont @ SLASH # name);
       let (p, m3) = ResolvePath out m2;
       Some ((p = inst, out), m3) } })"

definition UnregisterPath :: "string \<Rightarrow> machine \<Rightarrow> machine option" where
  "UnregisterPath path m = (if path = [] then Some m
     else let (inst, m1) = ResolvePath path m;
              (container, m2) = ContainerOfPath path m1;
              m3 = unindexPath path m2
          in if inst \<noteq> 0 \<and> container \<noteq> 0 then RemoveMember container inst m3 else Some m3)"

text \<open>The three parts of \<open>RegisterPath\<close>: an older name is retired, the last segment becomes the name, the
  container is told.\<close>

definition retireOld :: "string \<Rightarrow> ptr \<Rightarrow> machine \<Rightarrow> machine option" where
  "retireOld path inst m = (if hd path = SLASH then do {
       ((ok, was), m1) \<leftarrow> PathOfInstance inst 300 m;
       if ok \<and> was \<noteq> path then UnregisterPath was m1 else Some m1 }
     else Some m)"

definition nameAfter :: "string \<Rightarrow> ptr \<Rightarrow> machine \<Rightarrow> machine option" where
  "nameAfter path inst m = (if hd path = SLASH then do {
       (had, m1) \<leftarrow> textProp inst ''Name'' m;
       if baseOf path \<noteq> [] \<and> take 159 had \<noteq> baseOf path then SetPropStr inst ''Name'' (Some (baseOf path)) m1
       else Some m1 }
     else Some m)"

definition tellContainer :: "string \<Rightarrow> ptr \<Rightarrow> machine \<Rightarrow> machine option" where
  "tellContainer path inst m = (if dirOf path = [] then Some m
     else let (container, m1) = ResolvePath (dirOf path) m
          in if container = 0 then Some m1
             else do {
               m2 \<leftarrow> SetPropStr inst ''Container'' (Some (dirOf path)) m1;
               m3 \<leftarrow> SetPropStr container ''LastMember'' (Some path) m2;
               AddMember container inst m3 })"

definition RegisterPath :: "string \<Rightarrow> ptr \<Rightarrow> machine \<Rightarrow> machine option" where
  "RegisterPath path inst m = (if path = [] \<or> inst = 0 then Some m else do {
     m1 \<leftarrow> retireOld path inst m;
     m2 \<leftarrow> nameAfter path inst (indexPath path inst m1);
     tellContainer path inst m2 })"

definition RequirePathAt :: "string \<Rightarrow> machine \<Rightarrow> ptr \<times> machine" where
  "RequirePathAt path m = ResolvePath path m"

text \<open>When there is no path, the reason is read for the log.\<close>

definition RequirePathOfAt :: "ptr \<Rightarrow> nat \<Rightarrow> machine \<Rightarrow> ((bool \<times> string) \<times> machine) option" where
  "RequirePathOfAt inst outlen m = do {
     ((ok, out), m1) \<leftarrow> PathOfInstance inst outlen m;
     if ok then Some ((True, out), m1)
     else if inst = 0 then Some ((False, out), m1)
     else do {
       (_, m2) \<leftarrow> textProp inst ''Name'' m1;
       (_, m3) \<leftarrow> textProp inst ''Container'' m2;
       Some ((False, out), m3) } }"

subsection \<open>Fresh names\<close>

partial_function (option) takenFrom :: "string \<Rightarrow> string \<Rightarrow> ptr \<Rightarrow> machine \<Rightarrow> (bool \<times> machine) option" where
  "takenFrom name containerPath inst m = (if inst = 0 then Some (False, m) else do {
     (cont, m1) \<leftarrow> textProp inst ''Container'' m;
     (hit, m2) \<leftarrow> (if cont \<noteq> containerPath then Some (False, m1) else do {
          (nm, ma) \<leftarrow> onNodes (GetPropStr inst ''Name'') m1;
          Some (nm = Some name, ma) });
     if hit then Some (True, m2)
     else do { (nxt, m3) \<leftarrow> NextInstance inst m2; takenFrom name containerPath nxt m3 } })"

declare takenFrom.simps [code]

definition NameTakenIn :: "string \<Rightarrow> string \<Rightarrow> machine \<Rightarrow> (bool \<times> machine) option" where
  "NameTakenIn name containerPath m = do {
     (inst, m1) \<leftarrow> FirstInstance m;
     takenFrom name containerPath inst m1 }"

text \<open>The base without a trailing \<open>_N\<close>.\<close>

definition stemOf :: "string \<Rightarrow> string" where
  "stemOf base = (let stem = take 199 (if base = [] then ''Thing'' else base);
       len = length (dropWhile isdigit (rev stem))
     in if 0 < len \<and> len < length stem \<and> stem ! (len - 1) = CHR ''_'' then take (len - 1) stem else stem)"

definition candidate :: "string \<Rightarrow> nat \<Rightarrow> nat \<Rightarrow> string" where
  "candidate stem outlen k = take (outlen - 1) (stem @ CHR ''_'' # sprintf_d (int k))"

function mintFrom :: "string \<Rightarrow> string \<Rightarrow> nat \<Rightarrow> nat \<Rightarrow> machine \<Rightarrow> (string \<times> machine) option" where
  "mintFrom stem containerPath outlen k m = (if k \<ge> 100000 then Some (candidate stem outlen (k - 1), m) else do {
     let out = candidate stem outlen k;
     let full = take 399 ((if containerPath = [] then ''/Root'' else containerPath) @ SLASH # out);
     (taken, m1) \<leftarrow> NameTakenIn out containerPath m;
     let (found, m2) = (if taken then (0, m1) else ResolvePath full m1);
     if \<not> taken \<and> found = 0 then Some (out, m2) else mintFrom stem containerPath outlen (Suc k) m2 })"
  by pat_completeness auto
termination by (relation "measure (\<lambda>(stem, c, l, k, m). 100000 - k)") auto

declare mintFrom.simps [simp del]

definition MintFreshName :: "string \<Rightarrow> string \<Rightarrow> nat \<Rightarrow> machine \<Rightarrow> (string \<times> machine) option" where
  "MintFreshName base containerPath outlen m = mintFrom (stemOf base) containerPath outlen 1 m"

definition CloneMintName :: "ptr \<Rightarrow> string \<Rightarrow> nat \<Rightarrow> machine \<Rightarrow> (string \<times> machine) option" where
  "CloneMintName source containerPath outlen m = do {
     (nm, m1) \<leftarrow> textProp source ''Name'' m;
     b \<leftarrow> (if nm \<noteq> [] then Some nm else do { cls \<leftarrow> GetParent source (world m1); nameOf cls m1 });
     MintFreshName b containerPath outlen m1 }"

definition InstancePath :: "ptr \<Rightarrow> nat \<Rightarrow> machine \<Rightarrow> (string \<times> machine) option" where
  "InstancePath inst outlen m = do {
     (cont, m1) \<leftarrow> textProp inst ''Container'' m;
     (nm, m2) \<leftarrow> textProp inst ''Name'' m1;
     Some (take (outlen - 1) ((if cont = [] then ''/Root'' else cont) @ SLASH # nm), m2) }"

subsection \<open>Creating\<close>

text \<open>\<open>CreateRoot\<close>: a \<open>View\<close> without a container.\<close>

definition CreateRoot :: "caller \<Rightarrow> string \<Rightarrow> machine \<Rightarrow> (ptr \<times> machine) option" where
  "CreateRoot call name m = (if name = [] then Some (0, m) else do {
     let (cls, m1) = FindClass ''View'' m;
     if cls = 0 then Some (0, m1)
     else do {
       (fn, m2) \<leftarrow> onNodes (GetPropLong cls ''InstanceStart'') m1;
       if fn = 0 then Some (0, m2)
       else do {
         (_, m3) \<leftarrow> call fn cls msg_initialize 0 m2;
         (root, m4) \<leftarrow> onNodes (GetPropLong cls ''LastInstance'') m3;
         if root = 0 then Some (0, m4)
         else do {
           m5 \<leftarrow> SetPropStr root ''Name'' (Some name) m4;
           m6 \<leftarrow> SetPropStr root ''Container'' (Some []) m5;
           m7 \<leftarrow> SetPropStr root ''ReservedViewOpen'' (Some ''1'') m6;
           m8 \<leftarrow> RegisterPath (take 159 (SLASH # name)) root m7;
           Some (root, m8) } } } })"

text \<open>A private handle is placed and not named; nothing is made when its container has no path.\<close>

definition CreatePrivate :: "caller \<Rightarrow> ptr \<Rightarrow> string \<Rightarrow> string \<Rightarrow> machine \<Rightarrow> (ptr \<times> machine) option" where
  "CreatePrivate call container classname wanted m = do {
     let (cls, m1) = FindClass classname m;
     if cls = 0 then Some (0, m1)
     else do {
       (fn, m2) \<leftarrow> onNodes (GetPropLong cls ''InstanceStart'') m1;
       if fn = 0 \<or> container = 0 then Some (0, m2)
       else do {
         ((ok, cpath), m3) \<leftarrow> PathOfInstance container 300 m2;
         if \<not> ok then do { (_, m4) \<leftarrow> textProp container ''Container'' m3; Some (0, m4) }
         else do {
           let (place, m4) = newNode INTEGER m3;
           m5 \<leftarrow> SetPropLong place ''Container'' container m4;
           m6 \<leftarrow> (if wanted = [] then Some m5 else SetPropStr place ''Name'' (Some wanted) m5);
           (_, m7) \<leftarrow> call fn cls msg_initialize place m6;
           m8 \<leftarrow> doNodes (DelNode place) m7;
           (inst, m9) \<leftarrow> onNodes (GetPropLong cls ''LastInstance'') m8;
           if inst = 0 then Some (0, m9)
           else do { m10 \<leftarrow> SetPropStr inst ''Container'' (Some cpath) m9; Some (inst, m10) } } } } }"

definition CreateObject :: "caller \<Rightarrow> ptr \<Rightarrow> string \<Rightarrow> string \<Rightarrow> machine \<Rightarrow> (ptr \<times> machine) option" where
  "CreateObject call container classname wanted m = do {
     ((ok, cpath), m1) \<leftarrow> RequirePathOfAt container 300 m;
     if \<not> ok then Some (0, m1)
     else do {
       (name, m2) \<leftarrow> (if wanted \<noteq> [] then Some (take 191 wanted, m1) else MintFreshName classname cpath 192 m1);
       (inst, m3) \<leftarrow> CreatePrivate call container classname name m2;
       if inst = 0 then Some (0, m3)
       else do {
         ((named, _), m4) \<leftarrow> PathOfInstance inst 512 m3;
         if named then Some (inst, m4)
         else do { m5 \<leftarrow> RegisterPath (take 511 (cpath @ SLASH # name)) inst m4; Some (inst, m5) } } } }"

subsection \<open>Moving\<close>

definition logProp :: "string \<Rightarrow> ptr \<Rightarrow> machine \<Rightarrow> machine option" where
  "logProp name p m = map_option snd (onNodes (GetPropStr p name) m)"

definition PlaceInstance :: "caller \<Rightarrow> ptr \<Rightarrow> string \<Rightarrow> string \<Rightarrow> string \<Rightarrow> machine \<Rightarrow> machine option" where
  "PlaceInstance call inst container x y m = (if inst = 0 then Some m else do {
     m1 \<leftarrow> SetOrDeliverProp call inst ''Container'' (Some container) m;
     m2 \<leftarrow> (if x = [] then Some m1 else SetOrDeliverProp call inst ''X'' (Some x) m1);
     m3 \<leftarrow> (if y = [] then Some m2 else SetOrDeliverProp call inst ''Y'' (Some y) m2);
     m4 \<leftarrow> logProp ''Name'' inst m3;
     m5 \<leftarrow> logProp ''Container'' inst m4;
     m6 \<leftarrow> logProp ''X'' inst m5;
     m7 \<leftarrow> logProp ''Y'' inst m6;
     m8 \<leftarrow> logProp ''ReservedViewPanelX'' inst m7;
     logProp ''ReservedViewPanelY'' inst m8 })"

text \<open>The test for ancestor-or-self: a prefix that ends at a slash or at the end.\<close>

definition ContainmentCycle :: "string \<Rightarrow> string \<Rightarrow> bool" where
  "ContainmentCycle instPath container =
     (if instPath = [] \<or> container = [] then False
      else if take (length instPath) container \<noteq> instPath then False
      else length container = length instPath \<or> container ! length instPath = SLASH)"

definition MoveInstance :: "caller \<Rightarrow> ptr \<Rightarrow> string \<Rightarrow> string \<Rightarrow> string \<Rightarrow> string \<Rightarrow> machine
    \<Rightarrow> (int \<times> machine) option" where
  "MoveInstance call inst instPath container x y m =
     (if inst = 0 then Some (0, m)
      else if ContainmentCycle instPath container then Some (0, m)
      else do { m1 \<leftarrow> PlaceInstance call inst container x y m; Some (1, m1) })"

text \<open>Per-connection values in a table node.\<close>

definition GetConnState :: "ptr \<Rightarrow> 64 word \<Rightarrow> machine \<Rightarrow> (64 word \<times> machine) option" where
  "GetConnState table connId m = (if table = 0 then Some (0, m)
     else onNodes (GetPropLong table (sprintf_d (sint connId))) m)"

definition SetConnState :: "ptr \<Rightarrow> 64 word \<Rightarrow> 64 word \<Rightarrow> machine \<Rightarrow> machine option" where
  "SetConnState table connId val m = (if table = 0 then Some m
     else SetPropLong table (sprintf_d (sint connId)) val m)"

end
