(* ===== verification/Paths_Names.thy ===== *)
theory Paths_Names
  imports Paths Registry_Walks "HOL-Library.Sublist"
begin

text \<open>
  Proofs on \<open>Paths\<close>: containment as a prefix of segments, minting of names, and registration as a
  client of the path index.
\<close>

subsection \<open>Segments\<close>

text \<open>The segments of a path, between the slashes.\<close>

fun segments :: "string \<Rightarrow> string list" where
  "segments [] = [[]]"
| "segments (c # s) = (if c = SLASH then [] # segments s
     else (case segments s of [] \<Rightarrow> [[c]] | x # xs \<Rightarrow> (c # x) # xs))"

fun joined :: "string list \<Rightarrow> string" where
  "joined [] = []"
| "joined [x] = x"
| "joined (x # y # xs) = x @ SLASH # joined (y # xs)"

lemma segments_nonempty: "segments s \<noteq> []"
  by (cases s) (auto split: list.split)

lemma joined_segments: "joined (segments s) = s"
proof (induction s)
  case (Cons c s)
  show ?case
  proof (cases "c = SLASH")
    case True
    then show ?thesis using Cons segments_nonempty [of s] by (cases "segments s") auto
  next
    case False
    then show ?thesis using Cons segments_nonempty [of s] by (cases "segments s" rule: joined.cases) auto
  qed
qed simp

lemma segments_slash: "segments (p @ SLASH # t) = segments p @ segments t"
proof (induction p)
  case (Cons c p)
  then show ?case using segments_nonempty [of p] by (cases "segments p") auto
qed simp

lemma joined_append: "xs \<noteq> [] \<Longrightarrow> ys \<noteq> [] \<Longrightarrow> joined (xs @ ys) = joined xs @ SLASH # joined ys"
proof (induction xs rule: joined.induct)
  case (2 x)
  then show ?case by (cases ys) auto
qed auto

lemma prefix_segments: "prefix (segments p) (segments c) \<longleftrightarrow> c = p \<or> (\<exists>t. c = p @ SLASH # t)"
proof
  assume "prefix (segments p) (segments c)"
  then obtain zs where zs: "segments c = segments p @ zs" by (auto simp: prefix_def)
  have "c = joined (segments p @ zs)" by (metis joined_segments zs)
  then show "c = p \<or> (\<exists>t. c = p @ SLASH # t)"
    by (cases "zs = []") (auto simp: joined_segments joined_append segments_nonempty)
next
  assume "c = p \<or> (\<exists>t. c = p @ SLASH # t)"
  then show "prefix (segments p) (segments c)" by (auto simp: segments_slash)
qed

subsection \<open>Names in use\<close>

text \<open>What reading the container and the name of an instance yields, when both are cached texts.\<close>

definition reads :: "fabric \<Rightarrow> ptr \<Rightarrow> string \<Rightarrow> string option \<Rightarrow> bool" where
  "reads w i c n \<longleftrightarrow> (\<exists>x. GetPropStr i ''Container'' w = Some (x, w) \<and> c = (case x of None \<Rightarrow> [] | Some s \<Rightarrow> s))
     \<and> GetPropStr i ''Name'' w = Some (n, w)"

lemma reads_text: "reads (world m) i c n \<Longrightarrow> textProp i ''Container'' m = Some (c, m)"
  by (auto simp: reads_def textProp_def)

lemma reads_name: "reads (world m) i c n \<Longrightarrow> onNodes (GetPropStr i ''Name'') m = Some (n, m)"
  by (simp add: reads_def)

lemma takenFrom_list:
  assumes "\<And>xs a ys. as = xs @ a # ys \<Longrightarrow> NextInstance a m = Some (headOr ys 0, m)" and "\<forall>a \<in> set as. a \<noteq> 0"
    and "\<forall>a \<in> set as. reads (world m) a (cont a) (nm a)"
  shows "takenFrom name cp (headOr as 0) m = Some (\<exists>a \<in> set as. cont a = cp \<and> nm a = Some name, m)"
  using assms
proof (induction as)
  case Nil
  then show ?case by (subst takenFrom.simps) simp
next
  case (Cons a as)
  have r: "reads (world m) a (cont a) (nm a)" and a: "a \<noteq> 0" using Cons.prems by auto
  have "NextInstance a m = Some (headOr as 0, m)" by (rule Cons.prems(1) [of "[]"]) simp
  moreover have "takenFrom name cp (headOr as 0) m = Some (\<exists>a \<in> set as. cont a = cp \<and> nm a = Some name, m)"
    by (rule Cons.IH) (use Cons.prems(1) [of "a # xs" for xs] Cons.prems(2,3) in auto)
  ultimately show ?case
    using a reads_text [OF r] reads_name [OF r] by (subst takenFrom.simps) auto
qed

lemma NameTakenIn_registry:
  assumes "registry m libs" and "\<forall>i \<in> set (allInstances libs). reads (world m) i (cont i) (nm i)"
  shows "NameTakenIn name cp m = Some (\<exists>i \<in> set (allInstances libs). cont i = cp \<and> nm i = Some name, m)"
  using FirstInstance_registry [OF assms(1)]
    takenFrom_list [OF NextInstance_registry [OF assms(1)] allInstances_nz [OF assms(1)] assms(2)]
  by (simp add: NameTakenIn_def)

subsection \<open>Minting\<close>

definition fullPath :: "string \<Rightarrow> string \<Rightarrow> string" where
  "fullPath cp out = take 399 ((if cp = [] then ''/Root'' else cp) @ SLASH # out)"

text \<open>A name that no instance of the container has and no path of the index uses.\<close>

definition freeName :: "rtree list \<Rightarrow> (ptr \<Rightarrow> string) \<Rightarrow> (ptr \<Rightarrow> string option) \<Rightarrow> machine \<Rightarrow> string \<Rightarrow> string \<Rightarrow> bool" where
  "freeName libs cont nm m cp out \<longleftrightarrow>
     (\<forall>i \<in> set (allInstances libs). cont i = cp \<longrightarrow> nm i \<noteq> Some out) \<and> fst (ResolvePath (fullPath cp out) m) = 0"

lemma ResolvePath_known: "pathIndex (world m) = Some t \<Longrightarrow> ResolvePath p m = (if p = [] then 0 else word_of_int (NSSearch t p), m)"
  by (simp add: ResolvePath_def GetPathIndex_def)

lemma mintFrom_step:
  assumes reg: "registry m libs" and texts: "\<forall>i \<in> set (allInstances libs). reads (world m) i (cont i) (nm i)"
    and ix: "pathIndex (world m) = Some t"
  shows "mintFrom stem cp outlen k m = (if k \<ge> 100000 then Some (candidate stem outlen (k - 1), m)
     else if freeName libs cont nm m cp (candidate stem outlen k) then Some (candidate stem outlen k, m)
     else mintFrom stem cp outlen (Suc k) m)"
proof -
  have "ResolvePath (take 399 ((if cp = [] then ''/Root'' else cp) @ SLASH # candidate stem outlen k)) m
      = (fst (ResolvePath (fullPath cp (candidate stem outlen k)) m), m)"
    by (simp add: ResolvePath_known [OF ix] fullPath_def)
  then show ?thesis
    by (subst mintFrom.simps)
      (auto simp: Let_def NameTakenIn_registry [OF reg texts] freeName_def simp del: take_append)
qed

lemma mintFrom_least:
  assumes reg: "registry m libs" and texts: "\<forall>i \<in> set (allInstances libs). reads (world m) i (cont i) (nm i)"
    and ix: "pathIndex (world m) = Some t"
  shows "k \<le> n \<Longrightarrow> n < 100000 \<Longrightarrow> freeName libs cont nm m cp (candidate stem outlen n)
    \<Longrightarrow> \<forall>j. k \<le> j \<and> j < n \<longrightarrow> \<not> freeName libs cont nm m cp (candidate stem outlen j)
    \<Longrightarrow> mintFrom stem cp outlen k m = Some (candidate stem outlen n, m)"
proof (induction "n - k" arbitrary: k)
  case 0
  then show ?case by (subst mintFrom_step [OF reg texts ix]) simp
next
  case (Suc x)
  moreover have "mintFrom stem cp outlen (Suc k) m = Some (candidate stem outlen n, m)"
    using Suc by simp
  ultimately show ?case by (subst mintFrom_step [OF reg texts ix]) simp
qed

lemma mintFrom_none:
  assumes reg: "registry m libs" and texts: "\<forall>i \<in> set (allInstances libs). reads (world m) i (cont i) (nm i)"
    and ix: "pathIndex (world m) = Some t"
  shows "0 < k \<Longrightarrow> k \<le> 100000 \<Longrightarrow> \<forall>j. k \<le> j \<and> j < 100000 \<longrightarrow> \<not> freeName libs cont nm m cp (candidate stem outlen j)
    \<Longrightarrow> mintFrom stem cp outlen k m = Some (candidate stem outlen 99999, m)"
proof (induction "100000 - k" arbitrary: k)
  case 0
  then show ?case by (subst mintFrom_step [OF reg texts ix]) simp
next
  case (Suc x)
  moreover have "mintFrom stem cp outlen (Suc k) m = Some (candidate stem outlen 99999, m)"
    using Suc by simp
  ultimately show ?case by (subst mintFrom_step [OF reg texts ix]) simp
qed

lemma candidate_long: "outlen - 1 \<le> length stem \<Longrightarrow> candidate stem outlen k = take (outlen - 1) stem"
  by (simp add: candidate_def)

subsection \<open>What naming guarantees\<close>

text \<open>C23. \<open>ContainmentCycle\<close> is the ancestor test of the tree of places: it holds exactly when the segments of
  the instance's path begin the segments of the container's path, so a container with a longer name that
  merely begins the same is no cycle.\<close>

theorem ContainmentCycle_segments:
  "ContainmentCycle p c \<longleftrightarrow> p \<noteq> [] \<and> c \<noteq> [] \<and> prefix (segments p) (segments c)"
proof -
  have "take (length p) c = p \<and> (length c = length p \<or> c ! length p = SLASH) \<longleftrightarrow> c = p \<or> (\<exists>t. c = p @ SLASH # t)"
    if "p \<noteq> []" "c \<noteq> []"
  proof
    assume a: "take (length p) c = p \<and> (length c = length p \<or> c ! length p = SLASH)"
    then have c: "c = p @ drop (length p) c" by (metis append_take_drop_id)
    show "c = p \<or> (\<exists>t. c = p @ SLASH # t)"
    proof (cases "drop (length p) c")
      case Nil
      with c show ?thesis by simp
    next
      case (Cons d t)
      with c have e: "c = p @ d # t" by simp
      with a show ?thesis by auto
    qed
  qed auto
  then show ?thesis by (auto simp: ContainmentCycle_def prefix_segments)
qed

text \<open>C24. \<open>MintFreshName\<close> returns: the lowest number whose name no instance of the container has and no path
  of the index uses, when one below 100000 is free.\<close>

theorem MintFreshName_lowest_free:
  assumes "registry m libs" and "\<forall>i \<in> set (allInstances libs). reads (world m) i (cont i) (nm i)"
    and "pathIndex (world m) = Some t"
    and "1 \<le> n" and "n < 100000" and "freeName libs cont nm m cp (candidate (stemOf base) outlen n)"
    and "\<forall>j. 1 \<le> j \<and> j < n \<longrightarrow> \<not> freeName libs cont nm m cp (candidate (stemOf base) outlen j)"
  shows "MintFreshName base cp outlen m = Some (candidate (stemOf base) outlen n, m)"
  unfolding MintFreshName_def by (rule mintFrom_least [OF assms])

text \<open>The concrete town: instance 8 is called \<open>v_1\<close>, instance 5 has no name, neither has a container.\<close>

lemma town_reads:
  "\<forall>i \<in> set (allInstances town_libs). reads (world town) i [] (if i = 8 then Some ''v_1'' else None)"
  using prop_str [OF town_lists(5), of "''Name''" 9] prop_str_absent [OF town_lists(5), of "''Container''"]
    prop_str_absent [OF town_lists(3), of "''Name''"] prop_str_absent [OF town_lists(3), of "''Container''"]
  by (simp add: allInstances_def allClasses_def instKids_def reads_def cstr_def)

lemma town_names:
  "freeName town_libs (\<lambda>i. []) (\<lambda>i. if i = 8 then Some ''v_1'' else None) town [] ''v_2''"
  "\<not> freeName town_libs (\<lambda>i. []) (\<lambda>i. if i = 8 then Some ''v_1'' else None) town [] ''v_1''"
  by (simp_all add: freeName_def allInstances_def allClasses_def instKids_def fullPath_def
      ResolvePath_def GetPathIndex_def NSCreate_def NSSearch_def)

lemma town_candidates: "stemOf ''v_1'' = ''v''" "candidate ''v'' 100 2 = ''v_2''" "candidate ''v'' 100 1 = ''v_1''"
  by code_simp+

theorem MintFreshName_lowest_free_witness: "MintFreshName ''v_1'' [] 100 town = Some (''v_2'', town)"
  by (rule MintFreshName_lowest_free [OF town_registry town_reads, where base = "''v_1''" and outlen = 100 and n = 2,
        unfolded town_candidates])
    (use town_names town_candidates(3) in \<open>auto simp: town_candidates(1,2) less_Suc_eq numeral_2_eq_2\<close>)

text \<open>A base that fills the caller's buffer loses its number: every candidate is the same text, and once
  that is taken \<open>MintFreshName\<close> hands it out again.\<close>

theorem MintFreshName_hands_out_taken:
  assumes "registry m libs" and "\<forall>i \<in> set (allInstances libs). reads (world m) i (cont i) (nm i)"
    and "pathIndex (world m) = Some t"
    and "outlen - 1 \<le> length (stemOf base)" and "i \<in> set (allInstances libs)"
    and "cont i = cp" and "nm i = Some (take (outlen - 1) (stemOf base))"
  shows "MintFreshName base cp outlen m = Some (take (outlen - 1) (stemOf base), m)"
proof -
  have "\<forall>j. 1 \<le> j \<and> j < 100000 \<longrightarrow> \<not> freeName libs cont nm m cp (candidate (stemOf base) outlen j)"
    using assms(5-7) by (auto simp: freeName_def candidate_long [OF assms(4)])
  from mintFrom_none [OF assms(1-3) _ _ this] show ?thesis
    by (simp add: MintFreshName_def candidate_long [OF assms(4)])
qed

theorem MintFreshName_hands_out_taken_witness: "MintFreshName ''v_1x'' [] 4 town = Some (''v_1'', town)"
proof -
  have "stemOf ''v_1x'' = ''v_1x''" by code_simp
  with MintFreshName_hands_out_taken [OF town_registry town_reads, of _ 4 "''v_1x''" 8 "[]"] show ?thesis
    by (simp add: allInstances_def allClasses_def instKids_def)
qed

end
