(* ===== verification/Wiring.thy ===== *)
theory Wiring
  imports Paths
begin

text \<open>
  Wires between properties in \<open>src/object.c\<close>: links (aliases), the two records of a wire, \<open>Connect\<close> and
  \<open>Disconnect\<close>, and the deletion of an instance, which takes down its name, its wires and its links.

  A wire is a \<open>Subscriber\<close> record under the source property (who to deliver to) and a \<open>Subscription\<close>
  record under the sink property (who it listens to); both hold an instance and the name of a port.
\<close>

subsection \<open>Links\<close>

definition LinkPropertyAs :: "ptr \<Rightarrow> string \<Rightarrow> ptr \<Rightarrow> string \<Rightarrow> machine \<Rightarrow> (int \<times> machine) option" where
  "LinkPropertyAs own slot targetInst propname m = (if own = 0 \<or> targetInst = 0 then Some (0, m) else do {
     ((realOwner, targetProp), m1) \<leftarrow> ResolvePort targetInst propname m;
     if targetProp = 0 then Some (0, m1)
     else do {
       m2 \<leftarrow> doNodes (SetPropStrPrivate own slot (Some [])) m1;
       linknode \<leftarrow> GetPropNode own slot (world m2);
       if linknode = 0 then Some (0, m2)
       else do {
         m3 \<leftarrow> SetPropLong linknode ''LinkInst'' realOwner m2;
         m4 \<leftarrow> doNodes (LinkNode linknode targetProp) m3;
         Some (1, m4) } } })"

definition LinkProperty :: "ptr \<Rightarrow> ptr \<Rightarrow> string \<Rightarrow> machine \<Rightarrow> (int \<times> machine) option" where
  "LinkProperty own targetInst propname m = LinkPropertyAs own propname targetInst propname m"

text \<open>The instance and the property name an alias stands for.\<close>

definition IsAlias :: "ptr \<Rightarrow> machine \<Rightarrow> ((ptr \<times> string option) option \<times> machine) option" where
  "IsAlias inst m = (if inst = 0 then Some (None, m) else do {
     slot \<leftarrow> GetPropNode inst ''Value'' (world m);
     l \<leftarrow> GetNodeLink slot (world m);
     if slot = 0 \<or> l = 0 then Some (None, m)
     else do {
       (own, m1) \<leftarrow> onNodes (GetPropLong slot ''LinkInst'') m;
       if own = 0 then Some (None, m1)
       else do {
         r \<leftarrow> ResolveNode slot (world m1);
         name \<leftarrow> GetNameStr r (world m1);
         Some (Some (own, name), m1) } } })"

subsection \<open>The records of a wire\<close>

text \<open>The first record of a kind with this instance and port, from a property on; 0 when there is none.\<close>

partial_function (option) recordFrom :: "string \<Rightarrow> ptr \<Rightarrow> string \<Rightarrow> ptr \<Rightarrow> machine \<Rightarrow> (ptr \<times> machine) option" where
  "recordFrom kind inst port rec m = (if rec = 0 then Some (0, m) else do {
     nxt \<leftarrow> GetNextSibling rec (world m);
     is \<leftarrow> CmpName rec kind (world m);
     if \<not> is then recordFrom kind inst port nxt m
     else do {
       (i, m1) \<leftarrow> onNodes (GetPropLong rec ''Instance'') m;
       if i \<noteq> inst then recordFrom kind inst port nxt m1
       else do {
         (p, m2) \<leftarrow> onNodes (GetPropStr rec ''Port'') m1;
         if p = Some port then Some (rec, m2) else recordFrom kind inst port nxt m2 } } })"

declare recordFrom.simps [code]

definition findRecord :: "string \<Rightarrow> ptr \<Rightarrow> string \<Rightarrow> ptr \<Rightarrow> machine \<Rightarrow> (ptr \<times> machine) option" where
  "findRecord kind inst port prop m = do {
     first \<leftarrow> GetNextProp prop (world m);
     recordFrom kind inst port first m }"

definition AddSubscriptionBack :: "ptr \<Rightarrow> ptr \<Rightarrow> ptr \<Rightarrow> machine \<Rightarrow> machine option" where
  "AddSubscriptionBack toPortNode fromOwner fromPort m = do {
     fromName \<leftarrow> GetNameStr fromPort (world m);
     (case fromName of None \<Rightarrow> Some m
      | Some name \<Rightarrow>
          if toPortNode = 0 \<or> fromOwner = 0 then Some m
          else do {
            (found, m1) \<leftarrow> findRecord ''Subscription'' fromOwner name toPortNode m;
            if found \<noteq> 0 then Some m1
            else do {
              (rec, m2) \<leftarrow> namedNode ''Subscription'' m1;
              m3 \<leftarrow> SetPropLong rec ''Instance'' fromOwner m2;
              m4 \<leftarrow> SetPropStr rec ''Port'' (Some name) m3;
              doNodes (AddProp toPortNode rec) m4 } }) }"

definition AddSubscription :: "ptr \<Rightarrow> ptr \<Rightarrow> ptr \<Rightarrow> ptr \<Rightarrow> ptr \<Rightarrow> machine \<Rightarrow> machine option" where
  "AddSubscription fromOwner fromPort toNode toPortNode handler m = do {
     toName \<leftarrow> GetNameStr toPortNode (world m);
     (case toName of None \<Rightarrow> Some m
      | Some toPort \<Rightarrow>
          if fromPort = 0 \<or> toNode = 0 then Some m
          else do {
            (found, m1) \<leftarrow> findRecord ''Subscriber'' toNode toPort fromPort m;
            if found \<noteq> 0
            then (if handler \<noteq> 0 then SetPropLong found ''Callback'' handler m1 else Some m1)
            else do {
              (sub, m2) \<leftarrow> namedNode ''Subscriber'' m1;
              m3 \<leftarrow> SetPropLong sub ''Instance'' toNode m2;
              m4 \<leftarrow> SetPropStr sub ''Port'' (Some toPort) m3;
              m5 \<leftarrow> SetPropLong sub ''Callback'' handler m4;
              m6 \<leftarrow> doNodes (AddProp fromPort sub) m5;
              AddSubscriptionBack toPortNode fromOwner fromPort m6 } }) }"

subsection \<open>Connecting\<close>

text \<open>An unnamed end is the override a node carries, or \<open>Value\<close>.\<close>

definition endName :: "string \<Rightarrow> string \<Rightarrow> ptr \<Rightarrow> machine \<Rightarrow> (string \<times> machine) option" where
  "endName given override p m = (if given \<noteq> [] then Some (given, m) else do {
     (s, m1) \<leftarrow> textProp p override m;
     Some (if s = [] then ''Value'' else s, m1) })"

text \<open>The path of an instance, or its name, for the log.\<close>

definition logWhere :: "ptr \<Rightarrow> machine \<Rightarrow> machine option" where
  "logWhere p m = do {
     ((ok, _), m1) \<leftarrow> PathOfInstance p 300 m;
     if ok then Some m1 else logName p m1 }"

text \<open>The source property comes into being when it is not there.\<close>

definition sourcePort :: "ptr \<Rightarrow> string \<Rightarrow> machine \<Rightarrow> ((ptr \<times> ptr) option \<times> machine) option" where
  "sourcePort fromNode from m = do {
     ((own, port), m1) \<leftarrow> ResolvePort fromNode from m;
     if port \<noteq> 0 then Some (Some (own, port), m1)
     else do {
       raw \<leftarrow> GetPropNode fromNode from (world m1);
       m2 \<leftarrow> logWhere fromNode m1;
       if raw \<noteq> 0 then Some (None, m2)
       else do {
         m3 \<leftarrow> SetPropInt fromNode from 0 m2;
         made \<leftarrow> GetPropNode fromNode from (world m3);
         Some (Some (own, made), m3) } } }"

definition bumpWiring :: "ptr \<Rightarrow> machine \<Rightarrow> machine option" where
  "bumpWiring p m = do {
     (n, m1) \<leftarrow> onNodes (GetPropLong p ''Wiring'') m;
     SetPropLong p ''Wiring'' (n + 1) m1 }"

definition Connect :: "ptr \<Rightarrow> string \<Rightarrow> ptr \<Rightarrow> string \<Rightarrow> machine \<Rightarrow> (int \<times> machine) option" where
  "Connect fromNode from0 toNode to0 m = (if fromNode = 0 \<or> toNode = 0 then Some (0, m) else do {
     (from, m1) \<leftarrow> endName from0 ''ReservedOut'' fromNode m;
     (to, m2) \<leftarrow> endName to0 ''ReservedIn'' toNode m1;
     (src, m3) \<leftarrow> sourcePort fromNode from m2;
     (case src of None \<Rightarrow> Some (0, m3)
      | Some (fromOwner, fromPort) \<Rightarrow> do {
          ((toOwner, toPort), m4) \<leftarrow> ResolvePort toNode to m3;
          if toPort = 0
          then do { m5 \<leftarrow> logWhere toNode m4; Some (0, m5) }
          else do {
            (handler, m5) \<leftarrow> onNodes (GetPropLong toPort ''OnMsg'') m4;
            m6 \<leftarrow> AddSubscription fromOwner fromPort toOwner toPort handler m5;
            m7 \<leftarrow> bumpWiring toOwner m6;
            m8 \<leftarrow> logName fromOwner m7;
            m9 \<leftarrow> logName toOwner m8;
            _ \<leftarrow> GetNameStr toPort (world m9);
            Some (1, m9) } }) })"

definition dropRecord :: "ptr \<Rightarrow> ptr \<Rightarrow> machine \<Rightarrow> machine option" where
  "dropRecord own rec m = do { m1 \<leftarrow> doNodes (RemoveProp own rec) m; doNodes (DelNode rec) m1 }"

definition Disconnect :: "ptr \<Rightarrow> string option \<Rightarrow> ptr \<Rightarrow> string option \<Rightarrow> machine \<Rightarrow> (int \<times> machine) option" where
  "Disconnect fromNode from0 toNode to0 m = (case (from0, to0) of
     (Some from, Some to) \<Rightarrow>
       if fromNode = 0 \<or> toNode = 0 then Some (0, m)
       else do {
         ((fromOwner, fromPort), m1) \<leftarrow> ResolvePort fromNode from m;
         if fromPort = 0 then Some (0, m1)
         else do {
           ((toOwner, toPort), m2) \<leftarrow> ResolvePort toNode to m1;
           if toPort = 0 then Some (0, m2)
           else do {
             nm \<leftarrow> GetNameStr toPort (world m2);
             toName \<leftarrow> nm;
             (sub, m3) \<leftarrow> findRecord ''Subscriber'' toOwner toName fromPort m2;
             if sub = 0 then Some (0, m3)
             else do {
               m4 \<leftarrow> dropRecord fromPort sub m3;
               fnm \<leftarrow> GetNameStr fromPort (world m4);
               fromName \<leftarrow> fnm;
               (rec, m5) \<leftarrow> findRecord ''Subscription'' fromOwner fromName toPort m4;
               m6 \<leftarrow> (if rec \<noteq> 0 then dropRecord toPort rec m5 else Some m5);
               m7 \<leftarrow> logName fromOwner m6;
               m8 \<leftarrow> logName toOwner m7;
               m9 \<leftarrow> bumpWiring toOwner m8;
               Some (1, m9) } } } }
   | _ \<Rightarrow> Some (0, m))"

subsection \<open>Deleting an instance\<close>

text \<open>The sweep: every \<open>Subscriber\<close> below the properties of a node that names the dying instance.\<close>

partial_function (option) scrubSubscribers :: "ptr \<Rightarrow> ptr \<Rightarrow> ptr \<Rightarrow> machine \<Rightarrow> machine option" where
  "scrubSubscribers dead own prop m = (if prop = 0 then Some m else do {
     nxt \<leftarrow> GetNextSibling prop (world m);
     is \<leftarrow> CmpName prop ''Subscriber'' (world m);
     (i, m1) \<leftarrow> (if is then onNodes (GetPropLong prop ''Instance'') m else Some (0, m));
     m2 \<leftarrow> (if is \<and> i = dead then do {
              ma \<leftarrow> logName dead m1;
              _ \<leftarrow> GetNameStr own (world ma);
              dropRecord own prop ma }
           else do { first \<leftarrow> GetNextProp prop (world m1); scrubSubscribers dead prop first m1 });
     scrubSubscribers dead own nxt m2 })"

definition ScrubSubscriberProps :: "ptr \<Rightarrow> ptr \<Rightarrow> machine \<Rightarrow> machine option" where
  "ScrubSubscriberProps n dead m = (if n = 0 then Some m
     else do { first \<leftarrow> GetNextProp n (world m); scrubSubscribers dead n first m })"

text \<open>All records of a kind under a property that name an instance.\<close>

partial_function (option) dropFrom :: "string \<Rightarrow> ptr \<Rightarrow> ptr \<Rightarrow> ptr \<Rightarrow> machine \<Rightarrow> (nat \<times> machine) option" where
  "dropFrom kind self port rec m = (if rec = 0 then Some (0, m) else do {
     nxt \<leftarrow> GetNextSibling rec (world m);
     is \<leftarrow> CmpName rec kind (world m);
     (i, m1) \<leftarrow> (if is then onNodes (GetPropLong rec ''Instance'') m else Some (0, m));
     if is \<and> i = self then do {
       m2 \<leftarrow> dropRecord port rec m1;
       (n, m3) \<leftarrow> dropFrom kind self port nxt m2;
       Some (Suc n, m3) }
     else dropFrom kind self port nxt m1 })"

declare scrubSubscribers.simps [code] dropFrom.simps [code]

text \<open>The other end of a record: the property its instance has under its port.\<close>

definition dropOtherEnd :: "string \<Rightarrow> ptr \<Rightarrow> ptr \<Rightarrow> machine \<Rightarrow> (nat \<times> machine) option" where
  "dropOtherEnd kind self rec m = do {
     (own, m1) \<leftarrow> onNodes (GetPropLong rec ''Instance'') m;
     (name, m2) \<leftarrow> onNodes (GetPropStr rec ''Port'') m1;
     (case name of None \<Rightarrow> Some (0, m2)
      | Some s \<Rightarrow>
          if own = 0 then Some (0, m2)
          else do {
            port \<leftarrow> GetPropNode own s (world m2);
            if port = 0 then Some (0, m2)
            else do { first \<leftarrow> GetNextProp port (world m2); dropFrom kind self port first m2 } }) }"

partial_function (option) scrubOwn :: "ptr \<Rightarrow> ptr \<Rightarrow> ptr \<Rightarrow> machine \<Rightarrow> (nat \<times> machine) option" where
  "scrubOwn self own rec m = (if rec = 0 then Some (0, m) else do {
     nxt \<leftarrow> GetNextSibling rec (world m);
     in1 \<leftarrow> CmpName rec ''Subscription'' (world m);
     out1 \<leftarrow> CmpName rec ''Subscriber'' (world m);
     (k, m1) \<leftarrow>
       (if in1 then do {
          (n, ma) \<leftarrow> dropOtherEnd ''Subscriber'' self rec m;
          mb \<leftarrow> dropRecord own rec ma;
          Some (n, mb) }
        else if out1 then dropOtherEnd ''Subscription'' self rec m
        else do { first \<leftarrow> GetNextProp rec (world m); scrubOwn self rec first m });
     (n, m2) \<leftarrow> scrubOwn self own nxt m1;
     Some (k + n, m2) })"

declare scrubOwn.simps [code]

definition ScrubOwnWiresIn :: "ptr \<Rightarrow> ptr \<Rightarrow> machine \<Rightarrow> (nat \<times> machine) option" where
  "ScrubOwnWiresIn n self m = (if n = 0 then Some (0, m)
     else do { first \<leftarrow> GetNextProp n (world m); scrubOwn self n first m })"

definition ScrubOwnWires :: "ptr \<Rightarrow> machine \<Rightarrow> machine option" where
  "ScrubOwnWires inst m = do {
     (removed, m1) \<leftarrow> ScrubOwnWiresIn inst inst m;
     if removed \<noteq> 0 then logName inst m1 else Some m1 }"

partial_function (option) scrubLinks :: "ptr \<Rightarrow> ptr \<Rightarrow> machine \<Rightarrow> machine option" where
  "scrubLinks dead prop m = (if prop = 0 then Some m else do {
     l \<leftarrow> GetNodeLink prop (world m);
     (i, m1) \<leftarrow> (if l \<noteq> 0 then onNodes (GetPropLong prop ''LinkInst'') m else Some (0, m));
     m2 \<leftarrow> (if l \<noteq> 0 \<and> i = dead then do {
              ma \<leftarrow> doNodes (LinkNode prop 0) m1;
              SetPropLong prop ''LinkInst'' 0 ma }
           else Some m1);
     first \<leftarrow> GetNextProp prop (world m2);
     m3 \<leftarrow> scrubLinks dead first m2;
     nxt \<leftarrow> GetNextSibling prop (world m3);
     scrubLinks dead nxt m3 })"

declare scrubLinks.simps [code]

definition ScrubLinkProps :: "ptr \<Rightarrow> ptr \<Rightarrow> machine \<Rightarrow> machine option" where
  "ScrubLinkProps n dead m = (if n = 0 then Some m
     else do { first \<leftarrow> GetNextProp n (world m); scrubLinks dead first m })"

text \<open>Both sweeps over every instance of the registry.\<close>

partial_function (option) sweepFrom :: "(ptr \<Rightarrow> machine \<Rightarrow> machine option) \<Rightarrow> ptr \<Rightarrow> machine \<Rightarrow> machine option" where
  "sweepFrom scrub inst m = (if inst = 0 then Some m else do {
     m1 \<leftarrow> scrub inst m;
     (nxt, m2) \<leftarrow> NextInstance inst m1;
     sweepFrom scrub nxt m2 })"

declare sweepFrom.simps [code]

definition ScrubRegistrySubscriptions :: "ptr \<Rightarrow> machine \<Rightarrow> machine option" where
  "ScrubRegistrySubscriptions dead m = do {
     (inst, m1) \<leftarrow> FirstInstance m;
     sweepFrom (\<lambda>i. ScrubSubscriberProps i dead) inst m1 }"

definition ScrubRegistryLinks :: "ptr \<Rightarrow> machine \<Rightarrow> machine option" where
  "ScrubRegistryLinks dead m = do {
     (inst, m1) \<leftarrow> FirstInstance m;
     sweepFrom (\<lambda>i. ScrubLinkProps i dead) inst m1 }"

definition DeleteInstance :: "caller \<Rightarrow> ptr \<Rightarrow> machine \<Rightarrow> machine option" where
  "DeleteInstance call inst m = (if inst = 0 then Some m else do {
     cls \<leftarrow> GetParent inst (world m);
     m1 \<leftarrow> (if cls = 0 then Some m else do {
              (fn, ma) \<leftarrow> onNodes (GetPropLong cls ''InstanceEnd'') m;
              if fn \<noteq> 0 then map_option snd (call fn inst msg_update 0 ma) else Some ma });
     ((ok, gone), m2) \<leftarrow> PathOfInstance inst 300 m1;
     m3 \<leftarrow> (if ok then UnregisterPath gone m2 else Some m2);
     m4 \<leftarrow> ScrubOwnWires inst m3;
     m5 \<leftarrow> ScrubRegistrySubscriptions inst m4;
     m6 \<leftarrow> ScrubRegistryLinks inst m5;
     m7 \<leftarrow> CancelPendingSends inst m6;
     m8 \<leftarrow> doNodes (DelSibling inst) m7;
     doNodes (DelNode inst) m8 })"

end
