(* ===== verification/Aliases.thy ===== *)
theory Aliases
  imports Wiring
begin

text \<open>
  Aliases and gestures in \<open>src/object.c\<close>: a control whose \<open>Value\<close> links to a property of another
  instance, and the actions an instance offers by name, found along its class chain and out through its
  containers.
\<close>

subsection \<open>Aliases\<close>

text \<open>A text that is not there reads as the empty one.\<close>

definition orEmpty :: "string option \<Rightarrow> string" where
  "orEmpty s = (case s of None \<Rightarrow> [] | Some t \<Rightarrow> t)"

definition widgetOf :: "ptr \<Rightarrow> machine \<Rightarrow> (32 word \<times> machine) option" where
  "widgetOf p m = (if p = 0 then Some (0, m) else onNodes (GetPropInt p ''Widget'') m)"

definition AliasProperty :: "ptr \<Rightarrow> ptr \<Rightarrow> string \<Rightarrow> machine \<Rightarrow> (int \<times> machine) option" where
  "AliasProperty aliasInst targetInst asked m = (if aliasInst = 0 \<or> targetInst = 0 \<or> asked = [] then Some (0, m) else do {
     (linked, m1) \<leftarrow> LinkPropertyAs aliasInst ''Value'' targetInst asked m;
     if linked = 0 then Some (0, m1)
     else do {
       ((own, node), m2) \<leftarrow> ResolvePort targetInst asked m1;
       nm \<leftarrow> (if node \<noteq> 0 then GetNameStr node (world m2) else Some (Some asked));
       propname \<leftarrow> nm;
       (pub, m3) \<leftarrow> InterfacePropForInstance own propname m2;
       (w1, m4) \<leftarrow> widgetOf pub m3;
       (w, m5) \<leftarrow> (if w1 = 0 then widgetOf node m4 else Some (w1, m4));
       m6 \<leftarrow> (if w \<noteq> 0 then SetPropInt aliasInst ''Widget'' w m5 else Some m5);
       let listprop = take 127 (propname @ ''List'');
       items \<leftarrow> GetPropNode own listprop (world m6);
       m7 \<leftarrow> (if items \<noteq> 0 then map_option snd (LinkPropertyAs aliasInst ''Items'' own listprop m6) else Some m6);
       ((ok, path), m8) \<leftarrow> PathOfInstance own 256 m7;
       m9 \<leftarrow> (if ok then SetPropStr aliasInst ''Target'' (Some path) m8 else Some m8);
       m10 \<leftarrow> SetPropStr aliasInst ''TargetProp'' (Some propname) m9;
       Some (1, m10) } })"

definition PROP_TEXTBOX :: "32 word" where "PROP_TEXTBOX = 1"
definition PROP_NULL :: "32 word" where "PROP_NULL = 10"

text \<open>The control for a property: what the class of its owner publishes, else what the property says, else
  text; \<open>PROP_NULL\<close> counts as nothing published.\<close>

definition controlFor :: "ptr \<Rightarrow> ptr \<Rightarrow> machine \<Rightarrow> (32 word \<times> machine) option" where
  "controlFor own node m = do {
     nm \<leftarrow> GetNameStr node (world m);
     name \<leftarrow> nm;
     (pub, m1) \<leftarrow> InterfacePropForInstance own name m;
     (w1, m2) \<leftarrow> widgetOf pub m1;
     (w, m3) \<leftarrow> (if w1 = PROP_NULL \<or> w1 = 0 then widgetOf node m2 else Some (w1, m2));
     Some (if w = 0 then PROP_TEXTBOX else w, m3) }"

text \<open>The name of an alias: what it stands for, the lowest free number of it when its container has a path.\<close>

definition nameAlias :: "caller \<Rightarrow> ptr \<Rightarrow> ptr \<Rightarrow> string \<Rightarrow> machine \<Rightarrow> machine option" where
  "nameAlias call container inst base m = do {
     ((ok, cpath), m1) \<leftarrow> RequirePathOfAt container 300 m;
     if ok then do {
       (newname, m2) \<leftarrow> MintFreshName base cpath 192 m1;
       RegisterPath (take 511 (cpath @ SLASH # newname)) inst m2 }
     else SetOrDeliverProp call inst ''Name'' (Some base) m1 }"

definition CreateAlias :: "caller \<Rightarrow> ptr \<Rightarrow> ptr \<Rightarrow> string \<Rightarrow> machine \<Rightarrow> (ptr \<times> machine) option" where
  "CreateAlias call container targetInst propname m = (if container = 0 \<or> targetInst = 0 \<or> propname = [] then Some (0, m) else do {
     ((own, node), m1) \<leftarrow> ResolvePort targetInst propname m;
     if node = 0 then do { m2 \<leftarrow> logName targetInst m1; Some (0, m2) }
     else do {
       (widget, m2) \<leftarrow> controlFor own node m1;
       (cls, m3) \<leftarrow> FindClassRendering widget m2;
       if cls = 0 then do { m4 \<leftarrow> logName targetInst m3; Some (0, m4) }
       else do {
         cn \<leftarrow> GetNameStr cls (world m3);
         classname \<leftarrow> cn;
         (inst, m4) \<leftarrow> CreateObject call container classname [] m3;
         if inst = 0 then Some (0, m4)
         else do {
           (ok, m5) \<leftarrow> AliasProperty inst targetInst propname m4;
           if ok = 0 then do { m6 \<leftarrow> DeleteInstance call inst m5; Some (0, m6) }
           else do {
             (tn, m6) \<leftarrow> textProp targetInst ''Name'' m5;
             cn2 \<leftarrow> GetNameStr cls (world m6);
             let base = take 191 ((if tn = [] then orEmpty cn2 else tn) @ CHR ''_'' # propname);
             m7 \<leftarrow> nameAlias call container inst base m6;
             m8 \<leftarrow> logName targetInst m7;
             _ \<leftarrow> GetNameStr cls (world m8);
             Some (inst, m8) } } } } })"

subsection \<open>Gestures\<close>

abbreviation (input) "COMMA \<equiv> CHR '',''"

definition PublishGestures :: "ptr \<Rightarrow> string \<Rightarrow> machine \<Rightarrow> machine option" where
  "PublishGestures cls names m = (if cls = 0 then Some m else SetPropStr cls ''Gestures'' (Some names) m)"

text \<open>\<open>strstr\<close> from an index on.\<close>

definition strstrFrom :: "string \<Rightarrow> string \<Rightarrow> nat \<Rightarrow> nat option" where
  "strstrFrom all sub pos = List.find (\<lambda>i. take (length sub) (drop i all) = sub) [pos..<length all]"

text \<open>The loop of \<open>GestureAdd\<close>: \<open>one\<close> is the rest of the list from the name on, \<open>len\<close> the length of the
  name.\<close>

function gestureSeen :: "string \<Rightarrow> string \<Rightarrow> nat \<Rightarrow> nat \<Rightarrow> bool" where
  "gestureSeen all one len pos = (case strstrFrom all one pos of None \<Rightarrow> False
     | Some i \<Rightarrow> if (i = 0 \<or> all ! (i - 1) = COMMA) \<and> (i + len = length all \<or> all ! (i + len) = COMMA) then True
         else gestureSeen all one len (Suc i))"
  by pat_completeness auto

termination
  by (relation "measure (\<lambda>(all, one, len, pos). length all - pos)")
    (auto simp: strstrFrom_def find_Some_iff nth_append dest!: arg_cong [where f = length])

definition GestureAdd :: "string \<Rightarrow> nat \<Rightarrow> string \<Rightarrow> nat \<Rightarrow> string" where
  "GestureAdd all room one len =
     (if len = 0 then all
      else if gestureSeen all one len 0 then all
      else let all1 = (if all \<noteq> [] \<and> length all + len + 2 < room then all @ [COMMA] else all)
           in if length all1 + len + 1 < room then all1 @ take len one else all1)"

text \<open>The comma list of one class, name by name; \<open>index of the comma\<close> as the code finds it with \<open>strchr\<close>.\<close>

function gestureNames :: "string \<Rightarrow> nat \<Rightarrow> string \<Rightarrow> string" where
  "gestureNames all room one = (if one = [] then all
     else let len = length (takeWhile (\<lambda>c. c \<noteq> COMMA) one); all1 = GestureAdd all room one len
       in if len = length one then all1 else gestureNames all1 room (drop (Suc len) one))"
  by pat_completeness auto

termination
  by (relation "measure (\<lambda>(all, room, one). length one)") auto

declare gestureSeen.simps [simp del] gestureNames.simps [simp del]

partial_function (option) gestureClasses :: "string \<Rightarrow> nat \<Rightarrow> ptr \<Rightarrow> machine \<Rightarrow> (string \<times> machine) option" where
  "gestureClasses all room cls m = do {
     (is, m1) \<leftarrow> IsClassNode cls m;
     if \<not> is then Some (all, m1)
     else do {
       (one, m2) \<leftarrow> textProp cls ''Gestures'' m1;
       up \<leftarrow> GetParent cls (world m2);
       gestureClasses (gestureNames all room one) room up m2 } }"

declare gestureClasses.simps [code]

definition GestureAppend :: "string \<Rightarrow> nat \<Rightarrow> ptr \<Rightarrow> machine \<Rightarrow> (string \<times> machine) option" where
  "GestureAppend all room inst m = do { cls \<leftarrow> ClassOfInstance inst m; gestureClasses all room cls m }"

text \<open>The container an instance names; 0 when the path leads nowhere.\<close>

definition outOf :: "ptr \<Rightarrow> machine \<Rightarrow> (ptr \<times> machine) option" where
  "outOf p m = do { (path, m1) \<leftarrow> textProp p ''Container'' m; Some (ResolvePath path m1) }"

fun gesturesOut :: "nat \<Rightarrow> string \<Rightarrow> ptr \<Rightarrow> machine \<Rightarrow> (string \<times> machine) option" where
  "gesturesOut 0 all p m = Some (all, m)"
| "gesturesOut (Suc k) all p m = (if p = 0 then Some (all, m) else do {
     (all1, m1) \<leftarrow> GestureAppend all 512 p m;
     (up, m2) \<leftarrow> outOf p m1;
     gesturesOut k all1 up m2 })"

definition ClassGestures :: "ptr \<Rightarrow> machine \<Rightarrow> (string option \<times> machine) option" where
  "ClassGestures inst m = do {
     (all, m1) \<leftarrow> gesturesOut 8 [] inst m;
     Some (if all = [] then None else Some all, m1) }"

partial_function (option) offeringClass :: "string \<Rightarrow> ptr \<Rightarrow> machine \<Rightarrow> (ptr \<times> machine) option" where
  "offeringClass name cls m = do {
     (is, m1) \<leftarrow> IsClassNode cls m;
     if \<not> is then Some (0, m1)
     else do {
       (list, m2) \<leftarrow> onNodes (GetPropStr cls ''Gestures'') m1;
       if (case list of None \<Rightarrow> False | Some s \<Rightarrow> name = [] \<or> strstrFrom s name 0 \<noteq> None) then Some (cls, m2)
       else do { up \<leftarrow> GetParent cls (world m2); offeringClass name up m2 } } }"

declare offeringClass.simps [code]

fun offeringOut :: "nat \<Rightarrow> string \<Rightarrow> ptr \<Rightarrow> machine \<Rightarrow> (ptr \<times> machine) option" where
  "offeringOut 0 name p m = Some (0, m)"
| "offeringOut (Suc k) name p m = (if p = 0 then Some (0, m) else do {
     cls \<leftarrow> ClassOfInstance p m;
     (found, m1) \<leftarrow> offeringClass name cls m;
     if found \<noteq> 0 then Some (found, m1)
     else do { (up, m2) \<leftarrow> outOf p m1; offeringOut k name up m2 } })"

definition ClassOfferingGesture :: "ptr \<Rightarrow> string \<Rightarrow> machine \<Rightarrow> (ptr \<times> machine) option" where
  "ClassOfferingGesture inst name m = offeringOut 8 name inst m"

definition msg_gesture :: int where "msg_gesture = 7"

fun puntOut :: "caller \<Rightarrow> nat \<Rightarrow> ptr \<Rightarrow> ptr \<Rightarrow> machine \<Rightarrow> (int \<times> machine) option" where
  "puntOut call 0 p bag m = Some (rtrn_unhandled, m)"
| "puntOut call (Suc k) p bag m = (if p = 0 then Some (rtrn_unhandled, m) else do {
     (verdict, m1) \<leftarrow> PuntToClass call p msg_gesture bag m;
     m2 \<leftarrow> logName bag m1;
     _ \<leftarrow> GetNameStr p (world m2);
     if verdict = rtrn_handled then Some (verdict, m2)
     else do { (up, m3) \<leftarrow> outOf p m2; puntOut call k up bag m3 } })"

definition PuntGesture :: "caller \<Rightarrow> ptr \<Rightarrow> ptr \<Rightarrow> machine \<Rightarrow> (int \<times> machine) option" where
  "PuntGesture call inst bag m = do {
     m1 \<leftarrow> (if inst = 0 then Some m else do {
              ((ok, path), ma) \<leftarrow> PathOfInstance inst 900 m;
              if ok then SetPropStr bag ''On'' (Some path) ma else Some ma });
     puntOut call 8 inst bag m1 }"

subsection \<open>What the list of gestures is\<close>

lemma GestureAdd_fits: "length all < room \<Longrightarrow> length (GestureAdd all room one len) < room"
  by (auto simp: GestureAdd_def Let_def)

text \<open>The list of gestures never leaves its buffer, however many classes publish how many names.\<close>

theorem gestureNames_fit: "length all < room \<Longrightarrow> length (gestureNames all room one) < room"
proof (induction all room one rule: gestureNames.induct)
  case (1 all room one)
  show ?case
    using "1.IH" [OF _ refl refl] "1.prems" by (subst gestureNames.simps) (auto simp: Let_def GestureAdd_fits)
qed

theorem gestureNames_fit_witness: "length (gestureNames ''Rename'' 12 ''Script,Move'') < 12"
  by (rule gestureNames_fit) simp

lemma strstrFrom_short: "length all < length one \<Longrightarrow> strstrFrom all one pos = None"
  by (auto simp: strstrFrom_def find_None_iff dest: arg_cong [where f = length])

text \<open>\<open>GestureAdd\<close> looks for the whole rest of the list where it means to look for one name: a name that is
  last in its list is not added a second time, the same name followed by others is.\<close>

theorem gestures_offered_twice:
  assumes "name \<noteq> []" and "2 * length name + 2 < room"
  shows "GestureAdd name room name (length name) = name
    \<and> GestureAdd name room (name @ COMMA # rest) (length name) = name @ COMMA # name"
proof -
  from assms(1) have "[0..<length name] = 0 # [1..<length name]" by (simp add: upt_conv_Cons)
  then have "strstrFrom name name 0 = Some 0" by (simp add: strstrFrom_def)
  then have "GestureAdd name room name (length name) = name"
    using assms(1) by (simp add: GestureAdd_def gestureSeen.simps)
  moreover have "\<not> gestureSeen name (name @ COMMA # rest) (length name) 0"
    by (simp add: gestureSeen.simps strstrFrom_short)
  then have "GestureAdd name room (name @ COMMA # rest) (length name) = name @ COMMA # name"
    using assms by (simp add: GestureAdd_def)
  ultimately show ?thesis by simp
qed

theorem gestures_offered_twice_witness:
  "GestureAdd ''Script'' 512 ''Script'' 6 = ''Script'' \<and> GestureAdd ''Script'' 512 ''Script,Rename'' 6 = ''Script,Script''"
proof -
  have "length ''Script'' = 6" by simp
  from gestures_offered_twice [of "''Script''" 512 "''Rename''", unfolded this] show ?thesis by simp
qed

end
