(* ===== verification/Wiring_Records.thy ===== *)
theory Wiring_Records
  imports Wiring Paths_Names
begin

text \<open>
  Proofs on \<open>Wiring\<close>: the search for a record, what a new wire puts under its two ends and leaves alone,
  what dropping a record frees, and what goes wrong when an instance wired to itself is deleted.
\<close>

subsection \<open>Looking for a record\<close>

abbreviation named :: "fabric \<Rightarrow> ptr \<Rightarrow> string \<Rightarrow> bool" where
  "named w r kind \<equiv> map_option nname (nodes w r) = Some kind"

text \<open>The records of a kind in the property list \<open>rs\<close> of a port, with what their two properties read as.\<close>

definition records :: "fabric \<Rightarrow> string \<Rightarrow> ptr \<Rightarrow> ptr list \<Rightarrow> (ptr \<Rightarrow> ptr) \<Rightarrow> (ptr \<Rightarrow> string option) \<Rightarrow> bool" where
  "records w kind p rs inst port \<longleftrightarrow> proplist w p rs
     \<and> (\<forall>r \<in> set rs. named w r kind \<longrightarrow> GetPropLong r ''Instance'' w = Some (inst r, w)
           \<and> GetPropStr r ''Port'' w = Some (port r, w))"

text \<open>The records among \<open>rs\<close> that stand for the wire to (or from) port \<open>s\<close> of instance \<open>i\<close>.\<close>

definition matching :: "fabric \<Rightarrow> string \<Rightarrow> ptr list \<Rightarrow> (ptr \<Rightarrow> ptr) \<Rightarrow> (ptr \<Rightarrow> string option) \<Rightarrow> ptr \<Rightarrow> string \<Rightarrow> ptr list" where
  "matching w kind rs inst port i s = filter (\<lambda>r. named w r kind \<and> inst r = i \<and> port r = Some s) rs"

lemma path_walk:
  assumes "path (nodes w) p (r # rs) 0"
  shows "r \<noteq> 0" and "GetNextSibling r w = Some (headOr rs 0)" and "CmpName r kind w = Some (named w r kind)"
    and "path (nodes w) (headOr rs 0) rs 0"
proof -
  from assms obtain n where n: "r \<noteq> 0" "nodes w r = Some n" "path (nodes w) (nextSib n) rs 0" by auto
  have "nextSib n = headOr rs 0" using n(3) by (cases rs) (auto simp: headOr_def)
  with n show "r \<noteq> 0" "GetNextSibling r w = Some (headOr rs 0)" "CmpName r kind w = Some (named w r kind)"
    "path (nodes w) (headOr rs 0) rs 0"
    by (simp_all add: GetNextSibling_def CmpName_def)
qed

lemma recordFrom_list:
  assumes "path (nodes (world m)) p rs 0"
    and "\<forall>r \<in> set rs. named (world m) r kind \<longrightarrow> GetPropLong r ''Instance'' (world m) = Some (inst r, world m)
           \<and> GetPropStr r ''Port'' (world m) = Some (port r, world m)"
  shows "recordFrom kind i s (headOr rs 0) m = Some (headOr (matching (world m) kind rs inst port i s) 0, m)"
  using assms
proof (induction rs arbitrary: p)
  case Nil
  then show ?case by (subst recordFrom.simps) (simp add: matching_def)
next
  case (Cons r rs)
  note W = path_walk [OF Cons.prems(1)]
  have "recordFrom kind i s (headOr rs 0) m = Some (headOr (matching (world m) kind rs inst port i s) 0, m)"
    by (rule Cons.IH [OF W(4)]) (use Cons.prems(2) in simp)
  with W(1-3) Cons.prems(2) show ?case
    by (subst recordFrom.simps) (auto simp: matching_def)
qed

lemma findRecord_matching:
  assumes "records (world m) kind p rs inst port"
  shows "findRecord kind i s p m = Some (headOr (matching (world m) kind rs inst port i s) 0, m)"
proof -
  from assms obtain k where k: "p \<noteq> 0" "nodes (world m) p = Some k" "path (nodes (world m)) (props k) rs 0"
    by (auto simp: records_def proplist_def)
  then have "props k = headOr rs 0" by (cases rs) auto
  with k recordFrom_list [OF k(3)] assms show ?thesis
    by (simp add: findRecord_def GetNextProp_def records_def)
qed

subsection \<open>Making a record\<close>

text \<open>A property set on a node that has none of the name: nothing is queued, one node is used.\<close>

context typed_value begin

lemma setProp_new:
  assumes "heap_ok (world m)" and "proplist (world m) p ps" and "firstNamed (nodes (world m)) name ps = 0"
    and "unused (world m) = q # r"
  shows "\<exists>w. setProp p name type (put x) (m :: machine) = Some (m\<lparr>world := w\<rparr>) \<and> heap_ok w \<and> proplist w p (q # ps) \<and> unused w = r
    \<and> (\<exists>n. nodes w q = Some n \<and> nname n = name \<and> nvalue n = Some (stored x) \<and> props n = 0 \<and> child n = 0)
    \<and> (\<forall>a. a \<noteq> p \<and> a \<noteq> q \<longrightarrow> nodes w a = nodes (world m) a)
    \<and> (\<exists>s. nodes w p = map_option (\<lambda>k. k\<lparr>props := s\<rparr>) (nodes (world m) p))
    \<and> nheap.more w = nheap.more (world m)"
proof -
  have "p \<noteq> 0" using assms(2) by (simp add: proplist_def)
  then have "setProp p name type (put x) m = doNodes (setPropPrivate p name type (put x)) m"
    using assms(3) by (simp add: setProp_def setPropPrivate_def GetPropNode_first [OF assms(2)] doNodes_def)
  with set_new [OF assms, of x] show ?thesis by (auto simp: doNodes_def)
qed

end

lemma namedNode_ok:
  assumes "heap_ok (world m)" and "unused (world m) = r # rest"
  shows "\<exists>w. namedNode kind (m :: machine) = Some (r, m\<lparr>world := w\<rparr>) \<and> heap_ok w \<and> unused w = rest \<and> detached w r
    \<and> proplist w r [] \<and> named w r kind \<and> (\<forall>a. a \<noteq> r \<longrightarrow> nodes w a = nodes (world m) a)
    \<and> nodes (world m) r = None \<and> nheap.more w = nheap.more (world m)"
proof -
  obtain h1 where h1: "NewNode INTEGER (world m) = (r, h1)"
    using assms NewNode_ok(1) by (metis surj_pair)
  note N = NewNode_ok [OF assms h1]
  obtain n where n: "nodes h1 r = Some n" "props n = 0" "parent n = 0" "nextSib n = 0" using N(8) by simp
  show ?thesis
    using N(2,4-7,10) n
    by (intro exI [of _ "h1\<lparr>nodes := (nodes h1)(r \<mapsto> n\<lparr>nname := kind\<rparr>)\<rparr>"])
      (auto simp: namedNode_def newNode_def h1 Let_def doNodes_def SetName_def heap_ok_def detached_def proplist_def)
qed

text \<open>A record with its \<open>Instance\<close> and \<open>Port\<close>, and no properties of its own below them.\<close>

definition record_at :: "fabric \<Rightarrow> ptr \<Rightarrow> string \<Rightarrow> ptr \<Rightarrow> string \<Rightarrow> bool" where
  "record_at w r kind i s \<longleftrightarrow> named w r kind \<and> GetPropLong r ''Instance'' w = Some (i, w)
     \<and> GetPropStr r ''Port'' w = Some (Some s, w)"

lemma newRecord:
  assumes h: "heap_ok (world m)" and u: "unused (world m) = r # a # b # rest" and s: "cstr s = s"
  shows "\<exists>m1 m2 w. namedNode kind (m :: machine) = Some (r, m1) \<and> SetPropLong r ''Instance'' i m1 = Some m2
    \<and> SetPropStr r ''Port'' (Some s) m2 = Some (m\<lparr>world := w\<rparr>) \<and> heap_ok w \<and> unused w = rest \<and> detached w r
    \<and> proplist w r [b, a] \<and> record_at w r kind i s \<and> named w a ''Instance'' \<and> named w b ''Port''
    \<and> (\<forall>x. x \<noteq> r \<and> x \<noteq> a \<and> x \<noteq> b \<longrightarrow> nodes w x = nodes (world m) x)
    \<and> nodes (world m) r = None \<and> nodes (world m) a = None \<and> nodes (world m) b = None
    \<and> nheap.more w = nheap.more (world m)"
proof -
  from namedNode_ok [OF h u, of kind] obtain w1 where 1: "namedNode kind m = Some (r, m\<lparr>world := w1\<rparr>)" "heap_ok w1"
    "unused w1 = a # b # rest" "detached w1 r" "proplist w1 r []" "named w1 r kind"
    "\<forall>x. x \<noteq> r \<longrightarrow> nodes w1 x = nodes (world m) x" "nheap.more w1 = nheap.more (world m)" by blast
  from h u have d: "r \<noteq> a" "r \<noteq> b" "a \<noteq> b" "nodes (world m) r = None" "nodes (world m) a = None" "nodes (world m) b = None"
    by (auto simp: heap_ok_def)
  from long_prop.setProp_new [of "m\<lparr>world := w1\<rparr>" r "[]" "''Instance''" a "b # rest" i] 1(2,3,5)
  obtain w2 n2 s2 where 2: "SetPropLong r ''Instance'' i (m\<lparr>world := w1\<rparr>) = Some (m\<lparr>world := w2\<rparr>)" "heap_ok w2" "proplist w2 r [a]"
    "unused w2 = b # rest" "nodes w2 a = Some n2" "nname n2 = ''Instance''" "nvalue n2 = Some (stored_long i)"
    "\<forall>x. x \<noteq> r \<and> x \<noteq> a \<longrightarrow> nodes w2 x = nodes w1 x" "nodes w2 r = map_option (\<lambda>k. k\<lparr>props := s2\<rparr>) (nodes w1 r)"
    "nheap.more w2 = nheap.more w1"
    unfolding SetPropLong_def by auto
  from str_prop.setProp_new [of "m\<lparr>world := w2\<rparr>" r "[a]" "''Port''" b rest "Some s"] 2(2-6)
  obtain w3 n3 s3 where 3: "SetPropStr r ''Port'' (Some s) (m\<lparr>world := w2\<rparr>) = Some (m\<lparr>world := w3\<rparr>)" "heap_ok w3" "proplist w3 r [b, a]"
    "unused w3 = rest" "nodes w3 b = Some n3" "nname n3 = ''Port''" "nvalue n3 = Some (stored_str (Some s))"
    "\<forall>x. x \<noteq> r \<and> x \<noteq> b \<longrightarrow> nodes w3 x = nodes w2 x" "nodes w3 r = map_option (\<lambda>k. k\<lparr>props := s3\<rparr>) (nodes w2 r)"
    "nheap.more w3 = nheap.more w2"
    unfolding SetPropStr_def by auto
  have a3: "nodes w3 a = Some n2" using 2(5) 3(8) d by simp
  have "b \<noteq> 0" "a \<noteq> 0" using h u by (auto simp: heap_ok_def)
  then have "GetPropLong r ''Instance'' w3 = Some (i, w3)" "GetPropStr r ''Port'' w3 = Some (Some s, w3)"
    using prop_long [OF 3(3) _ _ a3] prop_str [OF 3(3) _ _ 3(5)] a3 2(6,7) 3(5-7) s by simp_all
  moreover have "named w3 r kind" "detached w3 r" using 1(4,6) 2(9) 3(9) by (auto simp: detached_def)
  moreover have "\<forall>x. x \<noteq> r \<and> x \<noteq> a \<and> x \<noteq> b \<longrightarrow> nodes w3 x = nodes (world m) x" using 1(7) 2(8) 3(8) by simp
  ultimately show ?thesis
    using 1(1,8) 2(1,10) 3(1-6,10) d a3 2(6) unfolding record_at_def
    by (intro exI [of _ "m\<lparr>world := w1\<rparr>"] exI [of _ "m\<lparr>world := w2\<rparr>"] exI [of _ w3]) simp
qed

subsection \<open>What reading needs\<close>

text \<open>From \<open>w\<close> to \<open>w'\<close> nothing is lost: nodes may be new, and those of \<open>X\<close> may have other properties.\<close>

definition grows :: "ptr set \<Rightarrow> fabric \<Rightarrow> fabric \<Rightarrow> bool" where
  "grows X w w' \<longleftrightarrow> (\<forall>a n. nodes w a = Some n \<longrightarrow> (\<exists>n'. nodes w' a = Some n' \<and> nname n' = nname n
     \<and> nvalue n' = nvalue n \<and> nextSib n' = nextSib n \<and> (a \<notin> X \<longrightarrow> props n' = props n)))"

lemma growsD:
  assumes "grows X w w'" and "nodes w a = Some n"
  obtains n' where "nodes w' a = Some n'" "nname n' = nname n" "nvalue n' = nvalue n" "nextSib n' = nextSib n"
    "a \<notin> X \<Longrightarrow> props n' = props n"
  using assms by (auto simp: grows_def)

lemma grows_trans:
  assumes "grows X w w'" and "grows Y w' w''"
  shows "grows (X \<union> Y) w w''"
  unfolding grows_def
proof (intro allI impI)
  fix a n assume "nodes w a = Some n"
  then obtain n' where 1: "nodes w' a = Some n'" "nname n' = nname n" "nvalue n' = nvalue n" "nextSib n' = nextSib n"
    "a \<notin> X \<Longrightarrow> props n' = props n" using assms(1) by (auto elim: growsD)
  from assms(2) 1(1) obtain n'' where 2: "nodes w'' a = Some n''" "nname n'' = nname n'" "nvalue n'' = nvalue n'"
    "nextSib n'' = nextSib n'" "a \<notin> Y \<Longrightarrow> props n'' = props n'" by (auto elim: growsD)
  show "\<exists>n'. nodes w'' a = Some n' \<and> nname n' = nname n \<and> nvalue n' = nvalue n \<and> nextSib n' = nextSib n
      \<and> (a \<notin> X \<union> Y \<longrightarrow> props n' = props n)"
    using 1 2 by auto
qed

lemma grows_fresh: "(\<And>a. nodes w a \<noteq> None \<Longrightarrow> nodes w' a = nodes w a) \<Longrightarrow> grows X w w'"
  by (auto simp: grows_def)

lemma findNamed_grows: "grows X w w' \<Longrightarrow> findNamed p name w = Some q \<Longrightarrow> findNamed p name w' = Some q"
proof (rule findNamed.raw_induct [where P = "\<lambda>p name w q. grows X w w' \<longrightarrow> findNamed p name w' = Some q", rule_format, rotated])
  show "findNamed p name w = Some q \<Longrightarrow> findNamed p name w = Some q" .
next
  fix F :: "ptr \<Rightarrow> string \<Rightarrow> fabric \<Rightarrow> ptr option" and p name w q
  assume ih: "\<And>p name w q. F p name w = Some q \<Longrightarrow> grows X w w' \<Longrightarrow> findNamed p name w' = Some q"
    and g: "grows X w w'"
    and b: "(if p = 0 then Some 0 else CmpName p name w \<bind> (\<lambda>same. if same then Some p
        else GetNextSibling p w \<bind> (\<lambda>nxt. F nxt name w))) = Some q"
  show "findNamed p name w' = Some q"
  proof (cases "p = 0")
    case True
    with b show ?thesis by (subst findNamed.simps) simp
  next
    case False
    with b obtain n where n: "nodes w p = Some n" by (auto simp: CmpName_def split: bind_splits)
    from g n obtain n' where "nodes w' p = Some n'" "nname n' = nname n" "nextSib n' = nextSib n" by (rule growsD)
    with b n False ih [OF _ g, of "nextSib n" name q] show ?thesis
      by (subst findNamed.simps) (auto simp: CmpName_def GetNextSibling_def split: if_splits)
  qed
qed

lemma GetPropNode_grows:
  assumes "grows X w w'" and "r \<notin> X"
  shows "GetPropNode r name w = Some q \<Longrightarrow> GetPropNode r name w' = Some q"
  using assms(2) findNamed_grows [OF assms(1)]
  by (auto simp: GetPropNode_def split: bind_splits if_splits elim!: growsD [OF assms(1)])

lemma readValue_same:
  assumes "readValue get q (w :: fabric) = Some (v, w)" and "nodes w q = Some n" and "nodes w' q = Some n'" and "nvalue n' = nvalue n"
  shows "readValue get q w' = Some (v, w')"
proof -
  from assms(1,2) obtain d where d: "get (nvalue n) = Some (d, v)" "w\<lparr>nodes := (nodes w)(q \<mapsto> n\<lparr>nvalue := d\<rparr>)\<rparr> = w"
    by (auto simp: readValue_def split: bind_splits)
  then have "nodes (w\<lparr>nodes := (nodes w)(q \<mapsto> n\<lparr>nvalue := d\<rparr>)\<rparr>) q = nodes w q" by simp
  then have "d = nvalue n" using assms(2) by (cases n) simp
  with d(1) assms(3,4) have "get (nvalue n') = Some (nvalue n', v)" "n'\<lparr>nvalue := d\<rparr> = n'" by simp_all
  then show ?thesis using assms(3,4) by (simp add: readValue_def map_upd_triv)
qed

lemma GetValue_same:
  assumes "nodes (w :: fabric) q = Some n" and "nodes w' q = Some n'" and "nvalue n' = nvalue n"
  shows "GetValueLong q w = Some (l, w) \<Longrightarrow> GetValueLong q w' = Some (l, w')"
    and "GetValueStr q w = Some (s, w) \<Longrightarrow> GetValueStr q w' = Some (s, w')"
  by (auto simp: GetValueLong_def GetValueStr_def intro: readValue_same [OF _ assms] split: if_splits)

lemma GetProp_grows:
  assumes "grows X w w'" and "r \<notin> X"
  shows "GetPropLong r name w = Some (l, w) \<Longrightarrow> GetPropLong r name w' = Some (l, w')"
    and "GetPropStr r name w = Some (s, w) \<Longrightarrow> GetPropStr r name w' = Some (s, w')"
proof -
  have long: "GetValueLong q w' = Some (l, w')" if "GetValueLong q w = Some (l, w)" for q
  proof (cases "q = 0")
    case True
    with that show ?thesis by (simp add: GetValueLong_def)
  next
    case False
    with that obtain n where n: "nodes w q = Some n" by (auto simp: GetValueLong_def readValue_def split: bind_splits)
    from assms(1) n obtain n' where "nodes w' q = Some n'" "nvalue n' = nvalue n" by (rule growsD)
    from GetValue_same(1) [OF n this that] show ?thesis .
  qed
  have str: "GetValueStr q w' = Some (s, w')" if "GetValueStr q w = Some (s, w)" for q
  proof (cases "q = 0")
    case True
    with that show ?thesis by (simp add: GetValueStr_def)
  next
    case False
    with that obtain n where n: "nodes w q = Some n" by (auto simp: GetValueStr_def readValue_def split: bind_splits)
    from assms(1) n obtain n' where "nodes w' q = Some n'" "nvalue n' = nvalue n" by (rule growsD)
    from GetValue_same(2) [OF n this that] show ?thesis .
  qed
  show "GetPropLong r name w' = Some (l, w')" if a: "GetPropLong r name w = Some (l, w)"
  proof -
    from a obtain q where q: "GetPropNode r name w = Some q" by (auto simp: GetPropLong_def split: bind_splits)
    with a long [of q] show ?thesis by (auto simp: GetPropLong_def GetPropNode_grows [OF assms q])
  qed
  show "GetPropStr r name w' = Some (s, w')" if a: "GetPropStr r name w = Some (s, w)"
  proof -
    from a obtain q where q: "GetPropNode r name w = Some q" by (auto simp: GetPropStr_def split: bind_splits)
    with a str [of q] show ?thesis by (auto simp: GetPropStr_def GetPropNode_grows [OF assms q])
  qed
qed

lemma grows_same:
  "grows X w w' \<Longrightarrow> nodes w r \<noteq> None \<Longrightarrow> named w' r = named w r \<and> map_option nextSib (nodes w' r) = map_option nextSib (nodes w r)"
  by (auto simp: fun_eq_iff elim!: growsD)

lemma proplist_grows:
  assumes "proplist w p rs" and "grows X w w'" and "p \<notin> X"
  shows "proplist w' p rs"
proof -
  from assms(1) obtain n where n: "p \<noteq> 0" "p \<notin> set rs" "nodes w p = Some n" "path (nodes w) (props n) rs 0"
    by (auto simp: proplist_def)
  from assms(2,3) n(3) obtain n' where "nodes w' p = Some n'" "props n' = props n" by (auto elim: growsD)
  moreover have "path (nodes w') (props n) rs 0"
    by (rule path_frame [OF n(4)]) (use grows_same [OF assms(2)] path_alive [OF n(4)] in blast)
  ultimately show ?thesis using n(1,2) by (simp add: proplist_def)
qed

lemma records_grows:
  assumes "records w kind p rs inst port" and "grows X w w'" and "p \<notin> X" and "X \<inter> set rs = {}"
  shows "records w' kind p rs inst port" and "matching w' kind rs inst port i s = matching w kind rs inst port i s"
proof -
  have "proplist w p rs" using assms(1) by (simp add: records_def)
  then have live: "\<forall>r \<in> set rs. nodes w r \<noteq> None" by (auto simp: proplist_def dest: path_alive)
  have same: "named w' r = named w r" if "r \<in> set rs" for r using grows_same [OF assms(2)] live that by blast
  have "r \<notin> X" if "r \<in> set rs" for r using that assms(4) by blast
  then show "records w' kind p rs inst port"
    using assms(1) same GetProp_grows [OF assms(2)] proplist_grows [OF _ assms(2,3)] by (simp add: records_def fun_eq_iff)
  show "matching w' kind rs inst port i s = matching w kind rs inst port i s"
    using same by (auto simp: matching_def fun_eq_iff intro!: filter_cong)
qed

lemma reads_kept:
  assumes "proplist w r qs" and "\<forall>x \<in> set qs. nodes w' x = nodes w x" and "GetPropNode r name w' = GetPropNode r name (w :: fabric)"
  shows "GetPropLong r name w = Some (l, w) \<Longrightarrow> GetPropLong r name w' = Some (l, w')"
    and "GetPropStr r name w = Some (s, w) \<Longrightarrow> GetPropStr r name w' = Some (s, w')"
proof -
  have val: "\<exists>n. nodes w a = Some n \<and> nodes w' a = Some n" if "GetPropNode r name w = Some a" "a \<noteq> 0" for a
  proof -
    from that have "a \<in> set qs" using firstNamed_in [of "nodes w" name qs] by (simp add: GetPropNode_first [OF assms(1)])
    with assms(1,2) show ?thesis by (auto simp: proplist_def dest: path_alive)
  qed
  show "GetPropLong r name w = Some (l, w) \<Longrightarrow> GetPropLong r name w' = Some (l, w')"
    using val GetValue_same(1) [of w _ _ w'] by (auto simp: GetPropLong_def assms(3) split: bind_splits if_splits)
  show "GetPropStr r name w = Some (s, w) \<Longrightarrow> GetPropStr r name w' = Some (s, w')"
    using val GetValue_same(2) [of w _ _ w'] by (auto simp: GetPropStr_def assms(3) split: bind_splits if_splits)
qed

text \<open>A finished record put under its port reads as before.\<close>

lemma attach:
  assumes p: "proplist w p ps" and r: "detached w r" "r \<noteq> p" "r \<notin> set ps" and q: "proplist w r qs" "p \<notin> set qs"
    and h: "heap_ok (w :: fabric)"
  shows "\<exists>w'. AddProp p r w = Some w' \<and> heap_ok w' \<and> unused w' = unused w \<and> proplist w' p (r # ps)
    \<and> named w' r = named w r
    \<and> (\<forall>name l. GetPropLong r name w = Some (l, w) \<longrightarrow> GetPropLong r name w' = Some (l, w'))
    \<and> (\<forall>name s. GetPropStr r name w = Some (s, w) \<longrightarrow> GetPropStr r name w' = Some (s, w'))
    \<and> (\<forall>a. a \<noteq> p \<and> a \<noteq> r \<longrightarrow> nodes w' a = nodes w a)
    \<and> (\<exists>s. nodes w' p = map_option (\<lambda>k. k\<lparr>props := s\<rparr>) (nodes w p)) \<and> nheap.more w' = nheap.more w"
proof -
  from AddProp_proplist [OF p r] obtain w' x y where w': "AddProp p r w = Some w'" "relinked {p, r} w w'" "proplist w' p (r # ps)"
    "nodes w' r = map_option (\<lambda>k. k\<lparr>nextSib := x\<rparr>) (nodes w r)"
    "nodes w' p = map_option (\<lambda>k. k\<lparr>props := y\<rparr>) (nodes w p)" by auto
  note R = relinkedD [OF w'(2)]
  have rq: "r \<notin> set qs" "r \<noteq> 0" using q(1) by (auto simp: proplist_def)
  have qs: "nodes w' a = nodes w a" if "a \<in> set qs" for a
    by (rule R(1)) (use that rq(1) q(2) in auto)
  then have q': "proplist w' r qs" using q(1) w'(4) rq by (auto simp: proplist_def elim!: path_frame)
  have pn: "GetPropNode r name w' = GetPropNode r name w" for name
    using firstNamed_cong [of qs "nodes w'" "nodes w" name] qs
    by (simp add: GetPropNode_first [OF q'] GetPropNode_first [OF q(1)])
  have qw: "\<forall>x \<in> set qs. nodes w' x = nodes w x" using qs by blast
  note K = reads_kept [OF q(1) qw pn]
  have "heap_ok w'"
  proof -
    have "nodes w' a = None \<longleftrightarrow> nodes w a = None" for a by (metis R(2) option.map_disc_iff)
    with h R(3) show ?thesis by (simp add: heap_ok_def)
  qed
  moreover have "named w' r = named w r" using w'(4) by (cases "nodes w r") auto
  ultimately show ?thesis using w' R K by auto
qed

subsection \<open>A new wire\<close>

lemma grows_attached:
  assumes "\<forall>a. a \<noteq> p \<and> a \<noteq> r \<longrightarrow> nodes w' a = nodes v a" and "nodes w' p = map_option (\<lambda>k. k\<lparr>props := s\<rparr>) (nodes v p)"
    and "\<And>a. nodes w a \<noteq> None \<Longrightarrow> nodes v a = nodes w a" and "nodes w r = None"
  shows "grows {p} w w'"
  unfolding grows_def
proof (intro allI impI)
  fix a n assume n: "nodes w a = Some n"
  then have v: "nodes v a = Some n" "a \<noteq> r" using assms(3,4) by auto
  show "\<exists>n'. nodes w' a = Some n' \<and> nname n' = nname n \<and> nvalue n' = nvalue n \<and> nextSib n' = nextSib n
      \<and> (a \<notin> {p} \<longrightarrow> props n' = props n)"
    using v assms(1,2) by (cases "a = p") auto
qed

lemma AddSubscriptionBack_wires:
  assumes h: "heap_ok (world m)" and u: "unused (world m) = r # a # b # rest"
    and f: "named (world m) fromPort out" "cstr out = out" and nz: "fromOwner \<noteq> 0"
    and rs: "records (world m) ''Subscription'' toPort rs inst port"
    and new: "matching (world m) ''Subscription'' rs inst port fromOwner out = []"
  shows "\<exists>w. AddSubscriptionBack toPort fromOwner fromPort m = Some (m\<lparr>world := w\<rparr>) \<and> heap_ok w \<and> unused w = rest
    \<and> proplist w toPort (r # rs) \<and> record_at w r ''Subscription'' fromOwner out \<and> grows {toPort} (world m) w
    \<and> nheap.more w = nheap.more (world m)"
proof -
  have p: "fromPort \<noteq> 0" "toPort \<noteq> 0" "proplist (world m) toPort rs"
    using h f rs by (auto simp: heap_ok_def records_def proplist_def)
  have found: "findRecord ''Subscription'' fromOwner out toPort m = Some (0, m)"
    by (simp add: findRecord_matching [OF rs] new)
  from newRecord [OF h u f(2), of "''Subscription''" fromOwner] obtain m1 m2 w where
    1: "namedNode ''Subscription'' m = Some (r, m1)" "SetPropLong r ''Instance'' fromOwner m1 = Some m2"
    "SetPropStr r ''Port'' (Some out) m2 = Some (m\<lparr>world := w\<rparr>)" "heap_ok w" "unused w = rest" "detached w r"
    "proplist w r [b, a]" "record_at w r ''Subscription'' fromOwner out"
    "\<forall>x. x \<noteq> r \<and> x \<noteq> a \<and> x \<noteq> b \<longrightarrow> nodes w x = nodes (world m) x"
    "nodes (world m) r = None" "nodes (world m) a = None" "nodes (world m) b = None"
    "nheap.more w = nheap.more (world m)" by blast
  have old: "nodes w x = nodes (world m) x" if "nodes (world m) x \<noteq> None" for x
    using that 1(9-12) by (cases "x = r \<or> x = a \<or> x = b") auto
  have live: "\<forall>x \<in> insert toPort (set rs). nodes (world m) x \<noteq> None"
    using p(3) by (auto simp: proplist_def dest: path_alive)
  have pl: "proplist w toPort rs" using p(3) old live by (auto simp: proplist_def elim!: path_frame)
  have ne: "r \<noteq> toPort" "r \<notin> set rs" "toPort \<notin> set [b, a]" using live 1(10-12) by auto
  from attach [OF pl 1(6) ne(1,2) 1(7) ne(3) 1(4)] obtain w' s where
    2: "AddProp toPort r w = Some w'" "heap_ok w'" "unused w' = unused w" "proplist w' toPort (r # rs)" "named w' r = named w r"
    "\<forall>name l. GetPropLong r name w = Some (l, w) \<longrightarrow> GetPropLong r name w' = Some (l, w')"
    "\<forall>name s. GetPropStr r name w = Some (s, w) \<longrightarrow> GetPropStr r name w' = Some (s, w')"
    "\<forall>a. a \<noteq> toPort \<and> a \<noteq> r \<longrightarrow> nodes w' a = nodes w a" "nodes w' toPort = map_option (\<lambda>k. k\<lparr>props := s\<rparr>) (nodes w toPort)"
    "nheap.more w' = nheap.more w" by blast
  have "record_at w' r ''Subscription'' fromOwner out"
    using 1(8) 2(6,7) fun_cong [OF 2(5), of "''Subscription''"] by (simp add: record_at_def)
  moreover have "grows {toPort} (world m) w'" by (rule grows_attached [OF 2(8,9) old 1(10)])
  moreover have "AddSubscriptionBack toPort fromOwner fromPort m = Some (m\<lparr>world := w'\<rparr>)"
    using p f(1) nz 1(1-3) 2(1) found by (auto simp: AddSubscriptionBack_def GetNameStr_def doNodes_def)
  ultimately show ?thesis using 1(5,13) 2(2-4,10) by auto
qed

lemma newSubscriber:
  assumes h: "heap_ok (world m)" and u: "unused (world m) = r # a # b # c # rest" and s: "cstr s = s"
  shows "\<exists>m1 m2 m3 w. namedNode kind (m :: machine) = Some (r, m1) \<and> SetPropLong r ''Instance'' i m1 = Some m2
    \<and> SetPropStr r ''Port'' (Some s) m2 = Some m3 \<and> SetPropLong r ''Callback'' handler m3 = Some (m\<lparr>world := w\<rparr>)
    \<and> heap_ok w \<and> unused w = rest \<and> detached w r \<and> proplist w r [c, b, a] \<and> record_at w r kind i s
    \<and> GetPropLong r ''Callback'' w = Some (handler, w)
    \<and> (\<forall>x. x \<notin> {r, a, b, c} \<longrightarrow> nodes w x = nodes (world m) x) \<and> (\<forall>x \<in> {r, a, b, c}. nodes (world m) x = None)
    \<and> nheap.more w = nheap.more (world m)"
proof -
  from h u have fresh: "r \<noteq> a" "r \<noteq> b" "r \<noteq> c" "a \<noteq> c" "b \<noteq> c" "c \<noteq> 0" "nodes (world m) c = None"
    by (auto simp: heap_ok_def)
  from newRecord [OF h u s, of kind i] obtain m1 m2 w1 where
    1: "namedNode kind m = Some (r, m1)" "SetPropLong r ''Instance'' i m1 = Some m2"
    "SetPropStr r ''Port'' (Some s) m2 = Some (m\<lparr>world := w1\<rparr>)" "heap_ok w1" "unused w1 = c # rest" "detached w1 r"
    "proplist w1 r [b, a]" "record_at w1 r kind i s" "named w1 a ''Instance''" "named w1 b ''Port''"
    "\<forall>x. x \<noteq> r \<and> x \<noteq> a \<and> x \<noteq> b \<longrightarrow> nodes w1 x = nodes (world m) x" "nodes (world m) r = None"
    "nodes (world m) a = None" "nodes (world m) b = None" "nheap.more w1 = nheap.more (world m)" by blast
  from long_prop.setProp_new [of "m\<lparr>world := w1\<rparr>" r "[b, a]" "''Callback''" c rest handler] 1(4,5,7,9,10)
  obtain w2 n2 s2 where 2: "SetPropLong r ''Callback'' handler (m\<lparr>world := w1\<rparr>) = Some (m\<lparr>world := w2\<rparr>)" "heap_ok w2"
    "proplist w2 r [c, b, a]" "unused w2 = rest" "nodes w2 c = Some n2" "nname n2 = ''Callback''"
    "nvalue n2 = Some (stored_long handler)" "\<forall>x. x \<noteq> r \<and> x \<noteq> c \<longrightarrow> nodes w2 x = nodes w1 x"
    "nodes w2 r = map_option (\<lambda>k. k\<lparr>props := s2\<rparr>) (nodes w1 r)" "nheap.more w2 = nheap.more w1"
    unfolding SetPropLong_def by auto
  have keep: "\<forall>x \<in> set [b, a]. nodes w2 x = nodes w1 x" using 2(8) fresh by auto
  have "GetPropNode r k w2 = GetPropNode r k w1" if "k \<noteq> ''Callback''" for k
  proof -
    have "firstNamed (nodes w2) k [b, a] = firstNamed (nodes w1) k [b, a]" by (rule firstNamed_cong) (simp add: keep)
    moreover have "firstNamed (nodes w2) k [c, b, a] = firstNamed (nodes w2) k [b, a]"
      using 2(5,6) that by (simp add: firstNamed_simps(2) [of _ _ c])
    ultimately show ?thesis by (simp only: GetPropNode_first [OF 2(3)] GetPropNode_first [OF 1(7)])
  qed
  note K = reads_kept [OF 1(7) keep this]
  have "record_at w2 r kind i s" using 1(8) 2(9) K [of "''Instance''"] K [of "''Port''"] by (auto simp: record_at_def)
  moreover have "GetPropLong r ''Callback'' w2 = Some (handler, w2)"
    using prop_long [OF 2(3) _ _ 2(5,7)] 2(5,6) fresh by simp
  moreover have "detached w2 r" using 1(6) 2(9) by (auto simp: detached_def)
  moreover have "\<forall>x. x \<notin> {r, a, b, c} \<longrightarrow> nodes w2 x = nodes (world m) x" using 1(11) 2(8) by simp
  moreover have "\<forall>x \<in> {r, a, b, c}. nodes (world m) x = None" using 1(12-14) fresh(7) by simp
  moreover have "nheap.more w2 = nheap.more (world m)" using 1(15) 2(10) by simp
  ultimately show ?thesis
    using 1(1-3) 2(1-4)
    by - (rule exI [of _ m1], rule exI [of _ m2], rule exI [of _ "m\<lparr>world := w1\<rparr>"], rule exI [of _ w2], intro conjI)
qed

lemma AddSubscription_first_half:
  assumes h: "heap_ok (world m)" and u: "unused (world m) = r # a # b # c # rest"
    and nm: "named (world m) toPort s" "cstr s = s" and nz: "toNode \<noteq> 0"
    and rs: "records (world m) ''Subscriber'' fromPort rs inst port"
    and new: "matching (world m) ''Subscriber'' rs inst port toNode s = []"
  shows "\<exists>w. AddSubscription fromOwner fromPort toNode toPort handler m = AddSubscriptionBack toPort fromOwner fromPort (m\<lparr>world := w\<rparr>)
    \<and> heap_ok w \<and> unused w = rest \<and> proplist w fromPort (r # rs) \<and> record_at w r ''Subscriber'' toNode s
    \<and> GetPropLong r ''Callback'' w = Some (handler, w) \<and> grows {fromPort} (world m) w
    \<and> nodes (world m) r = None \<and> nheap.more w = nheap.more (world m)"
proof -
  have z: "fromPort \<noteq> 0" "toPort \<noteq> 0" "proplist (world m) fromPort rs"
    using h nm rs by (auto simp: heap_ok_def records_def proplist_def)
  have found: "findRecord ''Subscriber'' toNode s fromPort m = Some (0, m)"
    by (simp add: findRecord_matching [OF rs] new)
  from newSubscriber [OF h u nm(2), of "''Subscriber''" toNode handler] obtain m1 m2 m3 w where
    1: "namedNode ''Subscriber'' m = Some (r, m1)" "SetPropLong r ''Instance'' toNode m1 = Some m2"
    "SetPropStr r ''Port'' (Some s) m2 = Some m3" "SetPropLong r ''Callback'' handler m3 = Some (m\<lparr>world := w\<rparr>)" "heap_ok w"
    "unused w = rest" "detached w r" "proplist w r [c, b, a]" "record_at w r ''Subscriber'' toNode s"
    "GetPropLong r ''Callback'' w = Some (handler, w)" "\<forall>x. x \<notin> {r, a, b, c} \<longrightarrow> nodes w x = nodes (world m) x"
    "\<forall>x \<in> {r, a, b, c}. nodes (world m) x = None" "nheap.more w = nheap.more (world m)" by blast
  have old: "nodes w x = nodes (world m) x" if "nodes (world m) x \<noteq> None" for x
    using that 1(11,12) by (cases "x \<in> {r, a, b, c}") auto
  have live: "\<forall>x \<in> insert fromPort (set rs). nodes (world m) x \<noteq> None"
    using z(3) by (auto simp: proplist_def dest: path_alive)
  have pl: "proplist w fromPort rs" using z(3) old live by (auto simp: proplist_def elim!: path_frame)
  have ne: "r \<noteq> fromPort" "r \<notin> set rs" "fromPort \<notin> set [c, b, a]" using live 1(12) by auto
  from attach [OF pl 1(7) ne(1,2) 1(8) ne(3) 1(5)] obtain w' x where
    2: "AddProp fromPort r w = Some w'" "heap_ok w'" "unused w' = unused w" "proplist w' fromPort (r # rs)" "named w' r = named w r"
    "\<forall>name l. GetPropLong r name w = Some (l, w) \<longrightarrow> GetPropLong r name w' = Some (l, w')"
    "\<forall>name s. GetPropStr r name w = Some (s, w) \<longrightarrow> GetPropStr r name w' = Some (s, w')"
    "\<forall>a. a \<noteq> fromPort \<and> a \<noteq> r \<longrightarrow> nodes w' a = nodes w a" "nodes w' fromPort = map_option (\<lambda>k. k\<lparr>props := x\<rparr>) (nodes w fromPort)"
    "nheap.more w' = nheap.more w" by blast
  have r0: "nodes (world m) r = None" using 1(12) by simp
  have "record_at w' r ''Subscriber'' toNode s"
    using 1(9) 2(6,7) fun_cong [OF 2(5), of "''Subscriber''"] by (simp add: record_at_def)
  moreover have "grows {fromPort} (world m) w'" by (rule grows_attached [OF 2(8,9) old r0])
  moreover have "AddSubscription fromOwner fromPort toNode toPort handler m = AddSubscriptionBack toPort fromOwner fromPort (m\<lparr>world := w'\<rparr>)"
    using z nm(1) nz 1(1-4) 2(1) found by (auto simp: AddSubscription_def GetNameStr_def doNodes_def)
  ultimately show ?thesis using 1(6,10,13) 2(2-4,6,10) r0 by auto
qed


text \<open>Connecting the same two ports again makes no second record: only the handler of the first one is
  refreshed, and nothing happens at all when the sink has none.\<close>

theorem AddSubscription_again:
  assumes "records (world m) ''Subscriber'' fromPort rs inst port" and "named (world m) toPort inn" and "toNode \<noteq> 0"
    and "toPort \<noteq> 0" and "matching (world m) ''Subscriber'' rs inst port toNode inn = r # rest"
  shows "AddSubscription fromOwner fromPort toNode toPort handler m
    = (if handler = 0 then Some m else SetPropLong r ''Callback'' handler m)"
proof -
  have "r \<in> set rs" using assms(5) by (auto simp: matching_def filter_eq_Cons_iff)
  with assms(1) have "r \<noteq> 0" "fromPort \<noteq> 0" by (auto simp: records_def proplist_def dest: path_alive)
  moreover have "findRecord ''Subscriber'' toNode inn fromPort m = Some (r, m)"
    by (simp add: findRecord_matching [OF assms(1)] assms(5))
  ultimately show ?thesis using assms(2-4) by (auto simp: AddSubscription_def GetNameStr_def)
qed

subsection \<open>Dropping a record\<close>

lemma RemoveProp_keeps:
  assumes "RemoveProp own r h = Some h'" and "r \<noteq> own" and "own \<noteq> 0" and "r \<noteq> 0" and "nodes h r = Some n"
  shows "nodes h' r = Some (n\<lparr>nextSib := 0\<rparr>)"
  using assms by (auto simp: RemoveProp_def setN_eq_Some split: bind_splits if_splits)

text \<open>Dropping a record takes exactly it out of its port's list and frees it with everything below it;
  no node outside the list changes.\<close>

theorem dropRecord_removes:
  assumes p: "proplist (world m) p rs" and r: "r \<in> set rs"
    and n: "nodes (world m) r = Some n" "child n = 0" "parent n = 0"
    and f: "forest (nodes (world m)) (props n) 0 ts" "distinct (addrs ts)" "set (addrs ts) \<inter> insert p (set rs) = {}"
  shows "\<exists>w. dropRecord p r m = Some (m\<lparr>world := w\<rparr>) \<and> proplist w p (remove1 r rs)
    \<and> (\<forall>a \<in> insert r (set (addrs ts)). nodes w a = None)
    \<and> (\<forall>a. a \<notin> insert p (set rs) \<union> set (addrs ts) \<longrightarrow> nodes w a = nodes (world m) a)
    \<and> nodesAlive w = nodesAlive (world m) - 1 - int (length (addrs ts))"
proof -
  from RemoveProp_proplist [OF p r] obtain h where h: "RemoveProp p r (world m) = Some h"
    "relinked (insert p (set rs)) (world m) h" "proplist h p (remove1 r rs)" "map_option nextSib (nodes h r) = Some 0"
    by blast
  note R = relinkedD [OF h(2)]
  have pr: "p \<noteq> 0" "p \<notin> set rs" using p by (auto simp: proplist_def)
  have d: "distinct rs" using p path_distinct by (auto simp: proplist_def)
  have "r \<noteq> 0" "r \<noteq> p" using p r by (auto simp: proplist_def dest: path_alive)
  then obtain k where k: "nodes h r = Some k" "nextSib k = 0" "props k = props n" "child k = 0" "parent k = 0"
    using RemoveProp_keeps [OF h(1) _ pr(1) _ n(1)] n(2,3) by auto
  have fh: "forest (nodes h) (props n) 0 ts"
  proof (rule forest_frame [OF f(1)])
    fix a assume "a \<in> set (addrs ts)"
    with f(3) show "nodes h a = nodes (world m) a" by (intro R(1)) auto
  qed
  let ?t = "[Tree r (nname k) (nvalue k) ts []]"
  have "forest (nodes h) r 0 ?t" using k fh \<open>r \<noteq> 0\<close> by simp
  moreover have "distinct (addrs ?t)" using f(2,3) r by auto
  ultimately have D: "DelNode r h = Some (freed ?t h)" by (rule DelNode_frees) simp
  have "proplist (freed ?t h) p (remove1 r rs)"
  proof -
    have "a \<noteq> r \<and> a \<notin> set (addrs ts)" if "a \<in> insert p (set (remove1 r rs))" for a
      using that f(3) pr r d by (auto dest: notin_set_remove1)
    then show ?thesis using h(3) by (auto simp: proplist_def elim!: path_frame)
  qed
  moreover have "nodes (freed ?t h) a = nodes (world m) a" if "a \<notin> insert p (set rs) \<union> set (addrs ts)" for a
    using that R(1) [of a] r by (auto simp: restrict_map_def)
  ultimately show ?thesis
    using h(1) D R(4) by (intro exI [of _ "freed ?t h"]) (auto simp: dropRecord_def doNodes_def)
qed

subsection \<open>Deleting an instance that is wired to itself\<close>

text \<open>Freed nodes stay freed: nothing on the way allocates.\<close>

abbreviation dead :: "ptr \<Rightarrow> machine \<Rightarrow> bool" where
  "dead a m \<equiv> nodes (world m) a = None"

lemma setN_dead: "setN p f h = Some h' \<Longrightarrow> nodes h a = None \<Longrightarrow> nodes h' a = None"
  by (auto simp: setN_eq_Some)

lemma unparent_dead: "unparent p h = Some h' \<Longrightarrow> nodes h a = None \<Longrightarrow> nodes h' a = None"
  by (auto simp: unparent_def dest: setN_dead split: bind_splits if_splits)

lemma DelNode_dead: "DelNode p h = Some h' \<Longrightarrow> nodes h a = None \<longrightarrow> nodes h' a = None"
proof (rule DelNode.raw_induct [where P = "\<lambda>p h h'. nodes h a = None \<longrightarrow> nodes h' a = None", rotated])
  fix D :: "ptr \<Rightarrow> 'a nheap_scheme \<Rightarrow> 'a nheap_scheme option" and p h h'
  assume ih: "\<And>p h y. D p h = Some y \<Longrightarrow> nodes h a = None \<longrightarrow> nodes y a = None"
  assume "(if p = 0 then Some h else do {
     n1 \<leftarrow> nodes h p;
     h1 \<leftarrow> D (nextSib n1) h;
     h2 \<leftarrow> setN p (\<lambda>n. n\<lparr>nextSib := 0\<rparr>) h1;
     n2 \<leftarrow> nodes h2 p;
     h3 \<leftarrow> D (props n2) h2;
     h4 \<leftarrow> setN p (\<lambda>n. n\<lparr>props := 0\<rparr>) h3;
     n4 \<leftarrow> nodes h4 p;
     h5 \<leftarrow> D (child n4) h4;
     h6 \<leftarrow> setN p (\<lambda>n. n\<lparr>child := 0\<rparr>) h5;
     h7 \<leftarrow> unparent p h6;
     n7 \<leftarrow> nodes h7 p;
     Some (h7\<lparr>nodes := (nodes h7)(p := None), nodesAlive := nodesAlive h7 - 1,
              datasAlive := DelData (datasAlive h7 - 1) (nvalue n7)\<rparr>) }) = Some h'"
  then show "nodes h a = None \<longrightarrow> nodes h' a = None"
    by (auto split: if_splits bind_splits dest!: ih dest: setN_dead unparent_dead)
qed

lemma DelNode_kills: "DelNode p h = Some h' \<Longrightarrow> p \<noteq> 0 \<Longrightarrow> nodes h' p = None"
  by (subst (asm) DelNode.simps) (auto split: bind_splits)

lemma RemoveProp_dead: "RemoveProp own r h = Some h' \<Longrightarrow> nodes h a = None \<Longrightarrow> nodes h' a = None"
  by (auto simp: RemoveProp_def setN_eq_Some split: bind_splits if_splits)

lemma dropRecord_dead: "dropRecord own r m = Some m' \<Longrightarrow> dead a m \<Longrightarrow> dead a m'"
  using DelNode_dead by (fastforce simp: dropRecord_def doNodes_def dest: RemoveProp_dead split: bind_splits option.splits)

lemma dropRecord_kills: "dropRecord own r m = Some m' \<Longrightarrow> r \<noteq> 0 \<Longrightarrow> dead r m'"
  by (auto simp: dropRecord_def doNodes_def dest: DelNode_kills split: bind_splits option.splits)

lemma readValue_dead: "readValue get q h = Some (v, h') \<Longrightarrow> nodes h a = None \<Longrightarrow> nodes h' a = None"
  by (auto simp: readValue_def split: bind_splits)

lemma GetPropLong_dead: "onNodes (GetPropLong r name) m = Some (v, m') \<Longrightarrow> dead a m \<Longrightarrow> dead a m'"
  by (auto simp: onNodes_def GetPropLong_def GetValueLong_def dest: readValue_dead split: bind_splits option.splits if_splits)

lemma dropFrom_dead: "dropFrom kind self port r m = Some y \<Longrightarrow> dead a m \<longrightarrow> dead a (snd y)"
proof (rule dropFrom.raw_induct [where P = "\<lambda>kind self port r m y. dead a m \<longrightarrow> dead a (snd y)", rotated])
  fix D :: "string \<Rightarrow> ptr \<Rightarrow> ptr \<Rightarrow> ptr \<Rightarrow> machine \<Rightarrow> (nat \<times> machine) option" and kind self port rec m y
  assume ih: "\<And>kind self port rec m y. D kind self port rec m = Some y \<Longrightarrow> dead a m \<longrightarrow> dead a (snd y)"
  assume "(if rec = 0 then Some (0, m) else do {
     nxt \<leftarrow> GetNextSibling rec (world m);
     is \<leftarrow> CmpName rec kind (world m);
     (i, m1) \<leftarrow> (if is then onNodes (GetPropLong rec ''Instance'') m else Some (0, m));
     if is \<and> i = self then do {
       m2 \<leftarrow> dropRecord port rec m1;
       (n, m3) \<leftarrow> D kind self port nxt m2;
       Some (Suc n, m3) }
     else D kind self port nxt m1 }) = Some y"
  then show "dead a m \<longrightarrow> dead a (snd y)"
    by (auto split: if_splits bind_splits dest: ih [rule_format])
      (metis GetPropLong_dead dropRecord_dead ih snd_conv)+
qed

text \<open>The walk over the other end frees the record it finds.\<close>

lemma dropFrom_kills:
  assumes "path (nodes (world m)) p (s # r # rs) 0" and "\<not> named (world m) s kind" and "named (world m) r kind"
    and "GetPropLong r ''Instance'' (world m) = Some (self, world m)" and "dropFrom kind self port p m = Some (k, m')"
  shows "dead r m'"
proof -
  note S = path_walk [OF assms(1)]
  have p: "p = s" using assms(1) by simp
  from S(4) have "path (nodes (world m)) r (r # rs) 0" by (simp add: headOr_def)
  note R = path_walk [OF this]
  have c: "CmpName s kind (world m) = Some False" "CmpName r kind (world m) = Some True"
    using S(3) R(3) assms(2,3) by auto
  have nx: "GetNextSibling s (world m) = Some r" using S(2) by (simp add: headOr_def)
  have "dropFrom kind self port s m = dropFrom kind self port r m"
    using S(1) nx c(1) by (subst dropFrom.simps) simp
  with assms(5) p have "dropFrom kind self port r m = Some (k, m')" by simp
  then obtain m2 k2 where m2: "dropRecord port r m = Some m2" "dropFrom kind self port (headOr rs 0) m2 = Some (k2, m')"
    using R(1,2) c(2) assms(4) by (subst (asm) dropFrom.simps) (auto split: bind_splits)
  show ?thesis using dropFrom_dead [OF m2(2), of r] dropRecord_kills [OF m2(1) R(1)] by simp
qed

lemma dropOtherEnd_kills:
  assumes "record_at (world m) s other self nm" and "self \<noteq> 0"
    and "GetPropNode self nm (world m) = Some P" and "proplist (world m) P (s # r # rs)"
    and "\<not> named (world m) s kind" and "record_at (world m) r kind self nm'"
    and "dropOtherEnd kind self s m = Some (k, m')"
  shows "dead r m'"
proof -
  from assms(4) obtain n where n: "P \<noteq> 0" "nodes (world m) P = Some n" "path (nodes (world m)) (props n) (s # r # rs) 0"
    by (auto simp: proplist_def)
  from assms(1-3,7) n(1,2) have "dropFrom kind self P (props n) m = Some (k, m')"
    by (simp add: dropOtherEnd_def record_at_def GetNextProp_def)
  from dropFrom_kills [OF n(3) assms(5) _ _ this] assms(6) show ?thesis by (simp add: record_at_def)
qed

lemma scrubOwn_self_wire:
  assumes "record_at (world m) s ''Subscription'' self nm" and "self \<noteq> 0"
    and "GetPropNode self nm (world m) = Some P" and "proplist (world m) P (s # r # rs)"
    and "record_at (world m) r ''Subscriber'' self nm'"
  shows "scrubOwn self P s m = None"
proof (rule ccontr)
  assume "scrubOwn self P s m \<noteq> None"
  then obtain y where y: "scrubOwn self P s m = Some y" by auto
  from assms(4) obtain q where q: "path (nodes (world m)) q (s # r # rs) 0" by (auto simp: proplist_def)
  note S = path_walk [OF q]
  have s: "named (world m) s ''Subscription''" "\<not> named (world m) s ''Subscriber''" using assms(1) by (auto simp: record_at_def)
  have nx: "GetNextSibling s (world m) = Some r" using S(2) by (simp add: headOr_def)
  have nm: "CmpName s ''Subscription'' (world m) = Some True" "CmpName s ''Subscriber'' (world m) = Some False"
    using S(3) s by auto
  from y S(1) nx nm obtain k ma mb where
    m: "dropOtherEnd ''Subscriber'' self s m = Some (k, ma)" "dropRecord P s ma = Some mb" "scrubOwn self P r mb \<noteq> None"
    by (subst (asm) scrubOwn.simps) (auto split: bind_splits)
  have "dead r ma" by (rule dropOtherEnd_kills [OF assms(1-4) s(2) assms(5) m(1)])
  then have "dead r mb" by (rule dropRecord_dead [OF m(2)])
  moreover have "r \<noteq> 0" using q by auto
  ultimately show False using m(3) by (subst (asm) scrubOwn.simps) (simp add: GetNextSibling_def)
qed

lemma scrubOwn_plain:
  assumes "path (nodes (world m)) q (ps @ P # qs) 0"
    and "\<forall>p \<in> set (ps @ [P]). \<not> named (world m) p ''Subscription'' \<and> \<not> named (world m) p ''Subscriber''"
    and "\<forall>p \<in> set ps. GetNextProp p (world m) = Some 0"
    and "GetNextProp P (world m) = Some s" and "scrubOwn self P s m = None"
  shows "scrubOwn self own q m = None"
  using assms(1-3)
proof (induction ps arbitrary: q)
  case Nil
  then have q: "path (nodes (world m)) q (P # qs) 0" "q = P" by simp_all
  note W = path_walk [OF q(1)]
  have "CmpName P ''Subscription'' (world m) = Some False" "CmpName P ''Subscriber'' (world m) = Some False"
    using W(3) Nil(2) by auto
  then show ?case unfolding q(2) using W(1,2) assms(4,5) by (subst scrubOwn.simps) simp
next
  case (Cons p ps)
  then have q: "path (nodes (world m)) q (p # ps @ P # qs) 0" "q = p" by simp_all
  note W = path_walk [OF q(1)]
  have "scrubOwn self own (headOr (ps @ P # qs) 0) m = None"
    by (rule Cons.IH [OF W(4)]) (use Cons.prems(2,3) in simp_all)
  moreover have "scrubOwn self p 0 m = Some (0, m)" by (subst scrubOwn.simps) simp
  moreover have "CmpName p ''Subscription'' (world m) = Some False" "CmpName p ''Subscriber'' (world m) = Some False"
    using W(3) Cons.prems(2) by auto
  ultimately show ?case unfolding q(2) using W(1,2) Cons.prems(3) by (subst scrubOwn.simps) simp
qed


subsection \<open>Concrete wires\<close>

text \<open>Two instances with a property each, not wired yet.\<close>

definition plaza_nodes :: "ptr \<Rightarrow> node option" where
  "plaza_nodes = [5 \<mapsto> nd ''Object'' (stored_int 0) 10 0, 8 \<mapsto> nd ''View'' (stored_int 0) 9 0,
     9 \<mapsto> nd ''Value'' (stored_str (Some ''0'')) 0 0, 10 \<mapsto> nd ''Text'' (stored_str (Some ''0'')) 0 0]"

definition plaza :: machine where
  "plaza = wired\<lparr>world := (world wired)\<lparr>nodes := plaza_nodes, unused := [60, 61, 62, 63, 64, 65, 66, 67]\<rparr>\<rparr>"

lemma plaza_sel [simp]:
  "nodes (world plaza) = plaza_nodes" "unused (world plaza) = [60, 61, 62, 63, 64, 65, 66, 67]"
  "plaza_nodes 9 = Some (nd ''Value'' (stored_str (Some ''0'')) 0 0)"
  "plaza_nodes 10 = Some (nd ''Text'' (stored_str (Some ''0'')) 0 0)"
  by (simp_all add: plaza_def plaza_nodes_def)

lemma plaza_ok: "heap_ok (world plaza)"
  by (simp add: heap_ok_def) (simp add: plaza_nodes_def)


text \<open>Instance 8 with its \<open>Value\<close> wired to itself.\<close>

definition looped_nodes :: "ptr \<Rightarrow> node option" where
  "looped_nodes = [8 \<mapsto> nd ''View'' (stored_int 0) 9 0, 9 \<mapsto> nd ''Value'' (stored_str (Some ''0'')) 70 0,
     70 \<mapsto> nd ''Subscription'' (stored_int 0) 71 73, 71 \<mapsto> nd ''Port'' (stored_str (Some ''Value'')) 0 72,
     72 \<mapsto> nd ''Instance'' (stored_long 8) 0 0, 73 \<mapsto> nd ''Subscriber'' (stored_int 0) 74 0,
     74 \<mapsto> nd ''Callback'' (stored_long 0) 0 75, 75 \<mapsto> nd ''Port'' (stored_str (Some ''Value'')) 0 76,
     76 \<mapsto> nd ''Instance'' (stored_long 8) 0 0]"

definition looped :: machine where
  "looped = wired\<lparr>world := (world wired)\<lparr>nodes := looped_nodes\<rparr>\<rparr>"

lemma looped_sel [simp]:
  "nodes (world looped) = looped_nodes" "looped_nodes 8 = Some (nd ''View'' (stored_int 0) 9 0)"
  "looped_nodes 9 = Some (nd ''Value'' (stored_str (Some ''0'')) 70 0)"
  "looped_nodes 70 = Some (nd ''Subscription'' (stored_int 0) 71 73)" "looped_nodes 71 = Some (nd ''Port'' (stored_str (Some ''Value'')) 0 72)"
  "looped_nodes 72 = Some (nd ''Instance'' (stored_long 8) 0 0)" "looped_nodes 73 = Some (nd ''Subscriber'' (stored_int 0) 74 0)"
  "looped_nodes 74 = Some (nd ''Callback'' (stored_long 0) 0 75)" "looped_nodes 75 = Some (nd ''Port'' (stored_str (Some ''Value'')) 0 76)"
  "looped_nodes 76 = Some (nd ''Instance'' (stored_long 8) 0 0)"
  by (simp_all add: looped_def looped_nodes_def)

lemma looped_lists: "proplist (world looped) 8 [9]" "proplist (world looped) 9 [70, 73]" "proplist (world looped) 70 [71, 72]"
  "proplist (world looped) 73 [74, 75, 76]"
  by (simp_all add: proplist_def)

lemma looped_records: "record_at (world looped) 70 ''Subscription'' 8 ''Value''" "record_at (world looped) 73 ''Subscriber'' 8 ''Value''"
  using prop_long [OF looped_lists(3), of "''Instance''" 72] prop_long [OF looped_lists(4), of "''Instance''" 76]
    prop_str [OF looped_lists(3), of "''Port''" 71] prop_str [OF looped_lists(4), of "''Port''" 75]
  by (simp_all add: record_at_def cstr_def)


theorem AddSubscription_again_witness: "AddSubscription 8 9 8 9 0 looped = Some looped"
  using AddSubscription_again [of looped 9 "[70, 73]" "\<lambda>_. 8" "\<lambda>_. Some ''Value''" 9 "''Value''" 8 73 "[]" 8 0] looped_lists(2) looped_records
  by (simp add: records_def matching_def record_at_def)

theorem dropRecord_removes_witness:
  "\<exists>w. dropRecord 9 73 looped = Some (looped\<lparr>world := w\<rparr>) \<and> proplist w 9 [70] \<and> nodes w 73 = None \<and> nodes w 76 = None"
  using dropRecord_removes [OF looped_lists(2), of 73 "nd ''Subscriber'' (stored_int 0) 74 0"
      "[Tree 74 ''Callback'' (Some (stored_long 0)) [] [], Tree 75 ''Port'' (Some (stored_str (Some ''Value''))) [] [],
        Tree 76 ''Instance'' (Some (stored_long 8)) [] []]"]
  by auto

end
