(* ===== verification/Alias_Links.thy ===== *)
theory Alias_Links
  imports Aliases Wiring_Records
begin

text \<open>
  Proofs on links: a slot linked by \<open>LinkPropertyAs\<close> is recognised by \<open>IsAlias\<close>, which names the final
  original.
\<close>

lemma ResolvePort_direct:
  assumes "proplist (world m) p ps" and "firstNamed (nodes (world m)) name ps = q" and "nodes (world m) q = Some n" and "link n = 0"
  shows "ResolvePort p name m = Some ((p, q), m)"
  using assms by (auto simp: ResolvePort_def GetPropNode_first GetNodeLink_def proplist_def)

text \<open>A link is what it was made for: after \<open>LinkPropertyAs\<close> the slot of the alias stands for the property
  the name resolves to at that time, and \<open>IsAlias\<close> answers with the instance that owns it and with the
  property's own name, so an alias of an alias is an alias of the original.\<close>

theorem LinkPropertyAs_IsAlias:
  assumes h: "heap_ok (world m)" "unused (world m) = q # rest"
    and t: "ResolvePort targetInst propname m = Some ((realOwner, target), m)" "nodes (world m) target = Some tn" "link tn = 0"
      "realOwner \<noteq> 0" "targetInst \<noteq> 0"
    and s: "proplist (world m) own ps" "firstNamed (nodes (world m)) ''Value'' ps = v" "v \<noteq> 0" "nodes (world m) v = Some vn"
      "nvalue vn \<noteq> None"
    and l: "proplist (world m) v vs" "firstNamed (nodes (world m)) ''LinkInst'' vs = 0" "own \<notin> set vs" "v \<noteq> target"
  shows "\<exists>m'. LinkPropertyAs own ''Value'' targetInst propname m = Some (1, m')
    \<and> IsAlias own m' = Some (Some (realOwner, Some (nname tn)), m')"
proof -
  have v: "v \<in> set ps" "own \<noteq> v" "own \<noteq> 0"
    using firstNamed_in [of "nodes (world m)" "''Value''" ps] s(1-3) by (auto simp: proplist_def)
  have tz: "target \<noteq> 0" using h(1) t(2) by (auto simp: heap_ok_def)
  define w1 where "w1 = (world m)\<lparr>nodes := (nodes (world m))(v \<mapsto> vn\<lparr>nvalue := Some (stored_str (Some []))\<rparr>)\<rparr>"
  have 1: "SetPropStrPrivate own ''Value'' (Some []) (world m) = Some w1"
    unfolding SetPropStrPrivate_def w1_def by (rule str_prop.set_existing [OF s(1,2,3,4,5)])
  have w1: "nodes w1 = (nodes (world m))(v \<mapsto> vn\<lparr>nvalue := Some (stored_str (Some []))\<rparr>)" "unused w1 = q # rest" "heap_ok w1"
    using h s(3,4) by (auto simp: w1_def heap_ok_def)
  have nm: "map_option nname (nodes w1 a) = map_option nname (nodes (world m) a)" for a using s(4) by (simp add: w1(1))
  have p1: "proplist w1 own ps" "proplist w1 v vs"
    using s(1,4) l(1) v(2) by (auto simp: proplist_def w1(1) path_upd_same)
  have f1: "firstNamed (nodes w1) k xs = firstNamed (nodes (world m)) k xs" for k xs by (rule firstNamed_cong) (rule nm)
  have g1: "GetPropNode own ''Value'' w1 = Some v" using s(2) by (simp add: GetPropNode_first [OF p1(1)] f1)
  from long_prop.setProp_new [of "m\<lparr>world := w1\<rparr>" v vs "''LinkInst''" q rest realOwner] w1(2,3) p1(2) l(2)
  obtain w2 n2 s2 where 2: "SetPropLong v ''LinkInst'' realOwner (m\<lparr>world := w1\<rparr>) = Some (m\<lparr>world := w2\<rparr>)" "proplist w2 v (q # vs)"
    "nodes w2 q = Some n2" "nname n2 = ''LinkInst''" "nvalue n2 = Some (stored_long realOwner)"
    "\<forall>a. a \<noteq> v \<and> a \<noteq> q \<longrightarrow> nodes w2 a = nodes w1 a" "nodes w2 v = map_option (\<lambda>k. k\<lparr>props := s2\<rparr>) (nodes w1 v)"
    unfolding SetPropLong_def by (auto simp: f1)
  obtain vn2 where vn2: "nodes w2 v = Some vn2" "nextSib vn2 = nextSib vn" "nname vn2 = nname vn" using 2(7) by (auto simp: w1(1))
  define w3 where "w3 = w2\<lparr>nodes := (nodes w2)(v \<mapsto> vn2\<lparr>link := target\<rparr>)\<rparr>"
  have q: "q \<noteq> 0" "nodes (world m) q = None" using h by (auto simp: heap_ok_def)
  have old: "a \<noteq> v \<Longrightarrow> a \<noteq> q \<Longrightarrow> nodes w3 a = nodes (world m) a" for a using 2(6) by (simp add: w3_def w1(1))
  have ps: "a \<in> insert own (set ps) \<Longrightarrow> a \<noteq> q" for a using s(1) q(2) by (auto simp: proplist_def dest: path_alive)
  have keep: "map_option nname (nodes w3 a) = map_option nname (nodes (world m) a)
      \<and> map_option nextSib (nodes w3 a) = map_option nextSib (nodes (world m) a)" if "a \<noteq> q" for a
    using old [of a] that vn2 s(4) by (cases "a = v") (auto simp: w3_def)
  have p3: "proplist w3 own ps"
    using s(1) keep ps old [of own] v(2) by (auto simp: proplist_def elim!: path_frame)
  have "firstNamed (nodes w3) ''Value'' ps = firstNamed (nodes (world m)) ''Value'' ps"
    by (rule firstNamed_cong) (use keep ps in blast)
  then have g3: "GetPropNode own ''Value'' w3 = Some v" using s(2) by (simp add: GetPropNode_first [OF p3])
  have vq: "v \<notin> set (q # vs)" "v \<noteq> q" using 2(2) by (auto simp: proplist_def)
  have p3v: "proplist w3 v (q # vs)" using 2(2) vn2 vq by (auto simp: proplist_def w3_def)
  have "nodes w3 q = Some n2" using 2(3) vq by (simp add: w3_def)
  then have li: "GetPropLong v ''LinkInst'' w3 = Some (realOwner, w3)"
    using prop_long [OF p3v _ q(1) _ 2(5)] 2(4) by simp
  have tq: "target \<noteq> q" using t(2) q(2) by auto
  have lt: "nodes w3 target = Some tn" using old l(4) tq t(2) by simp
  have lv: "nodes w3 v = Some (vn2\<lparr>link := target\<rparr>)" by (simp add: w3_def)
  have r: "ResolveNode v w3 = Some target"
  proof -
    have "resolveLoop 8 v w3 = resolveLoop 7 target w3" using lv s(3) tz by (subst resolveLoop.simps) (simp add: eval_nat_numeral)
    also have "\<dots> = Some target" using lt tz t(3) by (subst resolveLoop.simps) simp
    finally show ?thesis by (simp add: ResolveNode_def)
  qed
  have "LinkPropertyAs own ''Value'' targetInst propname m = Some (1, m\<lparr>world := w3\<rparr>)"
    using v(3) t(1,5) tz 1 g1 2(1) vn2(1) s(3) by (simp add: LinkPropertyAs_def doNodes_def LinkNode_def w3_def)
  moreover have "IsAlias own (m\<lparr>world := w3\<rparr>) = Some (Some (realOwner, Some (nname tn)), m\<lparr>world := w3\<rparr>)"
    using v(3) g3 lv s(3) tz li t(4) r lt by (simp add: IsAlias_def GetNodeLink_def GetNameStr_def)
  ultimately show ?thesis by blast
qed

theorem LinkPropertyAs_IsAlias_witness:
  "\<exists>m'. LinkPropertyAs 8 ''Value'' 5 ''Text'' plaza = Some (1, m') \<and> IsAlias 8 m' = Some (Some (5, Some ''Text''), m')"
proof -
  have p: "proplist (world plaza) 8 [9]" "proplist (world plaza) 9 []" "proplist (world plaza) 5 [10]"
    by (simp_all add: proplist_def) (simp_all add: plaza_nodes_def)
  have r: "ResolvePort 5 ''Text'' plaza = Some ((5, 10), plaza)" by (rule ResolvePort_direct [OF p(3)]) (simp, simp, simp)
  show ?thesis
    using LinkPropertyAs_IsAlias [OF plaza_ok _ r _ _ _ _ p(1) _ _ _ _ p(2), of 60 "[61, 62, 63, 64, 65, 66, 67]"
        "nd ''Text'' (stored_str (Some ''0'')) 0 0" "nd ''Value'' (stored_str (Some ''0'')) 0 0"] by simp
qed

end
