(* ===== verification/Clone.thy ===== *)
theory Clone
  imports Aliases
begin

text \<open>
  Cloning in \<open>src/object.c\<close>: the data of an instance, the links it carried, the wires between the members
  of a group, and the three passes over a container and the views inside it.

  \<open>table\<close> is the node the caller passes as \<open>map\<close>: for every instance of the group its copy, under the text
  of its address.
\<close>

definition msg_serialize :: int where "msg_serialize = 5"
definition msg_deserialize :: int where "msg_deserialize = 6"

subsection \<open>Data\<close>

text \<open>An older property of the same name stands before \<open>prop\<close> on the list.\<close>

partial_function (option) shadowed :: "string \<Rightarrow> ptr \<Rightarrow> ptr \<Rightarrow> machine \<Rightarrow> bool option" where
  "shadowed name prop q m = (if q = 0 \<or> q = prop then Some False else do {
     same \<leftarrow> CmpName q name (world m);
     if same then Some True
     else do { nxt \<leftarrow> GetNextSibling q (world m); shadowed name prop nxt m } })"

declare shadowed.simps [code]

definition IsPortableProp :: "ptr \<Rightarrow> ptr \<Rightarrow> machine \<Rightarrow> bool option" where
  "IsPortableProp inst prop m = (if inst = 0 \<or> prop = 0 then Some False else do {
     type \<leftarrow> GetValueType prop (world m);
     if type = LONG then Some False
     else do {
       nm \<leftarrow> GetNameStr prop (world m);
       name \<leftarrow> nm;
       if name = [] then Some False
       else do {
         first \<leftarrow> GetNextProp inst (world m);
         before \<leftarrow> shadowed name prop first m;
         Some (\<not> before) } } })"

text \<open>One property: its value as the source reads it goes to the handler the copy has under that name, or
  into the copy's property of that name.\<close>

definition clonePut :: "caller \<Rightarrow> ptr \<Rightarrow> string \<Rightarrow> string \<Rightarrow> machine \<Rightarrow> machine option" where
  "clonePut call inst name val m = do {
     dst \<leftarrow> GetPropNode inst name (world m);
     (has, m1) \<leftarrow> HasHandler dst m;
     if has then do {
       (chunk, m2) \<leftarrow> newChunk name (Some val) m1;
       (_, m3) \<leftarrow> DeliverToHandlers call inst dst msg_send chunk m2;
       doNodes (DelNode chunk) m3 }
     else SetPropStr inst name (Some val) m1 }"

definition cloneProp :: "caller \<Rightarrow> ptr \<Rightarrow> ptr \<Rightarrow> ptr \<Rightarrow> machine \<Rightarrow> machine option" where
  "cloneProp call source inst prop m = do {
     nm \<leftarrow> GetNameStr prop (world m);
     name \<leftarrow> nm;
     portable \<leftarrow> IsPortableProp source prop m;
     if \<not> portable \<or> name = ''State'' \<or> name = ''Name'' \<or> name = ''Container'' then Some m
     else do {
       l \<leftarrow> GetNodeLink prop (world m);
       if l \<noteq> 0 then Some m
       else do {
         ((_, valnode), m1) \<leftarrow> ResolvePort source name m;
         (val, m2) \<leftarrow> onNodes (GetValueStr valnode) m1;
         (case val of None \<Rightarrow> Some m2 | Some s \<Rightarrow> clonePut call inst name s m2) } } }"

partial_function (option) cloneProps :: "caller \<Rightarrow> ptr \<Rightarrow> ptr \<Rightarrow> ptr \<Rightarrow> machine \<Rightarrow> machine option" where
  "cloneProps call source inst prop m = (if prop = 0 then Some m else do {
     m1 \<leftarrow> cloneProp call source inst prop m;
     nxt \<leftarrow> GetNextSibling prop (world m1);
     cloneProps call source inst nxt m1 })"

declare cloneProps.simps [code]

definition CloneData :: "caller \<Rightarrow> ptr \<Rightarrow> ptr \<Rightarrow> machine \<Rightarrow> machine option" where
  "CloneData call source inst m = (if source = 0 \<or> inst = 0 then Some m else do {
     (bag, m1) \<leftarrow> namedNode ''Self'' m;
     (_, m2) \<leftarrow> PuntToClass call source msg_serialize bag m1;
     (mine, m3) \<leftarrow> PuntToClass call inst msg_deserialize bag m2;
     m4 \<leftarrow> doNodes (DelNode bag) m3;
     if mine = rtrn_handled then Some m4
     else do {
       first \<leftarrow> GetNextProp source (world m4);
       cloneProps call source inst first m4 } })"

definition CloneObject :: "caller \<Rightarrow> ptr \<Rightarrow> ptr \<Rightarrow> string \<Rightarrow> machine \<Rightarrow> (ptr \<times> machine) option" where
  "CloneObject call source container name m = (if source = 0 \<or> container = 0 then Some (0, m) else do {
     cls \<leftarrow> GetParent source (world m);
     if cls = 0 then Some (0, m)
     else do {
       cn \<leftarrow> GetNameStr cls (world m);
       classname \<leftarrow> cn;
       (inst, m1) \<leftarrow> CreateObject call container classname name m;
       if inst = 0 then Some (0, m1)
       else do { m2 \<leftarrow> CloneData call source inst m1; Some (inst, m2) } } })"

subsection \<open>Wires and links\<close>

text \<open>One record under a port of the source: a wire to a member of the group is made again between the copies.\<close>

definition cloneWire :: "ptr \<Rightarrow> ptr \<Rightarrow> string \<Rightarrow> ptr \<Rightarrow> ptr \<Rightarrow> machine \<Rightarrow> machine option" where
  "cloneWire srcInst cloneInst portName table sub m = do {
     is \<leftarrow> CmpName sub ''Subscriber'' (world m);
     if \<not> is then Some m
     else do {
       (sink, m1) \<leftarrow> onNodes (GetPropLong sub ''Instance'') m;
       (toPort, m2) \<leftarrow> onNodes (GetPropStr sub ''Port'') m1;
       (case toPort of None \<Rightarrow> Some m2
        | Some to \<Rightarrow>
            if sink = 0 then Some m2
            else do {
              (sinkClone, m3) \<leftarrow> GetConnState table sink m2;
              m4 \<leftarrow> logName srcInst m3;
              m5 \<leftarrow> logName sink m4;
              if sinkClone = 0 then Some m5
              else do {
                (_, m6) \<leftarrow> Connect cloneInst portName sinkClone to m5;
                m7 \<leftarrow> logName cloneInst m6;
                logName sinkClone m7 } }) } }"

partial_function (option) cloneWires :: "ptr \<Rightarrow> ptr \<Rightarrow> string \<Rightarrow> ptr \<Rightarrow> ptr \<Rightarrow> machine \<Rightarrow> machine option" where
  "cloneWires srcInst cloneInst portName table sub m = (if sub = 0 then Some m else do {
     m1 \<leftarrow> cloneWire srcInst cloneInst portName table sub m;
     nxt \<leftarrow> GetNextSibling sub (world m1);
     cloneWires srcInst cloneInst portName table nxt m1 })"

partial_function (option) clonePorts :: "ptr \<Rightarrow> ptr \<Rightarrow> ptr \<Rightarrow> ptr \<Rightarrow> machine \<Rightarrow> machine option" where
  "clonePorts srcInst cloneInst table port m = (if port = 0 then Some m else do {
     nm \<leftarrow> GetNameStr port (world m);
     portName \<leftarrow> nm;
     first \<leftarrow> GetNextProp port (world m);
     m1 \<leftarrow> cloneWires srcInst cloneInst portName table first m;
     nxt \<leftarrow> GetNextSibling port (world m1);
     clonePorts srcInst cloneInst table nxt m1 })"

declare cloneWires.simps [code] clonePorts.simps [code]

definition CloneConnections :: "ptr \<Rightarrow> ptr \<Rightarrow> ptr \<Rightarrow> machine \<Rightarrow> machine option" where
  "CloneConnections srcInst cloneInst table m = (if srcInst = 0 \<or> cloneInst = 0 \<or> table = 0 then Some m else do {
     m1 \<leftarrow> logName srcInst m;
     m2 \<leftarrow> logName cloneInst m1;
     first \<leftarrow> GetNextProp srcInst (world m2);
     clonePorts srcInst cloneInst table first m2 })"

text \<open>One slot that is a link: it points at the copy of its target, at a target outside the group that has a
  path, and is left alone when the target is private.\<close>

definition relinkProp :: "ptr \<Rightarrow> ptr \<Rightarrow> ptr \<Rightarrow> machine \<Rightarrow> machine option" where
  "relinkProp clone table prop m = do {
     nm \<leftarrow> GetNameStr prop (world m);
     name \<leftarrow> nm;
     l \<leftarrow> GetNodeLink prop (world m);
     if l = 0 then Some m
     else do {
       (target, m1) \<leftarrow> onNodes (GetPropLong prop ''LinkInst'') m;
       resolved \<leftarrow> ResolveNode prop (world m1);
       if target = 0 \<or> resolved = 0 then Some m1
       else do {
         (mapped, m2) \<leftarrow> GetConnState table target m1;
         (named, m3) \<leftarrow> (if mapped \<noteq> 0 then Some (True, m2) else do {
              ((ok, _), ma) \<leftarrow> PathOfInstance target 256 m2;
              Some (ok, ma) });
         if \<not> named then logName clone m3
         else do {
           let target1 = (if mapped \<noteq> 0 then mapped else target);
           rn \<leftarrow> GetNameStr resolved (world m3);
           rname \<leftarrow> rn;
           (_, m4) \<leftarrow> LinkPropertyAs clone name target1 rname m3;
           m5 \<leftarrow> logName clone m4;
           m6 \<leftarrow> logName target1 m5;
           _ \<leftarrow> GetNameStr resolved (world m6);
           Some m6 } } } }"

partial_function (option) relinkProps :: "ptr \<Rightarrow> ptr \<Rightarrow> ptr \<Rightarrow> machine \<Rightarrow> machine option" where
  "relinkProps clone table prop m = (if prop = 0 then Some m else do {
     m1 \<leftarrow> relinkProp clone table prop m;
     nxt \<leftarrow> GetNextSibling prop (world m1);
     relinkProps clone table nxt m1 })"

declare relinkProps.simps [code]

definition CloneRelinkProps :: "ptr \<Rightarrow> ptr \<Rightarrow> ptr \<Rightarrow> machine \<Rightarrow> machine option" where
  "CloneRelinkProps src clone table m = (if src = 0 \<or> clone = 0 \<or> table = 0 then Some m else do {
     first \<leftarrow> GetNextProp src (world m);
     relinkProps clone table first m })"

subsection \<open>Groups\<close>

text \<open>The members of a container, by the text of their \<open>Container\<close>, each under a number in \<open>list\<close>; plumbing
  is left out.\<close>

partial_function (option) scanMembers :: "string \<Rightarrow> ptr \<Rightarrow> nat \<Rightarrow> ptr \<Rightarrow> machine \<Rightarrow> machine option" where
  "scanMembers srcPath list n inst m = (if inst = 0 then Some m else do {
     (cont, m1) \<leftarrow> onNodes (GetPropStr inst ''Container'') m;
     (member, m2) \<leftarrow> (if cont \<noteq> Some srcPath then Some (False, m1) else do {
          (hidden, ma) \<leftarrow> onNodes (GetPropInt inst ''_Hidden'') m1;
          Some (hidden = 0, ma) });
     m3 \<leftarrow> (if member then SetPropLong list (sprintf_d (int n)) inst m2 else Some m2);
     (nxt, m4) \<leftarrow> NextInstance inst m3;
     scanMembers srcPath list (if member then Suc n else n) nxt m4 })"

declare scanMembers.simps [code]

definition membersList :: "string \<Rightarrow> machine \<Rightarrow> (ptr \<times> machine) option" where
  "membersList srcPath m = (let (list, m1) = newNode INTEGER m in do {
     (inst, m2) \<leftarrow> FirstInstance m1;
     m3 \<leftarrow> scanMembers srcPath list 0 inst m2;
     Some (list, m3) })"

text \<open>The first pass: a member the copy of the container already has gets the values, another is created.\<close>

definition cloneMember :: "caller \<Rightarrow> ptr \<Rightarrow> string \<Rightarrow> ptr \<Rightarrow> string \<Rightarrow> machine \<Rightarrow> machine option" where
  "cloneMember call table clonePath inst nm m = do {
     let (there, m1) = (if nm = [] then (0, m) else ResolvePath (take 511 (clonePath @ SLASH # nm)) m);
     (clone, m2) \<leftarrow> (if there \<noteq> 0 then do { ma \<leftarrow> CloneData call inst there m1; Some (there, ma) }
         else let (container, ma) = ResolvePath clonePath m1 in CloneObject call inst container nm ma);
     if clone \<noteq> 0 then SetConnState table inst clone m2 else Some m2 }"

definition groupMember :: "caller \<Rightarrow> ptr \<Rightarrow> nat \<Rightarrow> string \<Rightarrow> ptr \<Rightarrow> string \<Rightarrow> machine \<Rightarrow> machine option" where
  "groupMember call table pass clonePath inst nm m =
     (if pass = 0 then cloneMember call table clonePath inst nm m
      else if pass = 1 then do {
        (clone, m1) \<leftarrow> GetConnState table inst m;
        if clone \<noteq> 0 then CloneRelinkProps inst clone table m1 else Some m1 }
      else if pass = 2 then do {
        (clone, m1) \<leftarrow> GetConnState table inst m;
        if clone \<noteq> 0 then CloneConnections inst clone table m1 else Some m1 }
      else Some m)"

partial_function (option) groupLoop :: "caller \<Rightarrow> ptr \<Rightarrow> nat \<Rightarrow> string \<Rightarrow> string \<Rightarrow> ptr \<Rightarrow> machine \<Rightarrow> machine option" where
  "groupLoop call table pass srcPath clonePath entry m = (if entry = 0 then Some m else do {
     (inst, m1) \<leftarrow> onNodes (GetValueLong entry) m;
     cls \<leftarrow> GetParent inst (world m1);
     cn \<leftarrow> GetNameStr cls (world m1);
     classname \<leftarrow> cn;
     (nm, m2) \<leftarrow> textProp inst ''Name'' m1;
     m3 \<leftarrow> groupMember call table pass clonePath inst nm m2;
     m4 \<leftarrow> (if classname = ''View'' \<and> nm \<noteq> [] then do {
              (list, ma) \<leftarrow> membersList (take 255 (srcPath @ SLASH # nm)) m3;
              first \<leftarrow> GetNextProp list (world ma);
              mb \<leftarrow> groupLoop call table pass (take 255 (srcPath @ SLASH # nm)) (take 255 (clonePath @ SLASH # nm)) first ma;
              doNodes (DelNode list) mb }
           else Some m3);
     nxt \<leftarrow> GetNextSibling entry (world m4);
     groupLoop call table pass srcPath clonePath nxt m4 })"

declare groupLoop.simps [code]

definition CloneGroupPass :: "caller \<Rightarrow> string \<Rightarrow> string \<Rightarrow> ptr \<Rightarrow> nat \<Rightarrow> machine \<Rightarrow> machine option" where
  "CloneGroupPass call srcPath clonePath table pass m = do {
     (list, m1) \<leftarrow> membersList srcPath m;
     first \<leftarrow> GetNextProp list (world m1);
     m2 \<leftarrow> groupLoop call table pass srcPath clonePath first m1;
     doNodes (DelNode list) m2 }"

definition CloneInstance :: "caller \<Rightarrow> ptr \<Rightarrow> string \<Rightarrow> ptr \<Rightarrow> machine \<Rightarrow> (ptr \<times> machine) option" where
  "CloneInstance call source containerPath table m = (if source = 0 \<or> table = 0 then Some (0, m) else do {
     (srcPath, m1) \<leftarrow> InstancePath source 256 m;
     (name, m2) \<leftarrow> CloneMintName source containerPath 200 m1;
     m3 \<leftarrow> logName source m2;
     let clonePath = take 255 ((if containerPath = [] then ''/Root'' else containerPath) @ SLASH # name);
     let (container, m4) = ContainerOfPath clonePath m3;
     (top, m5) \<leftarrow> CloneObject call source container name m4;
     if top = 0 then Some (0, m5)
     else do {
       m6 \<leftarrow> SetConnState table source top m5;
       m7 \<leftarrow> CloneGroupPass call srcPath clonePath table 0 m6;
       m8 \<leftarrow> CloneGroupPass call srcPath clonePath table 1 m7;
       m9 \<leftarrow> CloneRelinkProps source top table m8;
       m10 \<leftarrow> CloneGroupPass call srcPath clonePath table 2 m9;
       m11 \<leftarrow> CloneConnections source top table m10;
       m12 \<leftarrow> logName source m11;
       Some (top, m12) } })"

end
