(* ===== verification/Clone_Data.thy ===== *)
theory Clone_Data
  imports Clone Wiring_Records Registry_Load
begin

text \<open>
  Proofs on \<open>Clone\<close>: which properties of an instance are data, and what a copy of them is given.
\<close>

subsection \<open>Portable properties\<close>

lemma shadowed_list:
  assumes "path (nodes (world m)) q rs 0" and "prop \<noteq> 0"
  shows "shadowed name prop (headOr rs 0) m
    = Some (\<exists>r \<in> set (takeWhile (\<lambda>r. r \<noteq> prop) rs). named (world m) r name)"
  using assms(1)
proof (induction rs arbitrary: q)
  case Nil
  then show ?case by (subst shadowed.simps) simp
next
  case (Cons r rs)
  note W = path_walk [OF Cons.prems]
  show ?case
  proof (cases "r = prop")
    case True
    then show ?thesis by (subst shadowed.simps) simp
  next
    case False
    with W Cons.IH [OF W(4)] show ?thesis by (subst shadowed.simps) auto
  qed
qed

lemma firstNamed_iff:
  assumes "p \<in> set ps" and "0 \<notin> set ps" and "map_option nname (f p) = Some name"
  shows "firstNamed f name ps = p \<longleftrightarrow> \<not> (\<exists>r \<in> set (takeWhile (\<lambda>r. r \<noteq> p) ps). map_option nname (f r) = Some name)"
  using assms by (induction ps) auto

text \<open>A property is portable exactly when it is not a pointer, has a name, and is the one a read by that
  name finds: of several properties of a name only the newest travels.\<close>

theorem IsPortableProp_iff:
  assumes "proplist (world m) inst ps" and "p \<in> set ps" and "nodes (world m) p = Some n"
  shows "IsPortableProp inst p m
    = Some (GetDataType (nvalue n) \<noteq> LONG \<and> nname n \<noteq> [] \<and> GetPropNode inst (nname n) (world m) = Some p)"
proof -
  from assms(1) obtain k where k: "inst \<noteq> 0" "nodes (world m) inst = Some k" "path (nodes (world m)) (props k) ps 0"
    by (auto simp: proplist_def)
  then have z: "0 \<notin> set ps" by (auto dest: path_alive)
  then have p: "p \<noteq> 0" using assms(2) by auto
  have "props k = headOr ps 0" using k(3) by (cases ps) (auto simp: headOr_def)
  then have "shadowed (nname n) p (props k) m = Some (GetPropNode inst (nname n) (world m) \<noteq> Some p)"
    using shadowed_list [OF k(3) p, of "nname n"] firstNamed_iff [OF assms(2) z, of "nodes (world m)" "nname n"] assms(3)
    by (simp add: GetPropNode_first [OF assms(1)])
  then show ?thesis
    using k(1,2) p assms(3)
    by (auto simp: IsPortableProp_def GetValueType_def GetNameStr_def GetNextProp_def)
qed

theorem IsPortableProp_iff_witness: "IsPortableProp 8 9 looped = Some True"
  using IsPortableProp_iff [OF looped_lists(1), of 9 "nd ''Value'' (stored_str (Some ''0'')) 70 0"]
  by (simp add: GetPropNode_first [OF looped_lists(1)] GetDataType_def stored_str_def data_defs Let_def)

subsection \<open>What a copy is given\<close>

text \<open>The properties \<open>ps\<close> of a source as the copying reads them: their names, which are pointers, which are
  links, and the text each reads as.\<close>

definition source_ok :: "fabric \<Rightarrow> ptr \<Rightarrow> ptr list \<Rightarrow> (ptr \<Rightarrow> string) \<Rightarrow> (ptr \<Rightarrow> bool) \<Rightarrow> (ptr \<Rightarrow> bool) \<Rightarrow> (ptr \<Rightarrow> string option) \<Rightarrow> bool" where
  "source_ok w source ps nm ptrs islink val \<longleftrightarrow> proplist w source ps \<and> (\<forall>p \<in> set ps. \<exists>n. nodes w p = Some n \<and> nname n = nm p
     \<and> (GetDataType (nvalue n) = LONG \<longleftrightarrow> ptrs p) \<and> (link n \<noteq> 0 \<longleftrightarrow> islink p)
     \<and> (\<not> ptrs p \<longrightarrow> GetValueStr p w = Some (val p, w)))"

definition travels :: "ptr list \<Rightarrow> (ptr \<Rightarrow> string) \<Rightarrow> (ptr \<Rightarrow> bool) \<Rightarrow> (ptr \<Rightarrow> bool) \<Rightarrow> (ptr \<Rightarrow> string option) \<Rightarrow> ptr \<Rightarrow> bool" where
  "travels ps nm ptrs islink val p \<longleftrightarrow> \<not> ptrs p \<and> nm p \<noteq> [] \<and> List.find (\<lambda>q. nm q = nm p) ps = Some p
     \<and> nm p \<noteq> ''State'' \<and> nm p \<noteq> ''Name'' \<and> nm p \<noteq> ''Container'' \<and> \<not> islink p \<and> val p \<noteq> None"

fun putAll :: "caller \<Rightarrow> ptr \<Rightarrow> (string \<times> string) list \<Rightarrow> machine \<Rightarrow> machine option" where
  "putAll call inst [] m = Some m"
| "putAll call inst ((name, s) # xs) m = do { m1 \<leftarrow> clonePut call inst name s m; putAll call inst xs m1 }"

text \<open>What the handlers of the copy may do when they are given these: anything but change the source.\<close>

definition put_keeps :: "caller \<Rightarrow> ptr \<Rightarrow> (string \<times> string) set \<Rightarrow> (fabric \<Rightarrow> bool) \<Rightarrow> bool" where
  "put_keeps call inst X P \<longleftrightarrow> (\<forall>(name, s) \<in> X. \<forall>m m'. clonePut call inst name s m = Some m' \<longrightarrow> P (world m) \<longrightarrow> P (world m'))"

lemma firstNamed_find:
  assumes "\<forall>p \<in> set ps. map_option nname (f p) = Some (nm p)"
  shows "firstNamed f name ps = (case List.find (\<lambda>q. nm q = name) ps of None \<Rightarrow> 0 | Some q \<Rightarrow> q)"
  using assms by (induction ps) auto

lemma cloneProp_travels:
  assumes "source_ok (world m) source ps nm ptrs islink val" and "p \<in> set ps"
  shows "cloneProp call source inst p m
    = (if travels ps nm ptrs islink val p then clonePut call inst (nm p) (the (val p)) m else Some m)"
proof -
  from assms(1) have pl: "proplist (world m) source ps" by (simp add: source_ok_def)
  from assms obtain n where n: "nodes (world m) p = Some n" "nname n = nm p" "GetDataType (nvalue n) = LONG \<longleftrightarrow> ptrs p"
    "link n \<noteq> 0 \<longleftrightarrow> islink p" "\<not> ptrs p \<longrightarrow> GetValueStr p (world m) = Some (val p, world m)"
    unfolding source_ok_def by blast
  have z: "p \<noteq> 0" using pl assms(2) by (auto simp: proplist_def dest: path_alive)
  have names: "\<forall>q \<in> set ps. map_option nname (nodes (world m) q) = Some (nm q)" using assms(1) by (auto simp: source_ok_def)
  have g: "GetPropNode source (nm p) (world m) = Some (case List.find (\<lambda>q. nm q = nm p) ps of None \<Rightarrow> 0 | Some q \<Rightarrow> q)"
    by (simp add: GetPropNode_first [OF pl] firstNamed_find [OF names])
  have "List.find (\<lambda>q. nm q = nm p) ps \<noteq> None" using assms(2) by (auto simp: find_None_iff)
  then have port: "IsPortableProp source p m = Some (\<not> ptrs p \<and> nm p \<noteq> [] \<and> List.find (\<lambda>q. nm q = nm p) ps = Some p)"
    using IsPortableProp_iff [OF pl assms(2) n(1)] n(2,3) g by auto
  show ?thesis
  proof (cases "\<not> ptrs p \<and> nm p \<noteq> [] \<and> List.find (\<lambda>q. nm q = nm p) ps = Some p \<and> \<not> islink p")
    case True
    then have "ResolvePort source (nm p) m = Some ((source, p), m)"
      using n(1,2,4) g pl z by (simp add: ResolvePort_def GetNodeLink_def proplist_def)
    with True n z port show ?thesis
      by (auto simp: cloneProp_def travels_def GetNameStr_def GetNodeLink_def split: option.split)
  next
    case False
    with n z port show ?thesis by (auto simp: cloneProp_def travels_def GetNameStr_def GetNodeLink_def)
  qed
qed


text \<open>Source 8 has a value and a name, the copy 5 a value \<open>x\<close>.\<close>

definition shop_nodes :: "string \<Rightarrow> ptr \<Rightarrow> node option" where
  "shop_nodes x = [8 \<mapsto> nd ''View'' (stored_int 0) 9 0, 9 \<mapsto> nd ''Value'' (stored_str (Some ''7'')) 0 11,
     11 \<mapsto> nd ''Name'' (stored_str (Some ''v'')) 0 0, 5 \<mapsto> nd ''Object'' (stored_int 0) 10 0,
     10 \<mapsto> nd ''Value'' (stored_str (Some x)) 0 0]"

definition shop :: "string \<Rightarrow> fabric" where
  "shop x = (world wired)\<lparr>nodes := shop_nodes x, objTaskList := None\<rparr>"

lemma shop_sel [simp]:
  "nodes (shop x) = shop_nodes x" "objTaskList (shop x) = None" "shop_nodes x 8 = Some (nd ''View'' (stored_int 0) 9 0)"
  "shop_nodes x 9 = Some (nd ''Value'' (stored_str (Some ''7'')) 0 11)" "shop_nodes x 11 = Some (nd ''Name'' (stored_str (Some ''v'')) 0 0)"
  "shop_nodes x 5 = Some (nd ''Object'' (stored_int 0) 10 0)" "shop_nodes x 10 = Some (nd ''Value'' (stored_str (Some x)) 0 0)"
  by (simp_all add: shop_def shop_nodes_def)

lemma shop_lists: "proplist (shop x) 8 [9, 11]" "proplist (shop x) 5 [10]" "proplist (shop x) 10 []"
  by (simp_all add: proplist_def)

lemma shop_source:
  "source_ok (shop x) 8 [9, 11] (\<lambda>p. if p = 9 then ''Value'' else ''Name'') (\<lambda>_. False) (\<lambda>_. False)
     (\<lambda>p. Some (if p = 9 then ''7'' else ''v''))"
  by (simp add: source_ok_def shop_lists GetDataType_def GetValueStr_def str_prop.read_stored cstr_def)
    (simp add: stored_str_def data_defs Let_def)

lemma shop_put: "clonePut quiet 5 ''Value'' s (m\<lparr>world := shop x\<rparr>) = Some (m\<lparr>world := shop s\<rparr>)"
proof -
  have "(shop_nodes x)(10 \<mapsto> nd ''Value'' (stored_str (Some s)) 0 0) = shop_nodes s" by (rule ext) (simp add: shop_nodes_def)
  moreover have "HasHandler 10 (m\<lparr>world := shop x\<rparr>) = Some (False, m\<lparr>world := shop x\<rparr>)"
    using prop_long_absent [OF shop_lists(3), where name = "''OnMsg''"]
    by (simp add: HasHandler_def GetNextProp_def hasHandlerLoop.simps [of 0])
  ultimately show ?thesis
    by (simp add: clonePut_def GetPropNode_first [OF shop_lists(2)] SetPropStr_def setProp_def ResolveOwned_def GetNodeLink_def
        doNodes_def FanOutSubscribers_def ObjGetTaskList_def str_prop.writeValue_stored nd_upd) (simp add: shop_def)
qed


end
