(* ===== verification/Root_Class.thy ===== *)
theory Root_Class
  imports Clone
begin

text \<open>
  The classes of the core in \<open>src/object.c\<close>: the root class \<open>Object\<close>, whose handler ends every class chain,
  and the library the core registers for it.
\<close>

subsection \<open>The end of the chain\<close>

text \<open>The gesture every object answers: reading, setting or removing its \<open>Script\<close>.\<close>

definition scriptGesture :: "ptr \<Rightarrow> ptr \<Rightarrow> machine \<Rightarrow> (bool \<times> machine) option" where
  "scriptGesture inst data m = do {
     (gname, m1) \<leftarrow> onNodes (GetPropStr data ''Name'') m;
     (gval, m2) \<leftarrow> onNodes (GetPropStr data ''Value'') m1;
     if gname = None \<or> take 6 (the gname) \<noteq> ''Script'' then Some (False, m2)
     else do {
       (query, m3) \<leftarrow> onNodes (GetPropStr data ''Query'') m2;
       if query \<noteq> None then do {
         (had, m4) \<leftarrow> onNodes (GetPropStr inst ''Script'') m3;
         m5 \<leftarrow> SetPropStr data ''Value'' (Some (orEmpty had)) m4;
         m6 \<leftarrow> SetPropStr data ''Prop'' (Some ''Script'') m5;
         Some (True, m6) }
       else do {
         m4 \<leftarrow> (if orEmpty gval \<noteq> [] then SetPropStr inst ''Script'' gval m3 else do {
                  had \<leftarrow> GetPropNode inst ''Script'' (world m3);
                  if had \<noteq> 0 then do { ma \<leftarrow> doNodes (RemoveProp inst had) m3; doNodes (DelNode had) ma } else Some m3 });
         m5 \<leftarrow> logName inst m4;
         Some (True, m5) } } }"

definition ObjectClassMsg :: "ptr \<Rightarrow> int \<Rightarrow> ptr \<Rightarrow> machine \<Rightarrow> (int \<times> machine) option" where
  "ObjectClassMsg inst message data m = do {
     prop \<leftarrow> GetNameStr data (world m);
     (val, m1) \<leftarrow> onNodes (GetValueStr data) m;
     (answered, m2) \<leftarrow> (if message = msg_gesture \<and> data \<noteq> 0 then scriptGesture inst data m1 else Some (False, m1));
     if answered then Some (rtrn_handled, m2)
     else if message = msg_serialize \<or> message = msg_deserialize \<or> message = msg_gesture then Some (rtrn_unhandled, m2)
     else do {
       (open, m3) \<leftarrow> (case prop of None \<Rightarrow> Some (False, m2)
          | Some name \<Rightarrow> if inst = 0 \<or> message = msg_eof then Some (False, m2)
              else do {
                propnode \<leftarrow> GetPropNode inst name (world m2);
                (has, ma) \<leftarrow> (if propnode = 0 then Some (False, m2) else HasHandler propnode m2);
                Some (\<not> has, ma) });
       if open then do { m4 \<leftarrow> SetPropStr inst (the prop) (Some (orEmpty val)) m3; Some (rtrn_handled, m4) }
       else do { m4 \<leftarrow> (if inst = 0 then Some m3 else logName inst m3); Some (rtrn_dropped, m4) } } }"

subsection \<open>The core's library\<close>

text \<open>\<open>objectClassMsg\<close> is the address of \<open>ObjectClassMsg\<close>, stored as the handler of the class.\<close>

definition RegisterLibrary :: "ptr \<Rightarrow> machine \<Rightarrow> (ptr \<times> machine) option" where
  "RegisterLibrary library m = do {
     _ \<leftarrow> GetNameStr library (world m);
     m1 \<leftarrow> doNodes (AddChild (regObjList (world m)) library) m;
     m2 \<leftarrow> SetPropLong (regObjList (world m1)) ''LastLibrary'' library m1;
     Some (library, m2) }"

definition UnregisterLibrary :: "ptr \<Rightarrow> machine \<Rightarrow> machine option" where
  "UnregisterLibrary library m = do {
     _ \<leftarrow> GetNameStr library (world m);
     SetPropInt library ''State'' 0 m }"

definition CoreClass :: "ptr \<Rightarrow> string \<Rightarrow> string \<Rightarrow> machine \<Rightarrow> (ptr \<times> machine) option" where
  "CoreClass library name parentname m = do {
     (cls, m1) \<leftarrow> namedNode name m;
     m2 \<leftarrow> SetClassVersion cls (Some ''1'') (Some ''0'') m1;
     (_, m3) \<leftarrow> RegisterClass library cls m2;
     m4 \<leftarrow> (if parentname \<noteq> [] then SetClassParent cls parentname m3 else Some m3);
     Some (cls, m4) }"

definition RegisterCoreClasses :: "ptr \<Rightarrow> machine \<Rightarrow> machine option" where
  "RegisterCoreClasses objectClassMsg m = do {
     (library, m1) \<leftarrow> namedNode ''Framework'' m;
     m2 \<leftarrow> SetPropStr library ''Company'' (Some ''GrokThink'') m1;
     m3 \<leftarrow> SetPropStr library ''File'' (Some ''libframework.so'') m2;
     m4 \<leftarrow> SetPropInt library ''State'' 1 m3;
     (_, m5) \<leftarrow> RegisterLibrary library m4;
     m6 \<leftarrow> SetPropInt library ''Loaded'' 1 m5;
     (obj, m7) \<leftarrow> CoreClass library ''Object'' [] m6;
     m8 \<leftarrow> SetPropLong obj ''ClassMsg'' objectClassMsg m7;
     m9 \<leftarrow> PublishGestures obj ''Script...'' m8;
     SetPropStr obj ''ScriptRows'' (Some ''14'') m9 }"

definition ObjSetRegObjList :: "ptr \<Rightarrow> ptr \<Rightarrow> machine \<Rightarrow> machine option" where
  "ObjSetRegObjList objectClassMsg node m =
     RegisterCoreClasses objectClassMsg (m\<lparr>world := (world m)\<lparr>regObjList := node\<rparr>\<rparr>)"

end
