(* ===== verification/Bytes.thy ===== *)
theory Bytes
  imports Aliases Buff
begin

text \<open>
  What the object modules under \<open>src/objects\<close> share: bytes as numbers, a block filled from its front, and the
  state a module keeps beside the machine.
\<close>

subsection \<open>Bytes\<close>

definition byte :: "char \<Rightarrow> nat" where
  "byte c = of_char c"

lemma byte_less [simp]: "byte c < 256"
  by (simp add: byte_def of_char_lt_256)

lemma byte_char_of [simp]: "byte (char_of (n :: nat)) = n mod 256"
  by (simp add: byte_def)

lemma char_of_byte [simp]: "char_of (byte c) = c"
  by (simp add: byte_def)

lemma byte_eq_iff: "byte a = byte b \<longleftrightarrow> a = b"
  by (metis char_of_byte)

lemma byte_0_iff: "byte c = 0 \<longleftrightarrow> c = NUL"
proof -
  have "byte NUL = 0" by (simp add: byte_def)
  then show ?thesis using byte_eq_iff [of c NUL] by simp
qed

lemma shift_or: "y < 2 ^ n \<Longrightarrow> or (push_bit n x) y = x * 2 ^ n + (y :: nat)"
proof -
  assume y: "y < 2 ^ n"
  then have t: "take_bit n y = y" by (simp add: take_bit_nat_eq_self)
  have "and (push_bit n x) y = 0"
    by (subst t [symmetric]) (auto simp: bit_eq_iff bit_simps)
  then have "or (push_bit n x) y = push_bit n x + y" by (simp add: disjunctive_add_eq_or)
  then show ?thesis by (simp add: push_bit_eq_mult)
qed

lemma and_low: "and x (2 ^ n - 1) = x mod 2 ^ n" for x :: nat
  unfolding mask_eq_exp_minus_1 [symmetric] take_bit_eq_mask [symmetric] take_bit_eq_mod ..

lemmas and_lows = and_low [of _ 2, simplified] and_low [of _ 4, simplified] and_low [of _ 6, simplified]
  and_low [of _ 7, simplified] and_low [of _ 8, simplified]

subsection \<open>Two digits for a byte\<close>

text \<open>\<open>%02X\<close>.\<close>

definition upperHex :: string where
  "upperHex = ''0123456789ABCDEF''"

definition hexByte :: "nat \<Rightarrow> string" where
  "hexByte n = [upperHex ! (n div 16), upperHex ! (n mod 16)]"

lemma hexByte_not_NUL: "n < 256 \<Longrightarrow> NUL \<notin> set (hexByte n)"
proof -
  have u: "NUL \<notin> set upperHex" "length upperHex = 16" by (simp_all add: upperHex_def)
  then have "NUL \<noteq> upperHex ! k" if "k < 16" for k using that u by (metis nth_mem)
  then show "n < 256 \<Longrightarrow> NUL \<notin> set (hexByte n)" by (simp add: hexByte_def less_mult_imp_div_less not_sym)
qed

subsection \<open>A block filled from its front\<close>

text \<open>\<open>out[o++] = c\<close> into a block of \<open>room\<close> bytes, \<open>out\<close> the bytes written so far; writing past the block is
  undefined.  \<open>finish\<close> writes the NUL and leaves the C text of the block.\<close>

definition emit :: "nat \<Rightarrow> string \<Rightarrow> char \<Rightarrow> string option" where
  "emit room out c = (if length out < room then Some (out @ [c]) else None)"

fun emits :: "nat \<Rightarrow> string \<Rightarrow> string \<Rightarrow> string option" where
  "emits room out [] = Some out"
| "emits room out (c # cs) = do { o1 \<leftarrow> emit room out c; emits room o1 cs }"

definition finish :: "nat \<Rightarrow> string \<Rightarrow> string option" where
  "finish room out = (if length out < room then Some (cstr out) else None)"

lemma emits_fit: "length out + length cs \<le> room \<Longrightarrow> emits room out cs = Some (out @ cs)"
  by (induction cs arbitrary: out) (auto simp: emit_def)

lemma emits_append: "emits room out (a @ b) = emits room out a \<bind> (\<lambda>o1. emits room o1 b)"
  by (induction a arbitrary: out) (auto simp: Option.bind_assoc)

subsection \<open>State of a module\<close>

text \<open>The machine and the structs the instances of a module point at with their property \<open>local\<close>.\<close>

record 'l module =
  mach :: machine
  locals :: "ptr \<Rightarrow> 'l option"

definition onMach :: "(machine \<Rightarrow> ('v \<times> machine) option) \<Rightarrow> ('l, 'z) module_scheme \<Rightarrow> ('v \<times> ('l, 'z) module_scheme) option" where
  "onMach f s = do { (v, m) \<leftarrow> f (mach s); Some (v, s\<lparr>mach := m\<rparr>) }"

definition doMach :: "(machine \<Rightarrow> machine option) \<Rightarrow> ('l, 'z) module_scheme \<Rightarrow> ('l, 'z) module_scheme option" where
  "doMach f s = do { m \<leftarrow> f (mach s); Some (s\<lparr>mach := m\<rparr>) }"

text \<open>\<open>(InstanceData *) GetPropLong(instance, "local")\<close>, and reading and writing through it.\<close>

definition localOf :: "ptr \<Rightarrow> ('l, 'z) module_scheme \<Rightarrow> (ptr \<times> ('l, 'z) module_scheme) option" where
  "localOf inst = onMach (onNodes (GetPropLong inst ''local''))"

definition setLocal :: "ptr \<Rightarrow> ('l \<Rightarrow> 'l) \<Rightarrow> ('l, 'z) module_scheme \<Rightarrow> ('l, 'z) module_scheme option" where
  "setLocal p f s = (case locals s p of None \<Rightarrow> None | Some l \<Rightarrow> Some (s\<lparr>locals := (locals s)(p \<mapsto> f l)\<rparr>))"

text \<open>\<open>SetValueStr(GetPropNode(instance, name), text)\<close>: a value put in place without telling subscribers.\<close>

definition mirror :: "ptr \<Rightarrow> string \<Rightarrow> string option \<Rightarrow> machine \<Rightarrow> machine option" where
  "mirror inst name text m = do {
     port \<leftarrow> GetPropNode inst name (world m);
     doNodes (SetValueStr port text) m }"

definition flag :: "bool \<Rightarrow> string" where
  "flag b = (if b then ''1'' else ''0'')"

text \<open>The handlers the converting widgets share: a text or a switch arrives, is put in place, and the output is
  worked out again; \<open>Enable\<close> also sets the flag of the struct, and \<open>Activate\<close> and \<open>InstanceEnd\<close> ask for the struct.\<close>

record gated = enabled :: bool

definition onText :: "(('l, 'z) module_scheme \<Rightarrow> ('l, 'z) module_scheme option) \<Rightarrow> string \<Rightarrow> ptr \<Rightarrow> int \<Rightarrow> ptr \<Rightarrow> ('l, 'z) module_scheme \<Rightarrow> (int \<times> ('l, 'z) module_scheme) option" where
  "onText recompute name inst message data s = (if message = msg_eof then Some (rtrn_handled, s) else do {
     (val, s1) \<leftarrow> onMach (onNodes (GetValueStr data)) s;
     s2 \<leftarrow> doMach (mirror inst name val) s1;
     s3 \<leftarrow> recompute s2;
     Some (rtrn_handled, s3) })"

definition onSwitch :: "(('l, 'z) module_scheme \<Rightarrow> ('l, 'z) module_scheme option) \<Rightarrow> string \<Rightarrow> ptr \<Rightarrow> int \<Rightarrow> ptr \<Rightarrow> ('l, 'z) module_scheme \<Rightarrow> (int \<times> ('l, 'z) module_scheme) option" where
  "onSwitch recompute name inst message data s = (if message = msg_eof then Some (rtrn_handled, s) else do {
     (val, s1) \<leftarrow> onMach (onNodes (GetValueInt data)) s;
     s2 \<leftarrow> doMach (mirror inst name (Some (flag (val \<noteq> 0)))) s1;
     s3 \<leftarrow> recompute s2;
     Some (rtrn_handled, s3) })"

definition onEnable :: "(('l gated_scheme, 'z) module_scheme \<Rightarrow> ('l gated_scheme, 'z) module_scheme option) \<Rightarrow> ptr \<Rightarrow> int \<Rightarrow> ptr
    \<Rightarrow> ('l gated_scheme, 'z) module_scheme \<Rightarrow> (int \<times> ('l gated_scheme, 'z) module_scheme) option" where
  "onEnable recompute inst message data s = do {
     (p, s1) \<leftarrow> localOf inst s;
     if p = 0 \<or> message \<noteq> msg_send then Some (rtrn_dropped, s1)
     else do {
       (val, s2) \<leftarrow> onMach (onNodes (GetValueInt data)) s1;
       s3 \<leftarrow> setLocal p (\<lambda>l. l\<lparr>enabled := (val \<noteq> 0)\<rparr>) s2;
       s4 \<leftarrow> doMach (mirror inst ''Enable'' (Some (flag (val \<noteq> 0)))) s3;
       s5 \<leftarrow> recompute s4;
       Some (rtrn_handled, s5) } }"

definition onActivate :: "(('l, 'z) module_scheme \<Rightarrow> ('l, 'z) module_scheme option) \<Rightarrow> ptr \<Rightarrow> ('l, 'z) module_scheme \<Rightarrow> (int \<times> ('l, 'z) module_scheme) option" where
  "onActivate recompute inst s = do {
     (p, s1) \<leftarrow> localOf inst s;
     if p = 0 then Some (rtrn_dropped, s1)
     else do { s2 \<leftarrow> recompute s1; Some (rtrn_handled, s2) } }"

definition freeLocal :: "ptr \<Rightarrow> ('l, 'z) module_scheme \<Rightarrow> ('l, 'z) module_scheme option" where
  "freeLocal p s = (if locals s p = None then None else Some (s\<lparr>locals := (locals s)(p := None)\<rparr>))"

definition onEnd :: "ptr \<Rightarrow> ('l, 'z) module_scheme \<Rightarrow> (int \<times> ('l, 'z) module_scheme) option" where
  "onEnd inst s = do {
     (p, s1) \<leftarrow> localOf inst s;
     s2 \<leftarrow> (if p = 0 then Some s1 else freeLocal p s1);
     Some (rtrn_handled, s2) }"

text \<open>The flag of an instance: false when it has no struct.\<close>

definition isEnabled :: "ptr \<Rightarrow> ('l gated_scheme, 'z) module_scheme \<Rightarrow> (bool \<times> ('l gated_scheme, 'z) module_scheme) option" where
  "isEnabled inst s = do {
     (p, s1) \<leftarrow> localOf inst s;
     if p = 0 then Some (False, s1)
     else (case locals s1 p of None \<Rightarrow> None | Some l \<Rightarrow> Some (enabled l, s1)) }"

end
