(* ===== verification/Base64.thy ===== *)
theory Base64
  imports Bytes
begin

text \<open>
  \<open>src/objects/base64/base64.c\<close> and \<open>src/objects/bin2hex/bin2hex.c\<close>: text to base64 and back, text to a hex dump,
  and the handlers of the two widgets.  \<open>mem\<close> says which blocks \<open>malloc\<close> grants; the outer \<open>None\<close> of a codec is a
  write outside its block, the inner one NULL.
\<close>

subsection \<open>The base64 codec\<close>

definition EncodeTable :: string where
  "EncodeTable = ''ABCDEFGHIJKLMNOPQRSTUVWXYZabcdefghijklmnopqrstuvwxyz0123456789+/''"

definition Base64Val :: "char \<Rightarrow> int" where
  "Base64Val ch = (let c = int (byte ch) in
     if 65 \<le> c \<and> c \<le> 90 then c - 65
     else if 97 \<le> c \<and> c \<le> 122 then c - 97 + 26
     else if 48 \<le> c \<and> c \<le> 57 then c - 48 + 52
     else if c = 43 then 62
     else if c = 47 then 63
     else -1)"

definition encodeGroup :: "nat \<Rightarrow> string \<Rightarrow> nat \<Rightarrow> string \<Rightarrow> string option" where
  "encodeGroup room text i out =
     (let len = length text;
          a = byte (text ! i);
          b = (if i + 1 < len then byte (text ! (i + 1)) else 0);
          c = (if i + 2 < len then byte (text ! (i + 2)) else 0);
          triple = or (or (push_bit 16 a) (push_bit 8 b)) c
      in do {
        o1 \<leftarrow> emit room out (EncodeTable ! and (drop_bit 18 triple) 63);
        o2 \<leftarrow> emit room o1 (EncodeTable ! and (drop_bit 12 triple) 63);
        o3 \<leftarrow> emit room o2 (if i + 1 < len then EncodeTable ! and (drop_bit 6 triple) 63 else CHR ''='');
        emit room o3 (if i + 2 < len then EncodeTable ! and triple 63 else CHR ''='') })"

function encodeFrom :: "nat \<Rightarrow> string \<Rightarrow> nat \<Rightarrow> string \<Rightarrow> string option" where
  "encodeFrom room text i out = (if i < length text then do {
     o1 \<leftarrow> encodeGroup room text i out;
     encodeFrom room text (i + 3) o1 } else Some out)"
  by pat_completeness auto
termination
  by (relation "measure (\<lambda>(room, text, i, out). length text - i)") auto

declare encodeFrom.simps [simp del]

definition Base64Encode :: "mem \<Rightarrow> string option \<Rightarrow> string option option" where
  "Base64Encode mm text = (let s = (case text of None \<Rightarrow> [] | Some t \<Rightarrow> t); olen = 4 * ((length s + 2) div 3) in
     if \<not> can_alloc mm (olen + 1) then Some None
     else do { out \<leftarrow> encodeFrom (olen + 1) s 0 []; r \<leftarrow> finish (olen + 1) out; Some (Some r) })"

text \<open>The loop of \<open>Base64Decode\<close>: \<open>quad\<close> holds the digits of the open group.\<close>

definition first_octet :: "nat list \<Rightarrow> char" where
  "first_octet quad = char_of (or (push_bit 2 (quad ! 0)) (drop_bit 4 (quad ! 1)))"

definition second_octet :: "nat list \<Rightarrow> char" where
  "second_octet quad = char_of (or (push_bit 4 (and (quad ! 1) 15)) (drop_bit 2 (quad ! 2)))"

definition third_octet :: "nat list \<Rightarrow> char" where
  "third_octet quad = char_of (or (push_bit 6 (and (quad ! 2) 3)) (quad ! 3))"

fun decodeLoop :: "nat \<Rightarrow> string \<Rightarrow> nat list \<Rightarrow> string \<Rightarrow> (nat list \<times> string) option" where
  "decodeLoop room [] quad out = Some (quad, out)"
| "decodeLoop room (c # cs) quad out = (let v = Base64Val c in
     if v < 0 then decodeLoop room cs quad out
     else let quad1 = quad @ [nat v] in
       if length quad1 = 4 then do {
         o1 \<leftarrow> emit room out (first_octet quad1);
         o2 \<leftarrow> emit room o1 (second_octet quad1);
         o3 \<leftarrow> emit room o2 (third_octet quad1);
         decodeLoop room cs [] o3 }
       else decodeLoop room cs quad1 out)"

definition decodeRest :: "nat \<Rightarrow> nat list \<Rightarrow> string \<Rightarrow> string option" where
  "decodeRest room quad out = (if 2 \<le> length quad then do {
     o1 \<leftarrow> emit room out (first_octet quad);
     if 3 \<le> length quad then emit room o1 (second_octet quad) else Some o1 } else Some out)"

definition Base64Decode :: "mem \<Rightarrow> string option \<Rightarrow> string option option" where
  "Base64Decode mm text = (let s = (case text of None \<Rightarrow> [] | Some t \<Rightarrow> t); room = length s + 1 in
     if \<not> can_alloc mm room then Some None
     else do {
       (quad, out) \<leftarrow> decodeLoop room s [] [];
       out1 \<leftarrow> decodeRest room quad out;
       r \<leftarrow> finish room out1;
       Some (Some r) })"

subsection \<open>The hex dump\<close>

fun dumpFrom :: "nat \<Rightarrow> string \<Rightarrow> nat \<Rightarrow> string \<Rightarrow> string option" where
  "dumpFrom room [] i out = Some out"
| "dumpFrom room (c # cs) i out = do {
     o1 \<leftarrow> emits room out (hexByte (byte c) @ [NUL]);
     o2 \<leftarrow> emit room (butlast o1) (if and (i + 1) 15 \<noteq> 0 then CHR '' '' else LF);
     dumpFrom room cs (i + 1) o2 }"

definition Bin2Hex_Encode :: "mem \<Rightarrow> string option \<Rightarrow> string option option" where
  "Bin2Hex_Encode mm text = (let s = (case text of None \<Rightarrow> [] | Some t \<Rightarrow> t); room = length s * 3 + 1 in
     if \<not> can_alloc mm room then Some None
     else do { out \<leftarrow> dumpFrom room s 0 []; r \<leftarrow> finish room out; Some (Some r) })"

subsection \<open>The widgets\<close>

definition Base64_Recompute :: "mem \<Rightarrow> ptr \<Rightarrow> gated module \<Rightarrow> gated module option" where
  "Base64_Recompute mm inst s = do {
     (on, s1) \<leftarrow> isEnabled inst s;
     if \<not> on then Some s1
     else do {
       (input, s2) \<leftarrow> onMach (onNodes (GetPropStr inst ''Input'')) s1;
       (dec, s3) \<leftarrow> onMach (onNodes (GetPropInt inst ''Decode'')) s2;
       out \<leftarrow> (if dec \<noteq> 0 then Base64Decode mm (Some (orEmpty input)) else Base64Encode mm (Some (orEmpty input)));
       doMach (SetPropStr inst ''Output'' (Some (orEmpty out))) s3 } }"

definition Base64_OnInput :: "mem \<Rightarrow> ptr \<Rightarrow> int \<Rightarrow> ptr \<Rightarrow> gated module \<Rightarrow> (int \<times> gated module) option" where
  "Base64_OnInput mm inst = onText (Base64_Recompute mm inst) ''Input'' inst"

definition Base64_OnDecode :: "mem \<Rightarrow> ptr \<Rightarrow> int \<Rightarrow> ptr \<Rightarrow> gated module \<Rightarrow> (int \<times> gated module) option" where
  "Base64_OnDecode mm inst = onSwitch (Base64_Recompute mm inst) ''Decode'' inst"

definition Base64_OnEnable :: "mem \<Rightarrow> ptr \<Rightarrow> int \<Rightarrow> ptr \<Rightarrow> gated module \<Rightarrow> (int \<times> gated module) option" where
  "Base64_OnEnable mm inst = onEnable (Base64_Recompute mm inst) inst"

definition Base64_Activate :: "mem \<Rightarrow> ptr \<Rightarrow> gated module \<Rightarrow> (int \<times> gated module) option" where
  "Base64_Activate mm inst = onActivate (Base64_Recompute mm inst) inst"

definition Base64_InstanceEnd :: "ptr \<Rightarrow> gated module \<Rightarrow> (int \<times> gated module) option" where
  "Base64_InstanceEnd inst = onEnd inst"

definition Bin2Hex_Recompute :: "mem \<Rightarrow> ptr \<Rightarrow> gated module \<Rightarrow> gated module option" where
  "Bin2Hex_Recompute mm inst s = do {
     (on, s1) \<leftarrow> isEnabled inst s;
     if \<not> on then Some s1
     else do {
       (input, s2) \<leftarrow> onMach (onNodes (GetPropStr inst ''Input'')) s1;
       out \<leftarrow> Bin2Hex_Encode mm (Some (orEmpty input));
       doMach (SetPropStr inst ''Output'' (Some (orEmpty out))) s2 } }"

definition Bin2Hex_OnInput :: "mem \<Rightarrow> ptr \<Rightarrow> int \<Rightarrow> ptr \<Rightarrow> gated module \<Rightarrow> (int \<times> gated module) option" where
  "Bin2Hex_OnInput mm inst = onText (Bin2Hex_Recompute mm inst) ''Input'' inst"

definition Bin2Hex_OnEnable :: "mem \<Rightarrow> ptr \<Rightarrow> int \<Rightarrow> ptr \<Rightarrow> gated module \<Rightarrow> (int \<times> gated module) option" where
  "Bin2Hex_OnEnable mm inst = onEnable (Bin2Hex_Recompute mm inst) inst"

definition Bin2Hex_Activate :: "mem \<Rightarrow> ptr \<Rightarrow> gated module \<Rightarrow> (int \<times> gated module) option" where
  "Bin2Hex_Activate mm inst = onActivate (Bin2Hex_Recompute mm inst) inst"

definition Bin2Hex_InstanceEnd :: "ptr \<Rightarrow> gated module \<Rightarrow> (int \<times> gated module) option" where
  "Bin2Hex_InstanceEnd inst = onEnd inst"

end
