(* ===== verification/Base64_Codec.thy ===== *)
theory Base64_Codec
  imports Base64
begin

text \<open>
  Proofs on the codecs: the loops against recursive definitions on lists of bytes, the round trip, and the room
  every write has.
\<close>

subsection \<open>Groups of three bytes\<close>

definition triple_of :: "nat \<Rightarrow> nat \<Rightarrow> nat \<Rightarrow> nat" where
  "triple_of a b c = or (or (push_bit 16 a) (push_bit 8 b)) c"

text \<open>Cut at six bits instead of eight, the three bytes are four numbers below 64.\<close>

lemma sextet_div:
  fixes d0 d1 d2 d3 :: nat
  assumes "d1 < 64" "d2 < 64" "d3 < 64"
  defines "t \<equiv> ((d0 * 64 + d1) * 64 + d2) * 64 + d3"
  shows "t div 64 = (d0 * 64 + d1) * 64 + d2" "t div 4096 = d0 * 64 + d1" "t div 262144 = d0"
    "t mod 64 = d3" "t div 64 mod 64 = d2" "t div 4096 mod 64 = d1"
proof -
  show "t mod 64 = d3" using mod_less [OF assms(3)] by (simp only: t_def mod_mult_self3)
  show 1: "t div 64 = (d0 * 64 + d1) * 64 + d2" using assms(3) by (simp add: t_def)
  have "t div 64 div 64 = d0 * 64 + d1" using assms(2) by (simp add: 1)
  then show 2: "t div 4096 = d0 * 64 + d1" by (simp flip: div_mult2_eq)
  have "t div 4096 div 64 = d0" using assms(1) by (simp add: 2)
  then show "t div 262144 = d0" by (simp flip: div_mult2_eq)
  show "t div 64 mod 64 = d2" "t div 4096 mod 64 = d1"
    unfolding 1 2 mod_mult_self3 using assms by simp_all
qed

lemma triple_sextets:
  assumes "a < 256" "b < 256" "c < 256"
  shows "and (drop_bit 18 (triple_of a b c)) 63 = a div 4"
    and "and (drop_bit 12 (triple_of a b c)) 63 = a mod 4 * 16 + b div 16"
    and "and (drop_bit 6 (triple_of a b c)) 63 = b mod 16 * 4 + c div 64"
    and "and (triple_of a b c) 63 = c mod 64"
proof -
  define d0 d1 d2 d3 where d: "d0 = a div 4" "d1 = a mod 4 * 16 + b div 16" "d2 = b mod 16 * 4 + c div 64" "d3 = c mod 64"
  have "or (push_bit 16 a) (push_bit 8 b) = push_bit 8 (or (push_bit 8 a) b)"
    by (simp add: push_bit_or)
  then have "triple_of a b c = (a * 256 + b) * 256 + c"
    using assms shift_or [of b 8 a] shift_or [of c 8 "a * 256 + b"] by (simp add: triple_of_def)
  also have "\<dots> = ((a div 4 * 4 + a mod 4) * 256 + (b div 16 * 16 + b mod 16)) * 256 + (c div 64 * 64 + c mod 64)"
    by (simp only: div_mult_mod_eq)
  also have "\<dots> = ((d0 * 64 + d1) * 64 + d2) * 64 + d3"
    unfolding d by (simp only: add_mult_distrib mult.assoc add.assoc numeral_times_numeral semiring_norm)
  finally have t: "triple_of a b c = ((d0 * 64 + d1) * 64 + d2) * 64 + d3" .
  have lt: "d0 < 64" "d1 < 64" "d2 < 64" "d3 < 64"
    unfolding d using assms by (simp_all add: less_mult_imp_div_less)
  show "and (drop_bit 18 (triple_of a b c)) 63 = a div 4"
    and "and (drop_bit 12 (triple_of a b c)) 63 = a mod 4 * 16 + b div 16"
    and "and (drop_bit 6 (triple_of a b c)) 63 = b mod 16 * 4 + c div 64"
    and "and (triple_of a b c) 63 = c mod 64"
    unfolding d [symmetric] drop_bit_eq_div and_lows using sextet_div(3-) [OF lt(2-4), of d0, folded t] lt
    by (simp_all del: add_mult_distrib add_mult_distrib2)
qed

text \<open>What the encoder writes, by groups.\<close>

definition digit64 :: "nat \<Rightarrow> char" where
  "digit64 n = EncodeTable ! n"

fun enc64 :: "string \<Rightarrow> string" where
  "enc64 [] = []"
| "enc64 [a] = [digit64 (byte a div 4), digit64 (byte a mod 4 * 16), CHR ''='', CHR ''='']"
| "enc64 [a, b] = [digit64 (byte a div 4), digit64 (byte a mod 4 * 16 + byte b div 16), digit64 (byte b mod 16 * 4), CHR ''='']"
| "enc64 (a # b # c # s) = [digit64 (byte a div 4), digit64 (byte a mod 4 * 16 + byte b div 16),
     digit64 (byte b mod 16 * 4 + byte c div 64), digit64 (byte c mod 64)] @ enc64 s"

lemma length_enc64: "length (enc64 s) = 4 * ((length s + 2) div 3)"
proof (induction s rule: enc64.induct)
  case (4 a b c s)
  have "(length (a # b # c # s) + 2) div 3 = (length s + 2) div 3 + 1" by simp
  with 4 show ?case by simp
qed auto

lemma encodeGroup_enc64:
  assumes "i < length text"
  shows "encodeGroup room text i out = emits room out (enc64 (take 3 (drop i text)))"
proof -
  have *: "encodeGroup room text i out = emits room out [digit64 (and (drop_bit 18 t) 63), digit64 (and (drop_bit 12 t) 63),
      (if i + 1 < length text then digit64 (and (drop_bit 6 t) 63) else CHR ''=''),
      (if i + 2 < length text then digit64 (and t 63) else CHR ''='')]"
    if "t = triple_of (byte (text ! i)) (if i + 1 < length text then byte (text ! (i + 1)) else 0)
      (if i + 2 < length text then byte (text ! (i + 2)) else 0)" for t
    unfolding that by (simp add: encodeGroup_def triple_of_def digit64_def Let_def Option.bind_assoc)
  from assms have a: "drop i text = text ! i # drop (Suc i) text" by (simp add: Cons_nth_drop_Suc)
  show ?thesis
  proof (cases "Suc i < length text")
    case False
    with assms show ?thesis by (subst * [OF refl]) (simp add: a triple_sextets)
  next
    case True
    then have b: "drop (Suc i) text = text ! Suc i # drop (Suc (Suc i)) text" by (simp add: Cons_nth_drop_Suc)
    show ?thesis
    proof (cases "Suc (Suc i) < length text")
      case False
      with True show ?thesis by (subst * [OF refl]) (simp add: a b triple_sextets)
    next
      case c: True
      then have "drop (Suc (Suc i)) text = text ! Suc (Suc i) # drop (Suc (Suc (Suc i))) text"
        by (simp add: Cons_nth_drop_Suc)
      with True c show ?thesis by (subst * [OF refl]) (simp add: a b triple_sextets numeral_3_eq_3)
    qed
  qed
qed

lemma enc64_take: "s \<noteq> [] \<Longrightarrow> enc64 s = enc64 (take 3 s) @ enc64 (drop 3 s)"
  by (cases s rule: enc64.cases) auto

lemma encodeFrom_enc64: "encodeFrom room text i out = emits room out (enc64 (drop i text))"
proof (induction room "text" i out rule: encodeFrom.induct)
  case (1 room src i out)
  show ?case
  proof (cases "i < length src")
    case True
    then have "enc64 (drop i src) = enc64 (take 3 (drop i src)) @ enc64 (drop (i + 3) src)"
      using enc64_take [of "drop i src"] by (simp add: add.commute)
    with True "1.IH" [OF True] show ?thesis
      by (subst encodeFrom.simps) (simp add: emits_append encodeGroup_enc64 cong: Option.bind_cong)
  qed (simp add: encodeFrom.simps)
qed

subsection \<open>Decoding\<close>

text \<open>The digits of a text, everything else left out, and the bytes they carry.\<close>

definition digits64 :: "string \<Rightarrow> nat list" where
  "digits64 s = map nat (filter (\<lambda>v. 0 \<le> v) (map Base64Val s))"

fun dec64 :: "nat list \<Rightarrow> string" where
  "dec64 (a # b # c # d # r) = first_octet [a, b, c, d] # second_octet [a, b, c, d] # third_octet [a, b, c, d] # dec64 r"
| "dec64 [a, b, c] = [first_octet [a, b, c], second_octet [a, b, c]]"
| "dec64 [a, b] = [first_octet [a, b]]"
| "dec64 _ = []"

lemma length_dec64: "length (dec64 ds) \<le> length ds"
  by (induction ds rule: dec64.induct) auto

lemma decode_dec64:
  "length quad < 4 \<Longrightarrow> (do { (q, o1) \<leftarrow> decodeLoop room s quad out; decodeRest room q o1 })
    = emits room out (dec64 (quad @ digits64 s))"
proof (induction s arbitrary: quad out)
  case Nil
  then show ?case
    by (cases quad rule: dec64.cases) (auto simp: digits64_def decodeRest_def first_octet_def second_octet_def)
next
  case (Cons c s)
  show ?case
  proof (cases "Base64Val c < 0")
    case True
    with Cons show ?thesis by (simp add: digits64_def)
  next
    case False
    then have d: "digits64 (c # s) = nat (Base64Val c) # digits64 s" by (simp add: digits64_def)
    show ?thesis
    proof (cases "length quad = 3")
      case True
      then obtain x y z where q: "quad = [x, y, z]" by (auto simp: numeral_3_eq_3 length_Suc_conv)
      show ?thesis
        using False Cons.IH [of "[]"] unfolding d q by (simp add: Let_def Option.bind_assoc)
    next
      case nf: False
      with Cons.prems have "length (quad @ [nat (Base64Val c)]) < 4" by simp
      from Cons.IH [OF this] False nf show ?thesis by (simp add: d Let_def)
    qed
  qed
qed

lemma Base64Decode_digits:
  assumes "can_alloc mm (length s + 1)"
  shows "Base64Decode mm (Some s) = Some (Some (cstr (dec64 (digits64 s))))"
proof -
  have "length (digits64 s) \<le> length s"
    unfolding digits64_def using length_filter_le [of _ "map Base64Val s"] by simp
  then have l: "length (dec64 (digits64 s)) \<le> length s" using length_dec64 le_trans by blast
  then have "(do { (q, o1) \<leftarrow> decodeLoop (length s + 1) s [] []; decodeRest (length s + 1) q o1 })
      = Some (dec64 (digits64 s))"
    by (subst decode_dec64) (simp_all add: emits_fit)
  then show ?thesis
    using assms l by (cases "decodeLoop (length s + 1) s [] []") (auto simp: Base64Decode_def finish_def Let_def)
qed

subsection \<open>The round trip\<close>

lemma val_digit64: "n < 64 \<Longrightarrow> Base64Val (digit64 n) = int n"
proof -
  have "\<forall>k \<in> set [0..<64]. Base64Val (digit64 k) = int k"
    by (simp add: digit64_def EncodeTable_def Base64Val_def byte_def upt_rec)
  then show "n < 64 \<Longrightarrow> Base64Val (digit64 n) = int n" by simp
qed

lemma digits64_simps [simp]:
  "digits64 [] = []" "digits64 (CHR ''='' # s) = digits64 s"
  "n < 64 \<Longrightarrow> digits64 (digit64 n # s) = n # digits64 s"
  by (simp_all add: digits64_def val_digit64) (simp add: Base64Val_def byte_def)

lemma octets:
  assumes "a < 256" "b < 256" "c < 256"
  shows "first_octet (a div 4 # (a mod 4 * 16 + b div 16) # ds) = char_of a"
    and "second_octet (x # (a mod 4 * 16 + b div 16) # (b mod 16 * 4 + c div 64) # ds) = char_of b"
    and "third_octet (x # y # (b mod 16 * 4 + c div 64) # [c mod 64]) = char_of c"
proof -
  have l: "b div 16 < 16" "c div 64 < 4" using assms by (simp_all add: less_mult_imp_div_less)
  then have "(a mod 4 * 16 + b div 16) div 16 = a mod 4" "(a mod 4 * 16 + b div 16) mod 16 = b div 16"
    "(b mod 16 * 4 + c div 64) div 4 = b mod 16" "(b mod 16 * 4 + c div 64) mod 4 = c div 64" by simp_all
  moreover have m: "c div 64 mod 4 = c div 64" using l by simp
  ultimately show "first_octet (a div 4 # (a mod 4 * 16 + b div 16) # ds) = char_of a"
    and "second_octet (x # (a mod 4 * 16 + b div 16) # (b mod 16 * 4 + c div 64) # ds) = char_of b"
    and "third_octet (x # y # (b mod 16 * 4 + c div 64) # [c mod 64]) = char_of c"
    using shift_or [of "a mod 4" 2 "a div 4"] shift_or [of "b mod 16" 4 "b div 16"] shift_or [of "c mod 64" 6 "c div 64"] assms
    by (simp_all add: first_octet_def second_octet_def third_octet_def drop_bit_eq_div and_lows m)
qed

lemma sextet_less: "a < 256 \<Longrightarrow> a div 4 < 64" "b < 256 \<Longrightarrow> a mod 4 * 16 + b div 16 < 64"
  "c < 256 \<Longrightarrow> b mod 16 * 4 + c div 64 < 64" for a b c :: nat
proof -
  show "a < 256 \<Longrightarrow> a div 4 < 64" by (simp add: less_mult_imp_div_less)
  have "a mod 4 < 4" "b mod 16 < 16" by simp_all
  then show "b < 256 \<Longrightarrow> a mod 4 * 16 + b div 16 < 64" "c < 256 \<Longrightarrow> b mod 16 * 4 + c div 64 < 64"
    using less_mult_imp_div_less [of b 16 16] less_mult_imp_div_less [of c 4 64] by linarith+
qed

lemma dec64_enc64: "dec64 (digits64 (enc64 s)) = s"
proof (induction s rule: enc64.induct)
  case (2 a)
  then show ?case
    using octets(1) [of "byte a" 0 0] sextet_less(2) [of 0 "byte a"] by (simp add: sextet_less)
next
  case (3 a b)
  then show ?case
    using octets(1,2) [of "byte a" "byte b" 0] sextet_less(3) [of 0 "byte b"] by (simp add: sextet_less)
next
  case (4 a b c s)
  then show ?case
    using octets [of "byte a" "byte b" "byte c"] by (simp add: sextet_less)
qed simp

lemma digit64_in: "n < 64 \<Longrightarrow> digit64 n \<in> set EncodeTable"
  unfolding digit64_def by (rule nth_mem) (simp add: EncodeTable_def)

lemma enc64_alphabet: "set (enc64 s) \<subseteq> insert (CHR ''='') (set EncodeTable)"
proof (induction s rule: enc64.induct)
  case (2 a)
  then show ?case using sextet_less(2) [of 0 "byte a"] by (simp add: digit64_in sextet_less)
next
  case (3 a b)
  then show ?case using sextet_less(3) [of 0 "byte b"] by (simp add: digit64_in sextet_less)
qed (auto simp: digit64_in sextet_less)

lemma Base64Encode_enc64:
  assumes "can_alloc mm (length (enc64 s) + 1)"
  shows "Base64Encode mm (Some s) = Some (Some (enc64 s))"
proof -
  have "NUL \<notin> set (enc64 s)" using enc64_alphabet [of s] by (auto simp: EncodeTable_def)
  then show ?thesis
    using assms by (simp add: Base64Encode_def Let_def encodeFrom_enc64 emits_fit finish_def length_enc64 cstr_id)
qed

text \<open>C28. Text encoded to base64 comes back when decoded, whatever a transport does to the encoded text with
  characters outside the alphabet: line breaks put in, padding taken off.  The encoded text is four characters of
  the alphabet or padding for every three bytes begun, and both directions stay inside the block they ask for.\<close>

theorem Base64_roundtrip:
  assumes "NUL \<notin> set s" and "\<forall>n. can_alloc mm n"
  shows "\<exists>e. Base64Encode mm (Some s) = Some (Some e) \<and> length e = 4 * ((length s + 2) div 3)
    \<and> set e \<subseteq> insert (CHR ''='') (set EncodeTable)
    \<and> (\<forall>e'. filter (\<lambda>c. 0 \<le> Base64Val c) e' = filter (\<lambda>c. 0 \<le> Base64Val c) e
         \<longrightarrow> Base64Decode mm (Some e') = Some (Some s))"
proof (intro exI conjI allI impI)
  show "Base64Encode mm (Some s) = Some (Some (enc64 s))" using assms(2) by (simp add: Base64Encode_enc64)
  show "length (enc64 s) = 4 * ((length s + 2) div 3)" by (rule length_enc64)
  show "set (enc64 s) \<subseteq> insert (CHR ''='') (set EncodeTable)" by (rule enc64_alphabet)
  fix e' assume "filter (\<lambda>c. 0 \<le> Base64Val c) e' = filter (\<lambda>c. 0 \<le> Base64Val c) (enc64 s)"
  then have "digits64 e' = digits64 (enc64 s)" by (simp add: digits64_def filter_map comp_def)
  then show "Base64Decode mm (Some e') = Some (Some s)"
    using assms by (simp add: Base64Decode_digits dec64_enc64 cstr_id)
qed

theorem Base64_roundtrip_witness:
  "Base64Encode good_mem (Some ''Hello'') = Some (Some ''SGVsbG8='')
    \<and> Base64Decode good_mem (Some ''SGVs bG8'') = Some (Some ''Hello'')"
proof -
  have e: "Base64Encode good_mem (Some ''Hello'') = Some (Some ''SGVsbG8='')"
    by (simp add: Base64Encode_enc64 good_mem_def) (simp add: digit64_def EncodeTable_def byte_def)
  have f: "filter (\<lambda>c. 0 \<le> Base64Val c) ''SGVs bG8'' = filter (\<lambda>c. 0 \<le> Base64Val c) ''SGVsbG8=''"
    by (simp add: Base64Val_def byte_def)
  from Base64_roundtrip [of "''Hello''" good_mem] e f show ?thesis by (simp add: good_mem_def)
qed

subsection \<open>The hex dump\<close>

definition separator :: "nat \<Rightarrow> char" where
  "separator i = (if Suc i mod 16 = 0 then LF else CHR '' '')"

lemma dumpFrom_concat:
  "length out + 3 * length s < room
    \<Longrightarrow> dumpFrom room s i out = Some (out @ concat (map (\<lambda>(k, c). hexByte (byte c) @ [separator k]) (enumerate i s)))"
proof (induction s arbitrary: i out)
  case (Cons c s)
  then have "emits room out (hexByte (byte c) @ [NUL]) = Some (out @ hexByte (byte c) @ [NUL])"
    by (intro emits_fit) (simp add: hexByte_def)
  moreover have "emit room (out @ hexByte (byte c)) (if and (i + 1) 15 \<noteq> 0 then CHR '' '' else LF)
      = Some (out @ hexByte (byte c) @ [separator i])"
    using Cons.prems by (simp add: emit_def hexByte_def separator_def and_lows)
  ultimately show ?case
    using Cons by (simp add: butlast_append hexByte_def)
qed simp

text \<open>The dump of a text fills its block exactly: three characters for every byte, its two digits and a blank,
  or a line end behind every sixteenth.\<close>

theorem Bin2Hex_Encode_dumps:
  assumes "can_alloc mm (length s * 3 + 1)"
  shows "Bin2Hex_Encode mm (Some s)
    = Some (Some (concat (map (\<lambda>(k, c). hexByte (byte c) @ [separator k]) (enumerate 0 s))))"
proof -
  let ?d = "concat (map (\<lambda>(k, c). hexByte (byte c) @ [separator k]) (enumerate 0 s))"
  have "length (concat (map (\<lambda>(k, c). hexByte (byte c) @ [separator k]) (enumerate i s))) = 3 * length s" for i
    by (induction s arbitrary: i) (simp_all add: hexByte_def)
  moreover have "NUL \<notin> set ?d"
    using hexByte_not_NUL by (auto simp: separator_def split: if_splits)
  ultimately show ?thesis
    using assms by (simp add: Bin2Hex_Encode_def Let_def dumpFrom_concat finish_def cstr_id)
qed

theorem Bin2Hex_Encode_dumps_witness: "Bin2Hex_Encode good_mem (Some ''Hi'') = Some (Some ''48 69 '')"
proof -
  have "can_alloc good_mem (length ''Hi'' * 3 + 1)" by (simp add: good_mem_def)
  from Bin2Hex_Encode_dumps [OF this] show ?thesis by (simp add: hexByte_def upperHex_def separator_def byte_def)
qed

end
