(* ===== verification/CharMap.thy ===== *)
theory CharMap
  imports Bytes NodeText Paths
begin

text \<open>
  \<open>src/objects/charactermap/charactermap.c\<close>: a widget that replaces characters as a map written as text says.  The
  table of 256 entries is a list of integers, a token the list of its characters.
\<close>

subsection \<open>Tokens\<close>

text \<open>\<open>CharMap_Base\<close> on the remaining digits; a token has at most four characters, so the \<open>int\<close> does not overflow.\<close>

definition digitOf :: "char \<Rightarrow> int" where
  "digitOf ch = (let c = int (byte ch) in
     if 48 \<le> c \<and> c \<le> 57 then c - 48
     else if 65 \<le> c \<and> c \<le> 70 then c - 65 + 10
     else if 97 \<le> c \<and> c \<le> 102 then c - 97 + 10
     else -1)"

fun CharMap_Base :: "string \<Rightarrow> int \<Rightarrow> int \<Rightarrow> int" where
  "CharMap_Base [] base result = result"
| "CharMap_Base (ch # s) base result =
     (if digitOf ch = -1 then -1
      else if digitOf ch \<ge> base then -1
      else CharMap_Base s base (result * base + digitOf ch))"

definition CharMap_Token :: "string \<Rightarrow> int option" where
  "CharMap_Token token =
     (if token = [] then Some (-1)
      else let buf = take 4 token; len = length buf in
        if len = 1 then Some (int (byte (buf ! 0)))
        else if buf ! 0 = CHR ''%'' then Some (CharMap_Base (drop 1 buf) 16 0)
        else if buf ! 0 = CHR ''0'' \<and> buf ! 1 = CHR ''x'' then Some (CharMap_Base (drop 2 buf) 16 0)
        else if buf ! 0 = CHR 0x5C then
          (if buf ! 1 = CHR ''a'' then Some 7
           else if buf ! 1 = CHR ''b'' then Some 8
           else if buf ! 1 = CHR ''f'' then Some 12
           else if buf ! 1 = CHR ''n'' then Some 10
           else if buf ! 1 = CHR ''r'' then Some 13
           else if buf ! 1 = CHR ''s'' then Some 32
           else if buf ! 1 = CHR ''t'' then Some 9
           else if buf ! 1 = CHR ''v'' then Some 11
           else if buf ! 1 = CHR ''x'' then Some (CharMap_Base (drop 2 buf) 16 0)
           else if buf ! 1 \<in> set ''01234567'' then Some (CharMap_Base (drop 1 buf) 8 0)
           else Some 92)
        else map_option sint (atoi buf))"

subsection \<open>The map\<close>

abbreviation "TAB \<equiv> CHR 0x09"

definition lineEnds :: "char \<Rightarrow> bool" where
  "lineEnds c \<longleftrightarrow> c = LF \<or> c = CR"

definition separates :: "char \<Rightarrow> bool" where
  "separates c \<longleftrightarrow> c = CHR '' '' \<or> c = TAB \<or> c = LF \<or> c = CR"

text \<open>The tokens of one line, the first two kept, and the rest of the text from the line end on.\<close>

function lineTokens :: "string \<Rightarrow> string list \<Rightarrow> string list \<times> string" where
  "lineTokens spec tok =
     (if spec = [] \<or> lineEnds (hd spec) then (tok, spec)
      else if hd spec = CHR '' '' \<or> hd spec = TAB then lineTokens (tl spec) tok
      else let start = takeWhile (\<lambda>c. \<not> separates c) spec in
        lineTokens (dropWhile (\<lambda>c. \<not> separates c) spec) (if length tok < 2 then tok @ [start] else tok))"
  by pat_completeness auto

termination
proof (relation "measure (\<lambda>(spec, tok). length spec)", goal_cases)
  case (3 spec tok x)
  then obtain c cs where "spec = c # cs" "\<not> separates c"
    by (cases spec) (auto simp: separates_def lineEnds_def)
  then show ?case using length_dropWhile_le [of "\<lambda>c. \<not> separates c" cs] by (simp add: le_imp_less_Suc)
qed (auto simp: neq_Nil_conv)

declare lineTokens.simps [simp del]

definition afterLine :: "string \<Rightarrow> string" where
  "afterLine spec = (if take 2 spec = [CR, LF] then drop 2 spec else drop 1 spec)"

definition putEntry :: "string list \<Rightarrow> int list \<Rightarrow> int list option" where
  "putEntry tok table = (if tok = [] then Some table else do {
     av \<leftarrow> CharMap_Token (tok ! 0);
     if 0 \<le> av \<and> av < 256 then do {
       v \<leftarrow> (if 2 \<le> length tok then CharMap_Token (tok ! 1) else Some (-1));
       Some (table[nat av := v]) }
     else Some table })"

lemma length_lineTokens: "length (snd (lineTokens spec tok)) \<le> length spec"
proof (induction spec tok rule: lineTokens.induct)
  case (1 spec tok)
  show ?case
    using "1.IH" length_dropWhile_le [of "\<lambda>c. \<not> separates c" spec]
    by (subst lineTokens.simps) (auto simp: Let_def intro: le_trans)
qed

function buildFrom :: "string \<Rightarrow> int list \<Rightarrow> int list option" where
  "buildFrom spec table = (if spec = [] then Some table
     else case lineTokens spec [] of (tok, rest) \<Rightarrow> do {
       t1 \<leftarrow> putEntry tok table;
       buildFrom (afterLine rest) t1 })"
  by pat_completeness auto

termination
proof (relation "measure (\<lambda>(spec, table). length spec)", goal_cases)
  case (2 spec table x rest)
  then show ?case
    using length_lineTokens [of spec "[]"] by (cases spec; cases rest) (auto simp: afterLine_def dest: sym)
qed simp

declare buildFrom.simps [simp del]

definition CharMap_Build :: "string option \<Rightarrow> int list option" where
  "CharMap_Build spec = (let table = map int [0..<256] in
     case spec of None \<Rightarrow> Some table | Some s \<Rightarrow> buildFrom s table)"

text \<open>The output of \<open>CharMap_Recompute\<close>: \<open>-1\<close> drops a byte.\<close>

fun applyMap :: "nat \<Rightarrow> int list \<Rightarrow> string \<Rightarrow> string \<Rightarrow> string option" where
  "applyMap room table [] out = Some out"
| "applyMap room table (c # s) out = (let k = table ! byte c in
     if 0 \<le> k then do { o1 \<leftarrow> emit room out (char_of k); applyMap room table s o1 }
     else applyMap room table s out)"

definition mapText :: "int list \<Rightarrow> string \<Rightarrow> string option" where
  "mapText table s = do { out \<leftarrow> applyMap (length s + 1) table s []; finish (length s + 1) out }"

definition CharMap_Recompute :: "mem \<Rightarrow> ptr \<Rightarrow> gated module \<Rightarrow> gated module option" where
  "CharMap_Recompute mm inst s = do {
     (on, s1) \<leftarrow> isEnabled inst s;
     if \<not> on then Some s1
     else do {
       (input, s2) \<leftarrow> onMach (onNodes (GetPropStr inst ''Input'')) s1;
       (spec, s3) \<leftarrow> onMach (onNodes (GetPropStr inst ''Map'')) s2;
       table \<leftarrow> CharMap_Build spec;
       if \<not> can_alloc mm (length (orEmpty input) + 1) then Some s3
       else do {
         out \<leftarrow> mapText table (orEmpty input);
         doMach (SetPropStr inst ''Output'' (Some out)) s3 } } }"

subsection \<open>Presets\<close>

text \<open>The two tables by the rows they are written in.\<close>

definition ascii2ebcdic_rows :: "nat list list" where
  "ascii2ebcdic_rows = [
     [0x00, 0x01, 0x02, 0x03, 0x37, 0x2D, 0x2E, 0x2F, 0x16, 0x05, 0x25, 0x0B, 0x0C, 0x0D, 0x0E, 0x0F],
     [0x10, 0x11, 0x12, 0x13, 0x3C, 0x3D, 0x32, 0x26, 0x18, 0x19, 0x3F, 0x27, 0x1C, 0x1D, 0x1E, 0x1F],
     [0x40, 0x5A, 0x7F, 0x7B, 0x5B, 0x6C, 0x50, 0x7D, 0x4D, 0x5D, 0x5C, 0x4E, 0x6B, 0x60, 0x4B, 0x61],
     [0xF0, 0xF1, 0xF2, 0xF3, 0xF4, 0xF5, 0xF6, 0xF7, 0xF8, 0xF9, 0x7A, 0x5E, 0x4C, 0x7E, 0x6E, 0x6F],
     [0x7C, 0xC1, 0xC2, 0xC3, 0xC4, 0xC5, 0xC6, 0xC7, 0xC8, 0xC9, 0xD1, 0xD2, 0xD3, 0xD4, 0xD5, 0xD6],
     [0xD7, 0xD8, 0xD9, 0xE2, 0xE3, 0xE4, 0xE5, 0xE6, 0xE7, 0xE8, 0xE9, 0xAD, 0xE0, 0xBD, 0x9A, 0x6D],
     [0x79, 0x81, 0x82, 0x83, 0x84, 0x85, 0x86, 0x87, 0x88, 0x89, 0x91, 0x92, 0x93, 0x94, 0x95, 0x96],
     [0x97, 0x98, 0x99, 0xA2, 0xA3, 0xA4, 0xA5, 0xA6, 0xA7, 0xA8, 0xA9, 0xC0, 0x4F, 0xD0, 0x5F, 0x07],
     [0x20, 0x21, 0x22, 0x23, 0x24, 0x15, 0x06, 0x17, 0x28, 0x29, 0x2A, 0x2B, 0x2C, 0x09, 0x0A, 0x1B],
     [0x30, 0x31, 0x1A, 0x33, 0x34, 0x35, 0x36, 0x08, 0x38, 0x39, 0x3A, 0x3B, 0x04, 0x14, 0x3E, 0xE1],
     [0x41, 0x42, 0x43, 0x44, 0x45, 0x46, 0x47, 0x48, 0x49, 0x51, 0x52, 0x53, 0x54, 0x55, 0x56, 0x57],
     [0x58, 0x59, 0x62, 0x63, 0x64, 0x65, 0x66, 0x67, 0x68, 0x69, 0x70, 0x71, 0x72, 0x73, 0x74, 0x75],
     [0x76, 0x77, 0x78, 0x80, 0x8A, 0x8B, 0x8C, 0x8D, 0x8E, 0x8F, 0x90, 0x6A, 0x9B, 0x9C, 0x9D, 0x9E],
     [0x9F, 0xA0, 0xAA, 0xAB, 0xAC, 0x4A, 0xAE, 0xAF, 0xB0, 0xB1, 0xB2, 0xB3, 0xB4, 0xB5, 0xB6, 0xB7],
     [0xB8, 0xB9, 0xBA, 0xBB, 0xBC, 0xA1, 0xBE, 0xBF, 0xCA, 0xCB, 0xCC, 0xCD, 0xCE, 0xCF, 0xDA, 0xDB],
     [0xDC, 0xDD, 0xDE, 0xDF, 0xEA, 0xEB, 0xEC, 0xED, 0xEE, 0xEF, 0xFA, 0xFB, 0xFC, 0xFD, 0xFE, 0xFF]]"

definition ebcdic2ascii_rows :: "nat list list" where
  "ebcdic2ascii_rows = [
     [0x00, 0x01, 0x02, 0x03, 0x9C, 0x09, 0x86, 0x7F, 0x97, 0x8D, 0x8E, 0x0B, 0x0C, 0x0D, 0x0E, 0x0F],
     [0x10, 0x11, 0x12, 0x13, 0x9D, 0x85, 0x08, 0x87, 0x18, 0x19, 0x92, 0x8F, 0x1C, 0x1D, 0x1E, 0x1F],
     [0x80, 0x81, 0x82, 0x83, 0x84, 0x0A, 0x17, 0x1B, 0x88, 0x89, 0x8A, 0x8B, 0x8C, 0x05, 0x06, 0x07],
     [0x90, 0x91, 0x16, 0x93, 0x94, 0x95, 0x96, 0x04, 0x98, 0x99, 0x9A, 0x9B, 0x14, 0x15, 0x9E, 0x1A],
     [0x20, 0xA0, 0xA1, 0xA2, 0xA3, 0xA4, 0xA5, 0xA6, 0xA7, 0xA8, 0x5B, 0x2E, 0x3C, 0x28, 0x2B, 0x21],
     [0x26, 0xA9, 0xAA, 0xAB, 0xAC, 0xAD, 0xAE, 0xAF, 0xB0, 0xB1, 0x5D, 0x24, 0x2A, 0x29, 0x3B, 0x5E],
     [0x2D, 0x2F, 0xB2, 0xB3, 0xB4, 0xB5, 0xB6, 0xB7, 0xB8, 0xB9, 0x7C, 0x2C, 0x25, 0x5F, 0x3E, 0x3F],
     [0xBA, 0xBB, 0xBC, 0xBD, 0xBE, 0xBF, 0xC0, 0xC1, 0xC2, 0x60, 0x3A, 0x23, 0x40, 0x27, 0x3D, 0x22],
     [0xC3, 0x61, 0x62, 0x63, 0x64, 0x65, 0x66, 0x67, 0x68, 0x69, 0xC4, 0xC5, 0xC6, 0xC7, 0xC8, 0xC9],
     [0xCA, 0x6A, 0x6B, 0x6C, 0x6D, 0x6E, 0x6F, 0x70, 0x71, 0x72, 0xCB, 0xCC, 0xCD, 0xCE, 0xCF, 0xD0],
     [0xD1, 0x7E, 0x73, 0x74, 0x75, 0x76, 0x77, 0x78, 0x79, 0x7A, 0xD2, 0xD3, 0xD4, 0xD5, 0xD6, 0xD7],
     [0xD8, 0xD9, 0xDA, 0xDB, 0xDC, 0xDD, 0xDE, 0xDF, 0xE0, 0xE1, 0xE2, 0xE3, 0xE4, 0xE5, 0xE6, 0xE7],
     [0x7B, 0x41, 0x42, 0x43, 0x44, 0x45, 0x46, 0x47, 0x48, 0x49, 0xE8, 0xE9, 0xEA, 0xEB, 0xEC, 0xED],
     [0x7D, 0x4A, 0x4B, 0x4C, 0x4D, 0x4E, 0x4F, 0x50, 0x51, 0x52, 0xEE, 0xEF, 0xF0, 0xF1, 0xF2, 0xF3],
     [0x5C, 0x9F, 0x53, 0x54, 0x55, 0x56, 0x57, 0x58, 0x59, 0x5A, 0xF4, 0xF5, 0xF6, 0xF7, 0xF8, 0xF9],
     [0x30, 0x31, 0x32, 0x33, 0x34, 0x35, 0x36, 0x37, 0x38, 0x39, 0xFA, 0xFB, 0xFC, 0xFD, 0xFE, 0xFF]]"

definition ascii2ebcdic :: "nat list" where
  "ascii2ebcdic = concat ascii2ebcdic_rows"

definition ebcdic2ascii :: "nat list" where
  "ebcdic2ascii = concat ebcdic2ascii_rows"

text \<open>The lines \<open>0x%02X 0x%02X\<close> and \<open>%c %c\<close> of a map.\<close>

definition hexLine :: "nat \<Rightarrow> nat \<Rightarrow> string" where
  "hexLine i e = ''0x'' @ hexByte i @ '' 0x'' @ hexByte e @ [LF]"

definition charLine :: "nat \<Rightarrow> nat \<Rightarrow> string" where
  "charLine a b = [char_of a, CHR '' '', char_of b, LF]"

text \<open>A loop of \<open>sprintf\<close> into a block of \<open>room\<close> bytes: each call writes a line and a NUL after it.\<close>

fun printLines :: "nat \<Rightarrow> string list \<Rightarrow> string \<Rightarrow> string option" where
  "printLines room [] buf = (if length buf < room then Some buf else None)"
| "printLines room (line # lines) buf = (if length buf + length line < room then printLines room lines (buf @ line) else None)"

definition strs :: "(string \<times> string) list" where
  "strs = [(''Strip CR (Win->Unix)'', [CHR 0x5C] @ ''r''), (''CR->LF (Mac->Unix)'', [CHR 0x5C] @ ''r '' @ [CHR 0x5C] @ ''n''),
     (''LF->CR (Unix->Mac)'', [CHR 0x5C] @ ''n '' @ [CHR 0x5C] @ ''r''), (''Backslash->Slash'', ''0x5C 0x2F''),
     (''Slash->Backslash'', ''0x2F 0x5C''), (''Comma->Tab (CSV->TSV)'', '', '' @ [CHR 0x5C] @ ''t''),
     (''Tab->Comma (TSV->CSV)'', [CHR 0x5C] @ ''t ,''), (''Strip Tabs'', [CHR 0x5C] @ ''t''),
     (''Swap Quotes'', [CHR 0x22, CHR '' '', CHR 0x27, LF, CHR 0x27, CHR '' '', CHR 0x22]),
     (''Swap Brackets'', ''{ ['' @ [LF] @ ''} ]'' @ [LF] @ ''[ {'' @ [LF] @ ''] }'')]"

definition CharMap_PresetText :: "mem \<Rightarrow> string option \<Rightarrow> string option option" where
  "CharMap_PresetText mm name = (case name of None \<Rightarrow> Some None | Some nm \<Rightarrow>
     if nm = [] then Some None
     else (case map_of strs nm of
       Some text \<Rightarrow> Some (if can_alloc mm (length text + 1) then Some text else None)
     | None \<Rightarrow>
         if nm = ''Upper Case'' \<or> nm = ''Lower Case'' then
           let up = (nm = ''Upper Case''); room = 26 * 5 + 1 in
           if \<not> can_alloc mm room then Some None
           else map_option Some (printLines room
             (map (\<lambda>i. charLine ((if up then 97 else 65) + i) ((if up then 65 else 97) + i)) [0..<26]) [])
         else if nm = ''ROT13'' then
           let room = 52 * 5 + 1 in
           if \<not> can_alloc mm room then Some None
           else map_option Some (printLines room (concat (map (\<lambda>i.
             [charLine (65 + i) (65 + (i + 13) mod 26), charLine (97 + i) (97 + (i + 13) mod 26)]) [0..<26])) [])
         else if nm = ''ASCII to EBCDIC'' \<or> nm = ''EBCDIC to ASCII'' then
           let tbl = (if nm = ''ASCII to EBCDIC'' then ascii2ebcdic else ebcdic2ascii); room = 256 * 11 + 1 in
           if \<not> can_alloc mm room then Some None
           else map_option Some (printLines room
             (map (\<lambda>i. hexLine i (tbl ! i)) (filter (\<lambda>i. tbl ! i \<noteq> i) [0..<256])) [])
         else Some None))"

subsection \<open>The handlers\<close>

definition CharMap_OnInput :: "mem \<Rightarrow> ptr \<Rightarrow> int \<Rightarrow> ptr \<Rightarrow> gated module \<Rightarrow> (int \<times> gated module) option" where
  "CharMap_OnInput mm inst = onText (CharMap_Recompute mm inst) ''Input'' inst"

definition CharMap_OnMap :: "ptr \<Rightarrow> int \<Rightarrow> ptr \<Rightarrow> gated module \<Rightarrow> (int \<times> gated module) option" where
  "CharMap_OnMap inst = onText Some ''Map'' inst"

definition CharMap_OnPreset :: "mem \<Rightarrow> caller \<Rightarrow> ptr \<Rightarrow> int \<Rightarrow> ptr \<Rightarrow> gated module \<Rightarrow> (int \<times> gated module) option" where
  "CharMap_OnPreset mm call inst message data s = (if message = msg_eof then Some (rtrn_handled, s) else do {
     (name, s1) \<leftarrow> onMach (onNodes (GetValueStr data)) s;
     s2 \<leftarrow> doMach (mirror inst ''Preset'' (Some (orEmpty name))) s1;
     text \<leftarrow> CharMap_PresetText mm name;
     (case text of None \<Rightarrow> Some (rtrn_handled, s2)
      | Some t \<Rightarrow> do {
          ((found, vpath), s3) \<leftarrow> onMach (PathOfInstance inst 256) s2;
          if \<not> found then Some (rtrn_handled, s3)
          else do {
            (box, s4) \<leftarrow> onMach (\<lambda>m. Some (ResolvePath (take 319 (vpath @ ''/Map'')) m)) s3;
            s5 \<leftarrow> (if box \<noteq> 0 then doMach (SetOrDeliverProp call box ''Value'' (Some t)) s4 else Some s4);
            Some (rtrn_handled, s5) } }) })"

definition CharMap_OnEnable :: "mem \<Rightarrow> ptr \<Rightarrow> int \<Rightarrow> ptr \<Rightarrow> gated module \<Rightarrow> (int \<times> gated module) option" where
  "CharMap_OnEnable mm inst = onEnable (CharMap_Recompute mm inst) inst"

definition CharMap_Activate :: "mem \<Rightarrow> ptr \<Rightarrow> gated module \<Rightarrow> (int \<times> gated module) option" where
  "CharMap_Activate mm inst = onActivate (CharMap_Recompute mm inst) inst"

definition CharMap_InstanceEnd :: "ptr \<Rightarrow> gated module \<Rightarrow> (int \<times> gated module) option" where
  "CharMap_InstanceEnd inst = onEnd inst"

end
