(* ===== verification/CharMap_Presets.thy ===== *)
theory CharMap_Presets
  imports CharMap
begin

text \<open>
  Proofs on the character map: what a map made of lines means, what the presets therefore do to a text, and what
  becomes of a token that is no character.
\<close>

subsection \<open>A map of two tokens a line\<close>

definition clean :: "string \<Rightarrow> bool" where
  "clean token \<longleftrightarrow> token \<noteq> [] \<and> (\<forall>c \<in> set token. \<not> separates c)"

definition mapLine :: "string \<Rightarrow> string \<Rightarrow> string" where
  "mapLine a b = a @ CHR '' '' # b @ [LF]"

lemma take_clean:
  assumes "clean a" and "separates s"
  shows "takeWhile (\<lambda>c. \<not> separates c) (a @ s # rest) = a" "dropWhile (\<lambda>c. \<not> separates c) (a @ s # rest) = s # rest"
  using assms by (auto simp: clean_def takeWhile_append2 dropWhile_append2)

lemma clean_head: "clean a \<Longrightarrow> a @ rest \<noteq> [] \<and> \<not> lineEnds (hd (a @ rest)) \<and> hd (a @ rest) \<noteq> CHR '' '' \<and> hd (a @ rest) \<noteq> TAB"
  by (cases a) (auto simp: clean_def separates_def lineEnds_def)

lemma lineTokens_token:
  assumes "clean a" "separates s" "length tok < 2"
  shows "lineTokens (a @ s # rest) tok = lineTokens (s # rest) (tok @ [a])"
  using clean_head [OF assms(1), of "s # rest"] assms(3)
  by (subst lineTokens.simps) (simp add: Let_def take_clean [OF assms(1,2)])

lemma lineTokens_line: "clean a \<Longrightarrow> clean b \<Longrightarrow> lineTokens (mapLine a b @ rest) [] = ([a, b], LF # rest)"
  unfolding mapLine_def
  by (simp add: lineTokens_token separates_def lineTokens.simps [of "CHR '' '' # _"] lineTokens.simps [of "LF # _"] lineEnds_def)

lemma buildFrom_line:
  assumes "clean a" "clean b" "CharMap_Token a = Some (int i)" "CharMap_Token b = Some v" "i < 256"
  shows "buildFrom (mapLine a b @ rest) table = buildFrom rest (table[i := v])"
proof -
  have "mapLine a b \<noteq> []" by (simp add: mapLine_def)
  then show ?thesis
    using assms lineTokens_line [OF assms(1,2), of rest]
    by (subst buildFrom.simps) (simp add: putEntry_def afterLine_def)
qed

text \<open>A list of lines as updates of the table.\<close>

fun updates :: "(nat \<times> int) list \<Rightarrow> int list \<Rightarrow> int list" where
  "updates [] table = table"
| "updates ((i, v) # us) table = updates us (table[i := v])"

definition entry :: "string \<times> string \<Rightarrow> nat \<times> int \<Rightarrow> bool" where
  "entry = (\<lambda>(a, b) (i, v). clean a \<and> clean b \<and> CharMap_Token a = Some (int i) \<and> i < 256 \<and> CharMap_Token b = Some v)"

lemma buildFrom_lines:
  "list_all2 entry ls us \<Longrightarrow> buildFrom (concat (map (\<lambda>(a, b). mapLine a b) ls)) table = Some (updates us table)"
proof (induction ls us arbitrary: table rule: list_all2_induct)
  case Nil
  then show ?case by (simp add: buildFrom.simps)
next
  case (Cons l ls u us)
  then show ?case by (auto simp: entry_def buildFrom_line split: prod.splits)
qed

lemma length_updates [simp]: "length (updates us table) = length table"
  by (induction us table rule: updates.induct) simp_all

lemma updates_nth:
  "j < length table \<Longrightarrow> updates (map (\<lambda>i. (i, f i)) is) table ! j = (if j \<in> set is then f j else table ! j)"
  by (induction "is" arbitrary: table) (auto simp: nth_list_update)

text \<open>A map whose lines say \<open>f\<close> wherever \<open>f\<close> moves a byte is the table of \<open>f\<close>, and maps a text byte by byte.\<close>

definition tableOf :: "(nat \<Rightarrow> nat) \<Rightarrow> int list" where
  "tableOf f = map (\<lambda>i. int (f i)) [0..<256]"

definition conv :: "(nat \<Rightarrow> nat) \<Rightarrow> string \<Rightarrow> string" where
  "conv f = map (\<lambda>c. char_of (f (byte c)))"

lemma CharMap_Build_lines:
  assumes "list_all2 entry ls (map (\<lambda>i. (i, int (f i))) is)" and "\<forall>i < 256. i \<notin> set is \<longrightarrow> f i = i"
  shows "CharMap_Build (Some (concat (map (\<lambda>(a, b). mapLine a b) ls))) = Some (tableOf f)"
proof -
  let ?t = "updates (map (\<lambda>i. (i, int (f i))) is) (map int [0..<256])"
  have "?t = tableOf f"
    by (rule nth_equalityI) (use assms(2) in \<open>auto simp: tableOf_def updates_nth\<close>)
  then show ?thesis using buildFrom_lines [OF assms(1)] by (simp add: CharMap_Build_def Let_def)
qed

lemma applyMap_conv:
  "\<forall>i < 256. f i < 256 \<Longrightarrow> length out + length s < room \<Longrightarrow> applyMap room (tableOf f) s out = Some (out @ conv f s)"
proof (induction s arbitrary: out)
  case (Cons c s)
  have "tableOf f ! byte c = int (f (byte c))" by (simp add: tableOf_def)
  moreover have "char_of (int n) = (char_of n :: char)" for n by (simp add: char_of_def bit_simps)
  ultimately show ?case using Cons by (simp add: conv_def emit_def)
qed (simp add: conv_def)

lemma mapText_conv:
  assumes "\<forall>i < 256. f i < 256" "\<forall>i < 256. f i = 0 \<longrightarrow> i = 0" "NUL \<notin> set s"
  shows "mapText (tableOf f) s = Some (conv f s)" "NUL \<notin> set (conv f s)"
proof -
  have "char_of (f (byte c)) \<noteq> NUL" if "c \<in> set s" for c
  proof -
    have "f (byte c) \<noteq> 0" using assms that byte_0_iff [of c] by (metis byte_less)
    then show ?thesis using assms(1) by (metis byte_0_iff byte_char_of byte_less mod_less)
  qed
  then show n: "NUL \<notin> set (conv f s)" by (force simp: conv_def)
  show "mapText (tableOf f) s = Some (conv f s)"
    using applyMap_conv [OF assms(1), of "[]" s "length s + 1"] n
    by (simp add: mapText_def finish_def cstr_id) (simp add: conv_def)
qed

subsection \<open>The tokens of the presets\<close>

lemma upperHex_digit: "k < 16 \<Longrightarrow> digitOf (upperHex ! k) = int k \<and> \<not> separates (upperHex ! k)"
  by (drule less_16_cases) (auto simp: upperHex_def digitOf_def separates_def byte_def)

lemma hex_token:
  assumes "n < 256"
  shows "CharMap_Token (''0x'' @ hexByte n) = Some (int n)" "clean (''0x'' @ hexByte n)"
proof -
  have d: "n div 16 < 16" "n mod 16 < 16" using assms by (simp_all add: less_mult_imp_div_less)
  have "CharMap_Base [upperHex ! q, upperHex ! r] 16 0 = int (q * 16 + r)" if "q < 16" "r < 16" for q r
    using that by (simp add: upperHex_digit)
  from this [OF d] have "CharMap_Base (hexByte n) 16 0 = int n" by (simp add: hexByte_def)
  then show "CharMap_Token (''0x'' @ hexByte n) = Some (int n)"
    by (simp add: CharMap_Token_def hexByte_def)
  show "clean (''0x'' @ hexByte n)"
    using d by (auto simp: clean_def hexByte_def upperHex_digit) (simp_all add: separates_def)
qed

lemma char_token: "\<not> separates (char_of n) \<Longrightarrow> n < 256 \<Longrightarrow> CharMap_Token [char_of n] = Some (int n) \<and> clean [char_of n]"
  for n :: nat by (simp add: CharMap_Token_def clean_def)

lemma printLines_fit: "length buf + length (concat lines) < room \<Longrightarrow> printLines room lines buf = Some (buf @ concat lines)"
  by (induction lines arbitrary: buf) auto

lemma hexLine_mapLine: "hexLine i e = mapLine (''0x'' @ hexByte i) (''0x'' @ hexByte e)"
  by (simp add: hexLine_def mapLine_def)

lemma charLine_mapLine: "charLine a b = mapLine [char_of a] [char_of b]"
  by (simp add: charLine_def mapLine_def)

subsection \<open>EBCDIC and back\<close>

lemma concat_rows:
  "\<forall>r \<in> set rows. length r = 16 \<Longrightarrow> i < 16 * length rows \<Longrightarrow> concat rows ! i = rows ! (i div 16) ! (i mod 16)"
proof (induction rows arbitrary: i)
  case (Cons r rows)
  show ?case
  proof (cases "i < 16")
    case True
    with Cons.prems show ?thesis by (simp add: nth_append)
  next
    case False
    then have "i div 16 = Suc ((i - 16) div 16)" "i mod 16 = (i - 16) mod 16" by (simp_all add: le_div_geq le_mod_geq)
    with False Cons.prems Cons.IH [of "i - 16"] show ?thesis by (simp add: nth_append)
  qed
qed simp

lemma table_rows:
  "list_all (\<lambda>r. length r = 16 \<and> list_all (\<lambda>n. n < 256) r) ascii2ebcdic_rows" "length ascii2ebcdic_rows = 16"
  "list_all (\<lambda>r. length r = 16 \<and> list_all (\<lambda>n. n < 256) r) ebcdic2ascii_rows" "length ebcdic2ascii_rows = 16"
  by (simp_all add: ascii2ebcdic_rows_def ebcdic2ascii_rows_def)

lemma rows_of_table:
  assumes "list_all (\<lambda>r. length r = 16 \<and> list_all (\<lambda>n. n < 256) r) rows" "length rows = 16"
  shows "length (concat rows) = 256" "i < 256 \<Longrightarrow> concat rows ! i = rows ! (i div 16) ! (i mod 16)" "i < 256 \<Longrightarrow> concat rows ! i < 256"
proof -
  have l: "\<forall>r \<in> set rows. length r = 16" and b: "\<forall>n \<in> set (concat rows). n < 256"
    using assms(1) by (auto simp: list_all_iff)
  have "map length rows = replicate 16 16" using l assms(2) by (simp add: map_replicate_const cong: map_cong)
  then show n: "length (concat rows) = 256" by (simp add: length_concat sum_list_replicate)
  show "i < 256 \<Longrightarrow> concat rows ! i = rows ! (i div 16) ! (i mod 16)" using concat_rows [OF l] assms(2) by simp
  show "i < 256 \<Longrightarrow> concat rows ! i < 256" using b n by (metis nth_mem)
qed

text \<open>What becomes of a byte that goes to EBCDIC and back.\<close>

definition mixed :: "nat \<Rightarrow> nat" where
  "mixed n = (if n = 33 then 93 else if n = 91 then 213 else if n = 93 then 229 else if n = 94 then 203 else if n = 124 then 33
     else if n = 126 then 94 else if n = 203 then 124 else if n = 213 then 91 else if n = 229 then 126 else n)"

lemma mixed_rows: "map (map (\<lambda>n. ebcdic2ascii_rows ! (n div 16) ! (n mod 16))) ascii2ebcdic_rows
    = map (\<lambda>k. map mixed [16 * k..<16 * k + 16]) [0..<16]"
  by (simp add: ascii2ebcdic_rows_def ebcdic2ascii_rows_def upt_rec mixed_def)

lemma ebcdic_back: "i < 256 \<Longrightarrow> ebcdic2ascii ! (ascii2ebcdic ! i) = mixed i"
proof -
  assume i: "i < 256"
  let ?q = "i div 16" and ?r = "i mod 16"
  have q: "?q < 16" "?r < 16" using i by (simp_all add: less_mult_imp_div_less)
  note a = rows_of_table [OF table_rows(1,2), folded ascii2ebcdic_def] and e = rows_of_table [OF table_rows(3,4), folded ebcdic2ascii_def]
  have len: "length (ascii2ebcdic_rows ! ?q) = 16"
    using q table_rows(1,2) by (auto simp: list_all_length)
  have "ebcdic2ascii ! (ascii2ebcdic ! i)
      = map (map (\<lambda>n. ebcdic2ascii_rows ! (n div 16) ! (n mod 16))) ascii2ebcdic_rows ! ?q ! ?r"
    using i q len a e(2) table_rows(2) by simp
  also have "\<dots> = mixed i" unfolding mixed_rows using q by simp
  finally show ?thesis .
qed

lemma hex_lines:
  fixes f :: "nat \<Rightarrow> nat"
  assumes "\<forall>i < 256. f i < 256"
  defines "is \<equiv> filter (\<lambda>i. f i \<noteq> i) [0..<256]"
  defines "lines \<equiv> map (\<lambda>i. hexLine i (f i)) is"
  shows "CharMap_Build (Some (concat lines)) = Some (tableOf f)" "printLines (256 * 11 + 1) lines [] = Some (concat lines)"
proof -
  let ?ls = "map (\<lambda>i. (''0x'' @ hexByte i, ''0x'' @ hexByte (f i))) is"
  have "list_all2 entry ?ls (map (\<lambda>i. (i, int (f i))) is)"
    using assms(1) by (auto simp: list_all2_map1 list_all2_map2 list_all2_same is_def entry_def hex_token simp del: append.simps)
  from CharMap_Build_lines [OF this] show "CharMap_Build (Some (concat lines)) = Some (tableOf f)"
    by (simp add: lines_def is_def comp_def hexLine_mapLine del: append.simps)
  have "length (concat lines) = 10 * length is" unfolding lines_def by (induction "is") (simp_all add: hexLine_def hexByte_def)
  moreover have "length is \<le> 256" unfolding is_def using length_filter_le [of _ "[0..<256]"] by simp
  ultimately show "printLines (256 * 11 + 1) lines [] = Some (concat lines)" by (simp add: printLines_fit)
qed

lemma EBCDIC_preset:
  assumes "nm = ''ASCII to EBCDIC'' \<and> tbl = ascii2ebcdic \<or> nm = ''EBCDIC to ASCII'' \<and> tbl = ebcdic2ascii" and "\<forall>n. can_alloc mm n"
  shows "\<exists>t. CharMap_PresetText mm (Some nm) = Some (Some t) \<and> CharMap_Build (Some t) = Some (tableOf ((!) tbl))"
proof -
  have "\<forall>i < 256. tbl ! i < 256"
    using assms(1) rows_of_table(3) [OF table_rows(1,2)] rows_of_table(3) [OF table_rows(3,4)]
    by (auto simp: ascii2ebcdic_def ebcdic2ascii_def)
  note l = hex_lines [OF this]
  have "CharMap_PresetText mm (Some nm)
      = map_option Some (printLines (256 * 11 + 1) (map (\<lambda>i. hexLine i (tbl ! i)) (filter (\<lambda>i. tbl ! i \<noteq> i) [0..<256])) [])"
    using assms by (elim disjE) (simp_all add: CharMap_PresetText_def strs_def Let_def del: printLines.simps upt_conv_Cons)
  then show ?thesis using l by simp
qed

lemma zero_first: "list_all (\<lambda>n. n \<noteq> 0) (tl t) \<Longrightarrow> i < length t \<Longrightarrow> t ! i = 0 \<Longrightarrow> i = (0 :: nat)" for t :: "nat list"
  by (cases t; cases i) (auto simp: list_all_length)

lemma tables_zero: "list_all (\<lambda>n. n \<noteq> 0) (tl ascii2ebcdic)" "list_all (\<lambda>n. n \<noteq> 0) (tl ebcdic2ascii)"
  by (simp_all add: ascii2ebcdic_def ebcdic2ascii_def ascii2ebcdic_rows_def ebcdic2ascii_rows_def)

text \<open>The tables \<open>ASCII to EBCDIC\<close> and \<open>EBCDIC to ASCII\<close> are not each other's inverse: a text sent one way and
  back keeps all its bytes but nine, which turn into each other.  An exclamation mark comes back as a bracket.\<close>

theorem EBCDIC_and_back:
  assumes "NUL \<notin> set s" and "\<forall>n. can_alloc mm n"
  shows "\<exists>t1 t2 m1 m2 e. CharMap_PresetText mm (Some ''ASCII to EBCDIC'') = Some (Some t1) \<and> CharMap_Build (Some t1) = Some m1
    \<and> CharMap_PresetText mm (Some ''EBCDIC to ASCII'') = Some (Some t2) \<and> CharMap_Build (Some t2) = Some m2
    \<and> mapText m1 s = Some e \<and> mapText m2 e = Some (map (\<lambda>c. char_of (mixed (byte c))) s)"
proof -
  obtain t1 where t1: "CharMap_PresetText mm (Some ''ASCII to EBCDIC'') = Some (Some t1)"
      "CharMap_Build (Some t1) = Some (tableOf ((!) ascii2ebcdic))"
    using EBCDIC_preset [OF _ assms(2), of "''ASCII to EBCDIC''" ascii2ebcdic] by blast
  obtain t2 where t2: "CharMap_PresetText mm (Some ''EBCDIC to ASCII'') = Some (Some t2)"
      "CharMap_Build (Some t2) = Some (tableOf ((!) ebcdic2ascii))"
    using EBCDIC_preset [OF _ assms(2), of "''EBCDIC to ASCII''" ebcdic2ascii] by blast
  have lt: "\<forall>i < 256. ascii2ebcdic ! i < 256" "\<forall>i < 256. ebcdic2ascii ! i < 256"
    using rows_of_table(3) [OF table_rows(1,2)] rows_of_table(3) [OF table_rows(3,4)] by (simp_all add: ascii2ebcdic_def ebcdic2ascii_def)
  have z: "\<forall>i < 256. ascii2ebcdic ! i = 0 \<longrightarrow> i = 0" "\<forall>i < 256. ebcdic2ascii ! i = 0 \<longrightarrow> i = 0"
    using zero_first [OF tables_zero(1)] zero_first [OF tables_zero(2)] rows_of_table(1) [OF table_rows(1,2)]
      rows_of_table(1) [OF table_rows(3,4)] by (simp_all add: ascii2ebcdic_def ebcdic2ascii_def)
  have 1: "mapText (tableOf ((!) ascii2ebcdic)) s = Some (conv ((!) ascii2ebcdic) s)" "NUL \<notin> set (conv ((!) ascii2ebcdic) s)"
    by (rule mapText_conv [OF lt(1) z(1) assms(1)])+
  have "mapText (tableOf ((!) ebcdic2ascii)) (conv ((!) ascii2ebcdic) s) = Some (conv ((!) ebcdic2ascii) (conv ((!) ascii2ebcdic) s))"
    by (rule mapText_conv(1) [OF lt(2) z(2) 1(2)])
  also have "conv ((!) ebcdic2ascii) (conv ((!) ascii2ebcdic) s) = map (\<lambda>c. char_of (mixed (byte c))) s"
    using lt(1) by (simp add: conv_def ebcdic_back)
  finally show ?thesis using t1 t2 1(1) by blast
qed

theorem EBCDIC_and_back_witness:
  "\<exists>m1 m2 e. mapText m1 ''Hi!'' = Some e \<and> mapText m2 e = Some ''Hi]''"
proof -
  have "map (\<lambda>c. char_of (mixed (byte c))) ''Hi!'' = ''Hi]''" by (simp add: mixed_def byte_def char_of_def bit_0)
  moreover have "NUL \<notin> set ''Hi!''" "\<forall>n. can_alloc good_mem n" by (simp_all add: good_mem_def)
  ultimately show ?thesis using EBCDIC_and_back [of "''Hi!''" good_mem] by metis
qed

subsection \<open>ROT13\<close>

definition rot13 :: "nat \<Rightarrow> nat" where
  "rot13 n = (if 65 \<le> n \<and> n \<le> 90 then 65 + (n - 65 + 13) mod 26 else if 97 \<le> n \<and> n \<le> 122 then 97 + (n - 97 + 13) mod 26 else n)"

lemma rot13_letter: "i < 26 \<Longrightarrow> rot13 (65 + i) = 65 + (i + 13) mod 26" "i < 26 \<Longrightarrow> rot13 (97 + i) = 97 + (i + 13) mod 26"
  by (simp_all add: rot13_def)

lemma letter_cases:
  obtains (upper) i where "n = 65 + i" "i < 26" | (lower) i where "n = 97 + i" "i < (26 :: nat)"
    | (other) "n \<notin> {65..90} \<union> {97..122}"
proof -
  have "n = 65 + (n - 65)" "n - 65 < 26" if "n \<in> {65..90}" using that by auto
  moreover have "n = 97 + (n - 97)" "n - 97 < 26" if "n \<in> {97..122}" using that by auto
  ultimately show ?thesis using that by blast
qed

lemma rot13_other: "n \<notin> {65..90} \<union> {97..122} \<Longrightarrow> rot13 n = n"
  by (auto simp: rot13_def)

lemma rot13_twice: "rot13 (rot13 n) = n"
proof -
  have m: "(i + 13) mod 26 < 26 \<and> ((i + 13) mod 26 + 13) mod 26 = i" if "i < 26" for i :: nat
    using that by (simp add: mod_add_left_eq)
  show ?thesis
  proof (cases n rule: letter_cases)
    case other
    then show ?thesis by (metis rot13_other)
  qed (simp_all only: rot13_letter m)
qed

lemma rot13_less: "n < 256 \<Longrightarrow> rot13 n < 256" "rot13 n = 0 \<Longrightarrow> n = 0"
  by (auto simp: rot13_def split: if_splits)

definition letters :: "nat list" where
  "letters = concat (map (\<lambda>i. [65 + i, 97 + i]) [0..<26])"

lemma mod_26: "n mod 26 \<le> (25 :: nat)"
  by presburger

lemma set_letters: "set letters = {65..90} \<union> {97..122}"
proof (rule set_eqI)
  fix x show "x \<in> set letters \<longleftrightarrow> x \<in> {65..90} \<union> {97..122}"
    by (cases x rule: letter_cases) (auto simp: letters_def)
qed

lemma rot13_lines: "concat (map (\<lambda>i. [charLine (65 + i) (65 + (i + 13) mod 26), charLine (97 + i) (97 + (i + 13) mod 26)]) [0..<26])
    = map (\<lambda>i. charLine i (rot13 i)) letters"
proof -
  have "map (\<lambda>i. charLine i (rot13 i)) letters
      = concat (map (\<lambda>i. [charLine (65 + i) (rot13 (65 + i)), charLine (97 + i) (rot13 (97 + i))]) [0..<26])"
    by (simp add: letters_def map_concat comp_def)
  also have "\<dots> = concat (map (\<lambda>i. [charLine (65 + i) (65 + (i + 13) mod 26), charLine (97 + i) (97 + (i + 13) mod 26)]) [0..<26])"
    by (intro arg_cong [where f = concat] map_cong) (simp_all add: rot13_letter)
  finally show ?thesis by simp
qed

lemma separates_byte: "separates c \<longleftrightarrow> byte c \<in> {9, 10, 13, 32}"
proof -
  have "separates c \<longleftrightarrow> byte c \<in> {byte (CHR '' ''), byte TAB, byte LF, byte CR}" by (simp add: separates_def byte_eq_iff)
  also have "\<dots> \<longleftrightarrow> byte c \<in> {9, 10, 13, 32}" by (auto simp: byte_def)
  finally show ?thesis .
qed

text \<open>The preset \<open>ROT13\<close> undoes itself on every text.\<close>

theorem ROT13_roundtrip:
  assumes "\<forall>n. can_alloc mm n"
  shows "\<exists>t m. CharMap_PresetText mm (Some ''ROT13'') = Some (Some t) \<and> CharMap_Build (Some t) = Some m
    \<and> (\<forall>s. NUL \<notin> set s \<longrightarrow> (\<exists>r. mapText m s = Some r \<and> mapText m r = Some s \<and> length r = length s))"
proof (intro exI conjI allI impI)
  let ?lines = "map (\<lambda>i. charLine i (rot13 i)) letters" and ?ls = "map (\<lambda>i. ([char_of i :: char], [char_of (rot13 i)])) letters"
  have sep: "\<not> separates (char_of i) \<and> rot13 i \<in> set letters" if "i \<in> set letters" for i
  proof (cases i rule: letter_cases)
    case upper
    then show ?thesis by (simp add: rot13_letter set_letters separates_byte mod_26)
  next
    case lower
    then show ?thesis by (simp add: rot13_letter set_letters separates_byte mod_26)
  qed (use that in \<open>auto simp: set_letters\<close>)
  have l: "i \<in> set letters \<Longrightarrow> i < 256" for i by (auto simp: set_letters)
  have "list_all2 entry ?ls (map (\<lambda>i. (i, int (rot13 i))) letters)"
    using sep l by (auto simp: list_all2_map1 list_all2_map2 list_all2_same entry_def char_token)
  from CharMap_Build_lines [OF this] show "CharMap_Build (Some (concat ?lines)) = Some (tableOf rot13)"
    by (simp add: comp_def charLine_mapLine rot13_other set_letters)
  have "length (concat (map (\<lambda>i. charLine i (rot13 i)) xs)) = 4 * length xs" for xs by (induction xs) (simp_all add: charLine_def)
  then have "length (concat ?lines) = 4 * length letters" .
  moreover have "length letters = 52" by (simp add: letters_def length_concat comp_def sum_list_triv)
  ultimately have p: "printLines (52 * 5 + 1) ?lines [] = Some (concat ?lines)" by (simp add: printLines_fit)
  show "CharMap_PresetText mm (Some ''ROT13'') = Some (Some (concat ?lines))"
    using assms p by (simp add: CharMap_PresetText_def strs_def Let_def rot13_lines del: printLines.simps upt_conv_Cons)
  fix s :: string assume n: "NUL \<notin> set s"
  have r: "\<forall>i < 256. rot13 i < 256" "\<forall>i < 256. rot13 i = 0 \<longrightarrow> i = 0" using rot13_less by blast+
  note 1 = mapText_conv [OF r n]
  show "mapText (tableOf rot13) s = Some (conv rot13 s)" by (rule 1)
  have "conv rot13 (conv rot13 s) = s" using r(1) by (simp add: conv_def rot13_twice map_idI)
  with mapText_conv(1) [OF r 1(2)] show "mapText (tableOf rot13) (conv rot13 s) = Some s" by simp
  show "length (conv rot13 s) = length s" by (simp add: conv_def)
qed

theorem ROT13_roundtrip_witness:
  "\<exists>t m. CharMap_PresetText good_mem (Some ''ROT13'') = Some (Some t) \<and> CharMap_Build (Some t) = Some m
    \<and> (\<exists>r. mapText m ''Hello'' = Some r \<and> mapText m r = Some ''Hello'')"
proof -
  have "NUL \<notin> set ''Hello''" "\<forall>n. can_alloc good_mem n" by (simp_all add: good_mem_def)
  then show ?thesis using ROT13_roundtrip [of good_mem] by blast
qed

subsection \<open>Tokens that are no characters\<close>

lemma isdigit_cases: "isdigit c \<Longrightarrow> c \<in> set ''0123456789''"
proof -
  assume "isdigit c"
  then obtain d where d: "d < 10" "byte c = 48 + d" by (auto simp: isdigit_def byte_def le_iff_add)
  then have "byte c = byte (digit_char d)" by (simp add: byte_def)
  then have "c = digit_char d" by (simp add: byte_eq_iff)
  then show ?thesis using less_16_cases [of d] d(1) by (auto simp: digit_char_def)
qed

lemma isspace_cases: "isspace c \<Longrightarrow> c \<in> {TAB, LF, CHR 0x0B, CHR 0x0C, CR, CHR '' ''}"
proof -
  assume "isspace c"
  then have "byte c \<in> {9, 10, 11, 12, 13, 32}" unfolding isspace_def byte_def by (simp, presburger)
  also have "\<dots> = byte ` {TAB, LF, CHR 0x0B, CHR 0x0C, CR, CHR '' ''}" by (simp add: byte_def)
  finally show ?thesis by (auto simp: byte_eq_iff)
qed

lemma cstr_NUL: "NUL \<notin> set pre \<Longrightarrow> cstr (pre @ NUL # post) = pre"
  by (induction pre) (auto simp: cstr_def)

text \<open>C29. A token of two or more characters that starts with none of the forms the code knows is not refused: it
  is read as the decimal number 0.  A map line with such a token as its second makes its character a NUL, and the
  output ends at the first occurrence of the character.\<close>

theorem junk_token_cuts_text:
  assumes b: "2 \<le> length b" "clean b" "hd b \<notin> set ''0123456789%+-'' \<union> {CHR 0x5C, CHR 0x0B, CHR 0x0C}"
    and c: "\<not> separates c" "NUL \<notin> set (pre @ [c])" "c \<notin> set pre"
  shows "CharMap_Token b = Some 0
    \<and> (\<exists>m. CharMap_Build (Some (mapLine [c] b)) = Some m \<and> mapText m (pre @ c # post) = Some pre)"
proof -
  obtain x y r where xy: "b = x # y # r" using b(1) by (cases b; cases "tl b") auto
  have "\<not> isspace x" "\<not> isdigit x"
    using b(2,3) xy isspace_cases [of x] isdigit_cases [of x] by (auto simp: clean_def separates_def)
  then have "decimal (x # w) = 0" for w using b(3) xy by (simp add: decimal_def)
  then have t: "CharMap_Token b = Some 0"
    using b(3) xy by (simp add: CharMap_Token_def atoi_def Let_def numeral_eq_Suc)
  let ?f = "\<lambda>i. if i = byte c then 0 else i"
  have "list_all2 entry [([c], b)] (map (\<lambda>i. (i, int (?f i))) [byte c])"
    using t b(2) c(1) char_token [of "byte c"] by (simp add: entry_def)
  from CharMap_Build_lines [OF this] have m: "CharMap_Build (Some (mapLine [c] b)) = Some (tableOf ?f)" by simp
  have "conv ?f pre = pre" using c(3) by (auto simp: conv_def byte_eq_iff intro!: map_idI)
  then have "conv ?f (pre @ c # post) = pre @ NUL # conv ?f post" by (simp add: conv_def char_of_def)
  moreover have "NUL \<notin> set pre" using c(2) by simp
  moreover have "\<forall>i < 256. ?f i < 256" by simp
  note applyMap_conv [OF this, of "[]" "pre @ c # post" "length (pre @ c # post) + 1"]
  ultimately have "mapText (tableOf ?f) (pre @ c # post) = Some pre"
    by (simp add: mapText_def finish_def cstr_NUL) (simp add: conv_def)
  with t m show ?thesis by blast
qed

theorem junk_token_cuts_text_witness:
  "\<exists>m. CharMap_Build (Some ''o zero\<newline>'') = Some m \<and> mapText m ''Hello'' = Some ''Hell''"
proof -
  have "mapLine ''o'' ''zero'' = ''o zero\<newline>''" by (simp add: mapLine_def)
  moreover have "clean ''zero''" "\<not> separates (CHR ''o'')" by (simp_all add: clean_def separates_def)
  ultimately show ?thesis using junk_token_cuts_text [of "''zero''" "CHR ''o''" "''Hell''" "[]"] by simp
qed

end
