(* ===== verification/WebSocket.thy ===== *)
theory WebSocket
  imports Base64 Paths
begin

text \<open>
  \<open>src/objects/websocket/websocket.c\<close>: the handshake (SHA-1 and base64) and the frames of the WebSocket widget,
  between the ports \<open>Wire\<close> and \<open>Send\<close> of the socket and \<open>In\<close> and \<open>Out\<close> of the application.  A message that
  crosses a port goes through the modelled fabric; the receive buffers are those of \<open>Buff\<close>, reached by handles kept
  in a table node.  \<open>malloc\<close> is taken to succeed for the blocks of fixed size.
\<close>

subsection \<open>SHA-1\<close>

function padTo :: "nat \<Rightarrow> nat" where
  "padTo n = (if n mod 64 = 56 then n else padTo (n + 1))"
  by pat_completeness auto
termination
  by (relation "measure (\<lambda>n. if n mod 64 \<le> 56 then 56 - n mod 64 else 120 - n mod 64)") (auto simp: mod_Suc)

declare padTo.simps [simp del]

text \<open>The message with \<open>0x80\<close>, zeros and the length in bits behind it.\<close>

definition sha1Message :: "string \<Rightarrow> nat list" where
  "sha1Message input = (let inputLen = length input; newLen = padTo (inputLen + 1) + 8; ml = inputLen * 8 in
     map byte input @ 0x80 # replicate (newLen - 8 - inputLen - 1) 0
       @ map (\<lambda>i. drop_bit (8 * i) ml mod 256) [7, 6, 5, 4, 3, 2, 1, 0])"

definition rotl32 :: "nat \<Rightarrow> 32 word \<Rightarrow> 32 word" where
  "rotl32 n x = or (push_bit n x) (drop_bit (32 - n) x)"

definition bigEndian :: "nat list \<Rightarrow> nat \<Rightarrow> 32 word" where
  "bigEndian msg k = or (or (or (push_bit 24 (of_nat (msg ! k))) (push_bit 16 (of_nat (msg ! (k + 1)))))
     (push_bit 8 (of_nat (msg ! (k + 2))))) (of_nat (msg ! (k + 3)))"

fun schedule :: "nat \<Rightarrow> 32 word list \<Rightarrow> 32 word list" where
  "schedule 0 w = w"
| "schedule (Suc n) w = (let t = length w; temp = xor (xor (xor (w ! (t - 3)) (w ! (t - 8))) (w ! (t - 14))) (w ! (t - 16))
     in schedule n (w @ [rotl32 1 temp]))"

type_synonym digest = "32 word \<times> 32 word \<times> 32 word \<times> 32 word \<times> 32 word"

definition roundMix :: "nat \<Rightarrow> 32 word \<Rightarrow> 32 word \<Rightarrow> 32 word \<Rightarrow> 32 word \<times> 32 word" where
  "roundMix t b c d =
     (if t < 20 then (or (and b c) (and (not b) d), 0x5A827999)
      else if t < 40 then (xor (xor b c) d, 0x6ED9EBA1)
      else if t < 60 then (or (or (and b c) (and b d)) (and c d), 0x8F1BBCDC)
      else (xor (xor b c) d, 0xCA62C1D6))"

fun rounds :: "32 word list \<Rightarrow> nat \<Rightarrow> digest \<Rightarrow> digest" where
  "rounds [] t h = h"
| "rounds (wt # ws) t (a, b, c, d, e) = (let (f, k) = roundMix t b c d; temp = rotl32 5 a + f + e + k + wt
     in rounds ws (t + 1) (temp, a, rotl32 30 b, c, d))"

definition sha1Block :: "nat list \<Rightarrow> nat \<Rightarrow> digest \<Rightarrow> digest" where
  "sha1Block msg chunk h = (let w = schedule 64 (map (\<lambda>t. bigEndian msg (chunk + t * 4)) [0..<16]) in
     case h of (h0, h1, h2, h3, h4) \<Rightarrow> case rounds w 0 h of (a, b, c, d, e) \<Rightarrow>
       (h0 + a, h1 + b, h2 + c, h3 + d, h4 + e))"

definition wordBytes :: "32 word \<Rightarrow> string" where
  "wordBytes h = map (\<lambda>n. char_of (unat (and (drop_bit n h) 0xFF))) [24, 16, 8, 0]"

definition WS_SHA1 :: "string \<Rightarrow> string" where
  "WS_SHA1 input = (let msg = sha1Message input in
     case fold (\<lambda>chunk h. sha1Block msg (chunk * 64) h) [0..<length msg div 64]
       (0x67452301, 0xEFCDAB89, 0x98BADCFE, 0x10325476, 0xC3D2E1F0) of (h0, h1, h2, h3, h4) \<Rightarrow>
       wordBytes h0 @ wordBytes h1 @ wordBytes h2 @ wordBytes h3 @ wordBytes h4)"

subsection \<open>Base64 of the socket\<close>

text \<open>Every group is written with four digits; padding is put over the last ones.\<close>

function wsGroups :: "nat \<Rightarrow> string \<Rightarrow> nat \<Rightarrow> string \<Rightarrow> string option" where
  "wsGroups room data i out = (if i < length data then
     let octet = (\<lambda>k. if k < length data then byte (data ! k) else 0);
         triple = push_bit 16 (octet i) + push_bit 8 (octet (i + 1)) + octet (i + 2)
     in do {
       o1 \<leftarrow> emits room out [EncodeTable ! and (drop_bit 18 triple) 63, EncodeTable ! and (drop_bit 12 triple) 63,
         EncodeTable ! and (drop_bit 6 triple) 63, EncodeTable ! and triple 63];
       wsGroups room data (i + 3) o1 }
     else Some out)"
  by pat_completeness auto
termination
  by (relation "measure (\<lambda>(room, data, i, out). length data - i)") auto

declare wsGroups.simps [simp del]

definition WS_Base64Encode :: "string \<Rightarrow> string option" where
  "WS_Base64Encode data = (let outLen = 4 * ((length data + 2) div 3); m = length data mod 3 in do {
     out \<leftarrow> wsGroups (outLen + 1) data 0 [];
     let out1 = (if m = 1 then out[outLen - 1 := CHR ''='', outLen - 2 := CHR ''=''] else if m = 2 then out[outLen - 1 := CHR ''='']
                 else out);
     finish (outLen + 1) out1 })"

subsection \<open>State\<close>

record wsdata = gated +
  active :: bool
  connHandshakes :: ptr
  connRecvBufs :: ptr

record ws = "wsdata module" +
  bufs :: "ptr \<Rightarrow> object option"
  freshBufs :: "ptr list"

definition bufAt :: "ptr \<Rightarrow> ws \<Rightarrow> buff option" where
  "bufAt p s = (if p = 0 then Some None else map_option Some (bufs s p))"

definition putBuf :: "ptr \<Rightarrow> buff \<Rightarrow> ws \<Rightarrow> ws" where
  "putBuf p b s = (case b of None \<Rightarrow> s | Some obj \<Rightarrow> s\<lparr>bufs := (bufs s)(p \<mapsto> obj)\<rparr>)"

definition ConnState :: "ptr \<Rightarrow> 64 word \<Rightarrow> ws \<Rightarrow> (64 word \<times> ws) option" where
  "ConnState table connId = onMach (GetConnState table connId)"

subsection \<open>Sending\<close>

definition WS_SendRaw :: "ptr \<Rightarrow> string \<Rightarrow> string \<Rightarrow> int \<Rightarrow> 64 word \<Rightarrow> machine \<Rightarrow> machine option" where
  "WS_SendRaw inst port block len connId m = (let (chunk, m1) = newNode STRING m in do {
     m2 \<leftarrow> doNodes (SetName chunk ''Frame'') m1;
     m3 \<leftarrow> doNodes (SetValueStrLen chunk (Some block) len) m2;
     m4 \<leftarrow> SetPropInt chunk ''Length'' (word_of_int len) m3;
     m5 \<leftarrow> SetPropLong chunk ''Conn'' connId m4;
     (_, m6) \<leftarrow> SndMsg inst port msg_send chunk m5;
     Some m6 })"

text \<open>The handshake: the key from the request, its answer to the socket.\<close>

definition WS_GUID :: string where
  "WS_GUID = ''258EAFA5-E914-47DA-95CA-C5AB0DC85B11''"

definition keyHeader :: string where
  "keyHeader = ''Sec-WebSocket-Key:''"

definition requestKey :: "string \<Rightarrow> string option" where
  "requestKey request = map_option (\<lambda>i.
     takeWhile (\<lambda>c. c \<noteq> CR \<and> c \<noteq> LF) (dropWhile (\<lambda>c. c = CHR '' '') (drop (i + length keyHeader) request)))
     (strstrFrom request keyHeader 0)"

definition acceptKey :: "string \<Rightarrow> string option" where
  "acceptKey key = map_option (take 63) (WS_Base64Encode (WS_SHA1 (take 199 (key @ WS_GUID))))"

definition handshakeResponse :: "string \<Rightarrow> string" where
  "handshakeResponse accept = ''HTTP/1.1 101 Switching Protocols'' @ [CR, LF] @ ''Upgrade: websocket'' @ [CR, LF]
     @ ''Connection: Upgrade'' @ [CR, LF] @ ''Sec-WebSocket-Accept: '' @ accept @ [CR, LF, CR, LF]"

definition WS_TryHandshake :: "ptr \<Rightarrow> wsdata \<Rightarrow> string \<Rightarrow> 64 word \<Rightarrow> ws \<Rightarrow> (int \<times> ws) option" where
  "WS_TryHandshake inst l request connId s = (case requestKey (cstr request) of None \<Rightarrow> Some (0, s)
     | Some key \<Rightarrow> if key = [] \<or> 128 \<le> length key then Some (0, s)
         else do {
           accept \<leftarrow> acceptKey key;
           let response = handshakeResponse accept;
           s1 \<leftarrow> doMach (WS_SendRaw inst ''Send'' (take 255 response @ [NUL]) (int (length response)) connId) s;
           s2 \<leftarrow> doMach (SetConnState (connHandshakes l) connId 1) s1;
           Some (1, s2) })"

subsection \<open>Frames from the socket\<close>

text \<open>The head of a frame: the code to give back when there is none yet or none that is understood, else the length
  of the payload and where the rest of the head starts.\<close>

definition frameHead :: "string \<Rightarrow> int + nat \<times> nat" where
  "frameHead buf =
     (if length buf < 2 then Inl 0
      else let payloadLen = and (byte (buf ! 1)) 0x7F in
        if payloadLen = 126 then
          (if length buf < 4 then Inl 0 else Inr (or (push_bit 8 (byte (buf ! 2))) (byte (buf ! 3)), 4))
        else if payloadLen = 127 then Inl (-1)
        else Inr (payloadLen, 2))"

text \<open>The whole frame at the front of \<open>buf\<close>: what it occupies and the text it carries, if it is a text frame.\<close>

definition parseFrame :: "string \<Rightarrow> int \<times> string option" where
  "parseFrame buf = (case frameHead buf of Inl code \<Rightarrow> (code, None)
     | Inr (payloadLen, offset0) \<Rightarrow>
         let opcode = and (byte (buf ! 0)) 0x0F;
             masked = (and (byte (buf ! 1)) 0x80 \<noteq> 0);
             offset = (if masked then offset0 + 4 else offset0);
             mask = take 4 (drop offset0 buf)
         in if masked \<and> length buf < offset then (0, None)
            else if length buf < offset + payloadLen then (0, None)
            else (int (offset + payloadLen),
                  if opcode = 1 then Some (map (\<lambda>i. if masked then char_of (xor (byte (buf ! (offset + i))) (byte (mask ! (i mod 4))))
                                                    else buf ! (offset + i)) [0..<payloadLen])
                  else None))"

definition WS_HandleOneFrame :: "mem \<Rightarrow> ptr \<Rightarrow> string \<Rightarrow> 64 word \<Rightarrow> machine \<Rightarrow> (int \<times> machine) option" where
  "WS_HandleOneFrame mm inst buf connId m = (case parseFrame buf of
     (consumed, None) \<Rightarrow> Some (consumed, m)
   | (consumed, Some payload) \<Rightarrow>
       if \<not> can_alloc mm (length payload + 1) then None
       else do {
         m1 \<leftarrow> WS_SendRaw inst ''Out'' (payload @ [NUL]) (int (length payload)) connId m;
         Some (consumed, m1) })"

function framesFrom :: "mem \<Rightarrow> ptr \<Rightarrow> string \<Rightarrow> nat \<Rightarrow> 64 word \<Rightarrow> machine \<Rightarrow> (nat \<times> machine) option" where
  "framesFrom mm inst buf pos connId m = (if length buf \<le> pos then Some (pos, m)
     else case WS_HandleOneFrame mm inst (drop pos buf) connId m of None \<Rightarrow> None
       | Some (consumed, m1) \<Rightarrow> if consumed \<le> 0 then Some (pos, m1)
           else framesFrom mm inst buf (pos + nat consumed) connId m1)"
  by pat_completeness auto
termination
  by (relation "measure (\<lambda>(mm, inst, buf, pos, connId, m). length buf - pos)") auto

declare framesFrom.simps [simp del]

definition WS_HandleFrames :: "mem \<Rightarrow> ptr \<Rightarrow> string \<Rightarrow> 64 word \<Rightarrow> machine \<Rightarrow> (nat \<times> machine) option" where
  "WS_HandleFrames mm inst buf connId m = framesFrom mm inst buf 0 connId m"

subsection \<open>Receiving\<close>

definition WS_GetConnBuf :: "mem \<Rightarrow> wsdata \<Rightarrow> 64 word \<Rightarrow> ws \<Rightarrow> (ptr \<times> ws) option" where
  "WS_GetConnBuf mm l connId s = do {
     (b, s1) \<leftarrow> ConnState (connRecvBufs l) connId s;
     if b \<noteq> 0 then Some (b, s1)
     else (let (p, s2) = (case (buffCreate mm 4096, freshBufs s1) of
             (Some obj, p # rest) \<Rightarrow> (p, s1\<lparr>bufs := (bufs s1)(p \<mapsto> obj), freshBufs := rest\<rparr>)
           | _ \<Rightarrow> (0, s1)) in do {
       s3 \<leftarrow> doMach (SetConnState (connRecvBufs l) connId p) s2;
       Some (p, s3) }) }"

text \<open>What is kept of a buffer whose first \<open>pos\<close> bytes are consumed: \<open>leftover\<close> put back into the emptied buffer.\<close>

definition keepTail :: "mem \<Rightarrow> buff \<Rightarrow> string \<Rightarrow> nat \<Rightarrow> buff option" where
  "keepTail mm b bytes pos =
     (if pos < length bytes then
        let leftover = drop pos bytes in
        if \<not> can_alloc mm (length leftover) then None
        else do {
          (b1, _) \<leftarrow> buffClear b;
          (b2, _) \<leftarrow> buffAdd mm b1 (Some leftover) (word_of_nat (length leftover));
          Some b2 }
      else map_option fst (buffClear b))"

text \<open>Bytes of a connection: added to its buffer, the complete frames taken off the front.  \<open>bufLen\<close> is read as an
  \<open>int\<close>: a buffer of \<open>2 ^ 31\<close> bytes or more counts as negative and is thrown away.\<close>

definition receive :: "mem \<Rightarrow> ptr \<Rightarrow> string \<Rightarrow> int \<Rightarrow> 64 word \<Rightarrow> buff \<times> machine \<Rightarrow> (buff \<times> machine) option" where
  "receive mm inst block len connId = (\<lambda>(b, m). do {
     (b1, _) \<leftarrow> buffAdd mm b (Some block) (word_of_int len);
     (b2, bufLen, bytes) \<leftarrow> buffGetBuffer mm b1 True;
     if bufLen < 2 ^ 31 then do {
       (pos, m1) \<leftarrow> WS_HandleFrames mm inst bytes connId m;
       b3 \<leftarrow> keepTail mm b2 bytes pos;
       Some (b3, m1) }
     else do { (b3, _) \<leftarrow> buffClear b2; Some (b3, m) } })"

definition freeBuf :: "ptr \<Rightarrow> ws \<Rightarrow> ws option" where
  "freeBuf p s = (if bufs s p = None then None else Some (s\<lparr>bufs := (bufs s)(p := None)\<rparr>))"

definition wireClosed :: "ptr \<Rightarrow> wsdata \<Rightarrow> 64 word \<Rightarrow> ws \<Rightarrow> (int \<times> ws) option" where
  "wireClosed inst l connId s = do {
     (b, s1) \<leftarrow> ConnState (connRecvBufs l) connId s;
     s2 \<leftarrow> (if b \<noteq> 0 then do { sa \<leftarrow> freeBuf b s1; doMach (SetConnState (connRecvBufs l) connId 0) sa } else Some s1);
     s3 \<leftarrow> doMach (SetConnState (connHandshakes l) connId 0) s2;
     s4 \<leftarrow> doMach (\<lambda>m. let (chunk, m1) = newNode STRING m in do {
         m2 \<leftarrow> doNodes (SetName chunk ''Frame'') m1;
         m3 \<leftarrow> SetPropLong chunk ''Conn'' connId m2;
         (_, m4) \<leftarrow> SndMsg inst ''Out'' msg_eof chunk m3;
         Some m4 }) s3;
     Some (rtrn_handled, s4) }"

text \<open>The length of the bytes of a message: its property \<open>Length\<close>, or what \<open>strlen\<close> says.\<close>

definition messageLen :: "ptr \<Rightarrow> string \<Rightarrow> machine \<Rightarrow> (int \<times> machine) option" where
  "messageLen data block m = do {
     (n, m1) \<leftarrow> onNodes (GetPropInt data ''Length'') m;
     Some (if n = 0 then int (length (cstr block)) else sint n, m1) }"

definition WS_OnWire :: "mem \<Rightarrow> ptr \<Rightarrow> int \<Rightarrow> ptr \<Rightarrow> ws \<Rightarrow> (int \<times> ws) option" where
  "WS_OnWire mm inst message data s = do {
     (p, s1) \<leftarrow> localOf inst s;
     if p = 0 then Some (rtrn_dropped, s1)
     else do {
       l \<leftarrow> locals s1 p;
       if \<not> active l \<or> \<not> enabled l then Some (rtrn_dropped, s1)
       else do {
         (connId, s2) \<leftarrow> onMach (onNodes (GetPropLong data ''Conn'')) s1;
         if message = msg_eof then wireClosed inst l connId s2
         else if message \<noteq> msg_send then Some (rtrn_dropped, s2)
         else do {
           (str, s3) \<leftarrow> onMach (onNodes (GetValueStr data)) s2;
           (case str of None \<Rightarrow> Some (rtrn_dropped, s3)
            | Some block \<Rightarrow> do {
                (done, s4) \<leftarrow> ConnState (connHandshakes l) connId s3;
                if done = 0 then do { (_, s5) \<leftarrow> WS_TryHandshake inst l block connId s4; Some (rtrn_handled, s5) }
                else do {
                  (len, s5) \<leftarrow> onMach (messageLen data block) s4;
                  (b, s6) \<leftarrow> WS_GetConnBuf mm l connId s5;
                  old \<leftarrow> bufAt b s6;
                  (new, m) \<leftarrow> receive mm inst block len connId (old, mach s6);
                  Some (rtrn_handled, putBuf b new (s6\<lparr>mach := m\<rparr>)) } }) } } } }"

subsection \<open>UTF-8 for the browser\<close>

text \<open>\<open>s\<close> are the bytes from the position on, so \<open>avail\<close> is its length.\<close>

definition between :: "nat \<Rightarrow> nat \<Rightarrow> nat \<Rightarrow> bool" where
  "between lo hi n \<longleftrightarrow> lo \<le> n \<and> n \<le> hi"

definition WS_Utf8Len :: "nat list \<Rightarrow> nat" where
  "WS_Utf8Len s = (let c = s ! 0; avail = length s in
     if c < 0x80 then 1
     else if c < 0xC2 then 0
     else if c < 0xE0 then
       if avail < 2 then 0 else if between 0x80 0xBF (s ! 1) then 2 else 0
     else if c < 0xF0 then
       (let lo = (if c = 0xE0 then 0xA0 else 0x80); hi = (if c = 0xED then 0x9F else 0xBF) in
        if avail < 3 then 0
        else if \<not> between lo hi (s ! 1) then 0
        else if \<not> between 0x80 0xBF (s ! 2) then 0
        else 3)
     else if c \<le> 0xF4 then
       (let lo = (if c = 0xF0 then 0x90 else 0x80); hi = (if c = 0xF4 then 0x8F else 0xBF) in
        if avail < 4 then 0
        else if \<not> between lo hi (s ! 1) then 0
        else if \<not> between 0x80 0xBF (s ! 2) then 0
        else if \<not> between 0x80 0xBF (s ! 3) then 0
        else 4)
     else 0)"

definition replacement :: string where
  "replacement = [CHR 0xEF, CHR 0xBF, CHR 0xBD]"

function displayFrom :: "nat \<Rightarrow> string \<Rightarrow> string \<Rightarrow> string option" where
  "displayFrom room s out = (if s = [] then Some out
     else let n = WS_Utf8Len (map byte s) in
       if 0 < n then (case emits room out (take n s) of None \<Rightarrow> None | Some o1 \<Rightarrow> displayFrom room (drop n s) o1)
       else (case emits room out replacement of None \<Rightarrow> None | Some o1 \<Rightarrow> displayFrom room (drop 1 s) o1))"
  by pat_completeness auto
termination
  by (relation "measure (\<lambda>(room, s, out). length s)") auto

declare displayFrom.simps [simp del]

text \<open>The bytes of the copy, or NULL; the copy is \<open>outlen\<close> bytes long, which may hold NULs.\<close>

definition WS_Utf8Display :: "mem \<Rightarrow> string \<Rightarrow> int \<Rightarrow> string option option" where
  "WS_Utf8Display mm block inlen = (let room = nat ((inlen mod 2 ^ 64 * 3 + 1) mod 2 ^ 64) in
     if \<not> can_alloc mm room then Some None
     else if int (length block) < inlen then None
     else do {
       out \<leftarrow> displayFrom room (take (nat inlen) block) [];
       _ \<leftarrow> emit room out NUL;
       Some (Some out) })"

subsection \<open>Frames to the socket\<close>

definition frameHeader :: "nat \<Rightarrow> string" where
  "frameHeader len = (if len \<le> 125 then [char_of (0x81 :: nat), char_of len]
     else [char_of (0x81 :: nat), char_of (126 :: nat), char_of (drop_bit 8 len), char_of (and len 0xFF)])"

definition buildFrame :: "string \<Rightarrow> string" where
  "buildFrame payload = frameHeader (length payload) @ payload"

definition WS_OnAppIn :: "mem \<Rightarrow> ptr \<Rightarrow> int \<Rightarrow> ptr \<Rightarrow> ws \<Rightarrow> (int \<times> ws) option" where
  "WS_OnAppIn mm inst message data s = do {
     (p, s1) \<leftarrow> localOf inst s;
     if p = 0 then Some (rtrn_dropped, s1)
     else do {
       l \<leftarrow> locals s1 p;
       if \<not> active l \<or> \<not> enabled l \<or> message \<noteq> msg_send then Some (rtrn_dropped, s1)
       else do {
         (connId, s2) \<leftarrow> onMach (onNodes (GetPropLong data ''Conn'')) s1;
         (done, s3) \<leftarrow> (if connId \<noteq> 0 then ConnState (connHandshakes l) connId s2 else Some (1, s2));
         if done = 0 then Some (rtrn_dropped, s3)
         else do {
           (str, s4) \<leftarrow> onMach (onNodes (GetValueStr data)) s3;
           (case str of None \<Rightarrow> Some (rtrn_dropped, s4)
            | Some block \<Rightarrow> do {
                (len, s5) \<leftarrow> onMach (messageLen data block) s4;
                disp \<leftarrow> WS_Utf8Display mm block len;
                (case disp of None \<Rightarrow> Some (rtrn_dropped, s5)
                 | Some text \<Rightarrow>
                     if 65535 < length text then Some (rtrn_dropped, s5)
                     else let frame = buildFrame text in
                       if \<not> can_alloc mm (length frame) then None
                       else do {
                         s6 \<leftarrow> doMach (WS_SendRaw inst ''Send'' frame (int (length frame)) connId) s5;
                         Some (rtrn_handled, s6) }) }) } } } }"

subsection \<open>Life of an instance\<close>

definition WS_OnEnable :: "ptr \<Rightarrow> int \<Rightarrow> ptr \<Rightarrow> ws \<Rightarrow> (int \<times> ws) option" where
  "WS_OnEnable inst = onEnable Some inst"

definition WS_Activate :: "ptr \<Rightarrow> ws \<Rightarrow> (int \<times> ws) option" where
  "WS_Activate inst s = do {
     (p, s1) \<leftarrow> localOf inst s;
     if p = 0 then Some (rtrn_dropped, s1)
     else do {
       l \<leftarrow> locals s1 p;
       if active l then Some (rtrn_handled, s1)
       else do {
         s2 \<leftarrow> setLocal p (\<lambda>k. k\<lparr>active := True\<rparr>) s1;
         s3 \<leftarrow> doMach (SetPropInt inst ''State'' 2) s2;
         Some (rtrn_handled, s3) } } }"

text \<open>The walk of \<open>InstanceEnd\<close> over the table of buffers.\<close>

partial_function (option) freeBufs :: "ptr \<Rightarrow> ws \<Rightarrow> ws option" where
  "freeBufs entry s = (if entry = 0 then Some s else do {
     (b, s1) \<leftarrow> onMach (onNodes (GetValueLong entry)) s;
     s2 \<leftarrow> (if b \<noteq> 0 then freeBuf b s1 else Some s1);
     nxt \<leftarrow> GetNextSibling entry (world (mach s2));
     freeBufs nxt s2 })"

declare freeBufs.simps [code]

definition WS_InstanceEnd :: "ptr \<Rightarrow> ws \<Rightarrow> (int \<times> ws) option" where
  "WS_InstanceEnd inst s = do {
     (p, s1) \<leftarrow> localOf inst s;
     if p = 0 then Some (rtrn_handled, s1)
     else do {
       l \<leftarrow> locals s1 p;
       first \<leftarrow> GetNextProp (connRecvBufs l) (world (mach s1));
       s2 \<leftarrow> freeBufs first s1;
       s3 \<leftarrow> doMach (doNodes (DelNode (connRecvBufs l))) s2;
       s4 \<leftarrow> doMach (doNodes (DelNode (connHandshakes l))) s3;
       s5 \<leftarrow> freeLocal p s4;
       Some (rtrn_handled, s5) } }"

end
