(* ===== verification/WebSocket_Frames.thy ===== *)
theory WebSocket_Frames
  imports WebSocket
begin

text \<open>
  Proofs on frames: what is written is read back, and how the bytes of a connection are cut into messages does not
  matter.
\<close>

subsection \<open>One frame\<close>

lemma and_128_0: "n < 256 \<Longrightarrow> and n 128 = 0 \<longleftrightarrow> n < (128 :: nat)"
proof -
  assume "n < 256"
  then have "n div 128 < 2" by (simp add: less_mult_imp_div_less)
  then have "bit n 7 \<longleftrightarrow> \<not> n < 128" by (auto simp: bit_iff_odd less_2_cases_iff div_eq_0_iff)
  then show ?thesis using and_exp_eq_0_iff_not_bit [of n 7] by simp
qed

lemma xor_byte: "xor (byte c) (byte d) mod 256 = xor (byte c) (byte d)"
proof -
  have "take_bit 8 (xor (byte c) (byte d)) = xor (byte c) (byte d)" by (simp add: take_bit_nat_eq_self)
  then show ?thesis by (simp add: take_bit_eq_mod)
qed

lemma unmask: "char_of (xor (xor (byte c) (byte d) mod 256) (byte d)) = c"
  by (simp add: xor_byte xor.assoc)

lemma frameHead_header:
  assumes "length payload \<le> 65535"
  shows "frameHead (buildFrame payload @ rest) = Inr (length payload, length (frameHeader (length payload)))"
proof (cases "length payload \<le> 125")
  case True
  then show ?thesis by (simp add: buildFrame_def frameHead_def frameHeader_def and_lows)
next
  case False
  let ?n = "length payload"
  have "or (push_bit 8 (?n div 256)) (?n mod 256) = ?n" using shift_or [of "?n mod 256" 8 "?n div 256"] by simp
  moreover have "?n div 256 < 256" using assms by (simp add: less_mult_imp_div_less)
  ultimately show ?thesis
    using False by (simp add: buildFrame_def frameHead_def frameHeader_def and_lows drop_bit_eq_div)
qed

text \<open>A browser reads a frame of the widget as the text it was built from, whatever follows it.\<close>

theorem buildFrame_roundtrip:
  assumes "length payload \<le> 65535"
  shows "parseFrame (buildFrame payload @ rest) = (int (length (buildFrame payload)), Some payload)"
proof -
  define h where "h = frameHeader (length payload)"
  define f where "f = buildFrame payload @ rest"
  have "and (byte (f ! 0)) 15 = 1" "and (byte (f ! 1)) 0x80 = 0" "length f = length h + length payload + length rest"
    by (simp_all add: f_def h_def buildFrame_def frameHeader_def and_lows and_128_0)
  moreover have "map (\<lambda>i. f ! (length h + i)) [0..<length payload] = payload"
    by (rule nth_equalityI) (simp_all add: f_def h_def buildFrame_def nth_append)
  moreover have "frameHead f = Inr (length payload, length h)" using frameHead_header [OF assms, of rest] by (simp add: f_def h_def)
  ultimately have "parseFrame f = (int (length h + length payload), Some payload)" by (simp add: parseFrame_def Let_def)
  then show ?thesis by (simp add: f_def h_def buildFrame_def)
qed

theorem buildFrame_roundtrip_witness: "parseFrame (buildFrame ''hello'' @ ''more'') = (7, Some ''hello'')"
proof -
  have "length ''hello'' \<le> 65535" "length (buildFrame ''hello'') = 7" by (simp_all add: buildFrame_def frameHeader_def)
  then show ?thesis using buildFrame_roundtrip [of "''hello''" "''more''"] by simp
qed

text \<open>The text frame a browser sends for a payload, masked with four bytes.\<close>

definition clientFrame :: "string \<Rightarrow> string \<Rightarrow> string" where
  "clientFrame key4 payload = (let n = length payload in
     (if n \<le> 125 then [char_of (0x81 :: nat), char_of (0x80 + n)]
      else [char_of (0x81 :: nat), char_of (0x80 + 126 :: nat), char_of (n div 256), char_of (n mod 256)])
     @ key4 @ map (\<lambda>i. char_of (xor (byte (payload ! i)) (byte (key4 ! (i mod 4))))) [0..<n])"



subsection \<open>All the frames of a text\<close>

lemma frameHead_append: "frameHead a = r \<Longrightarrow> r \<noteq> Inl 0 \<Longrightarrow> frameHead (a @ b) = r"
  by (auto simp: frameHead_def nth_append Let_def split: if_splits)

lemma frameHead_bounds: "frameHead a = Inr (n, k) \<Longrightarrow> 2 \<le> k \<and> k \<le> length a"
  by (auto simp: frameHead_def Let_def split: if_splits)

lemma frameHead_code: "frameHead a = Inl c \<Longrightarrow> c \<le> 0"
  by (auto simp: frameHead_def Let_def split: if_splits)

lemma parseFrame_bounds: "parseFrame a = (n, p) \<Longrightarrow> nat n \<le> length a"
  by (auto simp: parseFrame_def Let_def split: sum.splits if_splits dest: frameHead_code)

lemma parseFrame_none: "parseFrame a = (n, p) \<Longrightarrow> n \<le> 0 \<Longrightarrow> p = None"
  by (auto simp: parseFrame_def Let_def split: sum.splits if_splits dest: frameHead_bounds)

text \<open>Once a frame is complete, or not understood, what follows it makes no difference.\<close>

lemma parseFrame_append:
  assumes "parseFrame a = (n, p)" "n \<noteq> 0"
  shows "parseFrame (a @ b) = (n, p)"
proof (cases "frameHead a")
  case (Inl c)
  with assms frameHead_append [of a "Inl c" b] show ?thesis by (auto simp: parseFrame_def)
next
  case (Inr q)
  obtain len k where q: "q = (len, k)" by (cases q)
  have h: "frameHead (a @ b) = Inr (len, k)" "2 \<le> k" "k \<le> length a"
    using frameHead_append [of a _ b] frameHead_bounds [of a] Inr q by auto
  have at: "(a @ b) ! 0 = a ! 0" "(a @ b) ! 1 = a ! 1" using h(2,3) by (auto simp: nth_append)
  have m: "take 4 (drop k (a @ b)) = take 4 (drop k a)" if "k + 4 \<le> length a" using that by simp
  show ?thesis
  proof (cases "and (byte (a ! 1)) 0x80 = 0")
    case True
    with assms Inr q h at show ?thesis by (auto simp: parseFrame_def Let_def nth_append split: if_splits)
  next
    case False
    with assms Inr q have "k + 4 + len \<le> length a" by (auto simp: parseFrame_def Let_def split: if_splits)
    with False assms Inr q h at m show ?thesis by (auto simp: parseFrame_def Let_def nth_append split: if_splits)
  qed
qed

text \<open>The payloads of the complete frames at the front of a text, and the bytes behind them.\<close>

function frames :: "string \<Rightarrow> string list \<times> string" where
  "frames a = (case parseFrame a of (n, p) \<Rightarrow>
     if n \<le> 0 then ([], a)
     else case frames (drop (nat n) a) of (ps, r) \<Rightarrow> ((case p of None \<Rightarrow> ps | Some t \<Rightarrow> t # ps), r))"
  by pat_completeness auto
termination
proof (relation "measure length", goal_cases)
  case (2 a n p)
  then have "a \<noteq> []" using parseFrame_bounds [of a n p] by (auto dest: sym)
  with 2 show ?case by simp
qed simp

declare frames.simps [simp del]

lemma frames_stop: "fst (parseFrame a) \<le> 0 \<Longrightarrow> frames a = ([], a)"
  by (subst frames.simps) (auto split: prod.splits)

lemma frames_append:
  "frames (a @ b) = (fst (frames a) @ fst (frames (snd (frames a) @ b)), snd (frames (snd (frames a) @ b)))"
proof (induction a rule: frames.induct)
  case (1 a)
  obtain n p where np: "parseFrame a = (n, p)" by (cases "parseFrame a")
  show ?case
  proof (cases "n \<le> 0")
    case True
    then show ?thesis by (simp add: np frames_stop)
  next
    case False
    have "nat n \<le> length a" using np by (rule parseFrame_bounds)
    then have d: "drop (nat n) (a @ b) = drop (nat n) a @ b" by simp
    have f: "frames a = (case frames (drop (nat n) a) of (ps, r) \<Rightarrow> ((case p of None \<Rightarrow> ps | Some t \<Rightarrow> t # ps), r))"
      using False by (subst frames.simps) (simp add: np)
    have "frames (a @ b) = (case frames (drop (nat n) a @ b) of (ps, r) \<Rightarrow> ((case p of None \<Rightarrow> ps | Some t \<Rightarrow> t # ps), r))"
      using False parseFrame_append [OF np, of b] by (subst frames.simps) (simp add: d del: drop_append)
    with 1 [OF np [symmetric] False] f show ?thesis by (cases p) (simp_all split: prod.splits)
  qed
qed

subsection \<open>Messages of a connection\<close>

text \<open>Payloads sent on one after the other.\<close>

fun sendAll :: "ptr \<Rightarrow> 64 word \<Rightarrow> string list \<Rightarrow> machine \<Rightarrow> machine option" where
  "sendAll inst connId [] m = Some m"
| "sendAll inst connId (t # ts) m = do {
     m1 \<leftarrow> WS_SendRaw inst ''Out'' (t @ [NUL]) (int (length t)) connId m;
     sendAll inst connId ts m1 }"

lemma sendAll_nil: "sendAll inst connId [] = Some"
  by (rule ext) simp

lemma sendAll_append: "sendAll inst connId (a @ b) m = sendAll inst connId a m \<bind> sendAll inst connId b"
  by (induction a arbitrary: m) (auto simp: Option.bind_assoc cong: Option.bind_cong)

lemma frames_rest: "length (snd (frames a)) \<le> length a \<and> drop (length a - length (snd (frames a))) a = snd (frames a)"
proof (induction a rule: frames.induct)
  case (1 a)
  obtain n p where np: "parseFrame a = (n, p)" by (cases "parseFrame a")
  show ?case
  proof (cases "n \<le> 0")
    case True
    then show ?thesis by (simp add: np frames_stop)
  next
    case False
    have "snd (frames a) = snd (frames (drop (nat n) a))"
      using False np by (subst frames.simps) (auto split: prod.splits)
    moreover have l: "length (snd (frames (drop (nat n) a))) \<le> length a - nat n" "nat n \<le> length a"
      using 1 [OF np [symmetric] False] parseFrame_bounds [OF np] by simp_all
    moreover have "drop (length a - length (snd (frames (drop (nat n) a)))) a
        = drop (length (drop (nat n) a) - length (snd (frames (drop (nat n) a)))) (drop (nat n) a)"
      using l by simp
    ultimately show ?thesis using 1 [OF np [symmetric] False] by simp
  qed
qed

lemmas length_snd_frames = frames_rest [THEN conjunct1]

text \<open>The loop over a buffer sends the payloads of its frames and stops where the rest begins.\<close>

lemma framesFrom_frames:
  "\<forall>n. can_alloc mm n \<Longrightarrow> pos \<le> length buf \<Longrightarrow> framesFrom mm inst buf pos connId m
    = map_option (\<lambda>m1. (length buf - length (snd (frames (drop pos buf))), m1)) (sendAll inst connId (fst (frames (drop pos buf))) m)"
proof (induction mm inst buf pos connId m rule: framesFrom.induct)
  case (1 mm inst buf pos connId m)
  let ?a = "drop pos buf"
  obtain n p where np: "parseFrame ?a = (n, p)" by (cases "parseFrame ?a")
  show ?case
  proof (cases "length buf \<le> pos")
    case True
    then have "?a = []" "pos = length buf" using "1.prems" by auto
    moreover have "frames [] = ([], [])" by (rule frames_stop) (simp add: parseFrame_def frameHead_def)
    ultimately show ?thesis by (subst framesFrom.simps) simp
  next
    case False
    have b: "nat n \<le> length ?a" using np by (rule parseFrame_bounds)
    show ?thesis
    proof (cases "n \<le> 0")
      case True
      then have "frames ?a = ([], ?a)" "p = None" using np parseFrame_none [OF np] by (simp_all add: frames_stop)
      with False True np "1.prems" show ?thesis by (subst framesFrom.simps) (simp add: WS_HandleOneFrame_def)
    next
      case pos: False
      have f: "frames ?a = (case frames (drop (pos + nat n) buf) of (ps, r) \<Rightarrow> ((case p of None \<Rightarrow> ps | Some t \<Rightarrow> t # ps), r))"
        using pos by (subst frames.simps) (simp add: np add.commute)
      define step where "step = WS_HandleOneFrame mm inst ?a connId m"
      have step: "step = map_option (\<lambda>m1. (n, m1)) (sendAll inst connId (case p of None \<Rightarrow> [] | Some t \<Rightarrow> [t]) m)"
        using np "1.prems"(1) by (auto simp: step_def WS_HandleOneFrame_def map_option_case sendAll_nil split: option.splits Option.bind_splits)
      have run: "framesFrom mm inst buf pos connId m = (case step of None \<Rightarrow> None
          | Some (c, m1) \<Rightarrow> if c \<le> 0 then Some (pos, m1) else framesFrom mm inst buf (pos + nat c) connId m1)"
        using False by (subst framesFrom.simps) (simp add: step_def)
      show ?thesis
      proof (cases step)
        case None
        with run step f show ?thesis by (auto simp: sendAll_nil split: option.splits prod.splits)
      next
        case (Some q)
        then obtain m1 where q: "q = (n, m1)" "sendAll inst connId (case p of None \<Rightarrow> [] | Some t \<Rightarrow> [t]) m = Some m1"
          using step by auto
        have "framesFrom mm inst buf (pos + nat n) connId m1
            = map_option (\<lambda>m2. (length buf - length (snd (frames (drop (pos + nat n) buf))), m2))
                (sendAll inst connId (fst (frames (drop (pos + nat n) buf))) m1)"
          using "1.IH" [OF False Some [unfolded step_def] q(1) [symmetric] pos] "1.prems" b by simp
        with run Some q pos f show ?thesis by (cases p) (auto simp: sendAll_nil split: prod.splits)
      qed
    qed
  qed
qed

text \<open>A buffer of a connection between two messages: in order, adding bytes as they come, its contents at the
  front of its block.\<close>

definition wireBuf :: "object \<Rightarrow> bool" where
  "wireBuf obj \<longleftrightarrow> buff_inv obj \<and> addType obj = buff_default \<and> unat (ReallocAdjustment obj) = 4096 \<and> tail obj = 0"

lemma wireBuf_create: "buffCreate mm 4096 = Some obj \<Longrightarrow> wireBuf obj \<and> content obj = []"
  using buffCreate_ok [of mm 4096 obj] by (auto simp: wireBuf_def buffCreate_def Let_def split: if_splits)

lemma buffAdd_tail:
  assumes "tail obj = 0" "buffAdd mm (Some obj) p len = Some (Some obj', r)"
  shows "tail obj' = 0"
  using assms by (auto simp: buffAdd_def addSlide_def addRoom_def addCopy_def putBytes_def Let_def bind_eq_Some_conv
    split: option.splits if_splits prod.splits)

lemma wireBuf_add:
  assumes w: "wireBuf obj" and g: "\<forall>n. can_alloc mm n" and l: "length (content obj) + length s < 2 ^ 31"
  obtains obj' where "buffAdd mm (Some obj) (Some s) (word_of_nat (length s)) = Some (Some obj', 1)" "wireBuf obj'"
    "content obj' = content obj @ s"
proof -
  have u: "unat (word_of_nat (length s) :: u32) = length s" using l by (simp add: unat_of_nat)
  have h: "unat (head obj) = length (content obj)" using w length_content [of obj] by (simp add: wireBuf_def)
  have "add_ok obj s (word_of_nat (length s))"
    using w l u h by (simp add: add_ok_def add_nowrap_def need_def wireBuf_def)
  moreover have "buff_inv obj" "addType obj = buff_default" using w by (simp_all add: wireBuf_def)
  ultimately obtain obj' r where r: "buffAdd mm (Some obj) (Some s) (word_of_nat (length s)) = Some (Some obj', r)" "buff_inv obj'"
      "content obj' = (if r = 1 then content obj @ added obj s (word_of_nat (length s)) else content obj)"
      "same_limits obj' obj" "(\<forall>n. can_alloc mm n) \<longrightarrow> r = 1"
    by (rule_tac buffAdd_ok [of obj s "word_of_nat (length s)" mm]) auto
  have "wireBuf obj'" using w r(2,4) buffAdd_tail [OF _ r(1)] by (simp add: wireBuf_def same_limits_def)
  moreover have "content obj' = content obj @ s" using r(3,5) g w u by (simp add: added_def wireBuf_def)
  ultimately show ?thesis using that r(1,5) g by blast
qed

lemma wireBuf_clear:
  assumes "buff_inv obj" "addType obj = buff_default" "unat (ReallocAdjustment obj) = 4096"
  obtains obj' where "buffClear (Some obj) = Some (Some obj', 1)" "wireBuf obj'" "content obj' = []"
proof -
  obtain obj' where c: "buffClear (Some obj) = Some (Some obj', 1)" "buff_inv obj'" "content obj' = []" "same_limits obj' obj"
    using buffClear_ok [OF assms(1)] by blast
  have "tail obj' = 0" using c(1) by (auto simp: buffClear_def bind_eq_Some_conv)
  with c assms(2,3) that show ?thesis by (simp add: wireBuf_def same_limits_def)
qed

lemma keepTail_ok:
  assumes c: "buffClear (Some obj) = Some (Some o3, 1)" and w: "wireBuf o3" and e: "content o3 = []"
    and g: "\<forall>n. can_alloc mm n" and l: "length (drop pos bytes) < 2 ^ 31"
  obtains o4 where "keepTail mm (Some obj) bytes pos = Some (Some o4)" "wireBuf o4" "content o4 = drop pos bytes"
proof (cases "pos < length bytes")
  case False
  then show ?thesis using that [of o3] c w e by (simp add: keepTail_def)
next
  case True
  have "length (content o3) + length (drop pos bytes) < 2 ^ 31" using l e by simp
  from wireBuf_add [OF w g this] obtain o5 where "buffAdd mm (Some o3) (Some (drop pos bytes)) (word_of_nat (length (drop pos bytes))) = Some (Some o5, 1)"
    "wireBuf o5" "content o5 = content o3 @ drop pos bytes" by blast
  then show ?thesis using that [of o5] True c e g by (simp add: keepTail_def Let_def)
qed

text \<open>One message: its bytes go behind what was left over, the payloads of the frames that are complete now are
  sent on, and the rest is left over.\<close>

lemma receive_frames:
  assumes w: "wireBuf obj" and g: "\<forall>n. can_alloc mm n" and l: "length (content obj) + length s < 2 ^ 31"
  shows "\<exists>obj'. wireBuf obj' \<and> content obj' = snd (frames (content obj @ s))
    \<and> receive mm inst s (int (length s)) connId (Some obj, m)
      = map_option (\<lambda>m1. (Some obj', m1)) (sendAll inst connId (fst (frames (content obj @ s))) m)"
proof -
  let ?a = "content obj @ s"
  obtain o1 where o1: "buffAdd mm (Some obj) (Some s) (word_of_nat (length s)) = Some (Some o1, 1)" "wireBuf o1" "content o1 = ?a"
    using wireBuf_add [OF w g l] by blast
  have "buff_inv o1" using o1(2) by (simp add: wireBuf_def)
  then obtain o2 n where o2: "buffGetBuffer mm (Some o1) True = Some (Some o2, n, ?a)" "unat n = length ?a" "buff_inv o2"
      "same_config o2 o1"
    using o1(3) by (rule_tac buffGetBuffer_ok [of o1 mm]) simp_all
  have n: "n < 2 ^ 31" using o2(2) l by (simp add: word_less_nat_alt)
  obtain o3 where o3: "buffClear (Some o2) = Some (Some o3, 1)" "wireBuf o3" "content o3 = []"
    using wireBuf_clear [OF o2(3)] o2(4) o1(2) by (auto simp: wireBuf_def same_config_def)
  let ?r = "snd (frames ?a)"
  have suffix: "drop (length ?a - length ?r) ?a = ?r" using frames_rest [of ?a] by simp
  obtain o4 where o4: "keepTail mm (Some o2) ?a (length ?a - length ?r) = Some (Some o4)" "wireBuf o4" "content o4 = ?r"
  proof (rule keepTail_ok [OF o3(1) o3(2) o3(3) g, of "length ?a - length ?r" ?a])
    show "length (drop (length ?a - length ?r) ?a) < 2 ^ 31" using l length_snd_frames [of ?a] by (simp add: suffix)
  qed (use that suffix in auto)
  have "WS_HandleFrames mm inst ?a connId m
      = map_option (\<lambda>m1. (length ?a - length ?r, m1)) (sendAll inst connId (fst (frames ?a)) m)"
    using framesFrom_frames [OF g, of 0 ?a] by (simp add: WS_HandleFrames_def)
  then have "receive mm inst s (int (length s)) connId (Some obj, m)
      = map_option (\<lambda>m1. (Some o4, m1)) (sendAll inst connId (fst (frames ?a)) m)"
    using o1(1) o2(1) n o4(1) by (auto simp: receive_def map_option_case split: option.splits)
  with o4(2,3) show ?thesis by blast
qed

primrec receives :: "mem \<Rightarrow> ptr \<Rightarrow> 64 word \<Rightarrow> string list \<Rightarrow> buff \<times> machine \<Rightarrow> (buff \<times> machine) option" where
  "receives mm inst connId [] bm = Some bm"
| "receives mm inst connId (s # ss) bm = do { bm1 \<leftarrow> receive mm inst s (int (length s)) connId bm; receives mm inst connId ss bm1 }"

lemma frames_settled: "frames (snd (frames a)) = ([], snd (frames a))"
proof (induction a rule: frames.induct)
  case (1 a)
  obtain n p where np: "parseFrame a = (n, p)" by (cases "parseFrame a")
  show ?case
  proof (cases "n \<le> 0")
    case True
    then show ?thesis by (simp add: np frames_stop)
  next
    case False
    have "snd (frames a) = snd (frames (drop (nat n) a))"
      using False np by (subst frames.simps) (auto split: prod.splits)
    with 1 [OF np [symmetric] False] show ?thesis by simp
  qed
qed

lemma receives_frames:
  assumes "wireBuf obj" and "frames (content obj) = ([], content obj)" and "\<forall>n. can_alloc mm n"
    and "length (content obj @ concat ss) < 2 ^ 31"
  shows "map_option (\<lambda>(b, m1). (map_option content b, m1)) (receives mm inst connId ss (Some obj, m))
    = map_option (\<lambda>m1. (Some (snd (frames (content obj @ concat ss))), m1))
        (sendAll inst connId (fst (frames (content obj @ concat ss))) m)"
  using assms(1,2,4)
proof (induction ss arbitrary: obj m)
  case (Cons s ss)
  let ?a = "content obj @ s"
  obtain o1 where o1: "wireBuf o1" "content o1 = snd (frames ?a)"
      "receive mm inst s (int (length s)) connId (Some obj, m) = map_option (\<lambda>m1. (Some o1, m1)) (sendAll inst connId (fst (frames ?a)) m)"
    using receive_frames [OF Cons.prems(1) assms(3), of s inst connId m] Cons.prems(3) by auto
  have l: "length (content o1 @ concat ss) < 2 ^ 31" using Cons.prems(3) length_snd_frames [of ?a] o1(2) by simp
  have f: "fst (frames (content obj @ concat (s # ss))) = fst (frames ?a) @ fst (frames (content o1 @ concat ss))"
    "snd (frames (content obj @ concat (s # ss))) = snd (frames (content o1 @ concat ss))"
    using frames_append [of ?a "concat ss"] o1(2) by simp_all
  show ?case
  proof (cases "sendAll inst connId (fst (frames ?a)) m")
    case None
    then show ?thesis unfolding f sendAll_append receives.simps o1(3) by simp
  next
    case (Some m1)
    have "frames (content o1) = ([], content o1)" using frames_settled o1(2) by simp
    from Cons.IH [OF o1(1) this l, of m1] Some show ?thesis
      unfolding f sendAll_append receives.simps o1(3) by simp
  qed
qed simp

text \<open>C30. It makes no difference how the network cuts the bytes of a connection into messages: the application gets
  the payloads of the text frames in all of them together, each once and in order, and the bytes of the frame that
  is not complete yet stay in the buffer.\<close>

theorem receives_split_irrelevant:
  assumes "wireBuf obj" and "frames (content obj) = ([], content obj)" and "\<forall>n. can_alloc mm n"
    and "length (content obj @ concat ss) < 2 ^ 31"
  shows "map_option (\<lambda>(b, m1). (map_option content b, m1)) (receives mm inst connId ss (Some obj, m))
    = map_option (\<lambda>m1. (Some (snd (frames (content obj @ concat ss))), m1))
        (sendAll inst connId (fst (frames (content obj @ concat ss))) m)"
  using assms by (rule receives_frames)

lemma byte_CHR: "byte CHR 0x81 = 0x81" "byte CHR 0x02 = 0x02" "byte CHR 0x7F = 0x7F"
  by (simp_all add: byte_def)

theorem receives_split_irrelevant_witness:
  "\<forall>m. map_option (\<lambda>(b, m1). (map_option content b, m1))
      (receives good_mem 5 1 [[CHR 0x81], [CHR 0x02, CHR ''H''], [CHR ''i'', CHR 0x81]] (Some (created 4096), m))
    = map_option (\<lambda>m1. (Some [CHR 0x81], m1)) (sendAll 5 1 [''Hi''] m)"
proof
  fix m :: machine
  have w: "wireBuf (created 4096)" "content (created 4096) = []" "\<forall>n. can_alloc good_mem n"
    using wireBuf_create [OF created [of 4096]] by (simp_all add: good_mem_def)
  have f0: "frames [] = ([], [])" "frames [CHR 0x81] = ([], [CHR 0x81])"
    by (simp_all add: frames_stop parseFrame_def frameHead_def)
  have "map (\<lambda>i. [CHR 0x81, CHR 0x02, CHR ''H'', CHR ''i'', CHR 0x81] ! (2 + i)) [0..<2] = ''Hi''" by (simp add: upt_rec)
  then have "parseFrame [CHR 0x81, CHR 0x02, CHR ''H'', CHR ''i'', CHR 0x81] = (4, Some ''Hi'')"
    by (simp add: parseFrame_def frameHead_def Let_def byte_CHR)
  then have "frames [CHR 0x81, CHR 0x02, CHR ''H'', CHR ''i'', CHR 0x81] = ([''Hi''], [CHR 0x81])"
    by (subst frames.simps) (simp add: f0)
  then show "map_option (\<lambda>(b, m1). (map_option content b, m1))
      (receives good_mem 5 1 [[CHR 0x81], [CHR 0x02, CHR ''H''], [CHR ''i'', CHR 0x81]] (Some (created 4096), m))
    = map_option (\<lambda>m1. (Some [CHR 0x81], m1)) (sendAll 5 1 [''Hi''] m)"
    using receives_split_irrelevant [OF w(1) _ w(3), of "[[CHR 0x81], [CHR 0x02, CHR ''H''], [CHR ''i'', CHR 0x81]]" 5 1 m] w(2) f0
    by simp
qed

text \<open>A frame whose head announces a 64-bit length is never passed: from then on every byte of the connection is
  kept in the buffer and nothing reaches the application.\<close>

theorem long_frame_blocks_connection:
  assumes "wireBuf obj" and "2 \<le> length (content obj)" and "and (byte (content obj ! 1)) 0x7F = 127"
    and "\<forall>n. can_alloc mm n" and "length (content obj @ concat ss) < 2 ^ 31"
  shows "map_option (\<lambda>(b, m1). (map_option content b, m1)) (receives mm inst connId ss (Some obj, m))
    = Some (Some (content obj @ concat ss), m)"
proof -
  have p: "parseFrame (content obj @ w) = (-1, None)" for w
    using assms(2,3) by (simp add: parseFrame_def frameHead_def Let_def nth_append)
  then have "frames (content obj @ w) = ([], content obj @ w)" for w by (simp add: frames_stop)
  from this [of "[]"] this [of "concat ss"] receives_frames [OF assms(1) _ assms(4,5), of inst connId m]
  show ?thesis by simp
qed

theorem long_frame_blocks_connection_witness:
  "\<exists>obj. wireBuf obj \<and> content obj = [CHR 0x81, CHR 0x7F] \<and> (\<forall>m. map_option (\<lambda>(b, m1). (map_option content b, m1))
      (receives good_mem 5 1 [''ab'', ''c''] (Some obj, m)) = Some (Some ([CHR 0x81, CHR 0x7F] @ ''abc''), m))"
proof -
  have g: "\<forall>n. can_alloc good_mem n" by (simp add: good_mem_def)
  have c: "wireBuf (created 4096)" "content (created 4096) = []"
    using wireBuf_create [OF created [of 4096]] by simp_all
  obtain obj where w: "wireBuf obj" "content obj = [CHR 0x81, CHR 0x7F]"
    using wireBuf_add [OF c(1) g, of "[CHR 0x81, CHR 0x7F]"] c(2) by auto
  have "map_option (\<lambda>(b, m1). (map_option content b, m1)) (receives good_mem 5 1 [''ab'', ''c''] (Some obj, m))
      = Some (Some ([CHR 0x81, CHR 0x7F] @ ''abc''), m)" for m
    using long_frame_blocks_connection [OF w(1) _ _ g, of "[''ab'', ''c'']" 5 1 m] w(2) by (simp add: byte_CHR del: receives.simps)
  with w show ?thesis by blast
qed

end
