(* ===== verification/WebSocket_Text.thy ===== *)
theory WebSocket_Text
  imports WebSocket Base64_Codec
begin

text \<open>
  Proofs on the texts of the socket: what is shown in the browser is UTF-8 and fits its block, and the second base64
  encoder of the repository is the first one.
\<close>

subsection \<open>UTF-8\<close>

text \<open>The reference: the bytes of a scalar value.\<close>

definition scalar :: "nat \<Rightarrow> bool" where
  "scalar c \<longleftrightarrow> c < 0xD800 \<or> 0xE000 \<le> c \<and> c \<le> 0x10FFFF"

definition utf8 :: "nat \<Rightarrow> nat list" where
  "utf8 c = (if c < 0x80 then [c]
     else if c < 0x800 then [0xC0 + c div 64, 0x80 + c mod 64]
     else if c < 0x10000 then [0xE0 + c div 4096, 0x80 + c div 64 mod 64, 0x80 + c mod 64]
     else [0xF0 + c div 262144, 0x80 + c div 4096 mod 64, 0x80 + c div 64 mod 64, 0x80 + c mod 64])"

definition utf8Text :: "nat list \<Rightarrow> nat list" where
  "utf8Text cs = concat (map utf8 cs)"

lemma utf8Text_simps [simp]: "utf8Text [] = []" "utf8Text (c # cs) = utf8 c @ utf8Text cs"
  "utf8Text (cs @ ds) = utf8Text cs @ utf8Text ds"
  by (simp_all add: utf8Text_def)

lemma utf8_replacement: "map byte replacement = utf8 0xFFFD" "scalar 0xFFFD"
  by (simp_all add: replacement_def utf8_def scalar_def byte_def)

lemma Utf8Len_bounds: "s \<noteq> [] \<Longrightarrow> WS_Utf8Len s \<le> length s"
  by (cases s) (auto simp: WS_Utf8Len_def Let_def not_less Suc_le_eq)

text \<open>What the digits of a scalar value are, base 64.\<close>

lemma digit_base64:
  fixes n d :: nat
  assumes "d < 64"
  shows "(n * 64 + d) div 64 = n" "(n * 64 + d) mod 64 = d"
  using assms by simp_all

lemma div_base64: "x div 4096 = x div 64 div (64 :: nat)" "x div 262144 = x div 64 div 64 div (64 :: nat)"
  by (simp_all flip: div_mult2_eq)

lemma Utf8Len_values: "WS_Utf8Len s \<in> {0, 1, 2, 3, 4}"
  by (simp add: WS_Utf8Len_def Let_def)

lemma Utf8Len_1: "WS_Utf8Len s = 1 \<Longrightarrow> s ! 0 < 0x80"
  by (simp add: WS_Utf8Len_def Let_def split: if_split_asm)

lemma Utf8Len_2: "WS_Utf8Len s = 2 \<Longrightarrow> 2 \<le> length s \<and> 0xC2 \<le> s ! 0 \<and> s ! 0 < 0xE0 \<and> between 0x80 0xBF (s ! 1)"
  by (simp add: WS_Utf8Len_def Let_def not_less split: if_split_asm)

lemma Utf8Len_3: "WS_Utf8Len s = 3 \<Longrightarrow> 3 \<le> length s \<and> 0xE0 \<le> s ! 0 \<and> s ! 0 < 0xF0
    \<and> between (if s ! 0 = 0xE0 then 0xA0 else 0x80) (if s ! 0 = 0xED then 0x9F else 0xBF) (s ! 1) \<and> between 0x80 0xBF (s ! 2)"
  by (simp add: WS_Utf8Len_def Let_def not_less split: if_split_asm)

lemma Utf8Len_4: "WS_Utf8Len s = 4 \<Longrightarrow> 4 \<le> length s \<and> 0xF0 \<le> s ! 0 \<and> s ! 0 \<le> 0xF4
    \<and> between (if s ! 0 = 0xF0 then 0x90 else 0x80) (if s ! 0 = 0xF4 then 0x8F else 0xBF) (s ! 1) \<and> between 0x80 0xBF (s ! 2)
    \<and> between 0x80 0xBF (s ! 3)"
  by (simp add: WS_Utf8Len_def Let_def not_less split: if_split_asm)

lemma Utf8Len_sound:
  assumes "WS_Utf8Len s = n" "0 < n" "s \<noteq> []"
  shows "\<exists>c. scalar c \<and> take n s = utf8 c"
proof -
  obtain x s1 where s: "s = x # s1" using assms(3) by (cases s) auto
  consider "n = 1" | "n = 2" | "n = 3" | "n = 4"
    using assms(1,2) Utf8Len_values [of s] by auto
  then show ?thesis
  proof cases
    case 1
    with Utf8Len_1 [of s] assms s show ?thesis by (intro exI [of _ x]) (simp add: utf8_def scalar_def)
  next
    case 2
    then have u: "2 \<le> length s" "0xC2 \<le> s ! 0" "s ! 0 < 0xE0" "between 0x80 0xBF (s ! 1)"
      using Utf8Len_2 [of s] assms(1) by simp_all
    then obtain y s2 where t: "s = x # y # s2" using s by (cases s1) auto
    define a d where ad: "a = x - 0xC0" "d = y - 0x80"
    have q: "x = 0xC0 + a" "y = 0x80 + d" "2 \<le> a" "a < 32" "d < 64" using u by (auto simp: t ad between_def)
    then have "0x80 \<le> a * 64 + d" "a * 64 + d < 0x800" by linarith+
    with q 2 show ?thesis by (intro exI [of _ "a * 64 + d"]) (simp add: t utf8_def scalar_def digit_base64)
  next
    case 3
    then have u: "3 \<le> length s" "0xE0 \<le> s ! 0" "s ! 0 < 0xF0" "between 0x80 0xBF (s ! 2)"
        "between (if s ! 0 = 0xE0 then 0xA0 else 0x80) (if s ! 0 = 0xED then 0x9F else 0xBF) (s ! 1)"
      using Utf8Len_3 [of s] assms(1) by simp_all
    then obtain y z s2 where t: "s = x # y # z # s2" using s by (cases s1 rule: remdups_adj.cases) auto
    define a b d where ad: "a = x - 0xE0" "b = y - 0x80" "d = z - 0x80"
    have q: "x = 0xE0 + a" "y = 0x80 + b" "z = 0x80 + d" "a < 16" "b < 64" "d < 64" "a = 0 \<longrightarrow> 32 \<le> b" "a = 13 \<longrightarrow> b < 32"
      using u by (auto simp: t ad between_def split: if_splits)
    define k where "k = a * 64 + b"
    have k: "32 \<le> k" "k < 1024" "k < 0x360 \<or> 0x380 \<le> k"
      using q(4,5,7,8) unfolding k_def by (linarith | (cases "a < 13"; cases "a = 13"; simp))+
    then have "0x800 \<le> k * 64 + d" "k * 64 + d < 0x10000" "scalar (k * 64 + d)" using q(6) by (auto simp: scalar_def)
    moreover have "k div 64 = a" "k mod 64 = b" using q(5) by (simp_all only: k_def digit_base64)
    ultimately show ?thesis
      using q(1-6) 3 by (intro exI [of _ "k * 64 + d"]) (simp add: t utf8_def digit_base64 div_base64)
  next
    case 4
    then have u: "4 \<le> length s" "0xF0 \<le> s ! 0" "s ! 0 \<le> 0xF4" "between 0x80 0xBF (s ! 2)" "between 0x80 0xBF (s ! 3)"
        "between (if s ! 0 = 0xF0 then 0x90 else 0x80) (if s ! 0 = 0xF4 then 0x8F else 0xBF) (s ! 1)"
      using Utf8Len_4 [of s] assms(1) by simp_all
    then obtain y z v s2 where t: "s = x # y # z # v # s2" using s by (auto simp: eval_nat_numeral Suc_le_length_iff)
    define a b d e where ad: "a = x - 0xF0" "b = y - 0x80" "d = z - 0x80" "e = v - 0x80"
    have q: "x = 0xF0 + a" "y = 0x80 + b" "z = 0x80 + d" "v = 0x80 + e" "a < 5" "b < 64" "d < 64" "e < 64"
        "a = 0 \<longrightarrow> 16 \<le> b" "a = 4 \<longrightarrow> b < 16"
      using u by (auto simp: t ad between_def split: if_splits)
    define k where "k = a * 64 + b"
    have k: "16 \<le> k" "k \<le> 271" using q(5,6,9,10) unfolding k_def by (linarith | (cases "a = 4"; simp))+
    define l where "l = k * 64 + d"
    have "0x10000 \<le> l * 64 + e" "scalar (l * 64 + e)" using k q(7,8) by (auto simp: scalar_def l_def)
    moreover have "k div 64 = a" "k mod 64 = b" using q(6) by (simp_all only: k_def digit_base64)
    moreover have "l div 64 = k" "l mod 64 = d" using q(7) by (simp_all only: l_def digit_base64)
    ultimately show ?thesis
      using q(1-8) 4 by (intro exI [of _ "l * 64 + e"]) (simp add: t utf8_def digit_base64 div_base64)
  qed
qed

lemma Utf8Len_utf8:
  assumes "scalar c"
  shows "WS_Utf8Len (utf8 c @ r) = length (utf8 c)"
proof -
  consider "c < 0x80" | "0x80 \<le> c" "c < 0x800" | "0x800 \<le> c" "c < 0x10000" | "0x10000 \<le> c" by linarith
  then show ?thesis
  proof cases
    case 1
    then show ?thesis by (simp add: utf8_def WS_Utf8Len_def)
  next
    case 2
    then have "2 \<le> c div 64" "c div 64 < 32" using div_le_mono [of "0x80" c 64] by (simp_all add: less_mult_imp_div_less)
    with 2 show ?thesis by (simp add: utf8_def WS_Utf8Len_def between_def Let_def)
  next
    case 3
    define n where "n = c div 64"
    define a b where ab: "a = n div 64" "b = n mod 64"
    have n: "n = a * 64 + b" "b < 64" by (simp_all add: ab)
    define d where "d = c mod 64"
    then have d: "d < 64" by simp
    have "32 \<le> n" "n < 1024" using 3 div_le_mono [of "0x800" c 64] by (simp_all add: n_def less_mult_imp_div_less)
    moreover have "n < 0x360 \<or> 0x380 \<le> n"
      using assms div_le_mono [of "0xE000" c 64] by (auto simp: scalar_def n_def less_mult_imp_div_less)
    ultimately have "a < 16" "a = 0 \<longrightarrow> 32 \<le> b" "a = 13 \<longrightarrow> b < 32" using n by linarith+
    moreover have "utf8 c = [0xE0 + a, 0x80 + b, 0x80 + d]" using 3 by (simp add: utf8_def ab n_def d_def div_base64)
    ultimately show ?thesis using n(2) d by (auto simp: WS_Utf8Len_def between_def Let_def)
  next
    case 4
    define n where "n = c div 4096"
    define a b where ab: "a = n div 64" "b = n mod 64"
    have n: "n = a * 64 + b" "b < 64" by (simp_all add: ab)
    define d e where de: "d = c div 64 mod 64" "e = c mod 64"
    then have d: "d < 64" "e < 64" by simp_all
    have "16 \<le> n" "n \<le> 271"
      using 4 assms div_le_mono [of "0x10000" c 4096] div_le_mono [of c "0x10FFFF" 4096] by (simp_all add: n_def scalar_def)
    then have "a \<le> 4" "a = 0 \<longrightarrow> 16 \<le> b" "a = 4 \<longrightarrow> b < 16" using n by linarith+
    moreover have "utf8 c = [0xF0 + a, 0x80 + b, 0x80 + d, 0x80 + e]"
      using 4 by (simp add: utf8_def ab n_def de div_base64)
    ultimately show ?thesis using n(2) d by (auto simp: WS_Utf8Len_def between_def Let_def)
  qed
qed

subsection \<open>The copy for the browser\<close>

text \<open>The text that is shown: the sequences that are UTF-8 as they are, the mark \<open>U+FFFD\<close> for every other byte.\<close>

function shown :: "string \<Rightarrow> string" where
  "shown s = (if s = [] then [] else let n = WS_Utf8Len (map byte s) in
     if 0 < n then take n s @ shown (drop n s) else replacement @ shown (drop 1 s))"
  by pat_completeness auto
termination
  by (relation "measure length") auto

declare shown.simps [simp del]

lemma shown_Nil [simp]: "shown [] = []"
  by (simp add: shown.simps)

lemma shown_step: "s \<noteq> [] \<Longrightarrow> shown s = (if 0 < WS_Utf8Len (map byte s)
    then take (WS_Utf8Len (map byte s)) s @ shown (drop (WS_Utf8Len (map byte s)) s) else replacement @ shown (drop 1 s))"
  by (subst shown.simps) (simp add: Let_def)

lemma displayFrom_shown: "displayFrom room s out = emits room out (shown s)"
proof (induction room s out rule: displayFrom.induct)
  case (1 room s out)
  show ?case
  proof (cases "s = []")
    case False
    with 1 show ?thesis
      by (subst displayFrom.simps) (simp add: shown_step Let_def emits_append split: option.split)
  qed (simp add: displayFrom.simps)
qed

lemma length_shown: "length (shown s) \<le> 3 * length s"
proof (induction s rule: shown.induct)
  case (1 s)
  show ?case
  proof (cases "s = []")
    case False
    let ?n = "WS_Utf8Len (map byte s)"
    show ?thesis
    proof (cases "0 < ?n")
      case True
      have "?n \<le> length s" using False Utf8Len_bounds [of "map byte s"] by simp
      moreover have "length (shown (drop ?n s)) \<le> 3 * (length s - ?n)" using "1.IH"(1) [OF False refl True] by simp
      ultimately show ?thesis using True False by (simp add: shown_step)
    next
      case F: False
      obtain c s1 where "s = c # s1" using False by (cases s) auto
      then show ?thesis using "1.IH"(2) [OF False refl F] F by (simp add: shown_step replacement_def)
    qed
  qed simp
qed

lemma shown_utf8: "\<exists>cs. list_all scalar cs \<and> map byte (shown s) = utf8Text cs"
proof (induction s rule: shown.induct)
  case (1 s)
  let ?n = "WS_Utf8Len (map byte s)"
  show ?case
  proof (cases "s = []")
    case True
    then show ?thesis by (intro exI [of _ "[]"]) simp
  next
    case False
    show ?thesis
    proof (cases "0 < ?n")
      case True
      obtain cs where cs: "list_all scalar cs" "map byte (shown (drop ?n s)) = utf8Text cs"
        using "1.IH"(1) [OF False refl True] by blast
      obtain c where "scalar c" "take ?n (map byte s) = utf8 c"
        using Utf8Len_sound [of "map byte s", OF refl True] False by auto
      with cs False True show ?thesis by (intro exI [of _ "c # cs"]) (simp add: shown_step take_map)
    next
      case F: False
      obtain cs where cs: "list_all scalar cs" "map byte (shown (drop 1 s)) = utf8Text cs"
        using "1.IH"(2) [OF False refl F] by blast
      with False F utf8_replacement show ?thesis by (intro exI [of _ "0xFFFD # cs"]) (simp add: shown_step)
    qed
  qed
qed

lemma utf8_not_Nil: "utf8 c \<noteq> []"
  by (simp add: utf8_def)

lemma shown_keeps: "list_all scalar cs \<Longrightarrow> map byte s = utf8Text cs \<Longrightarrow> shown s = s"
proof (induction cs arbitrary: s)
  case (Cons c cs)
  then have l: "WS_Utf8Len (map byte s) = length (utf8 c)" "scalar c" by (simp_all add: Utf8Len_utf8)
  have "map byte (drop (length (utf8 c)) s) = utf8Text cs" using Cons.prems(2) by (simp flip: drop_map)
  then have "shown (drop (length (utf8 c)) s) = drop (length (utf8 c)) s" using Cons by simp
  moreover have "s \<noteq> []" using Cons.prems(2) utf8_not_Nil [of c] by auto
  ultimately show ?case using l utf8_not_Nil [of c] by (simp add: shown_step)
qed simp

text \<open>The block has room for the copy whatever the bytes are.\<close>

lemma Utf8Display_shown:
  assumes "\<forall>n. can_alloc mm n" "0 \<le> inlen" "inlen \<le> int (length block)" "inlen < 2 ^ 31"
  shows "WS_Utf8Display mm block inlen = Some (Some (shown (take (nat inlen) block)))"
proof -
  have room: "nat ((inlen mod 2 ^ 64 * 3 + 1) mod 2 ^ 64) = 3 * nat inlen + 1"
    using assms(2,4) by (simp add: nat_add_distrib nat_mult_distrib)
  have "length (take (nat inlen) block) \<le> nat inlen" by simp
  then have "length (shown (take (nat inlen) block)) < 3 * nat inlen + 1"
    using length_shown [of "take (nat inlen) block"] by linarith
  then show ?thesis
    using assms unfolding WS_Utf8Display_def room Let_def displayFrom_shown by (simp add: emits_fit emit_def)
qed



text \<open>A text that is UTF-8 is shown as it is.\<close>

theorem Utf8Display_keeps_utf8:
  assumes "\<forall>n. can_alloc mm n" "length block < 2 ^ 31" "list_all scalar cs" "map byte block = utf8Text cs"
  shows "WS_Utf8Display mm (block @ rest) (int (length block)) = Some (Some block)"
  using Utf8Display_shown [OF assms(1), of "int (length block)" "block @ rest"] shown_keeps [OF assms(3,4)] assms(2)
  by simp

theorem Utf8Display_keeps_utf8_witness:
  "WS_Utf8Display good_mem ([CHR 0xE2, CHR 0x82, CHR 0xAC] @ [NUL]) 3 = Some (Some [CHR 0xE2, CHR 0x82, CHR 0xAC])"
proof -
  have "map byte [CHR 0xE2, CHR 0x82, CHR 0xAC] = utf8Text [0x20AC]" "list_all scalar [0x20AC]"
    by (simp_all add: byte_def utf8_def scalar_def)
  then show ?thesis
    using Utf8Display_keeps_utf8 [of good_mem "[CHR 0xE2, CHR 0x82, CHR 0xAC]" "[0x20AC]" "[NUL]"]
    by (simp add: good_mem_def)
qed

subsection \<open>Two base64 encoders\<close>

text \<open>The groups before the padding is put over them.\<close>

fun full64 :: "string \<Rightarrow> string" where
  "full64 [] = []"
| "full64 [a] = [digit64 (byte a div 4), digit64 (byte a mod 4 * 16), digit64 0, digit64 0]"
| "full64 [a, b] = [digit64 (byte a div 4), digit64 (byte a mod 4 * 16 + byte b div 16), digit64 (byte b mod 16 * 4), digit64 0]"
| "full64 (a # b # c # s) = [digit64 (byte a div 4), digit64 (byte a mod 4 * 16 + byte b div 16),
     digit64 (byte b mod 16 * 4 + byte c div 64), digit64 (byte c mod 64)] @ full64 s"

lemma length_full64: "length (full64 s) = length (enc64 s)"
  by (induction s rule: full64.induct) auto

lemma full64_take: "s \<noteq> [] \<Longrightarrow> full64 s = full64 (take 3 s) @ full64 (drop 3 s)"
  by (cases s rule: full64.cases) auto

lemma triple_sum: "a < 256 \<Longrightarrow> b < 256 \<Longrightarrow> c < 256 \<Longrightarrow> push_bit 16 a + push_bit 8 b + c = triple_of a b c"
proof -
  assume b: "b < 256" and c: "c < 256"
  have "or (push_bit 16 a) (push_bit 8 b) = push_bit 8 (or (push_bit 8 a) b)" by (simp add: push_bit_or)
  then show ?thesis using b c shift_or [of b 8 a] shift_or [of c 8 "a * 256 + b"] by (simp add: triple_of_def push_bit_eq_mult)
qed

lemma wsGroups_full64: "wsGroups room data i out = emits room out (full64 (drop i data))"
proof (induction room data i out rule: wsGroups.induct)
  case (1 room data i out)
  show ?case
  proof (cases "i < length data")
    case True
    define oct where "oct = (\<lambda>k. if k < length data then byte (data ! k) else 0)"
    have o: "oct k < 256" for k by (simp add: oct_def)
    define ds where "ds = [digit64 (oct i div 4), digit64 (oct i mod 4 * 16 + oct (i + 1) div 16),
      digit64 (oct (i + 1) mod 16 * 4 + oct (i + 2) div 64), digit64 (oct (i + 2) mod 64)]"
    have "full64 (drop i data) = ds @ full64 (drop (i + 3) data)"
    proof -
      have a: "drop i data = data ! i # drop (Suc i) data" using True by (simp add: Cons_nth_drop_Suc)
      show ?thesis
      proof (cases "drop (Suc i) data" rule: remdups_adj.cases)
        case 1
        then show ?thesis using True unfolding a by (simp add: ds_def oct_def)
      next
        case (2 y)
        then have "length (drop (Suc i) data) = 1" by simp
        then have "length data = i + 2" by simp
        moreover have "y = data ! (i + 1)" using 2 calculation nth_drop [of "Suc i" data 0] by simp
        ultimately
        show ?thesis using True unfolding a 2 by (simp add: ds_def oct_def)
      next
        case (3 y z ys)
        have "length data = i + 3 + length ys" using arg_cong [OF 3, of length] True by simp
        moreover have "y = data ! (i + 1)" "z = data ! (i + 2)"
          using nth_drop [of "Suc i" data 0] nth_drop [of "Suc i" data 1] 3 calculation by simp_all
        moreover have "ys = drop (i + 3) data" using arg_cong [OF 3, of "drop 2"] by (simp add: numeral_3_eq_3)
        ultimately show ?thesis unfolding a 3 by (simp add: ds_def oct_def)
      qed
    qed
    moreover have "wsGroups room data i out = (let triple = push_bit 16 (oct i) + push_bit 8 (oct (i + 1)) + oct (i + 2) in
        emits room out [digit64 (and (drop_bit 18 triple) 63), digit64 (and (drop_bit 12 triple) 63),
          digit64 (and (drop_bit 6 triple) 63), digit64 (and triple 63)] \<bind> wsGroups room data (i + 3))"
      by (subst wsGroups.simps, subst if_P [OF True]) (simp only: oct_def Let_def digit64_def)
    then have g: "wsGroups room data i out = emits room out ds \<bind> wsGroups room data (i + 3)"
      by (simp only: Let_def triple_sum [OF o o o] triple_sextets [OF o o o] ds_def)
    moreover have "wsGroups room data (i + 3) o1 = emits room o1 (full64 (drop (i + 3) data))" if "emits room out ds = Some o1" for o1
      by (rule 1 [OF True refl refl])
        (use that in \<open>simp only: triple_sum [OF o o o, unfolded oct_def] triple_sextets [OF o o o, unfolded oct_def] ds_def digit64_def oct_def\<close>)
    ultimately show ?thesis by (simp add: emits_append cong: Option.bind_cong)
  qed (simp add: wsGroups.simps)
qed

lemma full64_padding:
  "enc64 s = (let p = full64 s; n = length p; m = length s mod 3 in
     if m = 1 then p[n - 1 := CHR ''='', n - 2 := CHR ''=''] else if m = 2 then p[n - 1 := CHR ''=''] else p)"
proof (induction s rule: full64.induct)
  case (4 a b c s)
  show ?case
  proof (cases "length s mod 3 = 0")
    case True
    then show ?thesis using 4 by simp
  next
    case False
    then obtain n where n: "length (full64 s) = Suc (Suc n)" by (cases s rule: full64.cases) auto
    have l: "length (a # b # c # s) mod 3 = length s mod 3" by simp
    show ?thesis using 4 False n unfolding l by (simp add: Let_def)
  qed
qed (simp_all add: list_update_append)

lemma WS_Base64Encode_enc64: "WS_Base64Encode data = Some (enc64 data)"
proof -
  have l: "4 * ((length data + 2) div 3) = length (full64 data)" by (simp add: length_full64 length_enc64)
  have e: "NUL \<notin> set (enc64 data)" using enc64_alphabet [of data] by (auto simp: EncodeTable_def)
  have "WS_Base64Encode data = finish (length (full64 data) + 1) (enc64 data)"
    unfolding WS_Base64Encode_def l wsGroups_full64 by (subst full64_padding) (simp add: emits_fit Let_def)
  then show ?thesis using e by (simp add: finish_def length_full64 cstr_id)
qed

text \<open>The encoder of the socket, which writes whole groups and puts the padding over them, gives the text the
  base64 widget gives, and neither writes outside its block.\<close>

theorem WS_Base64Encode_agrees:
  assumes "\<forall>n. can_alloc mm n"
  shows "Base64Encode mm (Some data) = map_option Some (WS_Base64Encode data) \<and> WS_Base64Encode data \<noteq> None"
  using assms by (simp add: WS_Base64Encode_enc64 Base64Encode_enc64)

theorem WS_Base64Encode_agrees_witness:
  "Base64Encode good_mem (Some ''Man!'') = map_option Some (WS_Base64Encode ''Man!'') \<and> WS_Base64Encode ''Man!'' \<noteq> None"
  by (rule WS_Base64Encode_agrees) (simp add: good_mem_def)

text \<open>The answer to a handshake fits the block it is written to: 28 characters of base64 in a response of 129
  bytes, whatever the key.\<close>

lemma length_SHA1: "length (WS_SHA1 s) = 20"
  by (simp add: WS_SHA1_def wordBytes_def Let_def split: prod.split)

theorem handshake_fits:
  "\<exists>accept. acceptKey key = Some accept \<and> length accept = 28 \<and> length (handshakeResponse accept) = 129
    \<and> set accept \<subseteq> insert (CHR ''='') (set EncodeTable)"
proof -
  define accept where "accept = enc64 (WS_SHA1 (take 199 (key @ WS_GUID)))"
  have "length accept = 28" by (simp add: accept_def length_enc64 length_SHA1)
  moreover have "acceptKey key = map_option (take 63) (Some accept)"
    by (simp only: acceptKey_def WS_Base64Encode_enc64 accept_def)
  then have "acceptKey key = Some accept" using calculation by simp
  moreover have "length (handshakeResponse accept) = 129" using calculation by (simp add: handshakeResponse_def)
  ultimately show ?thesis using enc64_alphabet [of "WS_SHA1 (take 199 (key @ WS_GUID))"] by (auto simp: accept_def)
qed

end
