(* ===== verification/Object_Modules.thy ===== *)
theory Object_Modules
  imports Root_Class
begin

text \<open>
  What every object module under \<open>src/objects/\<close> does when it is loaded and unloaded: the library node its
  constructor \<open>_init\<close> registers, and the end in \<open>_fini\<close>.  The addresses of a module's functions are arguments;
  its static variables \<open>LibrarySelf\<close> and \<open>ClassSelf\<close> are the results that are passed on.
\<close>

subsection \<open>Runs of property writes\<close>

fun setInts :: "ptr \<Rightarrow> (string \<times> int) list \<Rightarrow> machine \<Rightarrow> machine option" where
  "setInts p [] m = Some m"
| "setInts p ((name, v) # rest) m = do { m1 \<leftarrow> SetPropInt p name (word_of_int v) m; setInts p rest m1 }"

fun setStrs :: "ptr \<Rightarrow> (string \<times> string) list \<Rightarrow> machine \<Rightarrow> machine option" where
  "setStrs p [] m = Some m"
| "setStrs p ((name, v) # rest) m = do { m1 \<leftarrow> SetPropStr p name (Some v) m; setStrs p rest m1 }"

fun setLongs :: "ptr \<Rightarrow> (string \<times> 64 word) list \<Rightarrow> machine \<Rightarrow> machine option" where
  "setLongs p [] m = Some m"
| "setLongs p ((name, v) # rest) m = do { m1 \<leftarrow> SetPropLong p name v m; setLongs p rest m1 }"

subsection \<open>Libraries and classes\<close>

definition CORE_LIBRARY_FILE :: string where
  "CORE_LIBRARY_FILE = ''libframework.so''"

fun addDependencies :: "ptr \<Rightarrow> (string \<times> string) list \<Rightarrow> machine \<Rightarrow> machine option" where
  "addDependencies lib [] m = Some m"
| "addDependencies lib ((file, cls) # rest) m = do {
     m1 \<leftarrow> AddDependency lib file cls (Some ''1'') (Some ''0'') m;
     addDependencies lib rest m1 }"

definition module_init :: "string \<Rightarrow> string \<Rightarrow> ptr \<Rightarrow> ptr \<Rightarrow> ptr \<Rightarrow> (string \<times> string) list \<Rightarrow> machine \<Rightarrow> (ptr \<times> machine) option" where
  "module_init name uuid classStart classEnd classMsg deps m = do {
     (temp, m1) \<leftarrow> namedNode name m;
     m2 \<leftarrow> setStrs temp [(''Company'', ''GrokThink''), (''UUID'', uuid), (''Major'', ''1''), (''Minor'', ''0'')] m1;
     m3 \<leftarrow> setLongs temp [(''ClassStart'', classStart), (''ClassEnd'', classEnd), (''ClassMsg'', classMsg)] m2;
     m4 \<leftarrow> SetPropInt temp ''State'' 1 m3;
     m5 \<leftarrow> addDependencies temp deps m4;
     RegisterLibrary temp m5 }"

definition module_fini :: "ptr \<Rightarrow> machine \<Rightarrow> machine option" where
  "module_fini librarySelf m = do {
     m1 \<leftarrow> ClearDependencies librarySelf m;
     UnregisterLibrary librarySelf m1 }"

text \<open>The end of a class: \<open>ClassSelf\<close> is NULL afterwards.\<close>

definition class_end :: "ptr \<Rightarrow> ptr \<Rightarrow> machine \<Rightarrow> (int \<times> machine) option" where
  "class_end library classSelf m = do { m1 \<leftarrow> UnRegisterClass library classSelf m; Some (rtrn_handled, m1) }"

end
