(* ===== verification/DataExt.thy ===== *)
theory DataExt
  imports CharMap Object_Modules
begin

text \<open>
  \<open>src/objects/data_ext/data_ext.c\<close>: the class of instances that hold a set of values, each a property of the instance
  made when it is first addressed, and the messages its subclasses answer in their own shape.
\<close>

subsection \<open>Messages\<close>

definition DATA_EXT_SERIALIZE_MSG :: int where "DATA_EXT_SERIALIZE_MSG = 100"
definition DATA_EXT_DESERIALIZE_MSG :: int where "DATA_EXT_DESERIALIZE_MSG = 101"
definition DATA_EXT_ADDRESS_MSG :: int where "DATA_EXT_ADDRESS_MSG = 102"
definition DATA_EXT_SHAPE_MSG :: int where "DATA_EXT_SHAPE_MSG = 103"
definition DATA_EXT_DROP_MSG :: int where "DATA_EXT_DROP_MSG = 104"

text \<open>Where the instance is to report to; \<open>port\<close> is a copy of a text.\<close>

record reporter =
  owner :: ptr
  msgID :: "32 word"
  port :: "string option"

subsection \<open>Cells\<close>

definition DataExt_Cell :: "ptr \<Rightarrow> string option \<Rightarrow> machine \<Rightarrow> (ptr \<times> machine) option" where
  "DataExt_Cell inst name m = (case name of None \<Rightarrow> Some (0, m)
     | Some n \<Rightarrow> if inst = 0 \<or> n = [] then Some (0, m) else do {
         cell \<leftarrow> GetPropNode inst n (world m);
         if cell \<noteq> 0 then Some (cell, m)
         else do {
           m1 \<leftarrow> SetPropStr inst n (Some []) m;
           cell1 \<leftarrow> GetPropNode inst n (world m1);
           Some (cell1, m1) } })"

partial_function (option) countFrom :: "ptr \<Rightarrow> ptr \<Rightarrow> int \<Rightarrow> machine \<Rightarrow> (int \<times> machine) option" where
  "countFrom inst p count m = (if p = 0 then Some (count, m) else do {
     portable \<leftarrow> IsPortableProp inst p m;
     nxt \<leftarrow> GetNextSibling p (world m);
     countFrom inst nxt (if portable then count + 1 else count) m })"

declare countFrom.simps [code]

definition DataExt_Count :: "ptr \<Rightarrow> machine \<Rightarrow> (int \<times> machine) option" where
  "DataExt_Count inst m = do {
     first \<leftarrow> GetNextProp inst (world m);
     (count, m1) \<leftarrow> countFrom inst first 0 m;
     if count < 2 ^ 31 then Some (count, m1) else None }"

subsection \<open>Messages, instances, class\<close>

definition DataExt_MessageFunc :: "ptr \<Rightarrow> int \<Rightarrow> ptr \<Rightarrow> machine \<Rightarrow> (int \<times> machine) option" where
  "DataExt_MessageFunc inst message data m = do {
     (p, m1) \<leftarrow> onNodes (GetPropLong inst ''local'') m;
     if p = 0 then Some (rtrn_dropped, m1)
     else if message = DATA_EXT_ADDRESS_MSG then do {
       (name, m2) \<leftarrow> onNodes (GetPropStr data ''At'') m1;
       (cell, m3) \<leftarrow> DataExt_Cell inst name m2;
       if cell = 0 then Some (rtrn_dropped, m3)
       else do {
         m4 \<leftarrow> SetPropLong data ''Node'' cell m3;
         (_, m5) \<leftarrow> onNodes (GetPropStr data ''At'') m4;
         Some (rtrn_handled, m5) } }
     else if message = DATA_EXT_SHAPE_MSG then do {
       (n, m2) \<leftarrow> DataExt_Count inst m1;
       m3 \<leftarrow> SetPropInt data ''Count'' (word_of_int n) m2;
       Some (rtrn_handled, m3) }
     else Some (rtrn_dropped, m1) }"

definition DataExt_ClassMsg :: "ptr \<Rightarrow> int \<Rightarrow> ptr \<Rightarrow> machine \<Rightarrow> (int \<times> machine) option" where
  "DataExt_ClassMsg = DataExt_MessageFunc"

text \<open>What the maker of an instance wants reported; the struct is all zero when it says nothing.\<close>

definition readReporter :: "ptr \<Rightarrow> machine \<Rightarrow> (reporter \<times> machine) option" where
  "readReporter data m = (if data = 0 then Some (\<lparr>owner = 0, msgID = 0, port = None\<rparr>, m) else do {
     (ow, m1) \<leftarrow> onNodes (GetPropLong data ''Owner'') m;
     (base, m2) \<leftarrow> onNodes (GetPropLong data ''MsgBase'') m1;
     (pt, m3) \<leftarrow> onNodes (GetPropStr data ''Port'') m2;
     Some (\<lparr>owner = ow, msgID = ucast base, port = pt\<rparr>, m3) })"

text \<open>The property the messages of an instance come in through; its handler \<open>punt\<close> is \<open>PuntToClass\<close>.\<close>

definition addDoor :: "ptr \<Rightarrow> ptr \<Rightarrow> machine \<Rightarrow> machine option" where
  "addDoor punt inst m = do {
     m1 \<leftarrow> SetPropStr inst ''Msg'' (Some []) m;
     entry \<leftarrow> GetPropNode inst ''Msg'' (world m1);
     SetPropLong entry ''OnMsg'' punt m1 }"

definition DataExt_InstanceStart :: "ptr \<Rightarrow> ptr \<Rightarrow> ptr \<Rightarrow> ptr \<Rightarrow> ptr \<Rightarrow> reporter module \<Rightarrow> (int \<times> reporter module) option" where
  "DataExt_InstanceStart onActivateMsg punt p cls data s = do {
     let (inst, m1) = newNode INTEGER (mach s);
     (l, m2) \<leftarrow> readReporter data m1;
     m3 \<leftarrow> doNodes (SetName inst ''data_ext'') m2;
     m4 \<leftarrow> SetPropLong inst ''local'' p m3;
     m5 \<leftarrow> addDoor punt inst m4;
     (_, m6) \<leftarrow> RegisterInstance onActivateMsg cls inst m5;
     Some (rtrn_handled, s\<lparr>mach := m6, locals := (locals s)(p \<mapsto> l)\<rparr>) }"

definition DataExt_InstanceEnd :: "ptr \<Rightarrow> reporter module \<Rightarrow> (int \<times> reporter module) option" where
  "DataExt_InstanceEnd inst = onEnd inst"

definition plain_class :: "string \<Rightarrow> string \<Rightarrow> (string \<Rightarrow> ptr) \<Rightarrow> string \<Rightarrow> ptr \<Rightarrow> machine \<Rightarrow> (ptr \<times> machine) option" where
  "plain_class name up addr handler library m = do {
     (c, m1) \<leftarrow> namedNode name m;
     m2 \<leftarrow> setLongs c [(''InstanceStart'', addr ''InstanceStart''), (''InstanceEnd'', addr ''InstanceEnd'')] m1;
     (self, m3) \<leftarrow> RegisterClass library c m2;
     m4 \<leftarrow> SetClassVersion self (Some ''1'') (Some ''0'') m3;
     m5 \<leftarrow> SetClassParent self up m4;
     m6 \<leftarrow> SetPropLong self ''ClassMsg'' (addr handler) m5;
     Some (self, m6) }"

definition DataExt_ClassStart :: "(string \<Rightarrow> ptr) \<Rightarrow> ptr \<Rightarrow> machine \<Rightarrow> (ptr \<times> machine) option" where
  "DataExt_ClassStart addr = plain_class ''data_ext'' ''Object'' addr ''DataExt_ClassMsg''"

definition DataExt_init :: "(string \<Rightarrow> ptr) \<Rightarrow> machine \<Rightarrow> (ptr \<times> machine) option" where
  "DataExt_init addr = module_init ''data_ext'' ''6f2a1c84-3b77-4d19-9e52-0a8c4f6d31b0'' (addr ''ClassStart'') (addr ''ClassEnd'') 0
     [(CORE_LIBRARY_FILE, ''Object'')]"

end
