(* ===== verification/Table.thy ===== *)
theory Table
  imports DataExt
begin

text \<open>
  \<open>src/objects/table/table.c\<close> and \<open>table.h\<close>: a grid whose cells are the properties of an instance, named like the
  cells of a sheet.  The struct holds an index of the cells, row by row: pointers to the properties, 0 where none is
  known.  Rows and columns are naturals once the code has refused negative ones; a value the code keeps in an \<open>int\<close>
  and that does not fit makes the result \<open>None\<close>.
\<close>

subsection \<open>Names of cells\<close>

text \<open>The letters of a column, the last one first; the block holds seven.\<close>

function nameLetters :: "nat \<Rightarrow> nat \<Rightarrow> string" where
  "nameLetters n c = char_of (65 + c mod 26) # (if c div 26 = 0 \<or> \<not> n + 1 < 7 then [] else nameLetters (n + 1) (c div 26 - 1))"
  by pat_completeness auto
termination
  by (relation "measure (\<lambda>(n, c). 7 - n)") auto

declare nameLetters.simps [simp del]

text \<open>The name as it is left in a block of \<open>room\<close> bytes.\<close>

definition TableCellName :: "nat \<Rightarrow> int \<Rightarrow> int \<Rightarrow> string option" where
  "TableCellName room row col = (if room < 8 \<or> row < 0 \<or> col < 0 then Some []
     else let out = take (room - 1) (rev (nameLetters 0 (nat col))) in
       if row + 1 < 2 ^ 31 then Some (out @ take (room - length out - 1) (sprintf_d (row + 1))) else None)"

fun parseLetters :: "string \<Rightarrow> int \<Rightarrow> bool \<Rightarrow> (int \<times> bool \<times> string) option" where
  "parseLetters [] c saw = Some (c, saw, [])"
| "parseLetters (x # xs) c saw = (if 65 \<le> byte x \<and> byte x \<le> 90 then
     (let c1 = c * 26 + (int (byte x) - 65 + 1) in if c1 < 2 ^ 31 then parseLetters xs c1 True else None)
     else Some (c, saw, x # xs))"

fun parseDigits :: "string \<Rightarrow> int \<Rightarrow> bool \<Rightarrow> (int \<times> bool \<times> string) option" where
  "parseDigits [] r saw = Some (r, saw, [])"
| "parseDigits (x # xs) r saw = (if 48 \<le> byte x \<and> byte x \<le> 57 then
     (let r1 = r * 10 + (int (byte x) - 48) in if r1 < 2 ^ 31 then parseDigits xs r1 True else None)
     else Some (r, saw, x # xs))"

text \<open>The row and column, or that the name is not one of a cell.\<close>

definition TableCellParse :: "string option \<Rightarrow> (int \<times> int) option option" where
  "TableCellParse name = (case name of None \<Rightarrow> Some None | Some s \<Rightarrow> do {
     (c, letter, s1) \<leftarrow> parseLetters s 0 False;
     (r, digit, s2) \<leftarrow> parseDigits s1 0 False;
     Some (if \<not> letter \<or> \<not> digit \<or> s2 \<noteq> [] \<or> r < 1 then None else Some (r - 1, c - 1)) })"

subsection \<open>The index\<close>

record tdata = reporter +
  cells :: "ptr list"
  trows :: nat
  tcols :: nat

text \<open>An access at a place computed in an \<open>int\<close>.\<close>

definition cellAt :: "ptr list \<Rightarrow> nat \<Rightarrow> nat \<Rightarrow> nat \<Rightarrow> ptr option" where
  "cellAt xs cols r c = (let i = r * cols + c in if i < length xs \<and> i < 2 ^ 31 then Some (xs ! i) else None)"

definition putCell :: "ptr list \<Rightarrow> nat \<Rightarrow> nat \<Rightarrow> nat \<Rightarrow> ptr \<Rightarrow> ptr list option" where
  "putCell xs cols r c v = (let i = r * cols + c in if i < length xs \<and> i < 2 ^ 31 then Some (xs[i := v]) else None)"

fun copyCells :: "ptr list \<Rightarrow> nat \<Rightarrow> nat \<Rightarrow> (nat \<times> nat) list \<Rightarrow> ptr list \<Rightarrow> ptr list option" where
  "copyCells old oldCols cols [] grown = Some grown"
| "copyCells old oldCols cols ((r, c) # ps) grown = do {
     v \<leftarrow> cellAt old oldCols r c;
     g \<leftarrow> putCell grown cols r c v;
     copyCells old oldCols cols ps g }"

definition Table_Grow :: "mem \<Rightarrow> tdata \<Rightarrow> nat \<Rightarrow> nat \<Rightarrow> tdata option" where
  "Table_Grow mm l row col = (if row < trows l \<and> col < tcols l then Some l
     else let rows = (if trows l \<le> row then row + 1 else trows l); cols = (if tcols l \<le> col then col + 1 else tcols l) in
       if 2 ^ 31 \<le> rows \<or> 2 ^ 31 \<le> cols then None
       else if \<not> can_alloc mm (rows * cols * 8) then Some l
       else do {
         grown \<leftarrow> copyCells (cells l) (tcols l) cols (List.product [0..<trows l] [0..<tcols l]) (replicate (rows * cols) 0);
         Some (l\<lparr>cells := grown, trows := rows, tcols := cols\<rparr>) })"

subsection \<open>Cells\<close>

type_synonym table = "tdata module"

definition localAt :: "ptr \<Rightarrow> table \<Rightarrow> tdata option option" where
  "localAt p s = (if p = 0 then Some None else map_option Some (locals s p))"

text \<open>A hit of the index, or 0.\<close>

definition indexHit :: "tdata option \<Rightarrow> int \<Rightarrow> int \<Rightarrow> ptr option" where
  "indexHit l row col = (case l of None \<Rightarrow> Some 0
     | Some l \<Rightarrow> if row < int (trows l) \<and> col < int (tcols l) then cellAt (cells l) (tcols l) (nat row) (nat col) else Some 0)"

text \<open>The cell at a position goes into the index.\<close>

definition indexCell :: "mem \<Rightarrow> ptr \<Rightarrow> nat \<Rightarrow> nat \<Rightarrow> ptr \<Rightarrow> table \<Rightarrow> table option" where
  "indexCell mm p row col cell s = (if p = 0 \<or> cell = 0 then Some s else do {
     l \<leftarrow> locals s p;
     l1 \<leftarrow> Table_Grow mm l row col;
     cs \<leftarrow> (if row < trows l1 \<and> col < tcols l1 then putCell (cells l1) (tcols l1) row col cell else Some (cells l1));
     setLocal p (\<lambda>_. l1\<lparr>cells := cs\<rparr>) s })"

text \<open>An extent follows what has been addressed.\<close>

definition extend :: "ptr \<Rightarrow> string \<Rightarrow> int \<Rightarrow> table \<Rightarrow> table option" where
  "extend inst name k s = do {
     (n, s1) \<leftarrow> onMach (onNodes (GetPropInt inst name)) s;
     if sint n \<le> k then (if k + 1 < 2 ^ 31 then doMach (SetPropInt inst name (word_of_int (k + 1))) s1 else None) else Some s1 }"

definition Table_Cell :: "mem \<Rightarrow> ptr \<Rightarrow> int \<Rightarrow> int \<Rightarrow> table \<Rightarrow> (ptr \<times> table) option" where
  "Table_Cell mm inst row col s = do {
     (p, s1) \<leftarrow> localOf inst s;
     if inst = 0 \<or> row < 0 \<or> col < 0 then Some (0, s1)
     else do {
       l \<leftarrow> localAt p s1;
       hit \<leftarrow> indexHit l row col;
       if hit \<noteq> 0 then Some (hit, s1)
       else do {
         name \<leftarrow> TableCellName 64 row col;
         old \<leftarrow> GetPropNode inst name (world (mach s1));
         s2 \<leftarrow> (if old = 0 then doMach (SetPropStr inst name (Some [])) s1 else Some s1);
         cell \<leftarrow> (if old = 0 then GetPropNode inst name (world (mach s2)) else Some old);
         s3 \<leftarrow> indexCell mm p (nat row) (nat col) cell s2;
         s4 \<leftarrow> extend inst ''Rows'' row s3;
         s5 \<leftarrow> extend inst ''Cols'' col s4;
         Some (cell, s5) } } }"

subsection \<open>The grid as text\<close>

text \<open>A growing block: its text and its capacity.\<close>

function growCap :: "nat \<Rightarrow> nat \<Rightarrow> nat" where
  "growCap capa want = (if capa < want then growCap (if capa \<noteq> 0 then capa * 2 else 256) want else capa)"
  by pat_completeness auto
termination
  by (relation "measure (\<lambda>(capa, want). want - capa + (if capa = 0 then 1 else 0))") auto

declare growCap.simps [simp del]

definition Table_Append :: "mem \<Rightarrow> string \<times> nat \<Rightarrow> string option \<Rightarrow> (string \<times> nat) option" where
  "Table_Append mm = (\<lambda>(buf, capa) text. let t = orEmpty text; want = length buf + length t + 1 in
     if 2 ^ 31 \<le> want then None
     else if want \<le> capa then Some (buf @ t, capa)
     else let capa1 = growCap capa want in
       if 2 ^ 31 \<le> capa1 \<or> \<not> can_alloc mm capa1 then None else Some (buf @ t, capa1))"

fun appendAll :: "mem \<Rightarrow> string \<times> nat \<Rightarrow> string list \<Rightarrow> (string \<times> nat) option" where
  "appendAll mm b [] = Some b"
| "appendAll mm b (t # ts) = do { b1 \<leftarrow> Table_Append mm b (Some t); appendAll mm b1 ts }"

text \<open>What is written for a cell: its formula behind \<open>=\<close>, else its value.\<close>

definition cellText :: "ptr \<Rightarrow> nat \<Rightarrow> nat \<Rightarrow> machine \<Rightarrow> (string list \<times> machine) option" where
  "cellText inst r c m = do {
     name \<leftarrow> TableCellName 64 (int r) (int c);
     cell \<leftarrow> GetPropNode inst name (world m);
     (f, m1) \<leftarrow> (if cell \<noteq> 0 then onNodes (GetPropStr cell ''Formula'') m else Some (None, m));
     if orEmpty f \<noteq> [] then Some ([''='', orEmpty f], m1)
     else if cell \<noteq> 0 then do { (v, m2) \<leftarrow> onNodes (GetValueStr cell) m1; Some ([orEmpty v], m2) }
     else Some ([[]], m1) }"

fun readRow :: "ptr \<Rightarrow> nat \<Rightarrow> nat list \<Rightarrow> machine \<Rightarrow> (string list list \<times> machine) option" where
  "readRow inst r [] m = Some ([], m)"
| "readRow inst r (c # cs) m = do {
     (t, m1) \<leftarrow> cellText inst r c m;
     (ts, m2) \<leftarrow> readRow inst r cs m1;
     Some (t # ts, m2) }"

fun readRows :: "ptr \<Rightarrow> nat \<Rightarrow> nat list \<Rightarrow> machine \<Rightarrow> (string list list list \<times> machine) option" where
  "readRows inst cols [] m = Some ([], m)"
| "readRows inst cols (r # rs) m = do {
     (row, m1) \<leftarrow> readRow inst r [0..<cols] m;
     (rest, m2) \<leftarrow> readRows inst cols rs m1;
     Some (row # rest, m2) }"

fun rowPieces :: "string list list \<Rightarrow> string list" where
  "rowPieces [] = [[LF]]"
| "rowPieces [t] = t @ [[LF]]"
| "rowPieces (t # ts) = t @ [TAB] # rowPieces ts"

definition tableText :: "mem \<Rightarrow> string list list list \<Rightarrow> string option" where
  "tableText mm grid = map_option fst (appendAll mm ([], 0) ([] # concat (map rowPieces grid)))"

text \<open>The reads of the cells do not depend on the block, so they come first and are appended in their order.\<close>

definition Table_Write :: "mem \<Rightarrow> ptr \<Rightarrow> machine \<Rightarrow> (string \<times> machine) option" where
  "Table_Write mm inst m = do {
     (rows, m1) \<leftarrow> onNodes (GetPropInt inst ''Rows'') m;
     (cols, m2) \<leftarrow> onNodes (GetPropInt inst ''Cols'') m1;
     (grid, m3) \<leftarrow> readRows inst (nat (sint cols)) [0..<nat (sint rows)] m2;
     buf \<leftarrow> tableText mm grid;
     Some (buf, m3) }"

subsection \<open>The grid from text\<close>

partial_function (option) dropCells :: "ptr \<Rightarrow> ptr \<Rightarrow> machine \<Rightarrow> machine option" where
  "dropCells inst prop m = (if prop = 0 then Some m else do {
     nxt \<leftarrow> GetNextSibling prop (world m);
     name \<leftarrow> GetNameStr prop (world m);
     place \<leftarrow> TableCellParse name;
     m1 \<leftarrow> (if place = None then Some m else do { ma \<leftarrow> doNodes (RemoveProp inst prop) m; doNodes (DelNode prop) ma });
     dropCells inst nxt m1 })"

declare dropCells.simps [code]

definition Table_Clear :: "ptr \<Rightarrow> table \<Rightarrow> table option" where
  "Table_Clear inst s = do {
     (p, s1) \<leftarrow> localOf inst s;
     s2 \<leftarrow> (if p = 0 then Some s1 else setLocal p (\<lambda>l. l\<lparr>cells := [], trows := 0, tcols := 0\<rparr>) s1);
     first \<leftarrow> GetNextProp inst (world (mach s2));
     s3 \<leftarrow> doMach (dropCells inst first) s2;
     s4 \<leftarrow> doMach (SetPropInt inst ''Rows'' 0) s3;
     doMach (SetPropInt inst ''Cols'' 0) s4 }"

text \<open>The scan of the text: the fields with their places, and the extents seen.  \<open>piece\<close> is the text from
  \<open>start\<close> to \<open>p\<close>.\<close>

fun tableScan :: "string \<Rightarrow> string \<Rightarrow> nat \<Rightarrow> nat \<Rightarrow> nat \<Rightarrow> nat \<Rightarrow> (nat \<times> nat \<times> string) list \<times> nat \<times> nat" where
  "tableScan [] piece row col seenRows seenCols =
     (if col = 0 \<and> piece = [] then ([], seenRows, seenCols)
      else ([(row, col, piece)], max seenRows (row + 1), max seenCols (col + 1)))"
| "tableScan (c # cs) piece row col seenRows seenCols =
     (if c \<noteq> TAB \<and> c \<noteq> LF then tableScan cs (piece @ [c]) row col seenRows seenCols
      else case (if c = TAB then tableScan cs [] row (col + 1) (max seenRows (row + 1)) (max seenCols (col + 1))
                 else tableScan cs [] (row + 1) 0 (max seenRows (row + 1)) (max seenCols (col + 1))) of
        (found, ext) \<Rightarrow> ((row, col, piece) # found, ext))"

definition storeField :: "mem \<Rightarrow> ptr \<Rightarrow> nat \<times> nat \<times> string \<Rightarrow> table \<Rightarrow> table option" where
  "storeField mm inst = (\<lambda>(row, col, piece) s. if piece = [] then Some s else do {
     (cell, s1) \<leftarrow> Table_Cell mm inst (int row) (int col) s;
     if cell = 0 then Some s1
     else if hd piece = CHR ''='' then doMach (SetPropStr cell ''Formula'' (Some (tl piece))) s1
     else doMach (doNodes (SetValueStr cell (Some piece))) s1 })"

fun storeFields :: "mem \<Rightarrow> ptr \<Rightarrow> (nat \<times> nat \<times> string) list \<Rightarrow> table \<Rightarrow> table option" where
  "storeFields mm inst [] s = Some s"
| "storeFields mm inst (f # fs) s = do { s1 \<leftarrow> storeField mm inst f s; storeFields mm inst fs s1 }"

text \<open>The extent came from the shape of the text.\<close>

definition atLeast :: "ptr \<Rightarrow> string \<Rightarrow> nat \<Rightarrow> table \<Rightarrow> table option" where
  "atLeast inst name n s = do {
     (k, s1) \<leftarrow> onMach (onNodes (GetPropInt inst name)) s;
     if sint k < int n then doMach (SetPropInt inst name (word_of_nat n)) s1 else Some s1 }"

definition Table_Read :: "mem \<Rightarrow> ptr \<Rightarrow> string option \<Rightarrow> table \<Rightarrow> table option" where
  "Table_Read mm inst text s = (case text of None \<Rightarrow> Some s
     | Some t \<Rightarrow> if inst = 0 then Some s else do {
         s1 \<leftarrow> Table_Clear inst s;
         if \<not> can_alloc mm (length t + 1) then Some s1
         else case tableScan t [] 0 0 0 0 of (found, seenRows, seenCols) \<Rightarrow> do {
           s2 \<leftarrow> storeFields mm inst found s1;
           s3 \<leftarrow> atLeast inst ''Rows'' seenRows s2;
           atLeast inst ''Cols'' seenCols s3 } })"

subsection \<open>The handler and the class\<close>

text \<open>The properties read only for the log.\<close>

definition logInts :: "ptr \<Rightarrow> string list \<Rightarrow> table \<Rightarrow> table option" where
  "logInts p names = doMach (\<lambda>m. fold (\<lambda>name acc. acc \<bind> (\<lambda>m. map_option snd (onNodes (GetPropInt p name) m))) names (Some m))"

definition Table_MessageFunc :: "mem \<Rightarrow> ptr \<Rightarrow> int \<Rightarrow> ptr \<Rightarrow> table \<Rightarrow> (int \<times> table) option" where
  "Table_MessageFunc mm inst message data s =
     (if message = DATA_EXT_ADDRESS_MSG then do {
        (row, s1) \<leftarrow> onMach (onNodes (GetPropInt data ''Row'')) s;
        (col, s2) \<leftarrow> onMach (onNodes (GetPropInt data ''Col'')) s1;
        (cell, s3) \<leftarrow> Table_Cell mm inst (sint row) (sint col) s2;
        if cell = 0 then Some (rtrn_dropped, s3)
        else do { s4 \<leftarrow> doMach (SetPropLong data ''Node'' cell) s3; Some (rtrn_handled, s4) } }
      else if message = DATA_EXT_DROP_MSG then do { s1 \<leftarrow> Table_Clear inst s; Some (rtrn_handled, s1) }
      else if message = DATA_EXT_SHAPE_MSG then do {
        (rows, s1) \<leftarrow> onMach (onNodes (GetPropInt inst ''Rows'')) s;
        s2 \<leftarrow> doMach (SetPropInt data ''Rows'' rows) s1;
        (cols, s3) \<leftarrow> onMach (onNodes (GetPropInt inst ''Cols'')) s2;
        s4 \<leftarrow> doMach (SetPropInt data ''Cols'' cols) s3;
        Some (rtrn_handled, s4) }
      else if message = DATA_EXT_SERIALIZE_MSG then do {
        (t, s1) \<leftarrow> onMach (Table_Write mm inst) s;
        s2 \<leftarrow> doMach (SetPropStr data ''Text'' (Some t)) s1;
        s3 \<leftarrow> logInts inst [''Rows'', ''Cols''] s2;
        Some (rtrn_handled, s3) }
      else if message = DATA_EXT_DESERIALIZE_MSG then do {
        (t, s1) \<leftarrow> onMach (onNodes (GetPropStr data ''Text'')) s;
        s2 \<leftarrow> Table_Read mm inst t s1;
        s3 \<leftarrow> logInts inst [''Rows'', ''Cols''] s2;
        Some (rtrn_handled, s3) }
      else Some (rtrn_dropped, s))"

definition Table_ClassMsg :: "mem \<Rightarrow> ptr \<Rightarrow> int \<Rightarrow> ptr \<Rightarrow> table \<Rightarrow> (int \<times> table) option" where
  "Table_ClassMsg mm inst message data s = Table_MessageFunc mm inst message data s"

subsection \<open>Instances and class\<close>

definition Table_InstanceStart :: "ptr \<Rightarrow> ptr \<Rightarrow> ptr \<Rightarrow> ptr \<Rightarrow> ptr \<Rightarrow> table \<Rightarrow> (int \<times> table) option" where
  "Table_InstanceStart onActivateMsg punt p cls data s = do {
     let (inst, m1) = newNode INTEGER (mach s);
     (l, m2) \<leftarrow> readReporter data m1;
     m3 \<leftarrow> doNodes (SetName inst ''Table'') m2;
     m4 \<leftarrow> SetPropLong inst ''local'' p m3;
     m5 \<leftarrow> setInts inst [(''Rows'', 0), (''Cols'', 0)] m4;
     m6 \<leftarrow> addDoor punt inst m5;
     (_, m7) \<leftarrow> RegisterInstance onActivateMsg cls inst m6;
     Some (rtrn_handled, s\<lparr>mach := m7, locals := (locals s)(p \<mapsto> reporter.extend l \<lparr>cells = [], trows = 0, tcols = 0\<rparr>)\<rparr>) }"

definition Table_InstanceEnd :: "ptr \<Rightarrow> table \<Rightarrow> (int \<times> table) option" where
  "Table_InstanceEnd inst = onEnd inst"

definition Table_ClassStart :: "(string \<Rightarrow> ptr) \<Rightarrow> ptr \<Rightarrow> machine \<Rightarrow> (ptr \<times> machine) option" where
  "Table_ClassStart addr = plain_class ''Table'' ''data_ext'' addr ''Table_ClassMsg''"

definition Table_init :: "(string \<Rightarrow> ptr) \<Rightarrow> machine \<Rightarrow> (ptr \<times> machine) option" where
  "Table_init addr = module_init ''Table'' ''c4d81e97-5a62-4f30-8b71-2d9e6a0c53f4'' (addr ''ClassStart'') (addr ''ClassEnd'') 0
     [(CORE_LIBRARY_FILE, ''Object''), (''data_ext.object'', ''data_ext'')]"

end
