(* ===== verification/Table_Text.thy ===== *)
theory Table_Text
  imports Table
begin

text \<open>
  Proofs on the table: the name of a cell and its place determine each other, the index keeps what it knows when it
  grows, and a grid comes back from its text.
\<close>

subsection \<open>Names\<close>

definition isLetter :: "char \<Rightarrow> bool" where
  "isLetter x \<longleftrightarrow> 65 \<le> byte x \<and> byte x \<le> 90"

lemma byte_digit: "d < 10 \<Longrightarrow> byte (digit_char d) = 48 + d"
  by (simp add: byte_def)

text \<open>What the letters and the digits of a name count to.\<close>

definition letterValue :: "int \<Rightarrow> string \<Rightarrow> int" where
  "letterValue = foldl (\<lambda>c x. c * 26 + (int (byte x) - 64))"

definition digitValue :: "int \<Rightarrow> string \<Rightarrow> int" where
  "digitValue = foldl (\<lambda>r x. r * 10 + (int (byte x) - 48))"

lemma letterValue_grows: "\<forall>x \<in> set xs. isLetter x \<Longrightarrow> 0 \<le> c \<Longrightarrow> c \<le> letterValue c xs"
proof (induction xs arbitrary: c)
  case (Cons x xs)
  then have "c \<le> c * 26 + (int (byte x) - 64)" "0 \<le> c * 26 + (int (byte x) - 64)" by (simp_all add: isLetter_def)
  with Cons.IH [of "c * 26 + (int (byte x) - 64)"] Cons.prems(1) show ?case by (simp add: letterValue_def)
qed (simp add: letterValue_def)

lemma parseLetters_letters:
  "\<forall>x \<in> set xs. isLetter x \<Longrightarrow> 0 \<le> c \<Longrightarrow> letterValue c xs < 2 ^ 31
    \<Longrightarrow> parseLetters (xs @ rest) c saw = parseLetters rest (letterValue c xs) (saw \<or> xs \<noteq> [])"
proof (induction xs arbitrary: c saw)
  case (Cons x xs)
  let ?c = "c * 26 + (int (byte x) - 64)"
  have x: "65 \<le> byte x" "byte x \<le> 90" "0 \<le> ?c" "letterValue c (x # xs) = letterValue ?c xs"
    using Cons.prems by (simp_all add: isLetter_def letterValue_def)
  then have "?c < 2 ^ 31" using letterValue_grows [of xs ?c] Cons.prems by simp
  with x Cons.IH [of ?c True] Cons.prems show ?case by (simp add: Let_def)
qed (simp add: letterValue_def)

lemma digitValue_grows: "\<forall>x \<in> set xs. isdigit x \<Longrightarrow> 0 \<le> r \<Longrightarrow> r \<le> digitValue r xs"
proof (induction xs arbitrary: r)
  case (Cons x xs)
  then have "r \<le> r * 10 + (int (byte x) - 48)" "0 \<le> r * 10 + (int (byte x) - 48)" by (auto simp: isdigit_def byte_def)
  with Cons.IH [of "r * 10 + (int (byte x) - 48)"] Cons.prems(1) show ?case by (simp add: digitValue_def)
qed (simp add: digitValue_def)

lemma parseDigits_digits:
  "\<forall>x \<in> set xs. isdigit x \<Longrightarrow> 0 \<le> r \<Longrightarrow> digitValue r xs < 2 ^ 31
    \<Longrightarrow> parseDigits xs r saw = Some (digitValue r xs, saw \<or> xs \<noteq> [], [])"
proof (induction xs arbitrary: r saw)
  case (Cons x xs)
  let ?r = "r * 10 + (int (byte x) - 48)"
  have x: "48 \<le> byte x" "byte x \<le> 57" "0 \<le> ?r" "digitValue r (x # xs) = digitValue ?r xs"
    using Cons.prems by (auto simp: isdigit_def byte_def digitValue_def)
  then have "?r < 2 ^ 31" using digitValue_grows [of xs ?r] Cons.prems by simp
  with x Cons.IH [of ?r True] Cons.prems show ?case by (simp add: Let_def)
qed (simp add: digitValue_def)

lemma int_div_mod: "int (n div k) * int k + int (n mod k) = int n"
  by (metis div_mult_mod_eq of_nat_add of_nat_mult)

lemma digitValue_show: "digitValue 0 (show_base 10 n) = int n"
proof (induction "10 :: nat" n rule: show_base.induct)
  case (1 n)
  then show ?case by (subst show_base.simps) (auto simp: digitValue_def byte_digit int_div_mod [of _ 10, simplified])
qed

text \<open>How many columns have names of at most \<open>k\<close> letters.\<close>

primrec columns :: "nat \<Rightarrow> nat" where
  "columns 0 = 0"
| "columns (Suc k) = 26 * (columns k + 1)"

lemma nameLetters_letters: "x \<in> set (nameLetters n c) \<Longrightarrow> isLetter x"
proof (induction n c rule: nameLetters.induct)
  case (1 n c)
  have "c mod 26 < 26" by simp
  then show ?case using 1 by (subst (asm) (2) nameLetters.simps) (auto simp: isLetter_def split: if_splits)
qed

lemma length_nameLetters: "n < 7 \<Longrightarrow> length (nameLetters n c) \<le> 7 - n"
proof (induction n c rule: nameLetters.induct)
  case (1 n c)
  then show ?case by (subst nameLetters.simps) (cases "c div 26 = 0 \<or> \<not> n + 1 < 7", auto)
qed

lemma nameLetters_value:
  "c < columns (7 - n) \<Longrightarrow> n < 7 \<Longrightarrow> letterValue 0 (rev (nameLetters n c)) = int c + 1"
proof (induction n c rule: nameLetters.induct)
  case (1 n c)
  obtain k where k: "7 - n = Suc k" "k = 7 - (n + 1)" using "1.prems"(2) by (cases "7 - n") auto
  then have d: "c div 26 < columns k + 1" using "1.prems"(1) by (simp add: less_mult_imp_div_less)
  have b: "byte (char_of (65 + c mod 26)) = 65 + c mod 26" by simp
  have c: "int c = 26 * int (c div 26) + int (c mod 26)" using int_div_mod [of c 26] by simp
  show ?case
  proof (cases "c div 26 = 0 \<or> \<not> n + 1 < 7")
    case True
    then have "c div 26 = 0" using d k by auto
    then show ?thesis using c by (subst nameLetters.simps) (simp add: letterValue_def b)
  next
    case False
    have less: "c div 26 - 1 < columns k" using d False by linarith
    have "letterValue 0 (rev (nameLetters (n + 1) (c div 26 - 1))) = int (c div 26 - 1) + 1"
      using "1.IH" [OF False] less k "1.prems"(2) False by simp
    then have "letterValue 0 (rev (nameLetters (n + 1) (c div 26 - 1))) = int (c div 26)" using False by simp
    then show ?thesis using False c by (subst nameLetters.simps) (simp add: letterValue_def b)
  qed
qed

text \<open>C33. The name of a cell gives back its row and column, for every row and column the names are made for; so no
  two cells have the same name.\<close>

theorem TableCellName_roundtrip:
  assumes "0 \<le> row" "row < 2 ^ 31 - 1" "0 \<le> col" "col < 2 ^ 31 - 1"
  shows "\<exists>name. TableCellName 64 row col = Some name \<and> TableCellParse (Some name) = Some (Some (row, col))"
proof -
  define ls where "ls = rev (nameLetters 0 (nat col))"
  define ds where "ds = sprintf_d (row + 1)"
  have "columns (Suc (Suc (Suc (Suc (Suc (Suc (Suc 0))))))) = 8353082582" by simp
  moreover have "Suc (Suc (Suc (Suc (Suc (Suc (Suc 0)))))) = 7" by simp
  ultimately have "columns 7 = 8353082582" by (simp only:)
  then have v: "letterValue 0 ls = col + 1" using nameLetters_value [of "nat col" 0] assms by (simp add: ls_def)
  have l: "\<forall>x \<in> set ls. isLetter x" "length ls \<le> 7" using nameLetters_letters length_nameLetters [of 0] by (auto simp: ls_def)
  have "0 < length ls" by (simp add: ls_def nameLetters.simps)
  then have ne: "ls \<noteq> []" by simp
  have d: "ds = show_base 10 (nat (row + 1))" using assms by (simp add: ds_def sprintf_d_def)
  then have dv: "digitValue 0 ds = row + 1" "\<forall>x \<in> set ds. isdigit x" "ds \<noteq> []"
    using assms digitValue_show [of "nat (row + 1)"] show_base_digits by auto
  have "length ds \<le> 10" using length_show_base_le [of 10 "nat (row + 1)" 10] assms by (simp add: d)
  then have name: "TableCellName 64 row col = Some (ls @ ds)"
    using assms l(2) by (simp add: TableCellName_def Let_def flip: ls_def ds_def)
  have "parseLetters (ls @ ds) 0 False = parseLetters ds (col + 1) True"
    using parseLetters_letters [OF l(1), of 0 ds False] v ne assms by simp
  also have "\<dots> = Some (col + 1, True, ds)"
    using dv(2,3) by (cases ds) (auto simp: isdigit_def byte_def)
  finally show ?thesis
    using name parseDigits_digits [OF dv(2), of 0 False] dv assms by (simp add: TableCellParse_def)
qed

theorem TableCellName_roundtrip_witness:
  "\<exists>name. TableCellName 64 41 28 = Some name \<and> TableCellParse (Some name) = Some (Some (41, 28))"
  by (rule TableCellName_roundtrip) simp_all

subsection \<open>The index\<close>

definition index_ok :: "tdata \<Rightarrow> bool" where
  "index_ok l \<longleftrightarrow> length (cells l) = trows l * tcols l \<and> trows l * tcols l \<le> 2 ^ 31"

definition known :: "tdata \<Rightarrow> nat \<Rightarrow> nat \<Rightarrow> ptr" where
  "known l r c = (if r < trows l \<and> c < tcols l then cells l ! (r * tcols l + c) else 0)"

lemma place_less: "r < rows \<Longrightarrow> c < cols \<Longrightarrow> r * cols + c < rows * (cols :: nat)"
proof -
  assume "r < rows" "c < cols"
  then have "r * cols + c < (r + 1) * cols" by simp
  also have "\<dots> \<le> rows * cols" using \<open>r < rows\<close> by (intro mult_le_mono1) simp
  finally show ?thesis .
qed

lemma place_eq: "c < cols \<Longrightarrow> c' < cols \<Longrightarrow> r * cols + c = r' * cols + c' \<longleftrightarrow> r = r' \<and> c = (c' :: nat)"
proof
  assume b: "c < cols" "c' < cols" and e: "r * cols + c = r' * cols + c'"
  have "(r * cols + c) div cols = r" "(r' * cols + c') div cols = r'" using b by simp_all
  with e have "r = r'" by simp
  with e show "r = r' \<and> c = c'" by simp
qed simp

lemma copyCells_copies:
  assumes "\<forall>(r, c) \<in> set ps. r < trows l \<and> c < tcols l" "index_ok l" "trows l \<le> rows" "tcols l \<le> cols"
    and "length grown = rows * cols" "rows * cols \<le> 2 ^ 31"
  shows "\<exists>g. copyCells (cells l) (tcols l) cols ps grown = Some g \<and> length g = rows * cols
    \<and> (\<forall>r < rows. \<forall>c < cols. g ! (r * cols + c) = (if (r, c) \<in> set ps then known l r c else grown ! (r * cols + c)))"
  using assms(1,5)
proof (induction ps arbitrary: grown)
  case (Cons p ps)
  obtain r c where p: "p = (r, c)" by (cases p)
  have b: "r < trows l" "c < tcols l" using Cons.prems(1) p by auto
  then have i: "r * tcols l + c < length (cells l)" "length (cells l) \<le> 2 ^ 31"
    using assms(2) place_less [of r "trows l" c "tcols l"] by (simp_all add: index_ok_def)
  have j: "r * cols + c < rows * cols" using b assms(3,4) by (intro place_less) simp_all
  let ?v = "cells l ! (r * tcols l + c)"
  obtain g where g: "copyCells (cells l) (tcols l) cols ps (grown[r * cols + c := ?v]) = Some g" "length g = rows * cols"
      "\<forall>r' < rows. \<forall>c' < cols. g ! (r' * cols + c') = (if (r', c') \<in> set ps then known l r' c' else grown[r * cols + c := ?v] ! (r' * cols + c'))"
    using Cons.IH [of "grown[r * cols + c := ?v]"] Cons.prems by auto
  have "copyCells (cells l) (tcols l) cols (p # ps) grown = Some g"
    using g(1) i j Cons.prems(2) assms(6) by (simp add: p cellAt_def putCell_def Let_def)
  moreover have "g ! (r' * cols + c') = (if (r', c') \<in> set (p # ps) then known l r' c' else grown ! (r' * cols + c'))"
    if "r' < rows" "c' < cols" for r' c'
  proof -
    have "c < cols" using b assms(4) by simp
    then have "r' * cols + c' = r * cols + c \<longleftrightarrow> r' = r \<and> c' = c" using that place_eq by blast
    then have "grown[r * cols + c := ?v] ! (r' * cols + c') = (if r' = r \<and> c' = c then known l r c else grown ! (r' * cols + c'))"
      using b j Cons.prems(2) by (simp add: nth_list_update known_def eq_commute)
    with g(3) that show ?thesis by (cases "r' = r \<and> c' = c") (simp_all add: p, auto)
  qed
  ultimately show ?case using g(2) by blast
qed simp

text \<open>C34. Growing the index makes room for the position asked for and keeps every cell it knew at its place, rows
  moved and all; no access leaves the old or the new block.\<close>

theorem Table_Grow_keeps:
  assumes "index_ok l" and "\<forall>n. can_alloc mm n" and "max (trows l) (row + 1) * max (tcols l) (col + 1) < 2 ^ 31"
  shows "\<exists>l'. Table_Grow mm l row col = Some l' \<and> index_ok l' \<and> trows l' = max (trows l) (row + 1) \<and> tcols l' = max (tcols l) (col + 1)
    \<and> known l' = known l"
proof (cases "row < trows l \<and> col < tcols l")
  case True
  then show ?thesis using assms(1) by (intro exI [of _ l]) (simp add: Table_Grow_def)
next
  case False
  define rows cols where rc: "rows = max (trows l) (row + 1)" "cols = max (tcols l) (col + 1)"
  have s: "rows * cols < 2 ^ 31" using assms(3) by (simp add: rc)
  have "rows * 1 \<le> rows * cols" by (rule mult_le_mono2) (simp add: rc)
  moreover have "1 * cols \<le> rows * cols" by (rule mult_le_mono1) (simp add: rc)
  ultimately have "rows < 2 ^ 31" "cols < 2 ^ 31" "rows * cols \<le> 2 ^ 31" using s by (simp_all only: mult_1 mult_1_right)
  note b = this
  have m: "(if trows l \<le> row then row + 1 else trows l) = rows" "(if tcols l \<le> col then col + 1 else tcols l) = cols"
    by (auto simp: rc)
  obtain g where g: "copyCells (cells l) (tcols l) cols (List.product [0..<trows l] [0..<tcols l]) (replicate (rows * cols) 0) = Some g"
      "length g = rows * cols"
      "\<forall>r < rows. \<forall>c < cols. g ! (r * cols + c) = (if r < trows l \<and> c < tcols l then known l r c else 0)"
    using copyCells_copies [of "List.product [0..<trows l] [0..<tcols l]" l rows cols "replicate (rows * cols) 0"] assms(1) b(3) place_less
    by (auto simp: rc)
  let ?l = "l\<lparr>cells := g, trows := rows, tcols := cols\<rparr>"
  have "Table_Grow mm l row col = Some ?l"
    using b g(1) assms(2) unfolding Table_Grow_def m Let_def if_not_P [OF False] by simp
  moreover have "known ?l r c = known l r c" for r c
  proof (cases "r < rows \<and> c < cols")
    case True
    then show ?thesis using g(3) by (auto simp: known_def)
  next
    case False
    then show ?thesis by (auto simp: known_def rc)
  qed
  ultimately show ?thesis using g(2) b by (intro exI [of _ ?l]) (auto simp: index_ok_def rc fun_eq_iff)
qed

theorem Table_Grow_keeps_witness:
  "\<exists>l'. Table_Grow good_mem \<lparr>owner = 0, msgID = 0, port = None, cells = [7, 8], trows = 1, tcols = 2\<rparr> 4 2 = Some l' \<and> index_ok l' \<and> trows l' = 5 \<and> tcols l' = 3
    \<and> known l' = known \<lparr>owner = 0, msgID = 0, port = None, cells = [7, 8], trows = 1, tcols = 2\<rparr>"
  using Table_Grow_keeps [of "\<lparr>owner = 0, msgID = 0, port = None, cells = [7, 8], trows = 1, tcols = 2\<rparr>" good_mem 4 2]
  by (simp add: index_ok_def good_mem_def)

subsection \<open>The grid as text\<close>

lemma growCap_room: "want \<le> growCap capa want"
  by (induction capa want rule: growCap.induct) (subst growCap.simps, simp)

lemma growCap_less: "want \<le> 2 ^ 30 \<Longrightarrow> capa < 2 ^ 31 \<Longrightarrow> growCap capa want < 2 ^ 31"
  by (induction capa want rule: growCap.induct) (subst growCap.simps, simp)

lemma Table_Append_ok:
  assumes "length buf + length t + 1 \<le> 2 ^ 30" "capa < 2 ^ 31" "\<forall>n. can_alloc mm n"
  obtains capa1 where "Table_Append mm (buf, capa) (Some t) = Some (buf @ t, capa1)" "capa1 < 2 ^ 31" "length (buf @ t) < capa1"
proof (cases "length buf + length t + 1 \<le> capa")
  case True
  with that [of capa] assms show ?thesis by (simp add: Table_Append_def orEmpty_def)
next
  case False
  with that [of "growCap capa (length buf + length t + 1)"] assms growCap_less [of "length buf + length t + 1" capa]
    growCap_room [of "length buf + length t + 1" capa]
  show ?thesis by (simp add: Table_Append_def orEmpty_def Let_def)
qed

lemma appendAll_concat:
  assumes "length buf + length (concat ts) + 1 \<le> 2 ^ 30" "capa < 2 ^ 31" "\<forall>n. can_alloc mm n"
  shows "map_option fst (appendAll mm (buf, capa) ts) = Some (buf @ concat ts)"
  using assms(1,2)
proof (induction ts arbitrary: buf capa)
  case (Cons t ts)
  obtain capa1 where "Table_Append mm (buf, capa) (Some t) = Some (buf @ t, capa1)" "capa1 < 2 ^ 31"
    using Cons.prems assms(3) by (rule_tac Table_Append_ok [of buf t capa mm]) auto
  with Cons.IH [of "buf @ t" capa1] Cons.prems(1) show ?case by simp
qed simp

definition plain :: "string \<Rightarrow> bool" where
  "plain t \<longleftrightarrow> TAB \<notin> set t \<and> LF \<notin> set t"

lemma tableScan_plain: "plain t \<Longrightarrow> tableScan (t @ rest) piece r c sr sc = tableScan rest (piece @ t) r c sr sc"
  by (induction t arbitrary: piece) (auto simp: plain_def)

lemma tableScan_row:
  "row \<noteq> [] \<Longrightarrow> \<forall>t \<in> set row. plain (concat t) \<Longrightarrow> tableScan (concat (rowPieces row) @ rest) [] r c sr sc
    = (case tableScan rest [] (r + 1) 0 (max sr (r + 1)) (max sc (c + length row)) of
        (found, ext) \<Rightarrow> (map (\<lambda>(k, t). (r, k, concat t)) (enumerate c row) @ found, ext))"
proof (induction row arbitrary: c sr sc rule: rowPieces.induct)
  case (2 t)
  then show ?case by (simp add: tableScan_plain split: prod.split)
next
  case (3 t u ts)
  have "max (max sc (Suc c)) (c + (Suc (Suc (length ts)))) = max sc (c + (Suc (Suc (length ts))))" by simp
  with 3 "3.IH" [of "c + 1" "max sr (r + 1)" "max sc (c + 1)"] show ?case by (simp add: tableScan_plain split: prod.splits)
qed simp

lemma tableScan_rows:
  "0 < n \<Longrightarrow> \<forall>row \<in> set grid. length row = n \<and> (\<forall>t \<in> set row. plain (concat t))
    \<Longrightarrow> tableScan (concat (concat (map rowPieces grid))) [] r 0 sr sc
      = (concat (map (\<lambda>(i, row). map (\<lambda>(k, t). (i, k, concat t)) (enumerate 0 row)) (enumerate r grid)),
         (if grid = [] then sr else max sr (r + length grid)), (if grid = [] then sc else max sc n))"
proof (induction grid arbitrary: r sr sc)
  case (Cons row grid)
  then have "row \<noteq> []" by auto
  with Cons show ?case by (simp add: tableScan_row max.assoc max.absorb2 max.absorb1)
qed simp

text \<open>C35. A grid comes back from its text: every cell at its place, the empty ones and the last column included, and
  the number of rows and columns, as long as no cell has a tab or a line end in it.\<close>

theorem tableText_scanned:
  assumes "0 < n" and "\<forall>row \<in> set grid. length row = n \<and> (\<forall>t \<in> set row. plain (concat t))"
    and "\<forall>k. can_alloc mm k" and "length (concat (concat (map rowPieces grid))) < 2 ^ 30"
  shows "\<exists>buf. tableText mm grid = Some buf \<and> tableScan buf [] 0 0 0 0
    = (concat (map (\<lambda>(i, row). map (\<lambda>(k, t). (i, k, concat t)) (enumerate 0 row)) (enumerate 0 grid)),
       length grid, (if grid = [] then 0 else n))"
proof -
  have "tableText mm grid = Some (concat (concat (map rowPieces grid)))"
    using appendAll_concat [of "[]" "[] # concat (map rowPieces grid)" 0 mm] assms(3,4) by (simp add: tableText_def del: appendAll.simps)
  then show ?thesis using tableScan_rows [OF assms(1,2), of 0 0 0] by simp
qed

theorem tableText_scanned_witness:
  "\<exists>buf. tableText good_mem [[[''12''], [''='', ''A1+1'']], [[[]], [''x'']]] = Some buf \<and> tableScan buf [] 0 0 0 0
    = ([(0, 0, ''12''), (0, 1, ''=A1+1''), (1, 0, []), (1, 1, ''x'')], 2, 2)"
proof -
  let ?g = "[[[''12''], [''='', ''A1+1'']], [[[]], [''x'']]]"
  have "\<forall>row \<in> set ?g. length row = 2 \<and> (\<forall>t \<in> set row. plain (concat t))" by (simp add: plain_def)
  moreover have "length (concat (concat (map rowPieces ?g))) < 2 ^ 30" "\<forall>k. can_alloc good_mem k" by (simp_all add: good_mem_def)
  ultimately show ?thesis using tableText_scanned [of 2 ?g good_mem] by (simp only: ) (simp add: numeral_2_eq_2)
qed

end
