(* ===== verification/Control.thy ===== *)
theory Control
  imports Object_Modules
begin

text \<open>
  \<open>src/objects/control/control.c\<close>: what it takes to be a control, the palette and the menus.  The static variables
  are the record \<open>board\<close>; \<open>Widget_WasAdopted\<close> is the second part of the result of \<open>Widget_Create\<close>, which its callers
  read on the next line.  Functions reached through \<open>control.h\<close> are called directly.
\<close>

subsection \<open>Kinds of properties\<close>

definition PROP_LED :: "32 word" where "PROP_LED = 2"
definition PROP_CHECKBOX :: "32 word" where "PROP_CHECKBOX = 4"
definition PROP_SLIDER :: "32 word" where "PROP_SLIDER = 5"
definition PROP_VUMETER :: "32 word" where "PROP_VUMETER = 6"
definition PROP_TEXTOUT :: "32 word" where "PROP_TEXTOUT = 7"
definition PROP_KNOB :: "32 word" where "PROP_KNOB = 8"
definition PROP_LABEL :: "32 word" where "PROP_LABEL = 9"
definition PROP_MENU :: "32 word" where "PROP_MENU = 11"
definition PROP_ICON :: "32 word" where "PROP_ICON = 12"
definition PROP_MARKDOWN :: "32 word" where "PROP_MARKDOWN = 13"
definition PROP_HTML :: "32 word" where "PROP_HTML = 14"
definition PROP_IMAGE :: "32 word" where "PROP_IMAGE = 15"

subsection \<open>Placement\<close>

definition Widget_Create :: "caller \<Rightarrow> ptr \<Rightarrow> string \<Rightarrow> string \<Rightarrow> machine \<Rightarrow> ((ptr \<times> bool) \<times> machine) option" where
  "Widget_Create call container cls name0 m = (let name = (if name0 = [] then cls else name0) in do {
     ((ok, cpath), m1) \<leftarrow> PathOfInstance container 256 m;
     let (existing, m2) = (if ok then ResolvePath (take 319 (cpath @ SLASH # name)) m1 else (0, m1));
     if existing \<noteq> 0 then Some ((existing, True), m2)
     else do {
       (inst, m3) \<leftarrow> CreateObject call container cls name m2;
       if inst = 0 then Some ((0, False), m3)
       else do {
         ((ok2, cpath2), m4) \<leftarrow> RequirePathOfAt container 256 m3;
         m5 \<leftarrow> (if ok2 then RegisterPath (take 319 (cpath2 @ SLASH # name)) inst m4 else Some m4);
         Some ((inst, False), m5) } } })"

definition Widget_Destroy :: "caller \<Rightarrow> ptr \<Rightarrow> machine \<Rightarrow> machine option" where
  "Widget_Destroy call inst m = (if inst = 0 then Some m else do {
     ((ok, path), m1) \<leftarrow> PathOfInstance inst 320 m;
     m2 \<leftarrow> (if ok then UnregisterPath path m1 else Some m1);
     DeleteInstance call inst m2 })"

definition GetMainView :: "ptr \<Rightarrow> machine \<Rightarrow> ptr option" where
  "GetMainView inst m = (if inst = 0 then Some 0 else do {
     x \<leftarrow> GetPropNode inst ''X'' (world m);
     if x = 0 then Some 0
     else do {
       y \<leftarrow> GetPropNode inst ''Y'' (world m);
       Some (if y = 0 then 0 else inst) } })"

fun publishProps :: "ptr \<Rightarrow> (string \<times> 32 word \<times> string) list \<Rightarrow> machine \<Rightarrow> machine option" where
  "publishProps cls [] m = Some m"
| "publishProps cls ((name, widget, def) # rest) m = do {
     (_, m1) \<leftarrow> PublishProp cls name widget (Some def) m;
     publishProps cls rest m1 }"

definition PublishPosition :: "ptr \<Rightarrow> machine \<Rightarrow> machine option" where
  "PublishPosition cls = publishProps cls [(''X'', PROP_NULL, ''0''), (''Y'', PROP_NULL, ''0''), (''W'', PROP_NULL, ''120''),
     (''H'', PROP_NULL, ''60''), (''Container'', PROP_NULL, ''''), (''Name'', PROP_TEXTBOX, ''''), (''ReservedViewOpen'', PROP_ICON, ''0''),
     (''ReservedViewPanelX'', PROP_NULL, ''240''), (''ReservedViewPanelY'', PROP_NULL, ''60''), (''Deletable'', PROP_CHECKBOX, ''1'')]"

definition InitPosition :: "ptr \<Rightarrow> machine \<Rightarrow> machine option" where
  "InitPosition inst m = do {
     m1 \<leftarrow> setInts inst [(''X'', 0), (''Y'', 0), (''W'', 120), (''H'', 60)] m;
     m2 \<leftarrow> setStrs inst [(''Container'', ''''), (''Deletable'', ''1''), (''Name'', ''''), (''ReservedViewOpen'', ''0'')] m1;
     setInts inst [(''ReservedViewPanelX'', 240), (''ReservedViewPanelY'', 60)] m2 }"

definition PublishShow :: "ptr \<Rightarrow> int \<Rightarrow> string option \<Rightarrow> string option \<Rightarrow> machine \<Rightarrow> machine option" where
  "PublishShow cls renders js css m = (if cls = 0 then Some m else do {
     m1 \<leftarrow> SetPropStr cls ''Show'' (Some []) m;
     shown \<leftarrow> GetPropNode cls ''Show'' (world m1);
     if shown = 0 then Some m1
     else do {
       m2 \<leftarrow> SetPropStr shown ''web'' (Some []) m1;
       web \<leftarrow> GetPropNode shown ''web'' (world m2);
       if web = 0 then Some m2
       else do {
         m3 \<leftarrow> (if js \<noteq> None then SetPropStr web ''js'' js m2 else Some m2);
         m4 \<leftarrow> (if css \<noteq> None then SetPropStr web ''css'' css m3 else Some m3);
         if renders \<noteq> 0 then SetPropInt cls ''Renders'' (word_of_int renders) m4 else Some m4 } } })"

subsection \<open>The palette\<close>

record board =
  bmach :: machine
  rootView :: ptr
  palette :: ptr
  paletteView :: ptr
  chrome :: ptr
  settingsHome :: ptr

definition onBoard :: "(machine \<Rightarrow> ('v \<times> machine) option) \<Rightarrow> board \<Rightarrow> ('v \<times> board) option" where
  "onBoard f b = do { (v, m) \<leftarrow> f (bmach b); Some (v, b\<lparr>bmach := m\<rparr>) }"

definition doBoard :: "(machine \<Rightarrow> machine option) \<Rightarrow> board \<Rightarrow> board option" where
  "doBoard f b = do { m \<leftarrow> f (bmach b); Some (b\<lparr>bmach := m\<rparr>) }"

definition SetSettingsHome :: "ptr \<Rightarrow> board \<Rightarrow> board" where
  "SetSettingsHome view b = b\<lparr>settingsHome := view\<rparr>"

definition GetPaletteView :: "board \<Rightarrow> ptr \<times> board" where
  "GetPaletteView b = (case ResolvePath ''/Root/Palette'' (bmach b) of (p, m) \<Rightarrow> (p, b\<lparr>bmach := m\<rparr>))"

definition IsPaletteExcluded :: "string option \<Rightarrow> bool" where
  "IsPaletteExcluded className \<longleftrightarrow> className = Some ''Bridge'' \<or> className = Some ''TCP'' \<or> className = Some ''MCPAgent''"

text \<open>\<open>strcasecmp\<close>: bytes in lower case, compared as unsigned.\<close>

definition lower :: "char \<Rightarrow> nat" where
  "lower c = (let n = of_char c in if 65 \<le> n \<and> n \<le> 90 then n + 32 else n)"

fun strcasecmp :: "string \<Rightarrow> string \<Rightarrow> int" where
  "strcasecmp [] [] = 0"
| "strcasecmp [] (d # b) = -1"
| "strcasecmp (c # a) [] = 1"
| "strcasecmp (c # a) (d # b) = (if lower c = lower d then strcasecmp a b else int (lower c) - int (lower d))"

text \<open>A class and its name; \<open>qsort\<close> with \<open>PaletteNameCmp\<close>.  Names of classes differ; two that differ in case only
  may come out in either order, here the one they came in.\<close>

definition PaletteNameCmp :: "ptr \<times> string \<Rightarrow> ptr \<times> string \<Rightarrow> int" where
  "PaletteNameCmp a b = strcasecmp (snd a) (snd b)"

fun insertSorted :: "ptr \<times> string \<Rightarrow> (ptr \<times> string) list \<Rightarrow> (ptr \<times> string) list" where
  "insertSorted x [] = [x]"
| "insertSorted x (y # ys) = (if PaletteNameCmp x y \<le> 0 then x # y # ys else y # insertSorted x ys)"

definition sortByName :: "(ptr \<times> string) list \<Rightarrow> (ptr \<times> string) list" where
  "sortByName xs = foldr insertSorted xs []"

definition PALETTE_MAX :: nat where "PALETTE_MAX = 512"

text \<open>One walk over the classes: those of a pass that can be made, in the order of the walk.  In the first pass
  the walk also reads what the log says of each class.\<close>

partial_function (option) paletteWalk :: "bool \<Rightarrow> ptr \<Rightarrow> (ptr \<times> string) list \<Rightarrow> machine \<Rightarrow> ((ptr \<times> string) list \<times> machine) option" where
  "paletteWalk pass cls order m = (if cls = 0 then Some (order, m) else do {
     (_, m1) \<leftarrow> (if pass then Some (0, m) else onNodes (GetPropLong cls ''InstanceStart'') m);
     (start, m2) \<leftarrow> onNodes (GetPropLong cls ''InstanceStart'') m1;
     name \<leftarrow> GetNameStr cls (world m2);
     (panel, m3) \<leftarrow> (if start \<noteq> 0 then onNodes (GetPropInt cls ''Panel'') m2 else Some (0, m2));
     let order1 = (if start \<noteq> 0 \<and> panel = of_bool pass \<and> \<not> IsPaletteExcluded name \<and> length order < PALETTE_MAX
                   then order @ [(cls, orEmpty name)] else order);
     (nxt, m4) \<leftarrow> NextClass cls m3;
     paletteWalk pass nxt order1 m4 })"

declare paletteWalk.simps [code]

text \<open>One class placed: \<open>slot\<close> counts the places of the grid.\<close>

definition paletteItem :: "caller \<Rightarrow> ptr \<times> string \<Rightarrow> int \<Rightarrow> board \<Rightarrow> (int \<times> board) option" where
  "paletteItem call = (\<lambda>(cls, name) slot b. do {
     ((inst, _), b1) \<leftarrow> onBoard (Widget_Create call (paletteView b) name name) b;
     view \<leftarrow> GetMainView inst (bmach b1);
     if inst \<noteq> 0 \<and> view \<noteq> 0 then do {
       b2 \<leftarrow> doBoard (setInts inst [(''X'', 10 + (slot mod 3) * 80), (''Y'', 10 + (slot div 3) * 66)]) b1;
       b3 \<leftarrow> doBoard (logProp ''X'' inst) b2;
       b4 \<leftarrow> doBoard (logProp ''Y'' inst) b3;
       b5 \<leftarrow> doBoard (logProp ''W'' inst) b4;
       b6 \<leftarrow> doBoard (logProp ''H'' inst) b5;
       let alias = take 127 (''/Root/Palette/'' @ name);
       b7 \<leftarrow> doBoard (SetPropStr (palette b6) alias (Some alias)) b6;
       Some (slot + 1, b7) }
     else if inst \<noteq> 0 then do { b2 \<leftarrow> doBoard (Widget_Destroy call inst) b1; Some (slot, b2) }
     else Some (slot, b1) })"

fun paletteItems :: "caller \<Rightarrow> (ptr \<times> string) list \<Rightarrow> int \<Rightarrow> board \<Rightarrow> (int \<times> board) option" where
  "paletteItems call [] slot b = Some (slot, b)"
| "paletteItems call (x # xs) slot b = do { (slot1, b1) \<leftarrow> paletteItem call x slot b; paletteItems call xs slot1 b1 }"

definition palettePass :: "caller \<Rightarrow> bool \<Rightarrow> int \<Rightarrow> board \<Rightarrow> (int \<times> board) option" where
  "palettePass call pass slot b = do {
     (first, b1) \<leftarrow> onBoard FirstClass b;
     (order, b2) \<leftarrow> onBoard (paletteWalk pass first []) b1;
     paletteItems call (sortByName order) slot b2 }"

text \<open>What the palette holds, read back for the log.\<close>

partial_function (option) heldFrom :: "string \<Rightarrow> ptr \<Rightarrow> machine \<Rightarrow> machine option" where
  "heldFrom path inst m = (if inst = 0 then Some m else do {
     (c, m1) \<leftarrow> onNodes (GetPropStr inst ''Container'') m;
     m2 \<leftarrow> (if c = Some path then logName inst m1 else Some m1);
     (nxt, m3) \<leftarrow> NextInstance inst m2;
     heldFrom path nxt m3 })"

declare heldFrom.simps [code]

definition paletteReport :: "ptr \<Rightarrow> machine \<Rightarrow> machine option" where
  "paletteReport view m = do {
     ((ok, path), m1) \<leftarrow> PathOfInstance view 200 m;
     if ok then do { (first, m2) \<leftarrow> FirstInstance m1; heldFrom path first m2 } else Some m1 }"

definition BuildPalette :: "caller \<Rightarrow> board \<Rightarrow> board option" where
  "BuildPalette call b = do {
     b1 \<leftarrow> (if rootView b = 0 then do { (r, ba) \<leftarrow> onBoard (CreateRoot call ''Root'') b; Some (ba\<lparr>rootView := r\<rparr>) } else Some b);
     ((view, _), b2) \<leftarrow> onBoard (Widget_Create call (rootView b1) ''View'' ''Palette'') b1;
     b3 \<leftarrow> doBoard (SetPropStr view ''ReservedViewOpen'' (Some ''1'')) (b2\<lparr>paletteView := view\<rparr>);
     b4 \<leftarrow> doBoard (setInts view [(''X'', 20), (''Y'', 60), (''ReservedViewPanelX'', 20), (''ReservedViewPanelY'', 60)]) b3;
     b5 \<leftarrow> doBoard (SetPropStr view ''Deletable'' (Some ''0'')) b4;
     b6 \<leftarrow> doBoard (setInts view [(''W'', 290), (''H'', 220)]) b5;
     (p, b7) \<leftarrow> onBoard (namedNode ''Palette'') b6;
     (slot, b8) \<leftarrow> palettePass call False 0 (b7\<lparr>palette := p\<rparr>);
     (_, b9) \<leftarrow> palettePass call True slot b8;
     doBoard (paletteReport (paletteView b9)) b9 }"

subsection \<open>The menus\<close>

definition chromeMenu :: "caller \<Rightarrow> string \<Rightarrow> int \<Rightarrow> string \<Rightarrow> string \<Rightarrow> (string \<times> string) list \<Rightarrow> board \<Rightarrow> board option" where
  "chromeMenu call name x label items extra b = do {
     (menu, b1) \<leftarrow> onBoard (CreateObject call (rootView b) ''MenuButton'' name) b;
     if menu = 0 then Some b1
     else do {
       b2 \<leftarrow> doBoard (RegisterPath (''/Root/'' @ name) menu) b1;
       b3 \<leftarrow> doBoard (setInts menu [(''X'', x), (''Y'', 6)]) b2;
       b4 \<leftarrow> doBoard (setStrs menu ([(''Label'', label), (''Items'', items), (''Deletable'', ''0'')] @ extra)) b3;
       doBoard (SetPropStr (chrome b4) name (Some (''/Root/'' @ name))) b4 } }"

definition BuildChrome :: "caller \<Rightarrow> board \<Rightarrow> board option" where
  "BuildChrome call b = do {
     (c, b1) \<leftarrow> onBoard (namedNode ''Chrome'') b;
     b2 \<leftarrow> chromeMenu call ''FileMenu'' 8 ''File'' ''Load,Save,Import,Export'' [] (b1\<lparr>chrome := c\<rparr>);
     chromeMenu call ''ModeMenu'' 110 ''Mode'' ''Operate,Clone,Alias,Move,Connect,Delete,Options'' [(''Selected'', ''Operate'')] b2 }"

subsection \<open>Settings\<close>

record controlSpec =
  controlClass :: string
  specProperty :: string
  specX :: int
  specY :: int
  specW :: int
  specH :: int

definition IsDisplayControlClass :: "string \<Rightarrow> bool" where
  "IsDisplayControlClass className \<longleftrightarrow> className = ''LED'' \<or> className = ''TextOut'' \<or> className = ''VUMeter'' \<or> className = ''Label''"

definition settingsControl :: "caller \<Rightarrow> ptr \<Rightarrow> controlSpec \<Rightarrow> board \<Rightarrow> board option" where
  "settingsControl call target spec b = do {
     (c, b1) \<leftarrow> onBoard (CreateObject call (settingsHome b) (controlClass spec) []) b;
     if c = 0 then Some b1
     else do {
       b2 \<leftarrow> doBoard (setInts c [(''X'', specX spec), (''Y'', specY spec), (''W'', specW spec), (''H'', specH spec)]) b1;
       (_, b3) \<leftarrow> onBoard (if controlClass spec = ''Button'' then Connect c ''Value'' target ''Activate''
         else if IsDisplayControlClass (controlClass spec) then Connect target (specProperty spec) c ''Value''
         else Connect c ''Value'' target (specProperty spec)) b2;
       Some b3 } }"

fun settingsControls :: "caller \<Rightarrow> ptr \<Rightarrow> controlSpec list \<Rightarrow> board \<Rightarrow> board option" where
  "settingsControls call target [] b = Some b"
| "settingsControls call target (spec # specs) b = do { b1 \<leftarrow> settingsControl call target spec b; settingsControls call target specs b1 }"

text \<open>\<open>specs\<close> is the table with its length; the empty table stands for NULL too.\<close>

definition BuildSettingsView :: "caller \<Rightarrow> ptr \<Rightarrow> controlSpec list \<Rightarrow> board \<Rightarrow> (ptr \<times> board) option" where
  "BuildSettingsView call target specs b = (if target = 0 \<or> specs = [] then Some (0, b) else do {
     b1 \<leftarrow> (if settingsHome b = 0 then do { (r, ba) \<leftarrow> onBoard (CreateRoot call ''Initialize'') b; Some (ba\<lparr>settingsHome := r\<rparr>) } else Some b);
     if settingsHome b1 = 0 then Some (0, b1)
     else do { b2 \<leftarrow> settingsControls call target specs b1; Some (target, b2) } })"

subsection \<open>The class\<close>

text \<open>\<open>entries\<close> are the names \<open>control.h\<close> looks up with the addresses of their functions, in the order of the
  code: six before the class is shown, nine after it.\<close>

definition Control_ClassStart :: "(string \<Rightarrow> ptr) \<Rightarrow> string \<Rightarrow> string \<Rightarrow> ptr \<Rightarrow> machine \<Rightarrow> (ptr \<times> machine) option" where
  "Control_ClassStart addr js css library m = do {
     (cls, m1) \<leftarrow> namedNode ''Control'' m;
     (self, m2) \<leftarrow> RegisterClass library cls m1;
     m3 \<leftarrow> setLongs self (map (\<lambda>n. (n, addr n)) [''Create'', ''Destroy'', ''Adopted'', ''InitPos'', ''PublishPos'', ''PublishShow'']) m2;
     m4 \<leftarrow> PublishShow self 0 (Some js) (Some css) m3;
     m5 \<leftarrow> setLongs self (map (\<lambda>n. (n, addr n)) [''MainView'', ''BuildPalette'', ''BuildChrome'', ''SettingsView'', ''Palette'',
       ''PaletteView'', ''Chrome'', ''SetSettings'', ''RootView'']) m4;
     m6 \<leftarrow> SetClassVersion self (Some ''1'') (Some ''0'') m5;
     m7 \<leftarrow> SetClassParent self ''Object'' m6;
     Some (self, m7) }"

definition Control_init :: "ptr \<Rightarrow> ptr \<Rightarrow> ptr \<Rightarrow> machine \<Rightarrow> (ptr \<times> machine) option" where
  "Control_init classStart classEnd classMsg =
     module_init ''Control'' ''aa690a30-0651-4607-9109-4869a5d557ef'' classStart classEnd classMsg [(CORE_LIBRARY_FILE, ''Object'')]"

end
