(* ===== verification/Widget.thy ===== *)
theory Widget
  imports Control
begin

text \<open>
  \<open>src/objects/widget/widget.c\<close>: a panel laid out from a table.  A table is the list of its rows up to the NULL row;
  a missing handler is 0.  The contents of files are the argument \<open>readFile\<close>.
\<close>

subsection \<open>Rows\<close>

record widgetItem =
  itemClass :: string
  itemProp :: string
  itemDef :: "string option"
  itemPanel :: int
  itemX :: int
  itemY :: int
  itemW :: int
  itemH :: int
  itemLabel :: int
  itemHandler :: ptr

definition Widget_LabelWord :: "int \<Rightarrow> string" where
  "Widget_LabelWord l = (if l = 1 then ''left'' else if l = 2 then ''right'' else if l = 3 then ''top''
     else if l = 4 then ''bottom'' else ''none'')"

definition Widget_PropType :: "string \<Rightarrow> 32 word" where
  "Widget_PropType c = (if c = ''Textbox'' then PROP_TEXTBOX else if c = ''LED'' then PROP_LED else if c = ''Checkbox'' then PROP_CHECKBOX
     else if c = ''Slider'' then PROP_SLIDER else if c = ''VUMeter'' then PROP_VUMETER else if c = ''TextOut'' then PROP_TEXTOUT
     else if c = ''Knob'' then PROP_KNOB else if c = ''Label'' then PROP_LABEL else if c = ''Dropdown'' then PROP_MENU
     else if c = ''Markdown'' then PROP_MARKDOWN else if c = ''HTML'' then PROP_HTML else if c = ''Image'' then PROP_IMAGE else PROP_NULL)"

text \<open>Rows for panels carry no property.\<close>

definition isPanel :: "widgetItem \<Rightarrow> bool" where
  "isPanel t \<longleftrightarrow> itemClass t = ''View'' \<or> itemClass t = ''Help''"

subsection \<open>Properties of an instance and of its class\<close>

definition Widget_Port :: "ptr \<Rightarrow> string \<Rightarrow> string \<Rightarrow> ptr \<Rightarrow> machine \<Rightarrow> machine option" where
  "Widget_Port inst name initial fn m = do {
     m1 \<leftarrow> SetPropStr inst name (Some initial) m;
     port \<leftarrow> GetPropNode inst name (world m1);
     SetPropLong port ''OnMsg'' fn m1 }"

definition initRow :: "ptr \<Rightarrow> widgetItem \<Rightarrow> machine \<Rightarrow> machine option" where
  "initRow inst t m = (if isPanel t then Some m
     else if itemHandler t \<noteq> 0 then Widget_Port inst (itemProp t) (orEmpty (itemDef t)) (itemHandler t) m
     else SetPropStr inst (itemProp t) (Some (orEmpty (itemDef t))) m)"

fun initRows :: "ptr \<Rightarrow> widgetItem list \<Rightarrow> machine \<Rightarrow> machine option" where
  "initRows inst [] m = Some m"
| "initRows inst (t # ts) m = do { m1 \<leftarrow> initRow inst t m; initRows inst ts m1 }"

definition Widget_Init :: "ptr \<Rightarrow> widgetItem list \<Rightarrow> machine \<Rightarrow> machine option" where
  "Widget_Init inst table m = (if inst = 0 then Some m else initRows inst table m)"

definition publishRow :: "ptr \<Rightarrow> widgetItem \<Rightarrow> machine \<Rightarrow> machine option" where
  "publishRow c t m = (if isPanel t then Some m else do {
     (entry, m1) \<leftarrow> PublishProp c (itemProp t) (Widget_PropType (itemClass t)) (Some (orEmpty (itemDef t))) m;
     if entry \<noteq> 0 \<and> (itemW t \<noteq> 0 \<or> itemH t \<noteq> 0) then setInts entry [(''W'', itemW t), (''H'', itemH t)] m1 else Some m1 })"

fun publishRows :: "ptr \<Rightarrow> widgetItem list \<Rightarrow> machine \<Rightarrow> machine option" where
  "publishRows c [] m = Some m"
| "publishRows c (t # ts) m = do { m1 \<leftarrow> publishRow c t m; publishRows c ts m1 }"

definition Widget_Publish :: "ptr \<Rightarrow> widgetItem list \<Rightarrow> machine \<Rightarrow> machine option" where
  "Widget_Publish c table m = (if c = 0 then Some m else do {
     m1 \<leftarrow> SetPropInt c ''Panel'' 1 m;
     publishRows c table m1 })"

definition Widget_MainSize :: "ptr \<Rightarrow> widgetItem list \<Rightarrow> machine \<Rightarrow> machine option" where
  "Widget_MainSize inst table m = (case table of [] \<Rightarrow> Some m
     | t # _ \<Rightarrow> if inst = 0 \<or> itemClass t \<noteq> ''View'' then Some m else do {
         m1 \<leftarrow> (if itemW t \<noteq> 0 then SetPropInt inst ''W'' (word_of_int (itemW t)) m else Some m);
         if itemH t \<noteq> 0 then SetPropInt inst ''H'' (word_of_int (itemH t)) m1 else Some m1 })"

subsection \<open>Controls and panels\<close>

definition Widget_Reflect :: "caller \<Rightarrow> ptr \<Rightarrow> string \<Rightarrow> ptr \<Rightarrow> string \<Rightarrow> machine \<Rightarrow> machine option" where
  "Widget_Reflect call src sp dst dp m = do {
     (_, m1) \<leftarrow> Connect src sp dst dp m;
     (cur, m2) \<leftarrow> onNodes (GetPropStr src sp) m1;
     if cur \<noteq> None then SetOrDeliverProp call dst dp cur m2 else Some m2 }"

text \<open>Its place and size, for a control that was made and not adopted.\<close>

definition layOut :: "ptr \<Rightarrow> bool \<Rightarrow> int \<Rightarrow> int \<Rightarrow> int \<Rightarrow> int \<Rightarrow> machine \<Rightarrow> machine option" where
  "layOut c adopted x y w h m = (if adopted then Some m else setInts c [(''X'', x), (''Y'', y), (''W'', w), (''H'', h)] m)"

definition Widget_Ctl :: "caller \<Rightarrow> ptr \<Rightarrow> ptr \<Rightarrow> string \<Rightarrow> string \<Rightarrow> int \<Rightarrow> int \<Rightarrow> int \<Rightarrow> int \<Rightarrow> machine \<Rightarrow> (ptr \<times> machine) option" where
  "Widget_Ctl call container target cl pr x y w h m = do {
     ((c, adopted), m1) \<leftarrow> Widget_Create call container cl pr m;
     if c = 0 then Some (0, m1)
     else do {
       m2 \<leftarrow> layOut c adopted x y w h m1;
       m3 \<leftarrow> (if \<not> adopted \<and> pr \<noteq> [] then SetPropStr c ''Label'' (Some pr) m2 else Some m2);
       m4 \<leftarrow> (if cl = ''Markdown'' then Some m3
             else if cl = ''Dropdown'' then do {
               (_, ma) \<leftarrow> LinkPropertyAs c ''Value'' target pr m3;
               Widget_Reflect call target (take 63 (pr @ ''List'')) c ''Items'' ma }
             else do { (_, ma) \<leftarrow> LinkPropertyAs c ''Value'' target pr m3; Some ma });
       Some (c, m4) } }"

definition Widget_SubPanel :: "caller \<Rightarrow> ptr \<Rightarrow> string \<Rightarrow> int \<Rightarrow> int \<Rightarrow> int \<Rightarrow> int \<Rightarrow> machine \<Rightarrow> (ptr \<times> machine) option" where
  "Widget_SubPanel call par name x y w h m = do {
     ((v, adopted), m1) \<leftarrow> Widget_Create call par ''View'' name m;
     if v = 0 then Some (0, m1)
     else do { m2 \<leftarrow> layOut v adopted x y w h m1; Some (v, m2) } }"

subsection \<open>Help\<close>

definition Widget_OnHelpOpen :: "(string \<Rightarrow> string option) \<Rightarrow> ptr \<Rightarrow> int \<Rightarrow> ptr \<Rightarrow> machine \<Rightarrow> (int \<times> machine) option" where
  "Widget_OnHelpOpen readFile view message data m = (if message = msg_eof then Some (rtrn_handled, m) else do {
     (on, m1) \<leftarrow> onNodes (GetValueInt data) m;
     if on = 0 then Some (rtrn_handled, m1)
     else do {
       (file, m2) \<leftarrow> onNodes (GetPropStr view ''HelpFile'') m1;
       if orEmpty file = [] then Some (rtrn_handled, m2)
       else do {
         ((ok, vpath), m3) \<leftarrow> PathOfInstance view 256 m2;
         if \<not> ok then Some (rtrn_handled, m3)
         else do {
           let (box, m4) = ResolvePath (take 319 (vpath @ ''/HelpText'')) m3;
           if box = 0 then Some (rtrn_handled, m4)
           else do {
             m5 \<leftarrow> SetPropStr box ''Value'' (Some (case readFile (the file) of None \<Rightarrow> [] | Some md \<Rightarrow> md)) m4;
             Some (rtrn_handled, m5) } } } } })"

text \<open>\<open>onHelpOpen\<close> is the address of \<open>Widget_OnHelpOpen\<close>.\<close>

definition Widget_AddHelp :: "caller \<Rightarrow> ptr \<Rightarrow> ptr \<Rightarrow> string \<Rightarrow> machine \<Rightarrow> (ptr \<times> machine) option" where
  "Widget_AddHelp call onHelpOpen inst helpFile m = do {
     (h, m1) \<leftarrow> onNodes (GetPropInt inst ''H'') m;
     (help, m2) \<leftarrow> Widget_SubPanel call inst ''Help'' 15 (sint h - 80) 530 376 m1;
     if help = 0 then Some (0, m2)
     else do {
       m3 \<leftarrow> SetPropStr help ''HelpFile'' (Some helpFile) m2;
       (_, m4) \<leftarrow> Widget_Ctl call help help ''Markdown'' ''HelpText'' 10 10 (530 - 50) (376 - 80) m3;
       openPort \<leftarrow> GetPropNode help ''ReservedViewOpen'' (world m4);
       m5 \<leftarrow> (if openPort \<noteq> 0 then SetPropLong openPort ''OnMsg'' onHelpOpen m4 else Some m4);
       Some (help, m5) } }"

subsection \<open>The table\<close>

definition WIDGET_MAX_PANELS :: nat where "WIDGET_MAX_PANELS = 16"

text \<open>The panel a row names among those made so far.\<close>

definition panelOf :: "ptr list \<Rightarrow> ptr \<Rightarrow> widgetItem \<Rightarrow> ptr" where
  "panelOf panels inst t = (if 0 \<le> itemPanel t \<and> itemPanel t < int (length panels) then panels ! nat (itemPanel t) else inst)"

definition buildRow :: "caller \<Rightarrow> ptr \<Rightarrow> ptr \<Rightarrow> widgetItem \<Rightarrow> ptr list \<Rightarrow> machine \<Rightarrow> (ptr list \<times> machine) option" where
  "buildRow call onHelpOpen inst t panels m = (let par = panelOf panels inst t in
     if itemClass t = ''View'' then
       (if WIDGET_MAX_PANELS \<le> length panels then Some (panels, m)
        else if panels = [] then Some ([inst], m)
        else do {
          (v, m1) \<leftarrow> Widget_SubPanel call par (itemProp t) (itemX t) (itemY t) (itemW t) (itemH t) m;
          Some (panels @ [v], m1) })
     else if itemClass t = ''Help'' then
       (if length panels < WIDGET_MAX_PANELS then do {
          (v, m1) \<leftarrow> Widget_AddHelp call onHelpOpen par (itemProp t) m;
          Some (panels @ [v], m1) }
        else Some (panels, m))
     else do {
       (c, m1) \<leftarrow> Widget_Ctl call par inst (itemClass t) (itemProp t) (itemX t) (itemY t) (itemW t) (itemH t) m;
       m2 \<leftarrow> (if c \<noteq> 0 then SetPropStr c ''LabelPos'' (Some (Widget_LabelWord (itemLabel t))) m1 else Some m1);
       Some (panels, m2) })"

fun buildRows :: "caller \<Rightarrow> ptr \<Rightarrow> ptr \<Rightarrow> widgetItem list \<Rightarrow> ptr list \<Rightarrow> machine \<Rightarrow> machine option" where
  "buildRows call onHelpOpen inst [] panels m = Some m"
| "buildRows call onHelpOpen inst (t # ts) panels m = do {
     (panels1, m1) \<leftarrow> buildRow call onHelpOpen inst t panels m;
     buildRows call onHelpOpen inst ts panels1 m1 }"

definition Widget_BuildTable :: "caller \<Rightarrow> ptr \<Rightarrow> ptr \<Rightarrow> widgetItem list \<Rightarrow> machine \<Rightarrow> machine option" where
  "Widget_BuildTable call onHelpOpen inst table m = (if inst = 0 then Some m else buildRows call onHelpOpen inst table [] m)"

text \<open>The older builder: every control goes to a panel of \<open>sub\<close>.\<close>

record widgetCtl =
  ctlClass :: string
  ctlProp :: string
  ctlX :: int
  ctlY :: int
  ctlW :: int
  ctlH :: int
  ctlPanel :: int
  ctlRows :: int
  ctlCols :: int

fun Widget_Build :: "caller \<Rightarrow> widgetCtl list \<Rightarrow> ptr list \<Rightarrow> machine \<Rightarrow> machine option" where
  "Widget_Build call [] sub m = Some m"
| "Widget_Build call (t # ts) sub m = (if sub = [] then None else do {
     let container = (if 0 \<le> ctlPanel t \<and> ctlPanel t < int (length sub) then sub ! nat (ctlPanel t) else hd sub);
     m1 \<leftarrow> (if container \<noteq> 0 then do {
               (_, ma) \<leftarrow> Widget_Ctl call container (hd sub) (ctlClass t) (ctlProp t) (ctlX t) (ctlY t) (ctlW t) (ctlH t) m;
               Some ma } else Some m);
     Widget_Build call ts sub m1 })"

subsection \<open>Placing\<close>

text \<open>The members, read for the log.\<close>

partial_function (option) logMembers :: "ptr \<Rightarrow> machine \<Rightarrow> machine option" where
  "logMembers e m = (if e = 0 then Some m else do {
     (i, m1) \<leftarrow> MemberInstance e m;
     m2 \<leftarrow> (if i \<noteq> 0 then logName i m1 else Some m1);
     nxt \<leftarrow> GetNextSibling e (world m2);
     logMembers nxt m2 })"

declare logMembers.simps [code]

definition Widget_Place :: "caller \<Rightarrow> ptr \<Rightarrow> ptr \<Rightarrow> ptr \<Rightarrow> widgetItem list \<Rightarrow> machine \<Rightarrow> machine option" where
  "Widget_Place call onHelpOpen inst place table m = do {
     (home, m1) \<leftarrow> (if place \<noteq> 0 then onNodes (GetPropLong place ''Container'') m else Some (0, m));
     (mine, m2) \<leftarrow> (if place \<noteq> 0 then onNodes (GetPropStr place ''Name'') m1 else Some (None, m1));
     if inst = 0 \<or> home = 0 then Some m2
     else do {
       ((ok, cpath), m3) \<leftarrow> PathOfInstance home 300 m2;
       if \<not> ok then logName home m3
       else do {
         base \<leftarrow> GetNameStr inst (world m3);
         (name, m4) \<leftarrow> (if orEmpty mine \<noteq> [] then Some (take 191 (the mine), m3)
                        else MintFreshName (case base of None \<Rightarrow> ''Widget'' | Some s \<Rightarrow> s) cpath 192 m3);
         m5 \<leftarrow> RegisterPath (take 511 (cpath @ SLASH # name)) inst m4;
         m6 \<leftarrow> Widget_BuildTable call onHelpOpen inst table m5;
         (e, m7) \<leftarrow> FirstMember inst m6;
         logMembers e m7 } } }"

subsection \<open>The class\<close>

definition Widget_ClassStart :: "(string \<Rightarrow> ptr) \<Rightarrow> ptr \<Rightarrow> machine \<Rightarrow> (ptr \<times> machine) option" where
  "Widget_ClassStart addr library m = do {
     (c, m1) \<leftarrow> namedNode ''Widget'' m;
     (self, m2) \<leftarrow> RegisterClass library c m1;
     m3 \<leftarrow> SetClassVersion self (Some ''1'') (Some ''0'') m2;
     m4 \<leftarrow> SetClassParent self ''Control'' m3;
     m5 \<leftarrow> setLongs self (map (\<lambda>n. (n, addr n)) [''Port'', ''Reflect'', ''Ctl'', ''SubPanel'', ''AddHelp'', ''Build'', ''MainSize'',
       ''BuildTable'', ''Publish'', ''Init'', ''Place'']) m4;
     Some (self, m5) }"

definition Widget_init :: "ptr \<Rightarrow> ptr \<Rightarrow> ptr \<Rightarrow> machine \<Rightarrow> (ptr \<times> machine) option" where
  "Widget_init classStart classEnd classMsg = module_init ''Widget'' ''76735946-ed93-4098-9584-83fd3cb0c702'' classStart classEnd classMsg
     [(''control.object'', ''Control''), (CORE_LIBRARY_FILE, ''Object'')]"

end
