(* ===== verification/Panels.thy ===== *)
theory Panels
  imports Widget WebSocket CharMap
begin

text \<open>
  The panels of the modelled widgets and the start of their classes and instances: the tables \<open>Base64Panel\<close>,
  \<open>Bin2HexPanel\<close>, \<open>CharMapPanel\<close> and \<open>WebSocketPanel\<close>, \<open>InstanceStart\<close>, \<open>ClassStart\<close>, \<open>ClassEnd\<close>, \<open>_init\<close> and \<open>_fini\<close>
  of their files.  \<open>addr\<close> gives the address of a function of the module by its name, \<open>p\<close> is the block \<open>malloc\<close> gave for
  the struct of the instance.
\<close>

subsection \<open>What the starts have in common\<close>

definition item :: "string \<Rightarrow> string \<Rightarrow> string \<Rightarrow> int \<Rightarrow> int \<Rightarrow> int \<Rightarrow> int \<Rightarrow> int \<Rightarrow> int \<Rightarrow> ptr \<Rightarrow> widgetItem" where
  "item c p d pn x y w h l f = \<lparr>itemClass = c, itemProp = p, itemDef = Some d, itemPanel = pn, itemX = x, itemY = y, itemW = w,
     itemH = h, itemLabel = l, itemHandler = f\<rparr>"

definition LABEL_NONE :: int where "LABEL_NONE = 0"
definition LABEL_LEFT :: int where "LABEL_LEFT = 1"
definition LABEL_TOP :: int where "LABEL_TOP = 3"
definition LABEL_BOTTOM :: int where "LABEL_BOTTOM = 4"

text \<open>Addresses of functions of the core.\<close>

record core =
  onActivateMsg :: ptr
  onHelp :: ptr

text \<open>\<open>between\<close> is what a widget does to its instance between its table and its position.\<close>

definition widget_instance :: "caller \<Rightarrow> core \<Rightarrow> string \<Rightarrow> widgetItem list \<Rightarrow> (ptr \<Rightarrow> machine \<Rightarrow> machine option) \<Rightarrow> ptr \<Rightarrow> ptr
    \<Rightarrow> machine \<Rightarrow> (ptr \<times> machine) option" where
  "widget_instance call co name table middle c data m = do {
     (inst, m1) \<leftarrow> namedNode name m;
     m2 \<leftarrow> Widget_Init inst table m1;
     m3 \<leftarrow> middle inst m2;
     m4 \<leftarrow> InitPosition inst m3;
     m5 \<leftarrow> Widget_MainSize inst table m4;
     (_, m6) \<leftarrow> RegisterInstance (onActivateMsg co) c inst m5;
     m7 \<leftarrow> Widget_Place call (onHelp co) inst data table m6;
     Some (inst, m7) }"

definition newLocal :: "ptr \<Rightarrow> 'l \<Rightarrow> ('l, 'z) module_scheme \<Rightarrow> ('l, 'z) module_scheme" where
  "newLocal p l s = s\<lparr>locals := (locals s)(p \<mapsto> l)\<rparr>"

text \<open>The three properties most instances get there.\<close>

definition startProps :: "ptr \<Rightarrow> ptr \<Rightarrow> ptr \<Rightarrow> machine \<Rightarrow> machine option" where
  "startProps p activate inst m = do {
     m1 \<leftarrow> SetPropInt inst ''State'' 1 m;
     setLongs inst [(''local'', p), (''Activate'', activate)] m1 }"

definition widget_class :: "string \<Rightarrow> widgetItem list \<Rightarrow> (string \<Rightarrow> ptr) \<Rightarrow> (string \<times> 32 word \<times> string) list \<Rightarrow> ptr \<Rightarrow> machine \<Rightarrow> (ptr \<times> machine) option" where
  "widget_class name table addr extra library m = do {
     (c, m1) \<leftarrow> namedNode name m;
     m2 \<leftarrow> setLongs c [(''InstanceStart'', addr ''InstanceStart''), (''InstanceEnd'', addr ''InstanceEnd'')] m1;
     (self, m3) \<leftarrow> RegisterClass library c m2;
     m4 \<leftarrow> SetClassVersion self (Some ''1'') (Some ''0'') m3;
     m5 \<leftarrow> SetClassParent self ''Widget'' m4;
     m6 \<leftarrow> PublishPosition self m5;
     m7 \<leftarrow> Widget_Publish self table m6;
     m8 \<leftarrow> publishProps self extra m7;
     Some (self, m8) }"

definition widget_library :: "string \<Rightarrow> string \<Rightarrow> (string \<Rightarrow> ptr) \<Rightarrow> (string \<times> string) list \<Rightarrow> machine \<Rightarrow> (ptr \<times> machine) option" where
  "widget_library name uuid addr deps = module_init name uuid (addr ''ClassStart'') (addr ''ClassEnd'') 0
     ([(CORE_LIBRARY_FILE, ''Object''), (''widget.object'', ''Widget'')] @ deps)"

subsection \<open>Base64\<close>

definition Base64Panel :: "(string \<Rightarrow> ptr) \<Rightarrow> widgetItem list" where
  "Base64Panel addr = [
     item ''View'' ''Base64'' '''' 0 0 0 380 400 0 0,
     item ''Help'' ''objects/base64/README.md'' '''' 0 0 0 0 0 0 0,
     item ''Checkbox'' ''Enable'' ''1'' 0 348 14 9 9 LABEL_LEFT (addr ''Base64_OnEnable''),
     item ''Textbox'' ''Input'' '''' 0 15 40 350 110 LABEL_TOP (addr ''Base64_OnInput''),
     item ''Checkbox'' ''Decode'' ''0'' 0 348 165 9 9 LABEL_LEFT (addr ''Base64_OnDecode''),
     item ''Textbox'' ''Output'' '''' 0 15 190 350 110 LABEL_TOP 0]"

definition Base64_InstanceStart :: "caller \<Rightarrow> core \<Rightarrow> (string \<Rightarrow> ptr) \<Rightarrow> ptr \<Rightarrow> ptr \<Rightarrow> ptr \<Rightarrow> gated module \<Rightarrow> (int \<times> gated module) option" where
  "Base64_InstanceStart call co addr p c data s = do {
     (_, s1) \<leftarrow> onMach (widget_instance call co ''Base64'' (Base64Panel addr) (startProps p (addr ''Base64_Activate'')) c data)
       (newLocal p \<lparr>enabled = True\<rparr> s);
     Some (rtrn_handled, s1) }"

definition Base64_ClassStart :: "(string \<Rightarrow> ptr) \<Rightarrow> ptr \<Rightarrow> machine \<Rightarrow> (ptr \<times> machine) option" where
  "Base64_ClassStart addr = widget_class ''Base64'' (Base64Panel addr) addr [(''State'', PROP_LED, ''1'')]"

definition Base64_init :: "(string \<Rightarrow> ptr) \<Rightarrow> machine \<Rightarrow> (ptr \<times> machine) option" where
  "Base64_init addr = widget_library ''Base64'' ''a2c8ce45-58e8-43aa-813b-7727d66368e9'' addr
     [(''checkbox.object'', ''Checkbox''), (''textbox.object'', ''Textbox''), (''view.object'', ''View'')]"

subsection \<open>Bin2Hex\<close>

definition Bin2HexPanel :: "(string \<Rightarrow> ptr) \<Rightarrow> widgetItem list" where
  "Bin2HexPanel addr = [
     item ''View'' ''Bin2Hex'' '''' 0 0 0 380 360 0 0,
     item ''Help'' ''objects/bin2hex/README.md'' '''' 0 0 0 0 0 0 0,
     item ''Checkbox'' ''Enable'' ''1'' 0 348 14 9 9 LABEL_LEFT (addr ''Bin2Hex_OnEnable''),
     item ''Textbox'' ''Input'' '''' 0 15 40 350 110 LABEL_TOP (addr ''Bin2Hex_OnInput''),
     item ''Textbox'' ''Output'' '''' 0 15 190 350 110 LABEL_TOP 0]"

definition Bin2Hex_InstanceStart :: "caller \<Rightarrow> core \<Rightarrow> (string \<Rightarrow> ptr) \<Rightarrow> ptr \<Rightarrow> ptr \<Rightarrow> ptr \<Rightarrow> gated module \<Rightarrow> (int \<times> gated module) option" where
  "Bin2Hex_InstanceStart call co addr p c data s = do {
     (_, s1) \<leftarrow> onMach (widget_instance call co ''Bin2Hex'' (Bin2HexPanel addr) (startProps p (addr ''Bin2Hex_Activate'')) c data)
       (newLocal p \<lparr>enabled = True\<rparr> s);
     Some (rtrn_handled, s1) }"

definition Bin2Hex_ClassStart :: "(string \<Rightarrow> ptr) \<Rightarrow> ptr \<Rightarrow> machine \<Rightarrow> (ptr \<times> machine) option" where
  "Bin2Hex_ClassStart addr = widget_class ''Bin2Hex'' (Bin2HexPanel addr) addr [(''State'', PROP_LED, ''1'')]"

definition Bin2Hex_init :: "(string \<Rightarrow> ptr) \<Rightarrow> machine \<Rightarrow> (ptr \<times> machine) option" where
  "Bin2Hex_init addr = widget_library ''Bin2Hex'' ''30a16bef-19b0-4aac-ab09-cabbbe0addcc'' addr
     [(''checkbox.object'', ''Checkbox''), (''textbox.object'', ''Textbox''), (''view.object'', ''View'')]"

subsection \<open>CharacterMap\<close>

definition PresetList :: string where
  "PresetList = ''default,Upper Case,Lower Case,'' @ ''Strip CR (Win->Unix),CR->LF (Mac->Unix),LF->CR (Unix->Mac),''
     @ ''Backslash->Slash,Slash->Backslash,ROT13,'' @ ''Comma->Tab (CSV->TSV),Tab->Comma (TSV->CSV),''
     @ ''Swap Quotes,Swap Brackets,Strip Tabs,'' @ ''ASCII to EBCDIC,EBCDIC to ASCII''"

definition CharMapPanel :: "(string \<Rightarrow> ptr) \<Rightarrow> widgetItem list" where
  "CharMapPanel addr = [
     item ''View'' ''CharacterMap'' '''' 0 0 0 460 410 0 0,
     item ''Help'' ''objects/charactermap/README.md'' '''' 0 0 0 0 0 0 0,
     item ''Checkbox'' ''Enable'' ''1'' 0 430 14 9 9 LABEL_LEFT (addr ''CharMap_OnEnable''),
     item ''Textbox'' ''Input'' '''' 0 14 45 135 255 LABEL_TOP (addr ''CharMap_OnInput''),
     item ''Textbox'' ''Map'' '''' 0 158 45 130 255 LABEL_TOP (addr ''CharMap_OnMap''),
     item ''Textbox'' ''Output'' '''' 0 300 45 135 255 LABEL_TOP 0,
     item ''Dropdown'' ''Preset'' ''default'' 0 55 325 150 20 LABEL_NONE (addr ''CharMap_OnPreset'')]"

definition CharMap_InstanceStart :: "caller \<Rightarrow> core \<Rightarrow> (string \<Rightarrow> ptr) \<Rightarrow> ptr \<Rightarrow> ptr \<Rightarrow> ptr \<Rightarrow> gated module \<Rightarrow> (int \<times> gated module) option" where
  "CharMap_InstanceStart call co addr p c data s = do {
     (_, s1) \<leftarrow> onMach (widget_instance call co ''CharacterMap'' (CharMapPanel addr)
         (\<lambda>inst m. do { m1 \<leftarrow> SetPropStr inst ''PresetList'' (Some PresetList) m; startProps p (addr ''CharMap_Activate'') inst m1 }) c data)
       (newLocal p \<lparr>enabled = True\<rparr> s);
     Some (rtrn_handled, s1) }"

definition CharMap_ClassStart :: "(string \<Rightarrow> ptr) \<Rightarrow> ptr \<Rightarrow> machine \<Rightarrow> (ptr \<times> machine) option" where
  "CharMap_ClassStart addr = widget_class ''CharacterMap'' (CharMapPanel addr) addr
     [(''PresetList'', PROP_NULL, PresetList), (''State'', PROP_LED, ''1'')]"

definition CharMap_init :: "(string \<Rightarrow> ptr) \<Rightarrow> machine \<Rightarrow> (ptr \<times> machine) option" where
  "CharMap_init addr = widget_library ''CharacterMap'' ''f8117ccf-44c8-4a96-8e4f-966d082f7e01'' addr
     [(''checkbox.object'', ''Checkbox''), (''dropdown.object'', ''Dropdown''), (''textbox.object'', ''Textbox''), (''view.object'', ''View'')]"

subsection \<open>WebSocket\<close>

definition WebSocketPanel :: "(string \<Rightarrow> ptr) \<Rightarrow> widgetItem list" where
  "WebSocketPanel addr = [
     item ''View'' ''WebSocket'' '''' 0 0 0 320 280 0 0,
     item ''Help'' ''objects/websocket/README.md'' '''' 0 0 0 0 0 0 0,
     item ''Checkbox'' ''Enable'' ''1'' 0 290 12 9 9 LABEL_LEFT (addr ''WS_OnEnable''),
     item ''LED'' ''State'' ''1'' 0 15 40 12 12 LABEL_NONE 0,
     item ''TextOut'' ''In'' '''' 0 15 78 285 20 LABEL_LEFT (addr ''WS_OnAppIn''),
     item ''TextOut'' ''Out'' '''' 0 15 118 285 20 LABEL_LEFT 0,
     item ''TextOut'' ''Wire'' '''' 0 15 158 285 20 LABEL_LEFT (addr ''WS_OnWire''),
     item ''TextOut'' ''Send'' '''' 0 15 198 285 20 LABEL_LEFT 0]"

definition WS_InstanceStart :: "caller \<Rightarrow> core \<Rightarrow> (string \<Rightarrow> ptr) \<Rightarrow> ptr \<Rightarrow> ptr \<Rightarrow> ptr \<Rightarrow> ws \<Rightarrow> (int \<times> ws) option" where
  "WS_InstanceStart call co addr p c data s = (let (hs, m1) = newNode INTEGER (mach s); (bs, m2) = newNode INTEGER m1 in do {
     (_, s1) \<leftarrow> onMach (widget_instance call co ''WebSocket'' (WebSocketPanel addr)
         (\<lambda>inst. setLongs inst [(''local'', p), (''Activate'', addr ''WS_Activate'')]) c data)
       (newLocal p \<lparr>enabled = True, active = False, connHandshakes = hs, connRecvBufs = bs\<rparr> (s\<lparr>mach := m2\<rparr>));
     Some (rtrn_handled, s1) })"

definition WS_ClassStart :: "(string \<Rightarrow> ptr) \<Rightarrow> ptr \<Rightarrow> machine \<Rightarrow> (ptr \<times> machine) option" where
  "WS_ClassStart addr = widget_class ''WebSocket'' (WebSocketPanel addr) addr []"

definition WS_init :: "(string \<Rightarrow> ptr) \<Rightarrow> machine \<Rightarrow> (ptr \<times> machine) option" where
  "WS_init addr = widget_library ''WebSocket'' ''8da17004-242c-4f21-a77e-6a823a52c700'' addr
     [(''checkbox.object'', ''Checkbox''), (''led.object'', ''LED''), (''textout.object'', ''TextOut''), (''view.object'', ''View'')]"

end
