(* ===== verification/Gates.thy ===== *)
theory Gates
  imports Panels
begin

text \<open>
  \<open>src/objects/sum/sum.c\<close> and \<open>src/objects/logicgate/logicgate.c\<close>: the sum of what is wired into a widget, read off its
  \<open>Subscription\<close> records, and the gate on one input.
\<close>

subsection \<open>Sum\<close>

text \<open>The walk over the records: the sum of a \<open>long\<close> overflows to undefined.  The names and the value are read
  again for the log.\<close>

definition sumLog :: "ptr \<Rightarrow> ptr \<Rightarrow> ptr \<Rightarrow> machine \<Rightarrow> machine option" where
  "sumLog rec own src m = do {
     m1 \<leftarrow> logName own m;
     m2 \<leftarrow> logProp ''Port'' rec m1;
     (_, m3) \<leftarrow> onNodes (GetValueLong src) m2;
     Some m3 }"

partial_function (option) sumFrom :: "ptr \<Rightarrow> int \<Rightarrow> machine \<Rightarrow> (int \<times> machine) option" where
  "sumFrom rec acc m = (if rec = 0 then Some (acc, m) else do {
     is \<leftarrow> CmpName rec ''Subscription'' (world m);
     (sum1, m1) \<leftarrow> (if \<not> is then Some (acc, m) else do {
        (own, ma) \<leftarrow> onNodes (GetPropLong rec ''Instance'') m;
        (port, mb) \<leftarrow> (if own \<noteq> 0 then onNodes (GetPropStr rec ''Port'') ma else Some (None, ma));
        src \<leftarrow> (case port of Some name \<Rightarrow> GetPropNode own name (world mb) | None \<Rightarrow> Some 0);
        if src = 0 then Some (acc, mb)
        else do {
          (v, mc) \<leftarrow> onNodes (GetValueLong src) mb;
          let t = acc + sint v;
          if t < - (2 ^ 63) \<or> 2 ^ 63 \<le> t then None
          else do { md \<leftarrow> sumLog rec own src mc; Some (t, md) } } });
     nxt \<leftarrow> GetNextSibling rec (world m1);
     sumFrom nxt sum1 m1 })"

declare sumFrom.simps [code]

definition Sum_Compute :: "caller \<Rightarrow> ptr \<Rightarrow> machine \<Rightarrow> machine option" where
  "Sum_Compute call inst m = do {
     port \<leftarrow> GetPropNode inst ''Input'' (world m);
     if port = 0 then Some m
     else do {
       first \<leftarrow> GetNextProp port (world m);
       (acc, m1) \<leftarrow> sumFrom first 0 m;
       SetOrDeliverProp call inst ''Output'' (Some (sprintf_d acc)) m1 } }"

definition Sum_OnEnable :: "ptr \<Rightarrow> int \<Rightarrow> ptr \<Rightarrow> gated module \<Rightarrow> (int \<times> gated module) option" where
  "Sum_OnEnable inst message data s = do {
     (p, s1) \<leftarrow> localOf inst s;
     if p = 0 \<or> message = msg_eof then Some (rtrn_handled, s1)
     else do {
       (val, s2) \<leftarrow> onMach (onNodes (GetValueInt data)) s1;
       s3 \<leftarrow> setLocal p (\<lambda>l. l\<lparr>enabled := (val \<noteq> 0)\<rparr>) s2;
       s4 \<leftarrow> doMach (mirror inst ''Enable'' (Some (flag (val \<noteq> 0)))) s3;
       Some (rtrn_handled, s4) } }"

text \<open>Switched off only by a struct that says so.\<close>

definition isOff :: "ptr \<Rightarrow> gated module \<Rightarrow> bool option" where
  "isOff p s = (if p = 0 then Some False else map_option (\<lambda>l. \<not> enabled l) (locals s p))"

definition Sum_OnSum :: "caller \<Rightarrow> ptr \<Rightarrow> int \<Rightarrow> ptr \<Rightarrow> gated module \<Rightarrow> (int \<times> gated module) option" where
  "Sum_OnSum call inst message data s = do {
     (p, s1) \<leftarrow> localOf inst s;
     if message = msg_eof \<or> data = 0 then Some (rtrn_handled, s1)
     else do {
       (val, s2) \<leftarrow> onMach (onNodes (GetValueInt data)) s1;
       if val = 0 then Some (rtrn_handled, s2)
       else do {
         off \<leftarrow> isOff p s2;
         if off then Some (rtrn_handled, s2)
         else do { s3 \<leftarrow> doMach (Sum_Compute call inst) s2; Some (rtrn_handled, s3) } } } }"

definition autoCompute :: "caller \<Rightarrow> ptr \<Rightarrow> gated module \<Rightarrow> (int \<times> gated module) option" where
  "autoCompute call inst s = do {
     (auto, s1) \<leftarrow> onMach (onNodes (GetPropInt inst ''Auto'')) s;
     s2 \<leftarrow> (if auto \<noteq> 0 then doMach (Sum_Compute call inst) s1 else Some s1);
     Some (rtrn_handled, s2) }"

definition Sum_OnInput :: "caller \<Rightarrow> ptr \<Rightarrow> int \<Rightarrow> ptr \<Rightarrow> gated module \<Rightarrow> (int \<times> gated module) option" where
  "Sum_OnInput call inst message data s = do {
     (p, s1) \<leftarrow> localOf inst s;
     port \<leftarrow> GetPropNode inst ''Input'' (world (mach s1));
     if message = msg_eof \<or> data = 0 then Some (rtrn_handled, s1)
     else do {
       off \<leftarrow> isOff p s1;
       if off then Some (rtrn_handled, s1)
       else do {
         s3 \<leftarrow> (if port = 0 then Some s1 else do {
                  (val, s2) \<leftarrow> onMach (onNodes (GetValueStr data)) s1;
                  doMach (doNodes (SetValueStr port (Some (orEmpty val)))) s2 });
         autoCompute call inst s3 } } }"

definition Sum_OnRewired :: "caller \<Rightarrow> ptr \<Rightarrow> int \<Rightarrow> ptr \<Rightarrow> gated module \<Rightarrow> (int \<times> gated module) option" where
  "Sum_OnRewired call inst message data s = do {
     (p, s1) \<leftarrow> localOf inst s;
     if message = msg_eof \<or> data = 0 then Some (rtrn_handled, s1)
     else do {
       off \<leftarrow> isOff p s1;
       if off then Some (rtrn_handled, s1) else autoCompute call inst s1 } }"

definition Sum_OnAuto :: "ptr \<Rightarrow> int \<Rightarrow> ptr \<Rightarrow> machine \<Rightarrow> (int \<times> machine) option" where
  "Sum_OnAuto inst message data m = (if message = msg_eof \<or> data = 0 then Some (rtrn_handled, m) else do {
     (val, m1) \<leftarrow> onNodes (GetValueInt data) m;
     m2 \<leftarrow> SetPropInt inst ''Auto'' (if val \<noteq> 0 then 1 else 0) m1;
     Some (rtrn_handled, m2) })"

definition Sum_InstanceEnd :: "ptr \<Rightarrow> gated module \<Rightarrow> (int \<times> gated module) option" where
  "Sum_InstanceEnd inst = onEnd inst"

definition SumPanel :: "(string \<Rightarrow> ptr) \<Rightarrow> widgetItem list" where
  "SumPanel addr = [
     item ''View'' ''Sum'' '''' 0 0 0 270 220 0 0,
     item ''Help'' ''objects/sum/README.md'' '''' 0 0 0 0 0 0 0,
     item ''Textbox'' ''Input'' '''' 0 20 30 200 24 LABEL_BOTTOM (addr ''Sum_OnInput''),
     item ''Textbox'' ''Output'' '''' 0 20 80 200 24 LABEL_BOTTOM 0,
     item ''Checkbox'' ''Enable'' ''1'' 0 181 14 9 9 LABEL_LEFT (addr ''Sum_OnEnable''),
     item ''Checkbox'' ''Auto'' ''0'' 0 125 14 9 9 LABEL_LEFT (addr ''Sum_OnAuto''),
     item ''MoButton'' ''Sum'' ''0'' 0 70 140 50 20 LABEL_NONE (addr ''Sum_OnSum'')]"

text \<open>The properties of a new instance: its state and struct, the subscription to its own \<open>Wiring\<close>, and what its icon
  stands for.\<close>

definition sumProps :: "(string \<Rightarrow> ptr) \<Rightarrow> ptr \<Rightarrow> ptr \<Rightarrow> machine \<Rightarrow> machine option" where
  "sumProps addr p inst m = do {
     m1 \<leftarrow> SetPropInt inst ''State'' 1 m;
     m2 \<leftarrow> SetPropLong inst ''local'' p m1;
     m3 \<leftarrow> SetPropInt inst ''Wiring'' 0 m2;
     m4 \<leftarrow> SetPropStr inst ''Rewired'' (Some ''0'') m3;
     rewired \<leftarrow> GetPropNode inst ''Rewired'' (world m4);
     m5 \<leftarrow> SetPropLong rewired ''OnMsg'' (addr ''Sum_OnRewired'') m4;
     (_, m6) \<leftarrow> Connect inst ''Wiring'' inst ''Rewired'' m5;
     setStrs inst [(''ReservedIn'', ''Input''), (''ReservedOut'', ''Output'')] m6 }"

definition Sum_InstanceStart :: "caller \<Rightarrow> core \<Rightarrow> (string \<Rightarrow> ptr) \<Rightarrow> ptr \<Rightarrow> ptr \<Rightarrow> ptr \<Rightarrow> gated module \<Rightarrow> (int \<times> gated module) option" where
  "Sum_InstanceStart call co addr p c data s = do {
     (_, s1) \<leftarrow> onMach (widget_instance call co ''Sum'' (SumPanel addr) (sumProps addr p) c data) (newLocal p \<lparr>enabled = True\<rparr> s);
     Some (rtrn_handled, s1) }"

definition Sum_ClassStart :: "(string \<Rightarrow> ptr) \<Rightarrow> ptr \<Rightarrow> machine \<Rightarrow> (ptr \<times> machine) option" where
  "Sum_ClassStart addr = widget_class ''Sum'' (SumPanel addr) addr [(''State'', PROP_LED, ''1'')]"

definition Sum_init :: "(string \<Rightarrow> ptr) \<Rightarrow> machine \<Rightarrow> (ptr \<times> machine) option" where
  "Sum_init addr = widget_library ''Sum'' ''f221f011-96a0-478b-a50c-190a20455b8c'' addr
     [(''view.object'', ''View''), (''checkbox.object'', ''Checkbox''), (''textbox.object'', ''Textbox''), (''mobutton.object'', ''MoButton'')]"

subsection \<open>LogicGate\<close>

record gatedata = gated +
  lastInput :: bool
  parity :: bool

definition LogicGate_Is :: "ptr \<Rightarrow> string \<Rightarrow> string \<Rightarrow> gatedata module \<Rightarrow> (bool \<times> gatedata module) option" where
  "LogicGate_Is inst name val s = do {
     (cur, s1) \<leftarrow> onMach (onNodes (GetPropStr inst name)) s;
     Some (cur = Some val, s1) }"

definition LogicGate_Compute :: "ptr \<Rightarrow> bool \<Rightarrow> gatedata module \<Rightarrow> (bool \<times> gatedata module) option" where
  "LogicGate_Compute inst input s = do {
     (p, s1) \<leftarrow> localOf inst s;
     (par, s2) \<leftarrow> LogicGate_Is inst ''GateMode'' ''Parity Gate'' s1;
     (r, s3) \<leftarrow> (if par then do {
        l \<leftarrow> locals s2 p;
        s3 \<leftarrow> setLocal p (\<lambda>l. l\<lparr>parity := \<not> parity l\<rparr>) s2;
        Some (\<not> parity l, s3) } else Some (input, s2));
     (inv, s4) \<leftarrow> onMach (onNodes (GetPropInt inst ''InvertOp'')) s3;
     Some (if inv \<noteq> 0 then \<not> r else r, s4) }"

definition LogicGate_Emit :: "ptr \<Rightarrow> gatedata module \<Rightarrow> gatedata module option" where
  "LogicGate_Emit inst s = do {
     (p, s1) \<leftarrow> localOf inst s;
     l \<leftarrow> locals s1 p;
     (r, s2) \<leftarrow> LogicGate_Compute inst (lastInput l) s1;
     (changes, s3) \<leftarrow> onMach (onNodes (GetPropInt inst ''ChangesOnly'')) s2;
     (out, s4) \<leftarrow> (if changes \<noteq> 0 then onMach (onNodes (GetPropInt inst ''Out'')) s3 else Some (0, s3));
     if changes \<noteq> 0 \<and> out = of_bool r then Some s4
     else doMach (SetPropStr inst ''Out'' (Some (flag r))) s4 }"

definition LogicGate_OnIn :: "ptr \<Rightarrow> int \<Rightarrow> ptr \<Rightarrow> gatedata module \<Rightarrow> (int \<times> gatedata module) option" where
  "LogicGate_OnIn inst message data s = do {
     (p, s1) \<leftarrow> localOf inst s;
     if p = 0 \<or> message = msg_eof then Some (rtrn_handled, s1)
     else do {
       (val, s2) \<leftarrow> onMach (onNodes (GetValueInt data)) s1;
       s3 \<leftarrow> setLocal p (\<lambda>l. l\<lparr>lastInput := (val \<noteq> 0)\<rparr>) s2;
       l \<leftarrow> locals s3 p;
       if \<not> enabled l then Some (rtrn_handled, s3)
       else do {
         (auto, s4) \<leftarrow> onMach (onNodes (GetPropInt inst ''AutoInterpret'')) s3;
         if auto = 0 then Some (rtrn_handled, s4)
         else do { s5 \<leftarrow> LogicGate_Emit inst s4; Some (rtrn_handled, s5) } } } }"

definition LogicGate_OnInterpret :: "ptr \<Rightarrow> int \<Rightarrow> ptr \<Rightarrow> gatedata module \<Rightarrow> (int \<times> gatedata module) option" where
  "LogicGate_OnInterpret inst message data s = do {
     (p, s1) \<leftarrow> localOf inst s;
     if message = msg_eof then Some (rtrn_handled, s1)
     else do {
       (val, s2) \<leftarrow> onMach (onNodes (GetValueInt data)) s1;
       if val = 0 \<or> p = 0 then Some (rtrn_handled, s2)
       else do {
         l \<leftarrow> locals s2 p;
         if \<not> enabled l then Some (rtrn_handled, s2)
         else do { s3 \<leftarrow> LogicGate_Emit inst s2; Some (rtrn_handled, s3) } } } }"

definition LogicGate_OnEnable :: "ptr \<Rightarrow> int \<Rightarrow> ptr \<Rightarrow> gatedata module \<Rightarrow> (int \<times> gatedata module) option" where
  "LogicGate_OnEnable inst = onEnable Some inst"

definition LogicGate_Activate :: "ptr \<Rightarrow> gatedata module \<Rightarrow> (int \<times> gatedata module) option" where
  "LogicGate_Activate inst = onActivate Some inst"

definition LogicGate_InstanceEnd :: "ptr \<Rightarrow> gatedata module \<Rightarrow> (int \<times> gatedata module) option" where
  "LogicGate_InstanceEnd inst = onEnd inst"

definition LogicGatePanel :: "(string \<Rightarrow> ptr) \<Rightarrow> widgetItem list" where
  "LogicGatePanel addr = [
     item ''View'' ''LogicGate'' '''' 0 0 0 300 250 0 0,
     item ''Help'' ''objects/logicgate/README.md'' '''' 0 0 0 0 0 0 0,
     item ''Checkbox'' ''Enable'' ''1'' 0 148 13 8 8 LABEL_LEFT (addr ''LogicGate_OnEnable''),
     item ''Dropdown'' ''GateMode'' ''OR Gate'' 0 15 57 178 15 LABEL_NONE 0,
     item ''Checkbox'' ''InvertOp'' ''0'' 0 16 89 8 8 LABEL_NONE 0,
     item ''Checkbox'' ''ChangesOnly'' ''1'' 0 108 89 8 8 LABEL_NONE 0,
     item ''Checkbox'' ''AutoInterpret'' ''1'' 0 108 119 8 8 LABEL_NONE 0,
     item ''MoButton'' ''Interpret'' ''0'' 0 108 141 60 20 LABEL_NONE (addr ''LogicGate_OnInterpret''),
     item ''LED'' ''Out'' ''0'' 0 14 118 12 12 LABEL_NONE 0]"

definition gateProps :: "(string \<Rightarrow> ptr) \<Rightarrow> ptr \<Rightarrow> ptr \<Rightarrow> machine \<Rightarrow> machine option" where
  "gateProps addr p inst m = do {
     m1 \<leftarrow> Widget_Port inst ''In'' ''0'' (addr ''LogicGate_OnIn'') m;
     m2 \<leftarrow> SetPropStr inst ''GateModeList'' (Some ''OR Gate,AND Gate,XOR Gate,Parity Gate'') m1;
     startProps p (addr ''LogicGate_Activate'') inst m2 }"

definition LogicGate_InstanceStart :: "caller \<Rightarrow> core \<Rightarrow> (string \<Rightarrow> ptr) \<Rightarrow> ptr \<Rightarrow> ptr \<Rightarrow> ptr \<Rightarrow> gatedata module \<Rightarrow> (int \<times> gatedata module) option" where
  "LogicGate_InstanceStart call co addr p c data s = do {
     (_, s1) \<leftarrow> onMach (widget_instance call co ''LogicGate'' (LogicGatePanel addr) (gateProps addr p) c data)
       (newLocal p \<lparr>enabled = True, lastInput = False, parity = False\<rparr> s);
     Some (rtrn_handled, s1) }"

definition LogicGate_ClassStart :: "(string \<Rightarrow> ptr) \<Rightarrow> ptr \<Rightarrow> machine \<Rightarrow> (ptr \<times> machine) option" where
  "LogicGate_ClassStart addr = widget_class ''LogicGate'' (LogicGatePanel addr) addr
     [(''In'', PROP_NULL, ''0''), (''GateModeList'', PROP_NULL, ''OR Gate,AND Gate,XOR Gate,Parity Gate''), (''State'', PROP_LED, ''1'')]"

definition LogicGate_init :: "(string \<Rightarrow> ptr) \<Rightarrow> machine \<Rightarrow> (ptr \<times> machine) option" where
  "LogicGate_init addr = widget_library ''LogicGate'' ''b6027f4a-3c81-49e5-a2d0-71f4c8e5309b'' addr
     [(''checkbox.object'', ''Checkbox''), (''dropdown.object'', ''Dropdown''), (''led.object'', ''LED''),
      (''mobutton.object'', ''MoButton''), (''view.object'', ''View'')]"

end
