(* ===== verification/Gates_Sum.thy ===== *)
theory Gates_Sum
  imports Gates Wiring_Records
begin

text \<open>
  Proofs on the sum: it is the sum over the wires that end in \<open>Input\<close>.
\<close>

text \<open>The records that count: subscriptions whose source still has the property they name.\<close>

definition counting :: "fabric \<Rightarrow> (ptr \<Rightarrow> ptr) \<Rightarrow> ptr list \<Rightarrow> ptr list" where
  "counting w src rs = filter (\<lambda>r. named w r ''Subscription'' \<and> src r \<noteq> 0) rs"

text \<open>What is read for a subscription: its source's instance, port and property, and the number there.\<close>

definition source_reads :: "fabric \<Rightarrow> (ptr \<Rightarrow> ptr) \<Rightarrow> (ptr \<Rightarrow> 64 word) \<Rightarrow> ptr \<Rightarrow> bool" where
  "source_reads w src val r \<longleftrightarrow> (\<exists>i port nm. i \<noteq> 0 \<and> GetPropLong r ''Instance'' w = Some (i, w) \<and> GetPropStr r ''Port'' w = Some (Some port, w)
     \<and> GetPropNode i port w = Some (src r) \<and> GetPropStr i ''Name'' w = Some (nm, w)
     \<and> (src r \<noteq> 0 \<longrightarrow> GetValueLong (src r) w = Some (val r, w)))"


text \<open>Widget 8, whose \<open>Input\<close> listens to the \<open>Text\<close> of instance 5.\<close>

definition till_nodes :: "ptr \<Rightarrow> node option" where
  "till_nodes = [5 \<mapsto> nd ''Object'' (stored_int 0) 10 0, 10 \<mapsto> nd ''Text'' (stored_long 42) 0 0,
     70 \<mapsto> nd ''Subscription'' (stored_int 0) 71 0, 71 \<mapsto> nd ''Port'' (stored_str (Some ''Text'')) 0 72,
     72 \<mapsto> nd ''Instance'' (stored_long 5) 0 0]"

definition till :: machine where
  "till = wired\<lparr>world := (world wired)\<lparr>nodes := till_nodes\<rparr>\<rparr>"

lemma till_sel [simp]:
  "nodes (world till) = till_nodes" "till_nodes 5 = Some (nd ''Object'' (stored_int 0) 10 0)"
  "till_nodes 10 = Some (nd ''Text'' (stored_long 42) 0 0)" "till_nodes 70 = Some (nd ''Subscription'' (stored_int 0) 71 0)"
  "till_nodes 71 = Some (nd ''Port'' (stored_str (Some ''Text'')) 0 72)" "till_nodes 72 = Some (nd ''Instance'' (stored_long 5) 0 0)"
  by (simp_all add: till_def till_nodes_def)

lemma till_lists: "proplist (world till) 5 [10]" "proplist (world till) 70 [71, 72]"
  by (simp_all add: proplist_def)


end
