(* ===== verification/Panels_Facts.thy ===== *)
theory Panels_Facts
  imports Panels CharMap_Presets "HOL-Library.List_Lexorder" "HOL-Library.Multiset"
begin

text \<open>
  Proofs on panels: the order of the palette is its own, and every entry of the preset menu is a preset.
\<close>

subsection \<open>The palette\<close>

lemma strcasecmp_le: "strcasecmp a b \<le> 0 \<longleftrightarrow> map lower a \<le> map lower b"
  by (induction a b rule: strcasecmp.induct) auto

definition caseless :: "ptr \<times> string \<Rightarrow> nat list" where
  "caseless x = map lower (snd x)"

lemma sortByName_sort: "sortByName xs = sort_key caseless xs"
proof -
  have "insertSorted x ys = insort_key caseless x ys" for x ys
    by (induction ys) (simp_all add: PaletteNameCmp_def strcasecmp_le caseless_def)
  then have "insertSorted = insort_key caseless" by (intro ext)
  then show ?thesis by (simp add: sortByName_def sort_key_def)
qed

lemma map_sort_key: "map f (sort_key f xs) = sort (map f xs)"
  by (rule properties_for_sort [symmetric]) simp_all

text \<open>The palette comes out in the order of the names whatever the order of the walk over the classes was.\<close>

theorem palette_order_fixed:
  assumes "mset xs = mset ys" and "inj_on caseless (set xs)"
  shows "sortByName xs = sortByName ys \<and> sorted (map caseless (sortByName xs))"
proof -
  have s: "set xs = set ys" using assms(1) by (rule mset_eq_setD)
  have "mset (map caseless xs) = mset (map caseless ys)" using assms(1) by simp
  then have "sort (map caseless xs) = sort (map caseless ys)" by (metis properties_for_sort mset_sort sorted_sort)
  then have "map caseless (sort_key caseless xs) = map caseless (sort_key caseless ys)" by (simp add: map_sort_key)
  then have "sort_key caseless xs = sort_key caseless ys"
    by (rule map_inj_on) (use assms(2) s in simp)
  then show ?thesis by (simp add: sortByName_sort)
qed

theorem palette_order_fixed_witness:
  "sortByName [(5, ''Sum''), (6, ''LED''), (7, ''button'')] = sortByName [(7, ''button''), (5, ''Sum''), (6, ''LED'')]
    \<and> sorted (map caseless (sortByName [(5, ''Sum''), (6, ''LED''), (7, ''button'')]))"
  by (rule palette_order_fixed) (simp_all add: caseless_def lower_def add_mset_commute)

subsection \<open>The preset menu\<close>

text \<open>The entries of a comma list.\<close>

fun entries :: "string \<Rightarrow> string \<Rightarrow> string list" where
  "entries [] word = [word]"
| "entries (c # cs) word = (if c = CHR '','' then word # entries cs [] else entries cs (word @ [c]))"

lemma preset_entries: "entries PresetList [] = [''default'', ''Upper Case'', ''Lower Case'', ''Strip CR (Win->Unix)'', ''CR->LF (Mac->Unix)'',
    ''LF->CR (Unix->Mac)'', ''Backslash->Slash'', ''Slash->Backslash'', ''ROT13'', ''Comma->Tab (CSV->TSV)'', ''Tab->Comma (TSV->CSV)'',
    ''Swap Quotes'', ''Swap Brackets'', ''Strip Tabs'', ''ASCII to EBCDIC'', ''EBCDIC to ASCII'']"
  by (simp add: PresetList_def)

lemma strs_names: "map fst strs = [''Strip CR (Win->Unix)'', ''CR->LF (Mac->Unix)'', ''LF->CR (Unix->Mac)'', ''Backslash->Slash'', ''Slash->Backslash'',
    ''Comma->Tab (CSV->TSV)'', ''Tab->Comma (TSV->CSV)'', ''Strip Tabs'', ''Swap Quotes'', ''Swap Brackets'']"
  by (simp add: strs_def)

lemma named_preset: "name \<in> set (map fst strs) \<Longrightarrow> \<exists>t. map_of strs name = Some t"
  using map_of_eq_None_iff [of strs name] by (cases "map_of strs name") simp_all

lemma named_not_empty: "name \<in> set (map fst strs) \<Longrightarrow> name \<noteq> []"
proof -
  have "list_all (\<lambda>n. n \<noteq> []) (map fst strs)" by (simp add: strs_def)
  then show "name \<in> set (map fst strs) \<Longrightarrow> name \<noteq> []" by (auto simp: list_all_iff)
qed

lemma entries_known: "list_all (\<lambda>n. n = ''default'' \<or> n \<in> set (map fst strs) \<or> n = ''Upper Case'' \<or> n = ''Lower Case'' \<or> n = ''ROT13''
    \<or> n = ''ASCII to EBCDIC'' \<or> n = ''EBCDIC to ASCII'') (entries PresetList [])"
  unfolding preset_entries strs_names by simp

text \<open>Every entry of the preset menu but the first, \<open>default\<close>, is a preset of the widget.\<close>

theorem presets_offered_exist:
  assumes "\<forall>n. can_alloc mm n" and "name \<in> set (entries PresetList [])" and "name \<noteq> ''default''"
  shows "\<exists>t. CharMap_PresetText mm (Some name) = Some (Some t)"
proof -
  consider "name \<in> set (map fst strs)" | "name = ''Upper Case'' \<or> name = ''Lower Case''" | "name = ''ROT13''"
    | "name = ''ASCII to EBCDIC'' \<or> name = ''EBCDIC to ASCII''"
    using entries_known assms(2,3) unfolding list_all_iff by metis
  then show ?thesis
  proof cases
    case 1
    then obtain t where "map_of strs name = Some t" using named_preset by blast
    moreover have "name \<noteq> []" using 1 by (rule named_not_empty)
    ultimately show ?thesis using assms(1) by (simp add: CharMap_PresetText_def)
  next
    case 2
    have "map_of strs ''Upper Case'' = None" "map_of strs ''Lower Case'' = None" by (simp_all add: strs_def)
    moreover have "\<exists>t. printLines (26 * 5 + 1) (map (\<lambda>i. charLine (a + i) (b + i)) [0..<26]) [] = Some t" for a b
      by (subst printLines_fit) (simp_all add: length_concat charLine_def comp_def sum_list_triv)
    ultimately show ?thesis using 2 assms(1)
      by (elim disjE) (simp_all add: CharMap_PresetText_def Let_def del: printLines.simps upt_conv_Cons)
  next
    case 3
    then show ?thesis using ROT13_roundtrip [OF assms(1)] by blast
  next
    case 4
    then show ?thesis using EBCDIC_preset [of name _ mm] assms(1) by blast
  qed
qed

theorem presets_offered_exist_witness: "\<exists>t. CharMap_PresetText good_mem (Some ''Swap Quotes'') = Some (Some t)"
proof -
  have "''Swap Quotes'' \<in> set (entries PresetList [])" by (simp add: preset_entries)
  then show ?thesis using presets_offered_exist [of good_mem "''Swap Quotes''"] by (simp add: good_mem_def)
qed

end
