(* ===== verification/Flow.thy ===== *)
theory Flow
  imports Object_Modules NodeText Buff
begin

text \<open>
  \<open>src/objects/flow/flow.c\<close>: the building of instances recorded as a list of instructions, replayed, and kept as text.
  The instructions are the children of the flow.  Files are arguments: \<open>readFile\<close> gives the bytes of a file that can be
  opened, \<open>writable\<close> whether one can be written; \<open>SaveFlow\<close> returns what it writes.
\<close>

subsection \<open>Recording\<close>

definition NewFlow :: "string \<Rightarrow> machine \<Rightarrow> (ptr \<times> machine) option" where
  "NewFlow = namedNode"

definition flowAlias :: "string \<Rightarrow> int \<Rightarrow> string" where
  "flowAlias classname count = take 79 (classname @ sprintf_d count)"

text \<open>An instruction at the end of the flow.\<close>

definition recordInstr :: "ptr \<Rightarrow> string \<Rightarrow> (string \<times> string) list \<Rightarrow> machine \<Rightarrow> machine option" where
  "recordInstr flow name args m = do {
     (instr, m1) \<leftarrow> namedNode name m;
     m2 \<leftarrow> setStrs instr args m1;
     doNodes (AppendChild flow instr) m2 }"

definition FlowCreateObject :: "caller \<Rightarrow> ptr \<Rightarrow> ptr \<Rightarrow> string \<Rightarrow> machine \<Rightarrow> (ptr \<times> machine) option" where
  "FlowCreateObject call flow container classname m = do {
     (inst, m1) \<leftarrow> CreateObject call container classname [] m;
     if inst = 0 then Some (0, m1)
     else do {
       (n, m2) \<leftarrow> onNodes (GetPropInt flow classname) m1;
       let count = sint n + 1;
       if 2 ^ 31 \<le> count then None
       else do {
         m3 \<leftarrow> SetPropInt flow classname (word_of_int count) m2;
         let alias = flowAlias classname count;
         m4 \<leftarrow> SetPropStr inst ''FlowAlias'' (Some alias) m3;
         m5 \<leftarrow> recordInstr flow ''Create'' [(''Class'', classname), (''As'', alias)] m4;
         Some (inst, m5) } } }"

definition FlowSetProp :: "ptr \<Rightarrow> ptr \<Rightarrow> string \<Rightarrow> string \<Rightarrow> machine \<Rightarrow> machine option" where
  "FlowSetProp flow inst name val m = (if inst = 0 then Some m else do {
     m1 \<leftarrow> SetPropStr inst name (Some val) m;
     (alias, m2) \<leftarrow> onNodes (GetPropStr inst ''FlowAlias'') m1;
     (case alias of Some a \<Rightarrow> if flow = 0 then Some m2
          else recordInstr flow ''Set'' [(''Instance'', a), (''Prop'', name), (''Value'', val)] m2
      | None \<Rightarrow> Some m2) })"

definition FlowConnect :: "ptr \<Rightarrow> ptr \<Rightarrow> string \<Rightarrow> ptr \<Rightarrow> string \<Rightarrow> machine \<Rightarrow> (int \<times> machine) option" where
  "FlowConnect flow fromInst fromPort toInst toPort m = do {
     (ok, m1) \<leftarrow> Connect fromInst fromPort toInst toPort m;
     if ok = 0 \<or> flow = 0 then Some (ok, m1)
     else do {
       (fromAlias, m2) \<leftarrow> onNodes (GetPropStr fromInst ''FlowAlias'') m1;
       (toAlias, m3) \<leftarrow> onNodes (GetPropStr toInst ''FlowAlias'') m2;
       (case (fromAlias, toAlias) of
          (Some a, Some b) \<Rightarrow> do {
            m4 \<leftarrow> recordInstr flow ''Connect'' [(''FromInstance'', a), (''FromPort'', fromPort), (''ToInstance'', b), (''ToPort'', toPort)] m3;
            Some (ok, m4) }
        | _ \<Rightarrow> Some (ok, m3)) } }"

definition FlowActivateInstance :: "caller \<Rightarrow> ptr \<Rightarrow> ptr \<Rightarrow> machine \<Rightarrow> (int \<times> machine) option" where
  "FlowActivateInstance call flow inst m = do {
     (rc, m1) \<leftarrow> ActivateInstance call inst m;
     (alias, m2) \<leftarrow> (if inst \<noteq> 0 then onNodes (GetPropStr inst ''FlowAlias'') m1 else Some (None, m1));
     (case alias of Some a \<Rightarrow> if flow = 0 then Some (rc, m2)
          else do { m3 \<leftarrow> recordInstr flow ''Activate'' [(''Instance'', a)] m2; Some (rc, m3) }
      | None \<Rightarrow> Some (rc, m2)) }"

subsection \<open>Replaying\<close>

text \<open>
  The instance of a name; a missing name finds nothing.  A missing class name is no class, as an empty one
  (the message about it is not modelled); a missing property name is a write that does nothing.
\<close>

definition aliased :: "ptr \<Rightarrow> string option \<Rightarrow> machine \<Rightarrow> (ptr \<times> machine) option" where
  "aliased table name m = (case name of Some a \<Rightarrow> onNodes (GetPropLong table a) m | None \<Rightarrow> Some (0, m))"

definition runCreate :: "caller \<Rightarrow> ptr \<Rightarrow> ptr \<Rightarrow> ptr \<Rightarrow> machine \<Rightarrow> machine option" where
  "runCreate call container table instr m = do {
     (classname, m1) \<leftarrow> onNodes (GetPropStr instr ''Class'') m;
     (alias, m2) \<leftarrow> onNodes (GetPropStr instr ''As'') m1;
     (inst, m3) \<leftarrow> CreateObject call container (orEmpty classname) [] m2;
     if inst = 0 then Some m3
     else do {
       m4 \<leftarrow> SetPropStr inst ''FlowAlias'' alias m3;
       (case alias of Some a \<Rightarrow> SetPropLong table a inst m4 | None \<Rightarrow> Some m4) } }"

definition runSet :: "ptr \<Rightarrow> ptr \<Rightarrow> machine \<Rightarrow> machine option" where
  "runSet table instr m = do {
     (alias, m1) \<leftarrow> onNodes (GetPropStr instr ''Instance'') m;
     (inst, m2) \<leftarrow> aliased table alias m1;
     (name, m3) \<leftarrow> onNodes (GetPropStr instr ''Prop'') m2;
     (val, m4) \<leftarrow> onNodes (GetPropStr instr ''Value'') m3;
     (case name of Some nm \<Rightarrow> if inst = 0 then Some m4 else SetPropStr inst nm val m4 | None \<Rightarrow> Some m4) }"

definition runConnect :: "ptr \<Rightarrow> ptr \<Rightarrow> machine \<Rightarrow> machine option" where
  "runConnect table instr m = do {
     (fromAlias, m1) \<leftarrow> onNodes (GetPropStr instr ''FromInstance'') m;
     (fromPort, m2) \<leftarrow> onNodes (GetPropStr instr ''FromPort'') m1;
     (toAlias, m3) \<leftarrow> onNodes (GetPropStr instr ''ToInstance'') m2;
     (toPort, m4) \<leftarrow> onNodes (GetPropStr instr ''ToPort'') m3;
     (fromInst, m5) \<leftarrow> aliased table fromAlias m4;
     (toInst, m6) \<leftarrow> aliased table toAlias m5;
     if fromInst = 0 \<or> toInst = 0 then Some m6
     else do { (_, m7) \<leftarrow> Connect fromInst (orEmpty fromPort) toInst (orEmpty toPort) m6; Some m7 } }"

definition runActivate :: "caller \<Rightarrow> ptr \<Rightarrow> ptr \<Rightarrow> machine \<Rightarrow> machine option" where
  "runActivate call table instr m = do {
     (alias, m1) \<leftarrow> onNodes (GetPropStr instr ''Instance'') m;
     (inst, m2) \<leftarrow> aliased table alias m1;
     if inst = 0 then Some m2 else do { (_, m3) \<leftarrow> ActivateInstance call inst m2; Some m3 } }"

text \<open>One instruction; one of another name does nothing.\<close>

definition runStep :: "caller \<Rightarrow> ptr \<Rightarrow> ptr \<Rightarrow> ptr \<Rightarrow> machine \<Rightarrow> machine option" where
  "runStep call container table instr m = do {
     name \<leftarrow> GetNameStr instr (world m);
     if name = Some ''Create'' then runCreate call container table instr m
     else if name = Some ''Set'' then runSet table instr m
     else if name = Some ''Connect'' then runConnect table instr m
     else if name = Some ''Activate'' then runActivate call table instr m
     else Some m }"

partial_function (option) runSteps :: "caller \<Rightarrow> ptr \<Rightarrow> ptr \<Rightarrow> ptr \<Rightarrow> machine \<Rightarrow> machine option" where
  "runSteps call container table instr m = (if instr = 0 then Some m else do {
     m1 \<leftarrow> runStep call container table instr m;
     nxt \<leftarrow> GetNextSibling instr (world m1);
     runSteps call container table nxt m1 })"

declare runSteps.simps [code]

definition RunFlow :: "caller \<Rightarrow> ptr \<Rightarrow> ptr \<Rightarrow> machine \<Rightarrow> (ptr \<times> machine) option" where
  "RunFlow call container flow m = (if flow = 0 then Some (0, m) else
     let (table, m1) = newNode INTEGER m in do {
       first \<leftarrow> GetChild flow (world m1);
       m2 \<leftarrow> runSteps call container table first m1;
       m3 \<leftarrow> doNodes (DelNode table) m2;
       Some (flow, m3) })"

subsection \<open>As text\<close>

definition SaveFlow :: "(string \<Rightarrow> bool) \<Rightarrow> ptr \<Rightarrow> string option \<Rightarrow> machine \<Rightarrow> ((int \<times> (string \<times> string) option) \<times> machine) option" where
  "SaveFlow writable flow filename m = (case filename of None \<Rightarrow> Some ((0, None), m)
     | Some f \<Rightarrow> if flow = 0 then Some ((0, None), m) else do {
         (txt, m1) \<leftarrow> onNodes (NodeToText flow) m;
         (case txt of None \<Rightarrow> Some ((0, None), m1)
          | Some t \<Rightarrow> Some (if writable f then (1, Some (f, t)) else (0, None), m1)) })"

definition LoadFlow :: "caller \<Rightarrow> mem \<Rightarrow> (string \<Rightarrow> string option) \<Rightarrow> ptr \<Rightarrow> string \<Rightarrow> machine \<Rightarrow> (ptr \<times> machine) option" where
  "LoadFlow call mm readFile container filename m = (case readFile filename of None \<Rightarrow> Some (0, m)
     | Some bytes \<Rightarrow> if \<not> can_alloc mm (length bytes + 1) then Some (0, m) else do {
         (flow, m1) \<leftarrow> onNodes (TextToNode (Some (cstr bytes))) m;
         if flow = 0 then Some (0, m1)
         else do { (_, m2) \<leftarrow> RunFlow call container flow m1; Some (flow, m2) } })"

subsection \<open>The class\<close>

definition Flow_ClassStart :: "(string \<Rightarrow> ptr) \<Rightarrow> ptr \<Rightarrow> machine \<Rightarrow> (ptr \<times> machine) option" where
  "Flow_ClassStart addr library m = do {
     (c, m1) \<leftarrow> namedNode ''Flow'' m;
     (self, m2) \<leftarrow> RegisterClass library c m1;
     m3 \<leftarrow> SetClassVersion self (Some ''1'') (Some ''0'') m2;
     m4 \<leftarrow> SetClassParent self ''Object'' m3;
     m5 \<leftarrow> setLongs self (map (\<lambda>n. (n, addr n)) [''New'', ''Create'', ''Set'', ''Wire'', ''Activate'', ''Run'', ''Save'', ''Load'']) m4;
     Some (self, m5) }"

definition Flow_init :: "ptr \<Rightarrow> ptr \<Rightarrow> ptr \<Rightarrow> machine \<Rightarrow> (ptr \<times> machine) option" where
  "Flow_init classStart classEnd classMsg = module_init ''Flow'' ''bc5b9e3b-40ff-4b0d-8bd2-af3308d348bd'' classStart classEnd classMsg
     [(CORE_LIBRARY_FILE, ''Object'')]"

end
