(* ===== verification/Flow_Facts.thy ===== *)
theory Flow_Facts
  imports Flow
begin

text \<open>
  The names under which a flow records its instances: when they tell the instances apart, and when not.
\<close>

lemma split_at_digits:
  assumes "\<forall>x \<in> set xs. isdigit x" and "\<forall>x \<in> set ys. isdigit x" and "a \<noteq> []" and "b \<noteq> []"
    and "\<not> isdigit (last a)" and "\<not> isdigit (last b)" and "a @ xs = b @ ys"
  shows "a = b \<and> xs = ys"
proof -
  have stop: "takeWhile isdigit (rev (c @ zs)) = rev zs" if "\<forall>z \<in> set zs. isdigit z" "c \<noteq> []" "\<not> isdigit (last c)" for c zs
    using that by (cases c rule: rev_cases) (simp_all add: takeWhile_append)
  have "rev xs = rev ys" using stop [of xs a] stop [of ys b] assms by simp
  then show ?thesis using assms(7) by simp
qed

lemma show_base_inj:
  assumes "show_base 10 n = show_base 10 k" and "n < 2 ^ 31" and "k < 2 ^ 31"
  shows "n = k"
proof -
  have "(word_of_nat n :: 32 word) = word_of_nat k" using decLoop_show_base [of n] decLoop_show_base [of k] assms(1) by metis
  then have "unat (word_of_nat n :: 32 word) = unat (word_of_nat k :: 32 word)" by simp
  then show ?thesis using assms(2,3) by (simp add: unat_of_nat)
qed


lemma flowAlias_whole:
  assumes "length c \<le> 69" and "0 \<le> n" and "n < 2 ^ 31"
  shows "flowAlias c n = c @ show_base 10 (nat n)"
proof -
  have "length (show_base 10 (nat n)) \<le> 10" by (rule length_show_base_le) (use assms in auto)
  then show ?thesis using assms by (simp add: flowAlias_def sprintf_d_def)
qed

text \<open>C37. Two names a flow hands out are equal only for the same class and the same count, when the names of the classes do
  not end in a digit and are at most 69 bytes long.\<close>

theorem flowAlias_identifies:
  assumes "c \<noteq> []" and "d \<noteq> []" and "\<not> isdigit (last c)" and "\<not> isdigit (last d)" and "length c \<le> 69" and "length d \<le> 69"
    and "0 \<le> n" and "n < 2 ^ 31" and "0 \<le> k" and "k < 2 ^ 31"
  shows "flowAlias c n = flowAlias d k \<longleftrightarrow> c = d \<and> n = k"
proof
  assume eq: "flowAlias c n = flowAlias d k"
  have "c = d \<and> show_base 10 (nat n) = show_base 10 (nat k)"
    by (rule split_at_digits) (use eq assms show_base_digits flowAlias_whole [of c n] flowAlias_whole [of d k] in auto)
  moreover have "nat n < 2 ^ 31" "nat k < 2 ^ 31" using assms by (simp_all add: nat_less_iff)
  ultimately show "c = d \<and> n = k" using show_base_inj assms by (metis eq_nat_nat_iff)
qed simp

theorem flowAlias_identifies_witness: "flowAlias ''LED'' 12 \<noteq> flowAlias ''Sum'' 12"
  using flowAlias_identifies [of "''LED''" "''Sum''" 12 12] by (simp add: isdigit_def)

text \<open>A class whose name ends in a digit takes the name of another's instance.\<close>

theorem flowAlias_collides: "flowAlias ''A'' 11 = flowAlias ''A1'' 1"
  by code_simp

end
