(* ===== verification/Sched_Rearm.thy ===== *)
theory Sched_Rearm
  imports Sched_Lists
begin

text \<open>
  What the scheduler of \<open>src/sched.c\<close> does with a task that is armed while it is still waiting: \<open>AddTaskDelay\<close> does not
  take it out of its list first.  The widgets of \<open>Timed\<close> rely on this in one place and avoid it in another.
\<close>

text \<open>The walk on a task that is its own successor and due does not end.\<close>

lemma walk_ring:
  assumes "tasks st p = Some t" and "tnext t = Some p" and "due_le t s u"
  shows "walk s u (Some p) st = None"
proof -
  have "walk s u c st = Some r \<Longrightarrow> c = Some p \<Longrightarrow> tasks st p = Some t \<Longrightarrow> due_le t s u \<Longrightarrow> False" for c r
  proof (rule walk.raw_induct [where P = "\<lambda>s u c st r. c = Some p \<longrightarrow> tasks st p = Some t \<longrightarrow> due_le t s u \<longrightarrow> False", rule_format, rotated])
    show "walk s u c st = Some r \<Longrightarrow> walk s u c st = Some r" .
  qed (use assms(2) in \<open>auto simp: bind_eq_Some_conv\<close>)
  then show ?thesis using assms by (cases "walk s u (Some p) st") auto
qed

text \<open>One time not before another.\<close>

definition not_before :: "u64 \<times> u64 \<Rightarrow> u64 \<times> u64 \<Rightarrow> bool" where
  "not_before d e \<longleftrightarrow> fst d < fst e \<or> fst d = fst e \<and> snd d \<le> snd e"

lemma due_le_armed: "due_le (armed d f x t) s u \<longleftrightarrow> not_before d (s, u)"
  by (simp add: due_le_def not_before_def armed_def)

lemma due_le_links [simp]: "due_le (t\<lparr>tnext := a\<rparr>) s u = due_le t s u" "due_le (t\<lparr>tprev := a\<rparr>) s u = due_le t s u"
  by (simp_all add: due_le_def)

text \<open>C38. A task that waits alone in its list and is armed again becomes its own successor: from then on arming any other
  task of the list that is due no earlier does not return.\<close>

theorem rearming_a_waiting_task_hangs:
  fixes st :: "('f, 'd, 'w) store"
  assumes "lists st l = Some L" and "lhead L = Some p" and "ltail L = Some p" and "insertHint L = None \<or> insertHint L = Some p"
    and "tasks st p = Some t" and "owner t = l"
  shows "\<exists>st'. AddTaskDelay p ds du f d st = Some st' \<and>
    (\<forall>(st2 :: ('f, 'd, 'w) store) q tq a b g e. tasks st2 = tasks st' \<longrightarrow> lists st2 = lists st' \<longrightarrow> q \<noteq> p \<longrightarrow> tasks st2 q = Some tq \<longrightarrow> owner tq = l \<longrightarrow>
       not_before (dueTime (clock_s st) (clock_us st) ds du) (dueTime (clock_s st2) (clock_us st2) a b) \<longrightarrow>
       AddTaskDelay q a b g e st2 = None)"
proof -
  define due where "due = dueTime (clock_s st) (clock_us st) ds du"
  define t1 where "t1 = (armed due f d t)\<lparr>tnext := Some p, tprev := Some p\<rparr>"
  define st' where "st' = st\<lparr>tasks := (tasks st)(p \<mapsto> t1), lists := (lists st)(l \<mapsto> L\<lparr>ltail := Some p, insertHint := Some p\<rparr>)\<rparr>"
  have self: "due_le (armed due f d t) (fst due) (snd due)" by (simp add: due_le_armed not_before_def)
  have w: "walk (fst due) (snd due) (Some p) (st\<lparr>tasks := (tasks st)(p \<mapsto> armed due f d t)\<rparr>) = Some None"
    using self by (subst walk.simps) (subst walk.simps, simp add: armed_def)
  have "startPoint L p (fst due) (snd due) (st\<lparr>tasks := (tasks st)(p \<mapsto> armed due f d t)\<rparr>) = Some p"
    using assms(4) self by (auto simp: startPoint_def)
  then have run: "AddTaskDelay p ds du f d st = Some st'"
    using assms w by (simp add: AddTaskDelay_def due_def [symmetric] setT_def setL_def splice_def Let_def st'_def t1_def armed_def)
  have hang: "AddTaskDelay q a b g e st2 = None"
    if "tasks st2 = tasks st'" "lists st2 = lists st'" "q \<noteq> p" "tasks st2 q = Some tq" "owner tq = l"
      "not_before due (dueTime (clock_s st2) (clock_us st2) a b)" for st2 :: "('f, 'd, 'w) store" and q tq a b g e
  proof -
    let ?e = "dueTime (clock_s st2) (clock_us st2) a b"
    let ?s = "st2\<lparr>tasks := (tasks st2)(q \<mapsto> armed ?e g e tq)\<rparr>"
    have p: "tasks ?s p = Some t1" using that by (simp add: st'_def)
    have le: "due_le t1 (fst ?e) (snd ?e)" using that(6) by (simp add: t1_def due_le_armed)
    then have "walk (fst ?e) (snd ?e) (Some p) ?s = None" using walk_ring [OF p] by (simp add: t1_def)
    moreover have "startPoint (L\<lparr>ltail := Some p, insertHint := Some p\<rparr>) p (fst ?e) (snd ?e) ?s = Some p"
      using p by (simp add: startPoint_def)
    ultimately show ?thesis using that assms(2) by (simp add: AddTaskDelay_def setT_def Let_def st'_def)
  qed
  show ?thesis
  proof (intro exI conjI allI impI)
    show "AddTaskDelay p ds du f d st = Some st'" by (rule run)
  qed (rule hang, auto simp: due_def)
qed

text \<open>A list of one waiting task and a second task that is not armed.\<close>

definition one_waiting :: "(nat, nat, unit) store" where
  "one_waiting = \<lparr>tasks = [2 \<mapsto> demo_task None None 1000 5 7 True, 4 \<mapsto> demo_task None None 0 0 9 False],
     lists = [5 \<mapsto> \<lparr>lhead = Some 2, ltail = Some 2, runnow = None, pool = None, insertHint = Some 2\<rparr>],
     clock_s = 900, clock_us = 0, fresh_task = 7, fresh_list = 7, tasksAlive = 2, world = ()\<rparr>"

theorem rearming_a_waiting_task_hangs_witness:
  "\<exists>st'. AddTaskDelay 2 10 0 (Some 7) None one_waiting = Some st' \<and> AddTaskDelay 4 20 0 (Some 9) None st' = None"
proof -
  let ?L = "\<lparr>lhead = Some 2, ltail = Some 2, runnow = None, pool = None, insertHint = Some 2\<rparr>"
  have start: "lists one_waiting 5 = Some ?L" "lhead ?L = Some 2" "ltail ?L = Some 2" "insertHint ?L = None \<or> insertHint ?L = Some 2"
    "tasks one_waiting 2 = Some (demo_task None None 1000 5 7 True)" "owner (demo_task None None 1000 5 7 True) = 5"
    by (simp_all add: one_waiting_def)
  from rearming_a_waiting_task_hangs [OF start, of 10 0 "Some 7" None]
  obtain st' where r: "AddTaskDelay 2 10 0 (Some 7) None one_waiting = Some st'"
      and h: "\<forall>(st2 :: (nat, nat, unit) store) q tq a b g e. tasks st2 = tasks st' \<longrightarrow> lists st2 = lists st' \<longrightarrow> q \<noteq> 2 \<longrightarrow>
        tasks st2 q = Some tq \<longrightarrow> owner tq = 5 \<longrightarrow>
        not_before (dueTime (clock_s one_waiting) (clock_us one_waiting) 10 0) (dueTime (clock_s st2) (clock_us st2) a b) \<longrightarrow>
        AddTaskDelay q a b g e st2 = None"
    by (elim exE conjE)
  have "clock_s st' = 900 \<and> clock_us st' = 0 \<and> tasks st' 4 = Some (demo_task None None 0 0 9 False)"
  proof -
    have "map_option (\<lambda>s. (clock_s s, clock_us s, tasks s 4)) (AddTaskDelay 2 10 0 (Some 7) None one_waiting)
        = Some (900, 0, Some (demo_task None None 0 0 9 False))" by code_simp
    then show ?thesis using r by simp
  qed
  then have "AddTaskDelay 4 20 0 (Some 9) None st' = None"
    using h [rule_format, of st' 4 "demo_task None None 0 0 9 False" 20 0] by (simp add: one_waiting_def dueTime_def not_before_def)
  then show ?thesis using r by blast
qed

end
