(* ===== verification/Controls.thy ===== *)
theory Controls
  imports Panels
begin

text \<open>
  The plain controls: \<open>src/objects/button\<close>, \<open>checkbox\<close>, \<open>dropdown\<close>, \<open>html\<close>, \<open>image\<close>, \<open>knob\<close>, \<open>label\<close>, \<open>led\<close>, \<open>markdown\<close>,
  \<open>menubutton\<close>, \<open>slider\<close>, \<open>textbox\<close>, \<open>textout\<close>, \<open>view\<close> and \<open>vumeter\<close>.  A control keeps a value in one property; what
  arrives there is stored and goes out to the subscribers.  \<open>js\<close> and \<open>css\<close> are the texts of \<open>show_web.h\<close>, a header the
  build makes; \<open>addr\<close> gives the address of a function of the module.  \<open>WatchableProp\<close> does nothing.
\<close>

subsection \<open>What the controls share\<close>

text \<open>\<open>live\<close> is the field \<open>active\<close>.\<close>

record control = gated +
  live :: bool

type_synonym ctl = "control module"

text \<open>The struct of an instance behind its property, \<open>None\<close> for NULL.\<close>

definition structOf :: "ptr \<Rightarrow> 'l module \<Rightarrow> ((ptr \<times> 'l option) \<times> 'l module) option" where
  "structOf inst s = do {
     (p, s1) \<leftarrow> localOf inst s;
     if p = 0 then Some ((0, None), s1)
     else do { l \<leftarrow> locals s1 p; Some ((p, Some l), s1) } }"

text \<open>A value that arrives is stored in the property \<open>name\<close>; some controls drop the end of a stream.\<close>

definition valueIn :: "bool \<Rightarrow> string \<Rightarrow> ptr \<Rightarrow> int \<Rightarrow> ptr \<Rightarrow> ctl \<Rightarrow> (int \<times> ctl) option" where
  "valueIn dropsEof name inst message data s = do {
     (p, s1) \<leftarrow> localOf inst s;
     (on, s2) \<leftarrow> isEnabled inst s1;
     if p = 0 \<or> \<not> on \<or> dropsEof \<and> message = msg_eof then Some (rtrn_dropped, s2)
     else do {
       (v, s3) \<leftarrow> onMach (onNodes (GetValueStr data)) s2;
       s4 \<leftarrow> doMach (SetPropStr inst name (Some (orEmpty v))) s3;
       Some (rtrn_handled, s4) } }"

definition Running :: "32 word" where "Running = 2"

text \<open>Once.\<close>

definition goLive :: "bool \<Rightarrow> ptr \<Rightarrow> ctl \<Rightarrow> (int \<times> ctl) option" where
  "goLive showsState inst s = do {
     (p, s1) \<leftarrow> localOf inst s;
     if p = 0 then Some (rtrn_dropped, s1)
     else do {
       l \<leftarrow> locals s1 p;
       if live l then Some (rtrn_dropped, s1)
       else do {
         s2 \<leftarrow> setLocal p (\<lambda>l. l\<lparr>live := True\<rparr>) s1;
         s3 \<leftarrow> (if showsState then doMach (SetPropInt inst ''State'' Running) s2 else Some s2);
         Some (rtrn_handled, s3) } } }"

text \<open>The handler of a property of a new instance.\<close>

definition onPort :: "ptr \<Rightarrow> string \<Rightarrow> ptr \<Rightarrow> machine \<Rightarrow> machine option" where
  "onPort inst name fn m = do { port \<leftarrow> GetPropNode inst name (world m); SetPropLong port ''OnMsg'' fn m }"

text \<open>A new instance: its texts, its state, its struct and \<open>Activate\<close>, the handlers of its value (\<open>port\<close>, none when empty)
  and of \<open>Enable\<close>, further texts, its place, its size.\<close>

definition control_instance :: "core \<Rightarrow> (string \<Rightarrow> ptr) \<Rightarrow> string \<Rightarrow> (string \<times> string) list \<Rightarrow> bool \<Rightarrow> string \<Rightarrow> (string \<times> string) list
    \<Rightarrow> (string \<times> int) list \<Rightarrow> ptr \<Rightarrow> ptr \<Rightarrow> machine \<Rightarrow> machine option" where
  "control_instance co addr name texts showsState port more_texts sz p cls m = do {
     (inst, m1) \<leftarrow> namedNode name m;
     m2 \<leftarrow> setStrs inst texts m1;
     m3 \<leftarrow> (if showsState then SetPropInt inst ''State'' 1 m2 else Some m2);
     m4 \<leftarrow> setLongs inst [(''local'', p), (''Activate'', addr (name @ ''_Activate''))] m3;
     m5 \<leftarrow> (if port = [] then Some m4 else onPort inst port (addr (name @ ''_OnIn'')) m4);
     m6 \<leftarrow> SetPropStr inst ''Enable'' (Some ''1'') m5;
     m7 \<leftarrow> onPort inst ''Enable'' (addr (name @ ''_OnEnable'')) m6;
     m8 \<leftarrow> setStrs inst more_texts m7;
     m9 \<leftarrow> InitPosition inst m8;
     m10 \<leftarrow> setInts inst sz m9;
     (_, m11) \<leftarrow> RegisterInstance (onActivateMsg co) cls inst m10;
     Some m11 }"

definition startControl :: "ptr \<Rightarrow> (machine \<Rightarrow> machine option) \<Rightarrow> ctl \<Rightarrow> (int \<times> ctl) option" where
  "startControl p start s = do {
     s1 \<leftarrow> doMach start (newLocal p \<lparr>enabled = True, live = False\<rparr> s);
     Some (rtrn_handled, s1) }"

text \<open>The class: registered and placed below \<open>Control\<close>, then what \<open>publish\<close> says of it.\<close>

definition control_class :: "string \<Rightarrow> (string \<Rightarrow> ptr) \<Rightarrow> (ptr \<Rightarrow> machine \<Rightarrow> machine option) \<Rightarrow> ptr \<Rightarrow> machine \<Rightarrow> (ptr \<times> machine) option" where
  "control_class name addr publish library m = do {
     (c, m1) \<leftarrow> namedNode name m;
     m2 \<leftarrow> setLongs c [(''InstanceStart'', addr ''InstanceStart''), (''InstanceEnd'', addr ''InstanceEnd'')] m1;
     (self, m3) \<leftarrow> RegisterClass library c m2;
     m4 \<leftarrow> SetClassVersion self (Some ''1'') (Some ''0'') m3;
     m5 \<leftarrow> SetClassParent self ''Control'' m4;
     m6 \<leftarrow> publish self m5;
     Some (self, m6) }"

text \<open>What most say: the place, how they show, their properties.\<close>

definition published :: "32 word \<Rightarrow> string \<Rightarrow> string \<Rightarrow> (string \<times> 32 word \<times> string) list \<Rightarrow> ptr \<Rightarrow> machine \<Rightarrow> machine option" where
  "published shown js css rows self m = do {
     m1 \<leftarrow> PublishPosition self m;
     m2 \<leftarrow> PublishShow self (sint shown) (Some js) (Some css) m1;
     publishProps self rows m2 }"

definition control_library :: "string \<Rightarrow> string \<Rightarrow> (string \<Rightarrow> ptr) \<Rightarrow> machine \<Rightarrow> (ptr \<times> machine) option" where
  "control_library name uuid addr = module_init name uuid (addr ''ClassStart'') (addr ''ClassEnd'') 0
     [(CORE_LIBRARY_FILE, ''Object''), (''control.object'', ''Control'')]"

subsection \<open>Checkbox\<close>

definition Checkbox_OnIn :: "ptr \<Rightarrow> int \<Rightarrow> ptr \<Rightarrow> ctl \<Rightarrow> (int \<times> ctl) option" where
  "Checkbox_OnIn = valueIn False ''Value''"

definition Checkbox_OnEnable :: "ptr \<Rightarrow> int \<Rightarrow> ptr \<Rightarrow> ctl \<Rightarrow> (int \<times> ctl) option" where
  "Checkbox_OnEnable inst = onEnable Some inst"

definition Checkbox_Activate :: "ptr \<Rightarrow> ctl \<Rightarrow> (int \<times> ctl) option" where
  "Checkbox_Activate = goLive True"

definition Checkbox_InstanceStart :: "core \<Rightarrow> (string \<Rightarrow> ptr) \<Rightarrow> ptr \<Rightarrow> ptr \<Rightarrow> ctl \<Rightarrow> (int \<times> ctl) option" where
  "Checkbox_InstanceStart co addr p cls = startControl p
     (control_instance co addr ''Checkbox'' [(''Value'', ''0'')] True ''Value'' [] [] p cls)"

definition Checkbox_InstanceEnd :: "ptr \<Rightarrow> ctl \<Rightarrow> (int \<times> ctl) option" where
  "Checkbox_InstanceEnd inst = onEnd inst"

definition Checkbox_ClassStart :: "(string \<Rightarrow> ptr) \<Rightarrow> string \<Rightarrow> string \<Rightarrow> ptr \<Rightarrow> machine \<Rightarrow> (ptr \<times> machine) option" where
  "Checkbox_ClassStart addr js css = control_class ''Checkbox'' addr
     (published PROP_CHECKBOX js css [(''Value'', PROP_CHECKBOX, ''0''), (''Enable'', PROP_CHECKBOX, ''1''), (''State'', PROP_LED, ''1'')])"

definition Checkbox_init :: "(string \<Rightarrow> ptr) \<Rightarrow> machine \<Rightarrow> (ptr \<times> machine) option" where
  "Checkbox_init = control_library ''Checkbox'' ''8da17004-242c-4f21-a77e-6a823a52c741''"

subsection \<open>Dropdown\<close>

definition Dropdown_OnIn :: "ptr \<Rightarrow> int \<Rightarrow> ptr \<Rightarrow> ctl \<Rightarrow> (int \<times> ctl) option" where
  "Dropdown_OnIn = valueIn False ''Value''"

definition Dropdown_OnEnable :: "ptr \<Rightarrow> int \<Rightarrow> ptr \<Rightarrow> ctl \<Rightarrow> (int \<times> ctl) option" where
  "Dropdown_OnEnable inst = onEnable Some inst"

definition Dropdown_Activate :: "ptr \<Rightarrow> ctl \<Rightarrow> (int \<times> ctl) option" where
  "Dropdown_Activate = goLive True"

definition Dropdown_InstanceStart :: "core \<Rightarrow> (string \<Rightarrow> ptr) \<Rightarrow> ptr \<Rightarrow> ptr \<Rightarrow> ctl \<Rightarrow> (int \<times> ctl) option" where
  "Dropdown_InstanceStart co addr p cls = startControl p
     (control_instance co addr ''Dropdown'' [(''Value'', ''''), (''Items'', '''')] True ''Value'' [] [] p cls)"

definition Dropdown_InstanceEnd :: "ptr \<Rightarrow> ctl \<Rightarrow> (int \<times> ctl) option" where
  "Dropdown_InstanceEnd inst = onEnd inst"

definition Dropdown_ClassStart :: "(string \<Rightarrow> ptr) \<Rightarrow> string \<Rightarrow> string \<Rightarrow> ptr \<Rightarrow> machine \<Rightarrow> (ptr \<times> machine) option" where
  "Dropdown_ClassStart addr js css = control_class ''Dropdown'' addr
     (published PROP_MENU js css [(''Value'', PROP_MENU, ''''), (''Items'', PROP_TEXTBOX, ''''), (''Enable'', PROP_CHECKBOX, ''1''), (''State'', PROP_LED, ''1'')])"

definition Dropdown_init :: "(string \<Rightarrow> ptr) \<Rightarrow> machine \<Rightarrow> (ptr \<times> machine) option" where
  "Dropdown_init = control_library ''Dropdown'' ''e91b4f27-8a53-4c06-b7d9-2f48a1c6e035''"

subsection \<open>Knob\<close>

definition Knob_OnIn :: "ptr \<Rightarrow> int \<Rightarrow> ptr \<Rightarrow> ctl \<Rightarrow> (int \<times> ctl) option" where
  "Knob_OnIn = valueIn False ''Value''"

definition Knob_OnEnable :: "ptr \<Rightarrow> int \<Rightarrow> ptr \<Rightarrow> ctl \<Rightarrow> (int \<times> ctl) option" where
  "Knob_OnEnable inst = onEnable Some inst"

definition Knob_Activate :: "ptr \<Rightarrow> ctl \<Rightarrow> (int \<times> ctl) option" where
  "Knob_Activate = goLive True"

definition Knob_InstanceStart :: "core \<Rightarrow> (string \<Rightarrow> ptr) \<Rightarrow> ptr \<Rightarrow> ptr \<Rightarrow> ctl \<Rightarrow> (int \<times> ctl) option" where
  "Knob_InstanceStart co addr p cls = startControl p
     (control_instance co addr ''Knob'' [(''Value'', ''0'')] True ''Value'' [] [] p cls)"

definition Knob_InstanceEnd :: "ptr \<Rightarrow> ctl \<Rightarrow> (int \<times> ctl) option" where
  "Knob_InstanceEnd inst = onEnd inst"

definition Knob_ClassStart :: "(string \<Rightarrow> ptr) \<Rightarrow> string \<Rightarrow> string \<Rightarrow> ptr \<Rightarrow> machine \<Rightarrow> (ptr \<times> machine) option" where
  "Knob_ClassStart addr js css = control_class ''Knob'' addr
     (published PROP_KNOB js css [(''Value'', PROP_KNOB, ''0''), (''Enable'', PROP_CHECKBOX, ''1''), (''State'', PROP_LED, ''1'')])"

definition Knob_init :: "(string \<Rightarrow> ptr) \<Rightarrow> machine \<Rightarrow> (ptr \<times> machine) option" where
  "Knob_init = control_library ''Knob'' ''8da17004-242c-4f21-a77e-6a823a52c744''"

subsection \<open>Slider\<close>

definition Slider_OnIn :: "ptr \<Rightarrow> int \<Rightarrow> ptr \<Rightarrow> ctl \<Rightarrow> (int \<times> ctl) option" where
  "Slider_OnIn = valueIn False ''Value''"

definition Slider_OnEnable :: "ptr \<Rightarrow> int \<Rightarrow> ptr \<Rightarrow> ctl \<Rightarrow> (int \<times> ctl) option" where
  "Slider_OnEnable inst = onEnable Some inst"

definition Slider_Activate :: "ptr \<Rightarrow> ctl \<Rightarrow> (int \<times> ctl) option" where
  "Slider_Activate = goLive True"

definition Slider_InstanceStart :: "core \<Rightarrow> (string \<Rightarrow> ptr) \<Rightarrow> ptr \<Rightarrow> ptr \<Rightarrow> ctl \<Rightarrow> (int \<times> ctl) option" where
  "Slider_InstanceStart co addr p cls = startControl p
     (control_instance co addr ''Slider'' [(''Value'', ''0'')] True ''Value'' [] [] p cls)"

definition Slider_InstanceEnd :: "ptr \<Rightarrow> ctl \<Rightarrow> (int \<times> ctl) option" where
  "Slider_InstanceEnd inst = onEnd inst"

definition Slider_ClassStart :: "(string \<Rightarrow> ptr) \<Rightarrow> string \<Rightarrow> string \<Rightarrow> ptr \<Rightarrow> machine \<Rightarrow> (ptr \<times> machine) option" where
  "Slider_ClassStart addr js css = control_class ''Slider'' addr
     (published PROP_SLIDER js css [(''Value'', PROP_SLIDER, ''0''), (''Enable'', PROP_CHECKBOX, ''1''), (''State'', PROP_LED, ''1'')])"

definition Slider_init :: "(string \<Rightarrow> ptr) \<Rightarrow> machine \<Rightarrow> (ptr \<times> machine) option" where
  "Slider_init = control_library ''Slider'' ''8da17004-242c-4f21-a77e-6a823a52c743''"

subsection \<open>VUMeter\<close>

definition VUMeter_OnIn :: "ptr \<Rightarrow> int \<Rightarrow> ptr \<Rightarrow> ctl \<Rightarrow> (int \<times> ctl) option" where
  "VUMeter_OnIn = valueIn False ''Value''"

definition VUMeter_OnEnable :: "ptr \<Rightarrow> int \<Rightarrow> ptr \<Rightarrow> ctl \<Rightarrow> (int \<times> ctl) option" where
  "VUMeter_OnEnable inst = onEnable Some inst"

definition VUMeter_Activate :: "ptr \<Rightarrow> ctl \<Rightarrow> (int \<times> ctl) option" where
  "VUMeter_Activate = goLive True"

definition VUMeter_InstanceStart :: "core \<Rightarrow> (string \<Rightarrow> ptr) \<Rightarrow> ptr \<Rightarrow> ptr \<Rightarrow> ctl \<Rightarrow> (int \<times> ctl) option" where
  "VUMeter_InstanceStart co addr p cls = startControl p
     (control_instance co addr ''VUMeter'' [(''Value'', ''0'')] True ''Value'' [] [] p cls)"

definition VUMeter_InstanceEnd :: "ptr \<Rightarrow> ctl \<Rightarrow> (int \<times> ctl) option" where
  "VUMeter_InstanceEnd inst = onEnd inst"

definition VUMeter_ClassStart :: "(string \<Rightarrow> ptr) \<Rightarrow> string \<Rightarrow> string \<Rightarrow> ptr \<Rightarrow> machine \<Rightarrow> (ptr \<times> machine) option" where
  "VUMeter_ClassStart addr js css = control_class ''VUMeter'' addr
     (published PROP_VUMETER js css [(''Value'', PROP_VUMETER, ''0''), (''Enable'', PROP_CHECKBOX, ''1''), (''State'', PROP_LED, ''1'')])"

definition VUMeter_init :: "(string \<Rightarrow> ptr) \<Rightarrow> machine \<Rightarrow> (ptr \<times> machine) option" where
  "VUMeter_init = control_library ''VUMeter'' ''8da17004-242c-4f21-a77e-6a823a52c747''"

subsection \<open>Label\<close>

definition Label_OnIn :: "ptr \<Rightarrow> int \<Rightarrow> ptr \<Rightarrow> ctl \<Rightarrow> (int \<times> ctl) option" where
  "Label_OnIn = valueIn False ''Value''"

definition Label_OnEnable :: "ptr \<Rightarrow> int \<Rightarrow> ptr \<Rightarrow> ctl \<Rightarrow> (int \<times> ctl) option" where
  "Label_OnEnable inst = onEnable Some inst"

definition Label_Activate :: "ptr \<Rightarrow> ctl \<Rightarrow> (int \<times> ctl) option" where
  "Label_Activate = goLive True"

definition Label_InstanceStart :: "core \<Rightarrow> (string \<Rightarrow> ptr) \<Rightarrow> ptr \<Rightarrow> ptr \<Rightarrow> ctl \<Rightarrow> (int \<times> ctl) option" where
  "Label_InstanceStart co addr p cls = startControl p
     (control_instance co addr ''Label'' [(''Value'', '''')] True ''Value'' [] [] p cls)"

definition Label_InstanceEnd :: "ptr \<Rightarrow> ctl \<Rightarrow> (int \<times> ctl) option" where
  "Label_InstanceEnd inst = onEnd inst"

definition Label_ClassStart :: "(string \<Rightarrow> ptr) \<Rightarrow> string \<Rightarrow> string \<Rightarrow> ptr \<Rightarrow> machine \<Rightarrow> (ptr \<times> machine) option" where
  "Label_ClassStart addr js css = control_class ''Label'' addr
     (published PROP_LABEL js css [(''Value'', PROP_LABEL, ''''), (''Enable'', PROP_CHECKBOX, ''1''), (''State'', PROP_LED, ''1'')])"

definition Label_init :: "(string \<Rightarrow> ptr) \<Rightarrow> machine \<Rightarrow> (ptr \<times> machine) option" where
  "Label_init = control_library ''Label'' ''8da17004-242c-4f21-a77e-6a823a52c745''"

subsection \<open>TextOut\<close>

definition TextOut_OnIn :: "ptr \<Rightarrow> int \<Rightarrow> ptr \<Rightarrow> ctl \<Rightarrow> (int \<times> ctl) option" where
  "TextOut_OnIn = valueIn False ''Value''"

definition TextOut_OnEnable :: "ptr \<Rightarrow> int \<Rightarrow> ptr \<Rightarrow> ctl \<Rightarrow> (int \<times> ctl) option" where
  "TextOut_OnEnable inst = onEnable Some inst"

definition TextOut_Activate :: "ptr \<Rightarrow> ctl \<Rightarrow> (int \<times> ctl) option" where
  "TextOut_Activate = goLive True"

definition TextOut_InstanceStart :: "core \<Rightarrow> (string \<Rightarrow> ptr) \<Rightarrow> ptr \<Rightarrow> ptr \<Rightarrow> ctl \<Rightarrow> (int \<times> ctl) option" where
  "TextOut_InstanceStart co addr p cls = startControl p
     (control_instance co addr ''TextOut'' [(''Value'', '''')] True ''Value'' [] [] p cls)"

definition TextOut_InstanceEnd :: "ptr \<Rightarrow> ctl \<Rightarrow> (int \<times> ctl) option" where
  "TextOut_InstanceEnd inst = onEnd inst"

definition TextOut_ClassStart :: "(string \<Rightarrow> ptr) \<Rightarrow> string \<Rightarrow> string \<Rightarrow> ptr \<Rightarrow> machine \<Rightarrow> (ptr \<times> machine) option" where
  "TextOut_ClassStart addr js css = control_class ''TextOut'' addr
     (published PROP_TEXTOUT js css [(''Value'', PROP_TEXTOUT, ''''), (''Enable'', PROP_CHECKBOX, ''1''), (''State'', PROP_LED, ''1'')])"

definition TextOut_init :: "(string \<Rightarrow> ptr) \<Rightarrow> machine \<Rightarrow> (ptr \<times> machine) option" where
  "TextOut_init = control_library ''TextOut'' ''8da17004-242c-4f21-a77e-6a823a52c746''"

subsection \<open>Image\<close>

definition Image_OnIn :: "ptr \<Rightarrow> int \<Rightarrow> ptr \<Rightarrow> ctl \<Rightarrow> (int \<times> ctl) option" where
  "Image_OnIn = valueIn False ''Value''"

definition Image_OnEnable :: "ptr \<Rightarrow> int \<Rightarrow> ptr \<Rightarrow> ctl \<Rightarrow> (int \<times> ctl) option" where
  "Image_OnEnable inst = onEnable Some inst"

definition Image_Activate :: "ptr \<Rightarrow> ctl \<Rightarrow> (int \<times> ctl) option" where
  "Image_Activate = goLive True"

definition Image_InstanceStart :: "core \<Rightarrow> (string \<Rightarrow> ptr) \<Rightarrow> ptr \<Rightarrow> ptr \<Rightarrow> ctl \<Rightarrow> (int \<times> ctl) option" where
  "Image_InstanceStart co addr p cls = startControl p
     (control_instance co addr ''Image'' [(''Value'', '''')] True ''Value'' [] [(''W'', 320), (''H'', 320)] p cls)"

definition Image_InstanceEnd :: "ptr \<Rightarrow> ctl \<Rightarrow> (int \<times> ctl) option" where
  "Image_InstanceEnd inst = onEnd inst"

definition Image_ClassStart :: "(string \<Rightarrow> ptr) \<Rightarrow> string \<Rightarrow> string \<Rightarrow> ptr \<Rightarrow> machine \<Rightarrow> (ptr \<times> machine) option" where
  "Image_ClassStart addr js css = control_class ''Image'' addr
     (published PROP_IMAGE js css [(''Value'', PROP_IMAGE, ''''), (''Enable'', PROP_CHECKBOX, ''1''), (''State'', PROP_LED, ''1'')])"

definition Image_init :: "(string \<Rightarrow> ptr) \<Rightarrow> machine \<Rightarrow> (ptr \<times> machine) option" where
  "Image_init = control_library ''Image'' ''f4929bb4-8b29-4244-bc3e-5ec113c0c0c3''"

subsection \<open>HTML\<close>

definition HTML_OnIn :: "ptr \<Rightarrow> int \<Rightarrow> ptr \<Rightarrow> ctl \<Rightarrow> (int \<times> ctl) option" where
  "HTML_OnIn = valueIn True ''Value''"

definition HTML_OnEnable :: "ptr \<Rightarrow> int \<Rightarrow> ptr \<Rightarrow> ctl \<Rightarrow> (int \<times> ctl) option" where
  "HTML_OnEnable inst = onEnable Some inst"

definition HTML_Activate :: "ptr \<Rightarrow> ctl \<Rightarrow> (int \<times> ctl) option" where
  "HTML_Activate = goLive True"

definition HTML_InstanceStart :: "core \<Rightarrow> (string \<Rightarrow> ptr) \<Rightarrow> ptr \<Rightarrow> ptr \<Rightarrow> ctl \<Rightarrow> (int \<times> ctl) option" where
  "HTML_InstanceStart co addr p cls = startControl p
     (control_instance co addr ''HTML'' [(''Value'', '''')] True ''Value'' [] [] p cls)"

definition HTML_InstanceEnd :: "ptr \<Rightarrow> ctl \<Rightarrow> (int \<times> ctl) option" where
  "HTML_InstanceEnd inst = onEnd inst"

definition HTML_ClassStart :: "(string \<Rightarrow> ptr) \<Rightarrow> string \<Rightarrow> string \<Rightarrow> ptr \<Rightarrow> machine \<Rightarrow> (ptr \<times> machine) option" where
  "HTML_ClassStart addr js css = control_class ''HTML'' addr
     (published PROP_HTML js css [(''Value'', PROP_HTML, ''''), (''Enable'', PROP_CHECKBOX, ''1''), (''State'', PROP_LED, ''1'')])"

definition HTML_init :: "(string \<Rightarrow> ptr) \<Rightarrow> machine \<Rightarrow> (ptr \<times> machine) option" where
  "HTML_init = control_library ''HTML'' ''9b31f6a8-2d47-4e05-b8c9-1a6f84d20e73''"

subsection \<open>Markdown\<close>

definition Markdown_OnIn :: "ptr \<Rightarrow> int \<Rightarrow> ptr \<Rightarrow> ctl \<Rightarrow> (int \<times> ctl) option" where
  "Markdown_OnIn = valueIn True ''Value''"

definition Markdown_OnEnable :: "ptr \<Rightarrow> int \<Rightarrow> ptr \<Rightarrow> ctl \<Rightarrow> (int \<times> ctl) option" where
  "Markdown_OnEnable inst = onEnable Some inst"

definition Markdown_Activate :: "ptr \<Rightarrow> ctl \<Rightarrow> (int \<times> ctl) option" where
  "Markdown_Activate = goLive True"

definition Markdown_InstanceStart :: "core \<Rightarrow> (string \<Rightarrow> ptr) \<Rightarrow> ptr \<Rightarrow> ptr \<Rightarrow> ctl \<Rightarrow> (int \<times> ctl) option" where
  "Markdown_InstanceStart co addr p cls = startControl p
     (control_instance co addr ''Markdown'' [(''Value'', '''')] True ''Value'' [] [] p cls)"

definition Markdown_InstanceEnd :: "ptr \<Rightarrow> ctl \<Rightarrow> (int \<times> ctl) option" where
  "Markdown_InstanceEnd inst = onEnd inst"

definition Markdown_ClassStart :: "(string \<Rightarrow> ptr) \<Rightarrow> string \<Rightarrow> string \<Rightarrow> ptr \<Rightarrow> machine \<Rightarrow> (ptr \<times> machine) option" where
  "Markdown_ClassStart addr js css = control_class ''Markdown'' addr
     (published PROP_MARKDOWN js css [(''Value'', PROP_MARKDOWN, ''''), (''Enable'', PROP_CHECKBOX, ''1''), (''State'', PROP_LED, ''1'')])"

definition Markdown_init :: "(string \<Rightarrow> ptr) \<Rightarrow> machine \<Rightarrow> (ptr \<times> machine) option" where
  "Markdown_init = control_library ''Markdown'' ''4c7d92e5-81f3-49b6-a2d8-5e90c3b7f614''"

subsection \<open>LED\<close>

definition LED_OnIn :: "ptr \<Rightarrow> int \<Rightarrow> ptr \<Rightarrow> ctl \<Rightarrow> (int \<times> ctl) option" where
  "LED_OnIn = valueIn False ''Value''"

definition LED_OnEnable :: "ptr \<Rightarrow> int \<Rightarrow> ptr \<Rightarrow> ctl \<Rightarrow> (int \<times> ctl) option" where
  "LED_OnEnable inst = onEnable Some inst"

definition LED_Activate :: "ptr \<Rightarrow> ctl \<Rightarrow> (int \<times> ctl) option" where
  "LED_Activate = goLive False"

definition LED_InstanceStart :: "core \<Rightarrow> (string \<Rightarrow> ptr) \<Rightarrow> ptr \<Rightarrow> ptr \<Rightarrow> ctl \<Rightarrow> (int \<times> ctl) option" where
  "LED_InstanceStart co addr p cls = startControl p
     (control_instance co addr ''LED'' [(''Value'', ''0'')] False ''Value'' [] [] p cls)"

definition LED_InstanceEnd :: "ptr \<Rightarrow> ctl \<Rightarrow> (int \<times> ctl) option" where
  "LED_InstanceEnd inst = onEnd inst"

definition LED_ClassStart :: "(string \<Rightarrow> ptr) \<Rightarrow> string \<Rightarrow> string \<Rightarrow> ptr \<Rightarrow> machine \<Rightarrow> (ptr \<times> machine) option" where
  "LED_ClassStart addr js css = control_class ''LED'' addr
     (\<lambda>self m. do {
     m1 \<leftarrow> PublishPosition self m;
     m2 \<leftarrow> publishProps self [(''Value'', PROP_LED, ''0''), (''Enable'', PROP_CHECKBOX, ''1'')] m1;
     PublishShow self (sint PROP_LED) (Some js) (Some css) m2 })"

definition LED_init :: "(string \<Rightarrow> ptr) \<Rightarrow> machine \<Rightarrow> (ptr \<times> machine) option" where
  "LED_init = control_library ''LED'' ''8da17004-242c-4f21-a77e-6a823a52c740''"

subsection \<open>MenuButton\<close>

definition MenuButton_OnIn :: "ptr \<Rightarrow> int \<Rightarrow> ptr \<Rightarrow> ctl \<Rightarrow> (int \<times> ctl) option" where
  "MenuButton_OnIn = valueIn False ''Selected''"

definition MenuButton_OnEnable :: "ptr \<Rightarrow> int \<Rightarrow> ptr \<Rightarrow> ctl \<Rightarrow> (int \<times> ctl) option" where
  "MenuButton_OnEnable inst = onEnable Some inst"

definition MenuButton_Activate :: "ptr \<Rightarrow> ctl \<Rightarrow> (int \<times> ctl) option" where
  "MenuButton_Activate = goLive True"

definition MenuButton_InstanceStart :: "core \<Rightarrow> (string \<Rightarrow> ptr) \<Rightarrow> ptr \<Rightarrow> ptr \<Rightarrow> ctl \<Rightarrow> (int \<times> ctl) option" where
  "MenuButton_InstanceStart co addr p cls = startControl p
     (control_instance co addr ''MenuButton'' [(''Label'', ''Menu''), (''Items'', ''''), (''Selected'', '''')] True ''Selected'' [(''ReservedIn'', ''Selected''), (''ReservedOut'', ''Selected'')] [] p cls)"

definition MenuButton_InstanceEnd :: "ptr \<Rightarrow> ctl \<Rightarrow> (int \<times> ctl) option" where
  "MenuButton_InstanceEnd inst = onEnd inst"

definition MenuButton_ClassStart :: "(string \<Rightarrow> ptr) \<Rightarrow> ptr \<Rightarrow> machine \<Rightarrow> (ptr \<times> machine) option" where
  "MenuButton_ClassStart addr = control_class ''MenuButton'' addr
     (\<lambda>self m. do {
     m1 \<leftarrow> PublishPosition self m;
     publishProps self [(''Label'', PROP_LABEL, ''Menu''), (''Items'', PROP_TEXTBOX, ''''), (''Selected'', PROP_MENU, ''''), (''Enable'', PROP_CHECKBOX, ''1''), (''State'', PROP_LED, ''1'')] m1 })"

definition MenuButton_init :: "(string \<Rightarrow> ptr) \<Rightarrow> machine \<Rightarrow> (ptr \<times> machine) option" where
  "MenuButton_init = control_library ''MenuButton'' ''8da17004-242c-4f21-a77e-6a823a52c749''"

subsection \<open>View\<close>

definition View_OnEnable :: "ptr \<Rightarrow> int \<Rightarrow> ptr \<Rightarrow> ctl \<Rightarrow> (int \<times> ctl) option" where
  "View_OnEnable inst = onEnable Some inst"

definition View_Activate :: "ptr \<Rightarrow> ctl \<Rightarrow> (int \<times> ctl) option" where
  "View_Activate = goLive True"

definition View_InstanceStart :: "core \<Rightarrow> (string \<Rightarrow> ptr) \<Rightarrow> ptr \<Rightarrow> ptr \<Rightarrow> ctl \<Rightarrow> (int \<times> ctl) option" where
  "View_InstanceStart co addr p cls = startControl p
     (control_instance co addr ''View'' [] True '''' [(''ReservedViewResizeable'', ''1''), (''ReservedViewEmbedded'', ''0'')] [(''W'', 190), (''H'', 220)] p cls)"

definition View_InstanceEnd :: "ptr \<Rightarrow> ctl \<Rightarrow> (int \<times> ctl) option" where
  "View_InstanceEnd inst = onEnd inst"

definition View_ClassStart :: "(string \<Rightarrow> ptr) \<Rightarrow> string \<Rightarrow> string \<Rightarrow> ptr \<Rightarrow> machine \<Rightarrow> (ptr \<times> machine) option" where
  "View_ClassStart addr js css = control_class ''View'' addr
     (\<lambda>self m. do {
     m1 \<leftarrow> PublishShow self (sint PROP_ICON) (Some js) (Some css) m;
     m2 \<leftarrow> publishProps self [(''Enable'', PROP_CHECKBOX, ''1''), (''State'', PROP_LED, ''1''), (''ReservedViewResizeable'', PROP_CHECKBOX, ''1''), (''ReservedViewEmbedded'', PROP_CHECKBOX, ''0'')] m1;
     PublishPosition self m2 })"

definition View_init :: "(string \<Rightarrow> ptr) \<Rightarrow> machine \<Rightarrow> (ptr \<times> machine) option" where
  "View_init = control_library ''View'' ''8da17004-242c-4f21-a77e-6a823a52c750''"

subsection \<open>Textbox\<close>

text \<open>Every write is one delivery, also of a text that is there already: it is stored without the test for a change and
  announced.\<close>

definition Textbox_OnIn :: "ptr \<Rightarrow> int \<Rightarrow> ptr \<Rightarrow> ctl \<Rightarrow> (int \<times> ctl) option" where
  "Textbox_OnIn inst message data s = do {
     (p, s1) \<leftarrow> localOf inst s;
     (on, s2) \<leftarrow> isEnabled inst s1;
     if p = 0 \<or> \<not> on then Some (rtrn_dropped, s2)
     else do {
       (v, s3) \<leftarrow> onMach (onNodes (GetValueStr data)) s2;
       s4 \<leftarrow> doMach (mirror inst ''Value'' (Some (orEmpty v))) s3;
       s5 \<leftarrow> doMach (\<lambda>m. let (announce, m1) = newNode STRING m in do {
         m2 \<leftarrow> doNodes (SetName announce ''Value'') m1;
         m3 \<leftarrow> doNodes (SetValueStr announce (Some (orEmpty v))) m2;
         (_, m4) \<leftarrow> SndMsg inst ''Value'' msg_send announce m3;
         Some m4 }) s4;
       Some (rtrn_handled, s5) } }"

text \<open>The gesture \<open>Format\<close>: asked for, it answers with the format of the box; told, it keeps or removes it.\<close>

definition Textbox_ClassMsg :: "ptr \<Rightarrow> int \<Rightarrow> ptr \<Rightarrow> machine \<Rightarrow> (int \<times> machine) option" where
  "Textbox_ClassMsg inst message data m = (if message \<noteq> msg_gesture \<or> data = 0 then Some (rtrn_unhandled, m) else do {
     (name, m1) \<leftarrow> onNodes (GetPropStr data ''Name'') m;
     if take 6 (orEmpty name) \<noteq> ''Format'' then Some (rtrn_unhandled, m1)
     else do {
       (query, m2) \<leftarrow> onNodes (GetPropStr data ''Query'') m1;
       if query \<noteq> None then do {
         (had, m3) \<leftarrow> onNodes (GetPropStr inst ''GUI_Format'') m2;
         m4 \<leftarrow> setStrs data [(''Value'', orEmpty had), (''Prop'', ''GUI_Format'')] m3;
         Some (rtrn_handled, m4) }
       else do {
         (val, m3) \<leftarrow> onNodes (GetPropStr data ''Value'') m2;
         m5 \<leftarrow> (if orEmpty val \<noteq> [] then SetPropStr inst ''GUI_Format'' val m3
               else do {
                 pr \<leftarrow> GetPropNode inst ''GUI_Format'' (world m3);
                 if pr = 0 then Some m3
                 else do { m4 \<leftarrow> doNodes (RemoveProp inst pr) m3; doNodes (DelNode pr) m4 } });
         m6 \<leftarrow> logName inst m5;
         Some (rtrn_handled, m6) } } })"

definition Textbox_OnEnable :: "ptr \<Rightarrow> int \<Rightarrow> ptr \<Rightarrow> ctl \<Rightarrow> (int \<times> ctl) option" where
  "Textbox_OnEnable inst = onEnable Some inst"

definition Textbox_Activate :: "ptr \<Rightarrow> ctl \<Rightarrow> (int \<times> ctl) option" where
  "Textbox_Activate = goLive True"

definition Textbox_InstanceStart :: "core \<Rightarrow> (string \<Rightarrow> ptr) \<Rightarrow> ptr \<Rightarrow> ptr \<Rightarrow> ctl \<Rightarrow> (int \<times> ctl) option" where
  "Textbox_InstanceStart co addr p cls = startControl p
     (control_instance co addr ''Textbox'' [(''Value'', '''')] True ''Value'' [] [] p cls)"

definition Textbox_InstanceEnd :: "ptr \<Rightarrow> ctl \<Rightarrow> (int \<times> ctl) option" where
  "Textbox_InstanceEnd inst = onEnd inst"

definition FormatList :: string where
  "FormatList = ''Phone=(###) ###-####,''
     @ ''Phone with dashes=###-###-####,''
     @ ''SSN=###-##-####,''
     @ ''Date MM/DD/YYYY=##/##/####,''
     @ ''Date YYYY-MM-DD=####-##-##,''
     @ ''Time HH:MM=##:##,''
     @ ''Time HH:MM:SS=##:##:##,''
     @ ''Zip=#####,''
     @ ''Zip+4=#####-####,''
     @ ''Currency=$###.##,''
     @ ''Percent=##.##,''
     @ ''Credit card=#### #### #### ####,''
     @ ''Licence plate=AA-####''"

definition Textbox_ClassStart :: "(string \<Rightarrow> ptr) \<Rightarrow> string \<Rightarrow> string \<Rightarrow> ptr \<Rightarrow> machine \<Rightarrow> (ptr \<times> machine) option" where
  "Textbox_ClassStart addr js css = control_class ''Textbox'' addr
     (\<lambda>self m. do {
     m1 \<leftarrow> published PROP_TEXTBOX js css [(''Value'', PROP_TEXTBOX, ''''), (''Enable'', PROP_CHECKBOX, ''1''), (''State'', PROP_LED, ''1'')] self m;
     m2 \<leftarrow> SetPropLong self ''ClassMsg'' (addr ''Textbox_ClassMsg'') m1;
     m3 \<leftarrow> PublishGestures self ''Format...'' m2;
     SetPropStr self ''FormatList'' (Some FormatList) m3 })"

definition Textbox_init :: "(string \<Rightarrow> ptr) \<Rightarrow> machine \<Rightarrow> (ptr \<times> machine) option" where
  "Textbox_init = control_library ''Textbox'' ''8da17004-242c-4f21-a77e-6a823a52c742''"

subsection \<open>Button\<close>

definition Button_OnEnable :: "ptr \<Rightarrow> int \<Rightarrow> ptr \<Rightarrow> ctl \<Rightarrow> (int \<times> ctl) option" where
  "Button_OnEnable inst = onEnable Some inst"

text \<open>Every call is a press: the value is written 1 for the subscribers and put back to 0 behind their backs.  What is
  delivered is not looked at.\<close>

definition Button_Activate :: "ptr \<Rightarrow> int \<Rightarrow> ptr \<Rightarrow> ctl \<Rightarrow> (int \<times> ctl) option" where
  "Button_Activate inst message data s = do {
     (p, s1) \<leftarrow> localOf inst s;
     s2 \<leftarrow> doMach (logName inst) s1;
     (on, s3) \<leftarrow> isEnabled inst s2;
     if p = 0 \<or> \<not> on then Some (rtrn_dropped, s3)
     else do {
       s4 \<leftarrow> setLocal p (\<lambda>l. l\<lparr>live := True\<rparr>) s3;
       s5 \<leftarrow> doMach (SetPropInt inst ''State'' Running) s4;
       s6 \<leftarrow> doMach (SetPropStr inst ''Value'' (Some ''1'')) s5;
       s7 \<leftarrow> doMach (doNodes (SetPropStrPrivate inst ''Value'' (Some ''0''))) s6;
       Some (rtrn_handled, s7) } }"

definition buttonProps :: "core \<Rightarrow> (string \<Rightarrow> ptr) \<Rightarrow> ptr \<Rightarrow> ptr \<Rightarrow> machine \<Rightarrow> machine option" where
  "buttonProps co addr p cls m = do {
     (inst, m1) \<leftarrow> namedNode ''Button'' m;
     m2 \<leftarrow> SetPropStr inst ''Label'' (Some ''Activate'') m1;
     m3 \<leftarrow> SetPropInt inst ''State'' 1 m2;
     m4 \<leftarrow> Widget_Port inst ''Value'' ''0'' (addr ''Button_Activate'') m3;
     m5 \<leftarrow> setLongs inst [(''local'', p), (''Activate'', addr ''Button_Activate'')] m4;
     m6 \<leftarrow> Widget_Port inst ''Enable'' ''1'' (addr ''Button_OnEnable'') m5;
     m7 \<leftarrow> InitPosition inst m6;
     (_, m8) \<leftarrow> RegisterInstance (onActivateMsg co) cls inst m7;
     Some m8 }"

definition Button_InstanceStart :: "core \<Rightarrow> (string \<Rightarrow> ptr) \<Rightarrow> ptr \<Rightarrow> ptr \<Rightarrow> ctl \<Rightarrow> (int \<times> ctl) option" where
  "Button_InstanceStart co addr p cls = startControl p
     (buttonProps co addr p cls)"

definition Button_InstanceEnd :: "ptr \<Rightarrow> ctl \<Rightarrow> (int \<times> ctl) option" where
  "Button_InstanceEnd inst = onEnd inst"

definition Button_ClassStart :: "(string \<Rightarrow> ptr) \<Rightarrow> string \<Rightarrow> string \<Rightarrow> ptr \<Rightarrow> machine \<Rightarrow> (ptr \<times> machine) option" where
  "Button_ClassStart addr js css = control_class ''Button'' addr
     (published 0 js css [(''Label'', PROP_TEXTBOX, ''Activate''), (''Enable'', PROP_CHECKBOX, ''1''), (''Value'', PROP_NULL, ''0''), (''State'', PROP_LED, ''1'')])"

definition Button_init :: "(string \<Rightarrow> ptr) \<Rightarrow> machine \<Rightarrow> (ptr \<times> machine) option" where
  "Button_init = control_library ''Button'' ''8da17004-242c-4f21-a77e-6a823a52c730''"

end
