(* ===== verification/Timed.thy ===== *)
theory Timed
  imports Controls
begin

text \<open>
  Modules that work by the clock: \<open>src/objects/mobutton/mobutton.c\<close>, \<open>pulse/pulseobj.c\<close>,
  \<open>pulsegenerator/pulsegenerator.c\<close> and \<open>stopwatch/stopwatch.c\<close>.  A struct holds the address of its task, \<open>None\<close> for NULL;
  the function of a task is \<open>FOther\<close> with the address of the function.  \<open>invoke\<close> calls the function of a task, as in
  \<open>Sched\<close>.
\<close>

subsection \<open>Tasks\<close>

definition armTask :: "addr option \<Rightarrow> int \<Rightarrow> ptr \<Rightarrow> ptr \<Rightarrow> machine \<Rightarrow> machine option" where
  "armTask task millis fn inst m = do { t \<leftarrow> task; AddTaskMilli t (word_of_int millis) (Some (FOther fn)) (Some inst) m }"

definition newTask :: "machine \<Rightarrow> (addr \<times> machine) option" where
  "newTask m = do { l \<leftarrow> ObjGetTaskList m; Some (CreateTask l m) }"

type_synonym invoker = "(func, ptr, fabric) invoke"

definition dropTask :: "invoker \<Rightarrow> addr option \<Rightarrow> machine \<Rightarrow> machine option" where
  "dropTask invoke task m = (case task of None \<Rightarrow> Some m | Some t \<Rightarrow> DeleteTask invoke t m)"

definition intProp :: "ptr \<Rightarrow> string \<Rightarrow> 'l module \<Rightarrow> (int \<times> 'l module) option" where
  "intProp inst name s = do { (v, s1) \<leftarrow> onMach (onNodes (GetPropInt inst name)) s; Some (sint v, s1) }"

definition putStr :: "ptr \<Rightarrow> string \<Rightarrow> string \<Rightarrow> 'l module \<Rightarrow> 'l module option" where
  "putStr inst name text = doMach (SetPropStr inst name (Some text))"

text \<open>\<open>Enable\<close>: the flag and what the property shows.\<close>

definition setEnabled :: "ptr \<Rightarrow> ptr \<Rightarrow> bool \<Rightarrow> 'l gated_scheme module \<Rightarrow> 'l gated_scheme module option" where
  "setEnabled inst p on s = do {
     s1 \<leftarrow> setLocal p (\<lambda>l. l\<lparr>enabled := on\<rparr>) s;
     doMach (mirror inst ''Enable'' (Some (flag on))) s1 }"

subsection \<open>MoButton\<close>

record modata = control +
  down :: bool
  repeat :: "addr option"

definition MoButton_Edge :: "ptr \<Rightarrow> string \<Rightarrow> modata module \<Rightarrow> modata module option" where
  "MoButton_Edge inst level = putStr inst ''Value'' level"

text \<open>The function of the task; it does not look at the reason it is called for.\<close>

definition MoButton_Repeat :: "(string \<Rightarrow> ptr) \<Rightarrow> ptr \<Rightarrow> modata module \<Rightarrow> (int \<times> modata module) option" where
  "MoButton_Repeat addr inst s = do {
     ((_, l), s1) \<leftarrow> structOf inst s;
     (case l of None \<Rightarrow> Some (rtrn_handled, s1)
      | Some l \<Rightarrow> if \<not> down l \<or> \<not> enabled l then Some (rtrn_handled, s1) else do {
          s2 \<leftarrow> MoButton_Edge inst ''1'' s1;
          (interval, s3) \<leftarrow> intProp inst ''Interval'' s2;
          s4 \<leftarrow> (if 0 < interval then doMach (armTask (repeat l) interval (addr ''MoButton_Repeat'') inst) s3 else Some s3);
          Some (rtrn_handled, s4) }) }"

definition MoButton_OnPress :: "(string \<Rightarrow> ptr) \<Rightarrow> ptr \<Rightarrow> int \<Rightarrow> ptr \<Rightarrow> modata module \<Rightarrow> (int \<times> modata module) option" where
  "MoButton_OnPress addr inst message data s = do {
     ((p, lo), s1) \<leftarrow> structOf inst s;
     (case lo of
        None \<Rightarrow> do { s2 \<leftarrow> doMach (logName inst) s1; Some (rtrn_dropped, s2) }
      | Some l \<Rightarrow> if \<not> enabled l \<or> message = msg_eof then do { s2 \<leftarrow> doMach (logName inst) s1; Some (rtrn_dropped, s2) }
          else do {
            (val, s2) \<leftarrow> onMach (onNodes (GetValueInt data)) s1;
            let press = (val \<noteq> 0);
            if press = down l then Some (rtrn_handled, s2)
            else do {
              s3 \<leftarrow> setLocal p (\<lambda>l. l\<lparr>down := press\<rparr>) s2;
              s4 \<leftarrow> doMach (logName inst) s3;
              s5 \<leftarrow> MoButton_Edge inst (flag press) s4;
              (interval, s6) \<leftarrow> intProp inst ''Interval'' s5;
              s7 \<leftarrow> (if press \<and> 0 < interval \<and> repeat l \<noteq> None
                     then doMach (armTask (repeat l) interval (addr ''MoButton_Repeat'') inst) s6 else Some s6);
              Some (rtrn_handled, s7) } }) }"

definition MoButton_OnEnable :: "ptr \<Rightarrow> int \<Rightarrow> ptr \<Rightarrow> modata module \<Rightarrow> (int \<times> modata module) option" where
  "MoButton_OnEnable inst message data s = do {
     ((p, lo), s1) \<leftarrow> structOf inst s;
     (case lo of None \<Rightarrow> Some (rtrn_dropped, s1)
      | Some l \<Rightarrow> if message \<noteq> msg_send then Some (rtrn_dropped, s1) else do {
          (val, s2) \<leftarrow> onMach (onNodes (GetValueInt data)) s1;
          s3 \<leftarrow> setEnabled inst p (val \<noteq> 0) s2;
          s4 \<leftarrow> (if val = 0 \<and> down l then do { sa \<leftarrow> setLocal p (\<lambda>l. l\<lparr>down := False\<rparr>) s3; MoButton_Edge inst ''0'' sa } else Some s3);
          Some (rtrn_handled, s4) }) }"

definition MoButton_Activate :: "ptr \<Rightarrow> modata module \<Rightarrow> (int \<times> modata module) option" where
  "MoButton_Activate inst s = do {
     ((p, lo), s1) \<leftarrow> structOf inst s;
     (case lo of None \<Rightarrow> Some (rtrn_dropped, s1)
      | Some l \<Rightarrow> if live l then Some (rtrn_dropped, s1) else do {
          s2 \<leftarrow> setLocal p (\<lambda>l. l\<lparr>live := True\<rparr>) s1;
          s3 \<leftarrow> doMach (SetPropInt inst ''State'' Running) s2;
          Some (rtrn_handled, s3) }) }"

definition MoButton_InstanceStart :: "core \<Rightarrow> (string \<Rightarrow> ptr) \<Rightarrow> ptr \<Rightarrow> ptr \<Rightarrow> modata module \<Rightarrow> (int \<times> modata module) option" where
  "MoButton_InstanceStart co addr p cls s = do {
     (inst, m1) \<leftarrow> namedNode ''MoButton'' (mach s);
     m2 \<leftarrow> setStrs inst [(''Label'', ''Press''), (''Value'', ''0'')] m1;
     m3 \<leftarrow> setInts inst [(''Interval'', 0), (''State'', 1)] m2;
     m4 \<leftarrow> setLongs inst [(''local'', p), (''Activate'', addr ''MoButton_Activate'')] m3;
     m5 \<leftarrow> onPort inst ''Value'' (addr ''MoButton_OnPress'') m4;
     m6 \<leftarrow> Widget_Port inst ''Enable'' ''1'' (addr ''MoButton_OnEnable'') m5;
     (t, m7) \<leftarrow> newTask m6;
     m8 \<leftarrow> InitPosition inst m7;
     (_, m9) \<leftarrow> RegisterInstance (onActivateMsg co) cls inst m8;
     Some (rtrn_handled, newLocal p \<lparr>enabled = True, live = False, down = False, repeat = Some t\<rparr> (s\<lparr>mach := m9\<rparr>)) }"

definition MoButton_InstanceEnd :: "invoker \<Rightarrow> ptr \<Rightarrow> modata module \<Rightarrow> (int \<times> modata module) option" where
  "MoButton_InstanceEnd invoke inst s = do {
     ((p, lo), s1) \<leftarrow> structOf inst s;
     (case lo of None \<Rightarrow> Some (rtrn_handled, s1)
      | Some l \<Rightarrow> do {
          s2 \<leftarrow> doMach (dropTask invoke (repeat l)) s1;
          s3 \<leftarrow> freeLocal p s2;
          Some (rtrn_handled, s3) }) }"

definition MoButton_ClassStart :: "(string \<Rightarrow> ptr) \<Rightarrow> string \<Rightarrow> string \<Rightarrow> ptr \<Rightarrow> machine \<Rightarrow> (ptr \<times> machine) option" where
  "MoButton_ClassStart addr js css = control_class ''MoButton'' addr (published 0 js css
     [(''Label'', PROP_TEXTBOX, ''Press''), (''Value'', PROP_LED, ''0''), (''Interval'', PROP_TEXTBOX, ''0''),
      (''Enable'', PROP_CHECKBOX, ''1''), (''State'', PROP_LED, ''1'')])"

definition MoButton_init :: "(string \<Rightarrow> ptr) \<Rightarrow> machine \<Rightarrow> (ptr \<times> machine) option" where
  "MoButton_init = control_library ''MoButton'' ''b6f04a19-7c25-4d83-9e61-30af5d8c2b47''"

subsection \<open>Pulse\<close>

record pulsedata = control +
  ptask :: "addr option"
  sent :: int
  rising :: bool
  scheduled :: bool

definition Pulse_CurrentInterval :: "ptr \<Rightarrow> pulsedata module \<Rightarrow> (int \<times> pulsedata module) option" where
  "Pulse_CurrentInterval inst s = do {
     (interval, s1) \<leftarrow> intProp inst ''Interval'' s;
     Some (if interval < 1 then 1000 else interval, s1) }"

text \<open>The next tick.\<close>

definition pulseArm :: "(string \<Rightarrow> ptr) \<Rightarrow> ptr \<Rightarrow> ptr \<Rightarrow> pulsedata module \<Rightarrow> pulsedata module option" where
  "pulseArm addr inst p s = do {
     l \<leftarrow> locals s p;
     (interval, s1) \<leftarrow> Pulse_CurrentInterval inst s;
     s2 \<leftarrow> doMach (armTask (ptask l) interval (addr ''Pulse_Tick'') inst) s1;
     setLocal p (\<lambda>l. l\<lparr>scheduled := True\<rparr>) s2 }"

definition sendOut :: "ptr \<Rightarrow> int \<Rightarrow> string option \<Rightarrow> machine \<Rightarrow> machine option" where
  "sendOut inst message text m = (case text of
     None \<Rightarrow> map_option snd (SndMsg inst ''Out'' message 0 m)
   | Some t \<Rightarrow> let (edge, m1) = newNode STRING m in do {
       m2 \<leftarrow> doNodes (SetName edge ''Data'') m1;
       m3 \<leftarrow> doNodes (SetValueStr edge (Some t)) m2;
       map_option snd (SndMsg inst ''Out'' message edge m3) })"

definition Stopping :: "32 word" where "Stopping = 0"

text \<open>After an edge: true when the train is over.\<close>

definition pulseNext :: "ptr \<Rightarrow> ptr \<Rightarrow> pulsedata \<Rightarrow> pulsedata module \<Rightarrow> (bool \<times> pulsedata module) option" where
  "pulseNext inst p l s = (if rising l then do { s1 \<leftarrow> setLocal p (\<lambda>l. l\<lparr>rising := False\<rparr>) s; Some (False, s1) }
     else if 2 ^ 31 \<le> sent l + 1 then None
     else do {
       s1 \<leftarrow> setLocal p (\<lambda>l. l\<lparr>rising := True, sent := sent l + 1\<rparr>) s;
       (count, s2) \<leftarrow> intProp inst ''Count'' s1;
       Some (0 < count \<and> count \<le> sent l + 1, s2) })"

definition Pulse_Tick :: "(string \<Rightarrow> ptr) \<Rightarrow> ptr \<Rightarrow> int \<Rightarrow> pulsedata module \<Rightarrow> (int \<times> pulsedata module) option" where
  "Pulse_Tick addr inst reason s = do {
     ((p, lo), s1) \<leftarrow> structOf inst s;
     if reason = task_deactivate then Some (rtrn_handled, s1)
     else (case lo of None \<Rightarrow> Some (rtrn_dropped, s1)
      | Some l \<Rightarrow> if \<not> live l then Some (rtrn_dropped, s1) else do {
          s2 \<leftarrow> setLocal p (\<lambda>l. l\<lparr>scheduled := False\<rparr>) s1;
          if \<not> enabled l then Some (rtrn_handled, s2)
          else do {
            s3 \<leftarrow> doMach (sendOut inst msg_send (Some (flag (rising l)))) s2;
            (over, s4) \<leftarrow> pulseNext inst p l s3;
            if over then do {
              s5 \<leftarrow> doMach (sendOut inst msg_eof None) s4;
              s6 \<leftarrow> setLocal p (\<lambda>l. l\<lparr>live := False\<rparr>) s5;
              s7 \<leftarrow> doMach (SetPropInt inst ''State'' Stopping) s6;
              Some (rtrn_handled, s7) }
            else do { s5 \<leftarrow> pulseArm addr inst p s4; Some (rtrn_handled, s5) } } }) }"

definition Pulse_OnEnable :: "(string \<Rightarrow> ptr) \<Rightarrow> ptr \<Rightarrow> int \<Rightarrow> ptr \<Rightarrow> pulsedata module \<Rightarrow> (int \<times> pulsedata module) option" where
  "Pulse_OnEnable addr inst message data s = do {
     ((p, lo), s1) \<leftarrow> structOf inst s;
     (case lo of None \<Rightarrow> Some (rtrn_dropped, s1)
      | Some l \<Rightarrow> if message \<noteq> msg_send then Some (rtrn_dropped, s1) else do {
          (val, s2) \<leftarrow> onMach (onNodes (GetValueInt data)) s1;
          if val \<noteq> 0 \<and> enabled l then Some (rtrn_handled, s2)
          else do {
            s3 \<leftarrow> setEnabled inst p (val \<noteq> 0) s2;
            s4 \<leftarrow> (if val \<noteq> 0 \<and> live l \<and> \<not> scheduled l then pulseArm addr inst p s3 else Some s3);
            Some (rtrn_handled, s4) } }) }"

definition Pulse_Activate :: "(string \<Rightarrow> ptr) \<Rightarrow> ptr \<Rightarrow> pulsedata module \<Rightarrow> (int \<times> pulsedata module) option" where
  "Pulse_Activate addr inst s = do {
     ((p, lo), s1) \<leftarrow> structOf inst s;
     (case lo of None \<Rightarrow> Some (rtrn_dropped, s1)
      | Some l \<Rightarrow> if live l then Some (rtrn_dropped, s1) else do {
          s2 \<leftarrow> setLocal p (\<lambda>l. l\<lparr>sent := 0, rising := True\<rparr>) s1;
          s3 \<leftarrow> (if ptask l = None then do { (t, sa) \<leftarrow> onMach newTask s2; setLocal p (\<lambda>l. l\<lparr>ptask := Some t\<rparr>) sa } else Some s2);
          s4 \<leftarrow> setLocal p (\<lambda>l. l\<lparr>live := True\<rparr>) s3;
          s5 \<leftarrow> doMach (SetPropInt inst ''State'' Running) s4;
          s6 \<leftarrow> pulseArm addr inst p s5;
          Some (rtrn_handled, s6) }) }"

definition PulsePanel :: "(string \<Rightarrow> ptr) \<Rightarrow> widgetItem list" where
  "PulsePanel addr = [
     item ''View'' ''Pulse'' '''' 0 0 0 300 230 0 0,
     item ''Help'' ''objects/pulse/README.md'' '''' 0 0 0 0 0 0 0,
     item ''Checkbox'' ''Enable'' ''1'' 0 270 12 9 9 LABEL_LEFT (addr ''Pulse_OnEnable''),
     item ''Knob'' ''Interval'' ''1000'' 0 15 45 60 60 LABEL_NONE 0,
     item ''Textbox'' ''Count'' ''0'' 0 100 55 80 22 LABEL_NONE 0,
     item ''LED'' ''State'' ''1'' 0 15 135 12 12 LABEL_NONE 0,
     item ''LED'' ''Out'' ''0'' 0 70 135 12 12 LABEL_NONE 0]"

definition Pulse_InstanceStart :: "caller \<Rightarrow> core \<Rightarrow> (string \<Rightarrow> ptr) \<Rightarrow> ptr \<Rightarrow> ptr \<Rightarrow> ptr \<Rightarrow> pulsedata module \<Rightarrow> (int \<times> pulsedata module) option" where
  "Pulse_InstanceStart call co addr p c data s = do {
     (_, s1) \<leftarrow> onMach (widget_instance call co ''Pulse'' (PulsePanel addr)
         (\<lambda>inst. setLongs inst [(''local'', p), (''Activate'', addr ''Pulse_Activate'')]) c data)
       (newLocal p \<lparr>enabled = True, live = False, ptask = None, sent = 0, rising = True, scheduled = False\<rparr> s);
     Some (rtrn_handled, s1) }"

definition Pulse_InstanceEnd :: "invoker \<Rightarrow> ptr \<Rightarrow> pulsedata module \<Rightarrow> (int \<times> pulsedata module) option" where
  "Pulse_InstanceEnd invoke inst s = do {
     ((p, lo), s1) \<leftarrow> structOf inst s;
     (case lo of None \<Rightarrow> Some (rtrn_handled, s1)
      | Some l \<Rightarrow> do {
          s2 \<leftarrow> doMach (dropTask invoke (ptask l)) s1;
          s3 \<leftarrow> freeLocal p s2;
          Some (rtrn_handled, s3) }) }"

definition Pulse_ClassStart :: "(string \<Rightarrow> ptr) \<Rightarrow> ptr \<Rightarrow> machine \<Rightarrow> (ptr \<times> machine) option" where
  "Pulse_ClassStart addr = widget_class ''Pulse'' (PulsePanel addr) addr []"

definition Pulse_init :: "(string \<Rightarrow> ptr) \<Rightarrow> machine \<Rightarrow> (ptr \<times> machine) option" where
  "Pulse_init addr = widget_library ''Pulse'' ''2b37c4c7-54d9-47d6-95e5-2dbffa208fa3'' addr
     [(''checkbox.object'', ''Checkbox''), (''knob.object'', ''Knob''), (''led.object'', ''LED''), (''textbox.object'', ''Textbox''),
      (''view.object'', ''View'')]"

subsection \<open>PulseGenerator\<close>

record pgdata = gated +
  running :: bool
  high :: bool
  gtask :: "addr option"

text \<open>The widths of a period: the product is an \<open>int\<close>.\<close>

definition pulseWidths :: "int \<Rightarrow> int \<Rightarrow> (int \<times> int) option" where
  "pulseWidths period0 duty0 = (let period = (if period0 < 1 then 1000 else period0); duty = min 100 (max 0 duty0) in
     if 2 ^ 31 \<le> period * duty then None
     else let on = max 1 (period * duty div 100) in Some (on, max 1 (period - on)))"

definition PulseGen_Widths :: "ptr \<Rightarrow> pgdata module \<Rightarrow> ((int \<times> int) \<times> pgdata module) option" where
  "PulseGen_Widths inst s = do {
     (period, s1) \<leftarrow> intProp inst ''Period'' s;
     (duty, s2) \<leftarrow> intProp inst ''DutyCycle'' s1;
     w \<leftarrow> pulseWidths period duty;
     Some (w, s2) }"

definition PulseGen_Emit :: "ptr \<Rightarrow> bool \<Rightarrow> pgdata module \<Rightarrow> pgdata module option" where
  "PulseGen_Emit inst level s = do {
     s1 \<leftarrow> putStr inst ''Out'' (flag level) s;
     putStr inst ''NotOut'' (flag (\<not> level)) s1 }"

definition PulseGen_Arm :: "(string \<Rightarrow> ptr) \<Rightarrow> ptr \<Rightarrow> ptr \<Rightarrow> int \<Rightarrow> pgdata module \<Rightarrow> pgdata module option" where
  "PulseGen_Arm addr inst p millis s = do {
     l \<leftarrow> locals s p;
     doMach (armTask (gtask l) millis (addr ''PulseGen_Tick'') inst) s }"

definition PulseGen_Tick :: "(string \<Rightarrow> ptr) \<Rightarrow> ptr \<Rightarrow> int \<Rightarrow> pgdata module \<Rightarrow> (int \<times> pgdata module) option" where
  "PulseGen_Tick addr inst reason s = do {
     ((p, lo), s1) \<leftarrow> structOf inst s;
     if reason = task_deactivate then Some (rtrn_handled, s1)
     else (case lo of None \<Rightarrow> Some (rtrn_dropped, s1)
      | Some l \<Rightarrow> if \<not> running l then Some (rtrn_dropped, s1) else if \<not> enabled l then Some (rtrn_handled, s1) else do {
          ((onW, offW), s2) \<leftarrow> PulseGen_Widths inst s1;
          s3 \<leftarrow> PulseGen_Emit inst (\<not> high l) s2;
          s4 \<leftarrow> setLocal p (\<lambda>l. l\<lparr>high := \<not> high l\<rparr>) s3;
          if high l then do {
            (shot, s5) \<leftarrow> intProp inst ''OneShot'' s4;
            if shot \<noteq> 0 then do {
              s6 \<leftarrow> putStr inst ''Active'' ''0'' s5;
              s7 \<leftarrow> setLocal p (\<lambda>l. l\<lparr>running := False\<rparr>) s6;
              Some (rtrn_handled, s7) }
            else do { s6 \<leftarrow> PulseGen_Arm addr inst p offW s5; Some (rtrn_handled, s6) } }
          else do { s5 \<leftarrow> PulseGen_Arm addr inst p onW s4; Some (rtrn_handled, s5) } }) }"

definition PulseGen_DoStart :: "(string \<Rightarrow> ptr) \<Rightarrow> ptr \<Rightarrow> pgdata module \<Rightarrow> pgdata module option" where
  "PulseGen_DoStart addr inst s = do {
     ((p, lo), s1) \<leftarrow> structOf inst s;
     (case lo of None \<Rightarrow> Some s1
      | Some l \<Rightarrow> if \<not> enabled l then Some s1 else do {
          (again, s2) \<leftarrow> (if running l then intProp inst ''Retriggerable'' s1 else Some (1, s1));
          if again = 0 then Some s2
          else do {
            s3 \<leftarrow> (if gtask l = None then do { (t, sa) \<leftarrow> onMach newTask s2; setLocal p (\<lambda>l. l\<lparr>gtask := Some t\<rparr>) sa } else Some s2);
            ((onW, _), s4) \<leftarrow> PulseGen_Widths inst s3;
            s5 \<leftarrow> setLocal p (\<lambda>l. l\<lparr>running := True\<rparr>) s4;
            s6 \<leftarrow> putStr inst ''Active'' ''1'' s5;
            s7 \<leftarrow> PulseGen_Emit inst True s6;
            s8 \<leftarrow> setLocal p (\<lambda>l. l\<lparr>high := True\<rparr>) s7;
            PulseGen_Arm addr inst p onW s8 } }) }"

definition PulseGen_DoStop :: "ptr \<Rightarrow> pgdata module \<Rightarrow> pgdata module option" where
  "PulseGen_DoStop inst s = do {
     ((p, lo), s1) \<leftarrow> structOf inst s;
     (case lo of None \<Rightarrow> Some s1
      | Some l \<Rightarrow> do {
          s2 \<leftarrow> (if high l then PulseGen_Emit inst False s1 else Some s1);
          s3 \<leftarrow> setLocal p (\<lambda>l. l\<lparr>high := False, running := False\<rparr>) s2;
          putStr inst ''Active'' ''0'' s3 }) }"

text \<open>A write of something other than 0 acts.\<close>

definition onPressed :: "('l module \<Rightarrow> 'l module option) \<Rightarrow> int \<Rightarrow> ptr \<Rightarrow> 'l module \<Rightarrow> (int \<times> 'l module) option" where
  "onPressed act message data s = (if message = msg_eof then Some (rtrn_handled, s) else do {
     (val, s1) \<leftarrow> onMach (onNodes (GetValueInt data)) s;
     if val = 0 then Some (rtrn_handled, s1) else do { s2 \<leftarrow> act s1; Some (rtrn_handled, s2) } })"

definition PulseGen_OnStart :: "(string \<Rightarrow> ptr) \<Rightarrow> ptr \<Rightarrow> int \<Rightarrow> ptr \<Rightarrow> pgdata module \<Rightarrow> (int \<times> pgdata module) option" where
  "PulseGen_OnStart addr inst = onPressed (PulseGen_DoStart addr inst)"

definition PulseGen_OnStop :: "ptr \<Rightarrow> int \<Rightarrow> ptr \<Rightarrow> pgdata module \<Rightarrow> (int \<times> pgdata module) option" where
  "PulseGen_OnStop inst = onPressed (PulseGen_DoStop inst)"

text \<open>\<open>Run-when-Enabled\<close>.\<close>

definition autoStart :: "(string \<Rightarrow> ptr) \<Rightarrow> ptr \<Rightarrow> pgdata module \<Rightarrow> pgdata module option" where
  "autoStart addr inst s = do {
     (auto, s1) \<leftarrow> intProp inst ''AutoStart'' s;
     if auto \<noteq> 0 then PulseGen_DoStart addr inst s1 else Some s1 }"

definition PulseGen_OnEnable :: "(string \<Rightarrow> ptr) \<Rightarrow> ptr \<Rightarrow> int \<Rightarrow> ptr \<Rightarrow> pgdata module \<Rightarrow> (int \<times> pgdata module) option" where
  "PulseGen_OnEnable addr inst message data s = do {
     ((p, lo), s1) \<leftarrow> structOf inst s;
     if lo = None \<or> message \<noteq> msg_send then Some (rtrn_dropped, s1)
     else do {
       (val, s2) \<leftarrow> onMach (onNodes (GetValueInt data)) s1;
       s3 \<leftarrow> setEnabled inst p (val \<noteq> 0) s2;
       s4 \<leftarrow> (if val = 0 then PulseGen_DoStop inst s3 else autoStart addr inst s3);
       Some (rtrn_handled, s4) } }"

definition PulseGen_Activate :: "(string \<Rightarrow> ptr) \<Rightarrow> ptr \<Rightarrow> pgdata module \<Rightarrow> (int \<times> pgdata module) option" where
  "PulseGen_Activate addr inst s = do {
     ((p, lo), s1) \<leftarrow> structOf inst s;
     (case lo of None \<Rightarrow> Some (rtrn_dropped, s1)
      | Some l \<Rightarrow> do {
          s2 \<leftarrow> setLocal p (\<lambda>l. l\<lparr>high := False, running := False\<rparr>) s1;
          s3 \<leftarrow> putStr inst ''Active'' ''0'' s2;
          s4 \<leftarrow> putStr inst ''NotOut'' ''1'' s3;
          s5 \<leftarrow> (if enabled l then autoStart addr inst s4 else Some s4);
          Some (rtrn_handled, s5) }) }"

definition PulseGenPanel :: "(string \<Rightarrow> ptr) \<Rightarrow> widgetItem list" where
  "PulseGenPanel addr = [
     item ''View'' ''PulseGenerator'' '''' 0 0 0 300 250 0 0,
     item ''Help'' ''objects/pulsegenerator/README.md'' '''' 0 0 0 0 0 0 0,
     item ''Checkbox'' ''Enable'' ''1'' 0 206 13 9 9 LABEL_LEFT (addr ''PulseGen_OnEnable''),
     item ''MoButton'' ''Start'' ''0'' 0 19 46 40 20 LABEL_NONE (addr ''PulseGen_OnStart''),
     item ''MoButton'' ''Stop'' ''0'' 0 19 75 40 20 LABEL_NONE (addr ''PulseGen_OnStop''),
     item ''Textbox'' ''Period'' ''1000'' 0 99 46 120 20 LABEL_NONE 0,
     item ''Textbox'' ''DutyCycle'' ''50'' 0 99 86 120 20 LABEL_NONE 0,
     item ''LED'' ''Out'' ''0'' 0 233 45 12 12 LABEL_NONE 0,
     item ''LED'' ''NotOut'' ''1'' 0 233 80 12 12 LABEL_NONE 0,
     item ''LED'' ''Active'' ''0'' 0 32 132 12 12 LABEL_NONE 0,
     item ''Checkbox'' ''OneShot'' ''1'' 0 99 128 9 9 LABEL_NONE 0,
     item ''Checkbox'' ''Retriggerable'' ''0'' 0 99 146 9 9 LABEL_NONE 0,
     item ''Checkbox'' ''AutoStart'' ''0'' 0 99 164 9 9 LABEL_NONE 0]"

definition PulseGen_InstanceStart :: "caller \<Rightarrow> core \<Rightarrow> (string \<Rightarrow> ptr) \<Rightarrow> ptr \<Rightarrow> ptr \<Rightarrow> ptr \<Rightarrow> pgdata module \<Rightarrow> (int \<times> pgdata module) option" where
  "PulseGen_InstanceStart call co addr p c data s = do {
     (_, s1) \<leftarrow> onMach (widget_instance call co ''PulseGenerator'' (PulseGenPanel addr) (startProps p (addr ''PulseGen_Activate'')) c data)
       (newLocal p \<lparr>enabled = True, running = False, high = False, gtask = None\<rparr> s);
     Some (rtrn_handled, s1) }"

definition PulseGen_InstanceEnd :: "invoker \<Rightarrow> ptr \<Rightarrow> pgdata module \<Rightarrow> (int \<times> pgdata module) option" where
  "PulseGen_InstanceEnd invoke inst s = do {
     ((p, lo), s1) \<leftarrow> structOf inst s;
     (case lo of None \<Rightarrow> Some (rtrn_handled, s1)
      | Some l \<Rightarrow> do {
          s2 \<leftarrow> doMach (dropTask invoke (gtask l)) s1;
          s3 \<leftarrow> freeLocal p s2;
          Some (rtrn_handled, s3) }) }"

definition PulseGen_ClassStart :: "(string \<Rightarrow> ptr) \<Rightarrow> ptr \<Rightarrow> machine \<Rightarrow> (ptr \<times> machine) option" where
  "PulseGen_ClassStart addr = widget_class ''PulseGenerator'' (PulseGenPanel addr) addr [(''State'', PROP_LED, ''1'')]"

definition PulseGen_init :: "(string \<Rightarrow> ptr) \<Rightarrow> machine \<Rightarrow> (ptr \<times> machine) option" where
  "PulseGen_init addr = widget_library ''PulseGenerator'' ''a3f9d21c-7e64-4b8a-9c15-2d0e83b6f512'' addr
     [(''checkbox.object'', ''Checkbox''), (''led.object'', ''LED''), (''mobutton.object'', ''MoButton''), (''textbox.object'', ''Textbox''),
      (''view.object'', ''View'')]"

subsection \<open>Stopwatch\<close>

record stopdata = control +
  startSec :: u64
  startUsec :: u64
  lastMs :: int

definition Stopwatch_Is :: "ptr \<Rightarrow> string \<Rightarrow> string \<Rightarrow> stopdata module \<Rightarrow> (bool \<times> stopdata module) option" where
  "Stopwatch_Is inst name val s = do {
     (cur, s1) \<leftarrow> onMach (onNodes (GetPropStr inst name)) s;
     Some (cur = Some val, s1) }"

text \<open>\<open>sprintf("%.3f", ms / 1000.0)\<close>, the exact decimal: a \<open>double\<close> holds it to three places below \<open>2 ^ 43\<close> seconds, and
  above that the result here is \<open>None\<close>.\<close>

definition showSeconds :: "int \<Rightarrow> string option" where
  "showSeconds ms = (if 2 ^ 43 * 1000 \<le> ms then None
     else let r = sprintf_d (ms mod 1000) in Some (sprintf_d (ms div 1000) @ ''.'' @ replicate (3 - length r) (CHR ''0'') @ r))"

definition Stopwatch_ShowDuration :: "ptr \<Rightarrow> stopdata module \<Rightarrow> stopdata module option" where
  "Stopwatch_ShowDuration inst s = do {
     ((_, lo), s1) \<leftarrow> structOf inst s;
     (case lo of None \<Rightarrow> putStr inst ''Duration'' '''' s1
      | Some l \<Rightarrow> if lastMs l < 0 then putStr inst ''Duration'' '''' s1 else do {
          (secs, s2) \<leftarrow> Stopwatch_Is inst ''TimeUnits'' ''secs'' s1;
          text \<leftarrow> (if secs then showSeconds (lastMs l) else Some (sprintf_d (lastMs l)));
          putStr inst ''Duration'' text s2 }) }"

definition Stopwatch_Start :: "ptr \<Rightarrow> stopdata module \<Rightarrow> stopdata module option" where
  "Stopwatch_Start inst s = do {
     ((p, lo), s1) \<leftarrow> structOf inst s;
     (case lo of None \<Rightarrow> Some s1
      | Some l \<Rightarrow> if \<not> enabled l \<or> live l then Some s1 else do {
          s2 \<leftarrow> setLocal p (\<lambda>l. l\<lparr>startSec := clock_s (mach s1), startUsec := clock_us (mach s1), live := True\<rparr>) s1;
          s3 \<leftarrow> putStr inst ''OnEvent'' ''1'' s2;
          putStr inst ''OffEvent'' ''0'' s3 }) }"

text \<open>The milliseconds between two readings of the clock: a \<open>long\<close>, the quotient truncated.\<close>

definition elapsedMs :: "u64 \<Rightarrow> u64 \<Rightarrow> u64 \<Rightarrow> u64 \<Rightarrow> int option" where
  "elapsedMs s0 u0 s1 u1 = (let secs = sint (s1 - s0) * 1000; us = sint u1 - sint u0; ms = secs + (if 0 \<le> us then us div 1000 else - (- us div 1000)) in
     if secs < - (2 ^ 63) \<or> 2 ^ 63 \<le> secs \<or> us < - (2 ^ 63) \<or> 2 ^ 63 \<le> us \<or> ms < - (2 ^ 63) \<or> 2 ^ 63 \<le> ms then None
     else Some (max 0 ms))"

definition Stopwatch_StopTimer :: "ptr \<Rightarrow> stopdata module \<Rightarrow> stopdata module option" where
  "Stopwatch_StopTimer inst s = do {
     ((p, lo), s1) \<leftarrow> structOf inst s;
     (case lo of None \<Rightarrow> Some s1
      | Some l \<Rightarrow> if \<not> live l then Some s1 else do {
          ms \<leftarrow> elapsedMs (startSec l) (startUsec l) (clock_s (mach s1)) (clock_us (mach s1));
          s2 \<leftarrow> setLocal p (\<lambda>l. l\<lparr>lastMs := ms, live := False\<rparr>) s1;
          s3 \<leftarrow> putStr inst ''OnEvent'' ''0'' s2;
          s4 \<leftarrow> putStr inst ''OffEvent'' ''1'' s3;
          Stopwatch_ShowDuration inst s4 }) }"

text \<open>Whether a level is the edge a property asks for.\<close>

definition edgeIs :: "ptr \<Rightarrow> string \<Rightarrow> bool \<Rightarrow> stopdata module \<Rightarrow> (bool \<times> stopdata module) option" where
  "edgeIs inst name level s = Stopwatch_Is inst name (if level then ''Positive'' else ''Negative'') s"

definition Stopwatch_OnRun :: "ptr \<Rightarrow> int \<Rightarrow> ptr \<Rightarrow> stopdata module \<Rightarrow> (int \<times> stopdata module) option" where
  "Stopwatch_OnRun inst message data s = do {
     ((_, lo), s1) \<leftarrow> structOf inst s;
     if lo = None \<or> message = msg_eof then Some (rtrn_handled, s1)
     else do {
       (v, s2) \<leftarrow> onMach (onNodes (GetValueInt data)) s1;
       (begins, s3) \<leftarrow> edgeIs inst ''RunEdge'' (v \<noteq> 0) s2;
       s4 \<leftarrow> (if begins then Stopwatch_Start inst s3 else Some s3);
       (ends, s5) \<leftarrow> edgeIs inst ''RunEdge'' (v = 0) s4;
       (both, s6) \<leftarrow> (if ends then Stopwatch_Is inst ''StopEdge'' ''Run Ends'' s5 else Some (False, s5));
       s7 \<leftarrow> (if both then Stopwatch_StopTimer inst s6 else Some s6);
       Some (rtrn_handled, s7) } }"

definition Stopwatch_OnStop :: "ptr \<Rightarrow> int \<Rightarrow> ptr \<Rightarrow> stopdata module \<Rightarrow> (int \<times> stopdata module) option" where
  "Stopwatch_OnStop inst message data s = (if message = msg_eof then Some (rtrn_handled, s) else do {
     (v, s1) \<leftarrow> onMach (onNodes (GetValueInt data)) s;
     (stops, s2) \<leftarrow> edgeIs inst ''StopEdge'' (v \<noteq> 0) s1;
     s3 \<leftarrow> (if stops then Stopwatch_StopTimer inst s2 else Some s2);
     Some (rtrn_handled, s3) })"

definition Stopwatch_OnEnable :: "ptr \<Rightarrow> int \<Rightarrow> ptr \<Rightarrow> stopdata module \<Rightarrow> (int \<times> stopdata module) option" where
  "Stopwatch_OnEnable inst message data s = do {
     ((p, lo), s1) \<leftarrow> structOf inst s;
     if lo = None \<or> message \<noteq> msg_send then Some (rtrn_dropped, s1)
     else do {
       (val, s2) \<leftarrow> onMach (onNodes (GetValueInt data)) s1;
       s3 \<leftarrow> setEnabled inst p (val \<noteq> 0) s2;
       s4 \<leftarrow> (if val = 0 then Stopwatch_StopTimer inst s3 else Some s3);
       Some (rtrn_handled, s4) } }"

definition Stopwatch_OnTimeUnits :: "ptr \<Rightarrow> int \<Rightarrow> ptr \<Rightarrow> stopdata module \<Rightarrow> (int \<times> stopdata module) option" where
  "Stopwatch_OnTimeUnits inst message data s = (if message = msg_eof then Some (rtrn_handled, s) else do {
     (pick, s1) \<leftarrow> (if data \<noteq> 0 then onMach (onNodes (GetValueStr data)) s else Some (None, s));
     s2 \<leftarrow> (if pick \<noteq> None then doMach (mirror inst ''TimeUnits'' pick) s1 else Some s1);
     s3 \<leftarrow> Stopwatch_ShowDuration inst s2;
     Some (rtrn_handled, s3) })"

definition Stopwatch_Activate :: "ptr \<Rightarrow> stopdata module \<Rightarrow> (int \<times> stopdata module) option" where
  "Stopwatch_Activate inst s = do {
     ((p, lo), s1) \<leftarrow> structOf inst s;
     if lo = None then Some (rtrn_dropped, s1)
     else do {
       s2 \<leftarrow> setLocal p (\<lambda>l. l\<lparr>live := False\<rparr>) s1;
       s3 \<leftarrow> putStr inst ''OnEvent'' ''0'' s2;
       s4 \<leftarrow> putStr inst ''OffEvent'' ''1'' s3;
       Some (rtrn_handled, s4) } }"

definition StopwatchPanel :: "(string \<Rightarrow> ptr) \<Rightarrow> widgetItem list" where
  "StopwatchPanel addr = [
     item ''View'' ''Stopwatch'' '''' 0 0 0 300 250 0 0,
     item ''Help'' ''objects/stopwatch/README.md'' '''' 0 0 0 0 0 0 0,
     item ''Checkbox'' ''Enable'' ''1'' 0 205 13 9 9 LABEL_LEFT (addr ''Stopwatch_OnEnable''),
     item ''MoButton'' ''Run'' ''0'' 0 21 52 40 20 LABEL_NONE (addr ''Stopwatch_OnRun''),
     item ''MoButton'' ''Stop'' ''0'' 0 21 82 40 20 LABEL_NONE (addr ''Stopwatch_OnStop''),
     item ''Dropdown'' ''RunEdge'' ''Positive'' 0 96 54 63 14 LABEL_NONE 0,
     item ''Dropdown'' ''StopEdge'' ''Run Ends'' 0 96 94 63 14 LABEL_NONE 0,
     item ''LED'' ''OnEvent'' ''0'' 0 214 52 10 10 LABEL_NONE 0,
     item ''LED'' ''OffEvent'' ''1'' 0 214 88 10 10 LABEL_NONE 0,
     item ''Dropdown'' ''TimeUnits'' ''msecs'' 0 96 142 63 14 LABEL_NONE (addr ''Stopwatch_OnTimeUnits''),
     item ''TextOut'' ''Duration'' '''' 0 185 143 66 13 LABEL_NONE 0]"

definition Stopwatch_InstanceStart :: "caller \<Rightarrow> core \<Rightarrow> (string \<Rightarrow> ptr) \<Rightarrow> ptr \<Rightarrow> ptr \<Rightarrow> ptr \<Rightarrow> stopdata module \<Rightarrow> (int \<times> stopdata module) option" where
  "Stopwatch_InstanceStart call co addr p c data s = do {
     (_, s1) \<leftarrow> onMach (widget_instance call co ''Stopwatch'' (StopwatchPanel addr)
         (\<lambda>inst m. do {
            m1 \<leftarrow> setStrs inst [(''RunEdgeList'', ''Positive,Negative''), (''StopEdgeList'', ''Run Ends,Positive,Negative''),
              (''TimeUnitsList'', ''msecs,secs'')] m;
            startProps p (addr ''Stopwatch_Activate'') inst m1 }) c data)
       (newLocal p \<lparr>enabled = True, live = False, startSec = 0, startUsec = 0, lastMs = -1\<rparr> s);
     Some (rtrn_handled, s1) }"

definition Stopwatch_InstanceEnd :: "ptr \<Rightarrow> stopdata module \<Rightarrow> (int \<times> stopdata module) option" where
  "Stopwatch_InstanceEnd inst = onEnd inst"

definition Stopwatch_ClassStart :: "(string \<Rightarrow> ptr) \<Rightarrow> ptr \<Rightarrow> machine \<Rightarrow> (ptr \<times> machine) option" where
  "Stopwatch_ClassStart addr = widget_class ''Stopwatch'' (StopwatchPanel addr) addr
     [(''RunEdgeList'', PROP_NULL, ''Positive,Negative''), (''StopEdgeList'', PROP_NULL, ''Run Ends,Positive,Negative''),
      (''TimeUnitsList'', PROP_NULL, ''msecs,secs''), (''State'', PROP_LED, ''1'')]"

definition Stopwatch_init :: "(string \<Rightarrow> ptr) \<Rightarrow> machine \<Rightarrow> (ptr \<times> machine) option" where
  "Stopwatch_init addr = widget_library ''Stopwatch'' ''c48b1e37-05a9-4d72-8f61-7b3e2a9c604d'' addr
     [(''checkbox.object'', ''Checkbox''), (''dropdown.object'', ''Dropdown''), (''led.object'', ''LED''), (''mobutton.object'', ''MoButton''),
      (''textout.object'', ''TextOut''), (''view.object'', ''View'')]"

end
