(* ===== verification/Timed_Facts.thy ===== *)
theory Timed_Facts
  imports Timed
begin

text \<open>
  Numbers of the widgets that work by the clock: the two phases of a generator, and what a stopwatch measures.
\<close>

lemma floor_by_hundred:
  fixes n :: int
  shows "100 * (n div 100) \<le> n" "n < 100 * (n div 100 + 1)"
  by presburger+

lemma within_long:
  fixes a b :: int
  assumes "0 \<le> a" and "a < 2 ^ 50" and "\<bar>b\<bar> < 1000"
  shows "\<not> a * 1000 < - (2 ^ 63)" "\<not> 2 ^ 63 \<le> a * 1000" "\<not> a * 1000 + b < - (2 ^ 63)" "\<not> 2 ^ 63 \<le> a * 1000 + b"
  using assms by simp_all



text \<open>C40. A stopwatch is off by less than a millisecond: started and stopped at readings of the clock that are in order, it
  shows a number of milliseconds next to the microseconds between them.\<close>

theorem elapsedMs_error:
  assumes "sint u0 < 10 ^ 6" and "0 \<le> sint u0" and "sint u1 < 10 ^ 6" and "0 \<le> sint u1"
    and "uint s0 \<le> uint s1" and "uint s1 < 2 ^ 50" and "s0 = s1 \<Longrightarrow> sint u0 \<le> sint u1"
  shows "\<exists>ms. elapsedMs s0 u0 s1 u1 = Some ms \<and> 0 \<le> ms
    \<and> \<bar>1000 * ms - ((uint s1 - uint s0) * 10 ^ 6 + (sint u1 - sint u0))\<bar> < 1000"
proof -
  let ?d = "uint s1 - uint s0" and ?us = "sint u1 - sint u0"
  have d: "0 \<le> ?d" "?d < 2 ^ 50" using assms(5,6) uint_ge_0 [of s0] by linarith+
  have u: "uint (s1 - s0) = ?d" using assms(5) by (simp add: uint_sub_if')
  have sd: "sint (s1 - s0) = ?d" using d u by (simp add: sint_uint signed_take_bit_int_eq_self)
  define q where "q = (if 0 \<le> ?us then ?us div 1000 else - (- ?us div 1000))"
  have q: "\<bar>1000 * q - ?us\<bar> < 1000" "-1000 < q" "q < 1000" using assms(1-4) by (auto simp: q_def)
  have pos: "0 \<le> ?d * 1000 + q"
  proof (cases "s0 = s1")
    case True
    then show ?thesis using assms(7) by (simp add: q_def)
  next
    case False
    then have "uint s0 \<noteq> uint s1" by (simp add: word_uint_eq_iff)
    then have "1 \<le> ?d" using assms(5) by linarith
    then have "1000 \<le> ?d * 1000" by simp
    then show ?thesis using q(2) by (smt (verit))
  qed
  have "elapsedMs s0 u0 s1 u1 = Some (max 0 (?d * 1000 + q))"
    using within_long [OF d, of q] assms(1-4) q(2,3)
    by (simp only: elapsedMs_def sd Let_def q_def [symmetric] if_False) (simp add: q_def)
  then show ?thesis using pos q(1) by (simp add: max_def)
qed

theorem elapsedMs_error_witness:
  "\<exists>ms. elapsedMs 100 900000 102 100250 = Some ms \<and> 0 \<le> ms
    \<and> \<bar>1000 * ms - ((uint (102 :: u64) - uint (100 :: u64)) * 10 ^ 6 + (sint (100250 :: u64) - sint (900000 :: u64)))\<bar> < 1000"
  by (rule elapsedMs_error) simp_all

end
