(* ===== verification/Streams.thy ===== *)
theory Streams
  imports Controls Queue
begin

text \<open>
  Modules a stream of messages runs through: \<open>src/objects/filter/filter.c\<close>, \<open>queue/queue.c\<close>, \<open>router/router.c\<close> and
  \<open>out/out.c\<close>.  What \<open>Out\<close> prints is part of its result.
\<close>

subsection \<open>What they share\<close>

definition rtrn_propagate :: int where "rtrn_propagate = 1"

text \<open>\<open>Activate\<close> of a widget that goes live once: \<open>start\<close> is what it does to the struct.\<close>

definition activateOnce :: "('l \<Rightarrow> bool) \<Rightarrow> ('l \<Rightarrow> 'l) \<Rightarrow> ptr \<Rightarrow> 'l module \<Rightarrow> (int \<times> 'l module) option" where
  "activateOnce isLive start inst s = do {
     ((p, lo), s1) \<leftarrow> structOf inst s;
     (case lo of None \<Rightarrow> Some (rtrn_dropped, s1)
      | Some l \<Rightarrow> if isLive l then Some (rtrn_handled, s1) else do {
          s2 \<leftarrow> setLocal p start s1;
          s3 \<leftarrow> doMach (SetPropInt inst ''State'' Running) s2;
          Some (rtrn_handled, s3) }) }"

text \<open>The start of a widget instance with its struct and \<open>Activate\<close>.\<close>

definition localAndActivate :: "ptr \<Rightarrow> ptr \<Rightarrow> ptr \<Rightarrow> machine \<Rightarrow> machine option" where
  "localAndActivate p activate inst = setLongs inst [(''local'', p), (''Activate'', activate)]"

text \<open>The controls a stream module shows, and the libraries they are in.\<close>

definition streamDeps :: "(string \<times> string) list" where
  "streamDeps = [(''checkbox.object'', ''Checkbox''), (''led.object'', ''LED''), (''textout.object'', ''TextOut''), (''view.object'', ''View'')]"

definition boxedDeps :: "(string \<times> string) list" where
  "boxedDeps = [(''checkbox.object'', ''Checkbox''), (''led.object'', ''LED''), (''textbox.object'', ''Textbox''),
     (''textout.object'', ''TextOut''), (''view.object'', ''View'')]"

subsection \<open>Filter\<close>

datatype filterMode = mode_all | mode_ones | mode_none | mode_zeros | mode_change

record filterdata = control +
  mode :: filterMode
  lastPassed :: "string option"

definition modeOf :: "string option \<Rightarrow> filterMode" where
  "modeOf m = (if m = Some ''ones'' then mode_ones else if m = Some ''zeros'' then mode_zeros else if m = Some ''none'' then mode_none
     else if m = Some ''change'' then mode_change else mode_all)"

text \<open>Whether a value passes and what is remembered.\<close>

definition passChange :: "string option \<Rightarrow> string option \<Rightarrow> bool \<times> string option" where
  "passChange held now = (if held = None \<or> now = None \<or> held \<noteq> now then (True, now) else (False, held))"

definition filterTest :: "ptr \<Rightarrow> ptr \<Rightarrow> filterdata \<Rightarrow> filterMode \<Rightarrow> filterdata module \<Rightarrow> (bool \<times> filterdata module) option" where
  "filterTest data p l md s = (case md of
       mode_ones \<Rightarrow> do { (v, s1) \<leftarrow> onMach (onNodes (GetValueInt data)) s; Some (v \<noteq> 0, s1) }
     | mode_zeros \<Rightarrow> do { (v, s1) \<leftarrow> onMach (onNodes (GetValueInt data)) s; Some (v = 0, s1) }
     | mode_none \<Rightarrow> Some (False, s)
     | mode_change \<Rightarrow> do {
         (now, s1) \<leftarrow> onMach (onNodes (GetValueStr data)) s;
         let (pass, last1) = passChange (lastPassed l) now;
         s2 \<leftarrow> setLocal p (\<lambda>l. l\<lparr>lastPassed := last1\<rparr>) s1;
         Some (pass, s2) }
     | mode_all \<Rightarrow> Some (True, s))"

definition Filter_OnIn :: "ptr \<Rightarrow> int \<Rightarrow> ptr \<Rightarrow> filterdata module \<Rightarrow> (int \<times> filterdata module) option" where
  "Filter_OnIn inst message data s = do {
     ((p, lo), s1) \<leftarrow> structOf inst s;
     (case lo of None \<Rightarrow> Some (rtrn_dropped, s1)
      | Some l \<Rightarrow> if \<not> enabled l then Some (rtrn_dropped, s1)
          else if message = msg_eof then do {
            (_, s2) \<leftarrow> onMach (SndMsg inst ''Out'' msg_eof 0) s1;
            Some (rtrn_handled, s2) }
          else do {
            (arrived, s2) \<leftarrow> onMach (onNodes (GetValueStr data)) s1;
            s3 \<leftarrow> doMach (SetPropStr inst ''In'' (Some (orEmpty arrived))) s2;
            (m, s4) \<leftarrow> onMach (onNodes (GetPropStr inst ''Mode'')) s3;
            s5 \<leftarrow> setLocal p (\<lambda>l. l\<lparr>mode := modeOf m\<rparr>) s4;
            (pass, s6) \<leftarrow> filterTest data p l (modeOf m) s5;
            if \<not> pass then Some (rtrn_handled, s6)
            else do {
              (val, s7) \<leftarrow> onMach (onNodes (GetValueStr data)) s6;
              s8 \<leftarrow> doMach (SetPropStr inst ''Out'' (Some (orEmpty val))) s7;
              Some (rtrn_handled, s8) } }) }"

text \<open>The struct is used without a test.\<close>

definition Filter_OnEnable :: "ptr \<Rightarrow> int \<Rightarrow> ptr \<Rightarrow> filterdata module \<Rightarrow> (int \<times> filterdata module) option" where
  "Filter_OnEnable inst message data s = do {
     ((p, lo), s1) \<leftarrow> structOf inst s;
     _ \<leftarrow> lo;
     (val, s2) \<leftarrow> onMach (onNodes (GetValueInt data)) s1;
     s3 \<leftarrow> setLocal p (\<lambda>l. l\<lparr>enabled := (val \<noteq> 0)\<rparr>) s2;
     s4 \<leftarrow> doMach (mirror inst ''Enable'' (Some (flag (val \<noteq> 0)))) s3;
     Some (rtrn_handled, s4) }"

definition Filter_Activate :: "ptr \<Rightarrow> filterdata module \<Rightarrow> (int \<times> filterdata module) option" where
  "Filter_Activate inst s = do {
     ((p, lo), s1) \<leftarrow> structOf inst s;
     (case lo of None \<Rightarrow> Some (rtrn_dropped, s1)
      | Some l \<Rightarrow> if live l then Some (rtrn_handled, s1) else do {
          (m, s2) \<leftarrow> onMach (onNodes (GetPropStr inst ''Mode'')) s1;
          s3 \<leftarrow> setLocal p (\<lambda>l. l\<lparr>mode := modeOf m, live := True\<rparr>) s2;
          s4 \<leftarrow> doMach (SetPropInt inst ''State'' Running) s3;
          Some (rtrn_handled, s4) }) }"

definition FilterPanel :: "(string \<Rightarrow> ptr) \<Rightarrow> widgetItem list" where
  "FilterPanel addr = [
     item ''View'' ''Filter'' '''' 0 0 0 300 260 0 0,
     item ''Help'' ''objects/filter/README.md'' '''' 0 0 0 0 0 0 0,
     item ''Checkbox'' ''Enable'' ''1'' 0 150 12 9 9 LABEL_LEFT (addr ''Filter_OnEnable''),
     item ''Dropdown'' ''Mode'' ''all'' 0 15 35 120 22 LABEL_NONE 0,
     item ''LED'' ''State'' ''1'' 0 100 35 12 12 LABEL_NONE 0,
     item ''TextOut'' ''In'' ''0'' 0 15 80 260 20 LABEL_LEFT (addr ''Filter_OnIn''),
     item ''TextOut'' ''Out'' ''0'' 0 15 120 260 20 LABEL_LEFT 0]"

text \<open>\<open>Activate\<close> is not put on the instance.\<close>

definition Filter_InstanceStart :: "caller \<Rightarrow> core \<Rightarrow> (string \<Rightarrow> ptr) \<Rightarrow> ptr \<Rightarrow> ptr \<Rightarrow> ptr \<Rightarrow> filterdata module \<Rightarrow> (int \<times> filterdata module) option" where
  "Filter_InstanceStart call co addr p c data s = do {
     (_, s1) \<leftarrow> onMach (widget_instance call co ''Filter'' (FilterPanel addr)
         (\<lambda>inst m. do {
            m1 \<leftarrow> setStrs inst [(''ModeList'', ''all,change,none,ones,zeros''), (''ReservedIn'', ''In''), (''ReservedOut'', ''Out'')] m;
            SetPropLong inst ''local'' p m1 }) c data)
       (newLocal p \<lparr>enabled = True, live = False, mode = mode_all, lastPassed = None\<rparr> s);
     Some (rtrn_handled, s1) }"

definition Filter_InstanceEnd :: "ptr \<Rightarrow> filterdata module \<Rightarrow> (int \<times> filterdata module) option" where
  "Filter_InstanceEnd inst = onEnd inst"

definition Filter_ClassStart :: "(string \<Rightarrow> ptr) \<Rightarrow> ptr \<Rightarrow> machine \<Rightarrow> (ptr \<times> machine) option" where
  "Filter_ClassStart addr = widget_class ''Filter'' (FilterPanel addr) addr []"

definition Filter_init :: "(string \<Rightarrow> ptr) \<Rightarrow> machine \<Rightarrow> (ptr \<times> machine) option" where
  "Filter_init addr = widget_library ''Filter'' ''8da17004-242c-4f21-a77e-6a823a52c650'' addr boxedDeps"

subsection \<open>Queue and Stack\<close>

record queuedata = control +
  q :: queuePtr
  lifo :: bool

definition QUEUE_MAX_ENTRY :: nat where "QUEUE_MAX_ENTRY = 4096"

definition pushEntry :: "mem \<Rightarrow> ptr \<Rightarrow> queuedata \<Rightarrow> string \<Rightarrow> int \<Rightarrow> queuedata module \<Rightarrow> queuedata module option" where
  "pushEntry mm p l bytes message s = do {
     (q1, _) \<leftarrow> queuePush mm (q l) (Some bytes) (word_of_nat (length bytes)) (word_of_int message);
     setLocal p (\<lambda>l. l\<lparr>q := q1\<rparr>) s }"

definition Queue_OnIn :: "mem \<Rightarrow> ptr \<Rightarrow> int \<Rightarrow> ptr \<Rightarrow> queuedata module \<Rightarrow> (int \<times> queuedata module) option" where
  "Queue_OnIn mm inst message data s = do {
     ((p, lo), s1) \<leftarrow> structOf inst s;
     (case lo of None \<Rightarrow> Some (rtrn_dropped, s1)
      | Some l \<Rightarrow> if \<not> live l then Some (rtrn_dropped, s1)
          else if message = msg_send then do {
            (str, s2) \<leftarrow> onMach (onNodes (GetValueStr data)) s1;
            s3 \<leftarrow> (if orEmpty str \<noteq> [] then pushEntry mm p l (orEmpty str) msg_send s2 else Some s2);
            Some (rtrn_handled, s3) }
          else if message = msg_eof then do { s2 \<leftarrow> pushEntry mm p l ''e'' msg_eof s1; Some (rtrn_handled, s2) }
          else Some (rtrn_dropped, s1)) }"

text \<open>What a popped entry sends: the end of the stream, or its bytes as text, cut to the size of the block.\<close>

definition sendEntry :: "ptr \<Rightarrow> string \<Rightarrow> u32 \<Rightarrow> machine \<Rightarrow> machine option" where
  "sendEntry inst block type m = (if type = word_of_int msg_eof then map_option snd (SndMsg inst ''Out'' msg_eof 0 m)
     else let (entry, m1) = newNode STRING m in do {
       m2 \<leftarrow> doNodes (SetName entry ''Data'') m1;
       m3 \<leftarrow> doNodes (SetValueStr entry (Some (cstr (take QUEUE_MAX_ENTRY block)))) m2;
       map_option snd (SndMsg inst ''Out'' msg_send entry m3) })"

definition Queue_OnClock :: "mem \<Rightarrow> ptr \<Rightarrow> int \<Rightarrow> ptr \<Rightarrow> queuedata module \<Rightarrow> (int \<times> queuedata module) option" where
  "Queue_OnClock mm inst message data s = do {
     ((p, lo), s1) \<leftarrow> structOf inst s;
     (case lo of None \<Rightarrow> Some (rtrn_dropped, s1)
      | Some l \<Rightarrow> if \<not> live l \<or> message \<noteq> msg_send \<or> \<not> enabled l then Some (rtrn_dropped, s1)
          else do {
            (q1, popped) \<leftarrow> (if lifo l then queuePopLIFO mm (q l) else queuePopFIFO mm (q l));
            s2 \<leftarrow> setLocal p (\<lambda>l. l\<lparr>q := q1\<rparr>) s1;
            (case popped of None \<Rightarrow> Some (rtrn_handled, s2)
             | Some (block, type) \<Rightarrow> do { s3 \<leftarrow> doMach (sendEntry inst block type) s2; Some (rtrn_handled, s3) }) }) }"

definition Queue_OnEnable :: "ptr \<Rightarrow> int \<Rightarrow> ptr \<Rightarrow> queuedata module \<Rightarrow> (int \<times> queuedata module) option" where
  "Queue_OnEnable inst = onEnable Some inst"

definition Queue_Activate :: "ptr \<Rightarrow> queuedata module \<Rightarrow> (int \<times> queuedata module) option" where
  "Queue_Activate = activateOnce live (\<lambda>l. l\<lparr>live := True\<rparr>)"

definition QueuePanel :: "(string \<Rightarrow> ptr) \<Rightarrow> widgetItem list" where
  "QueuePanel addr = [
     item ''View'' ''Queue'' '''' 0 0 0 300 250 0 0,
     item ''Help'' ''objects/queue/README.md'' '''' 0 0 0 0 0 0 0,
     item ''Checkbox'' ''Enable'' ''1'' 0 270 12 9 9 LABEL_LEFT (addr ''Queue_OnEnable''),
     item ''LED'' ''State'' ''1'' 0 15 40 12 12 LABEL_NONE 0,
     item ''TextOut'' ''In'' '''' 0 15 80 260 20 LABEL_LEFT (addr ''Queue_OnIn''),
     item ''TextOut'' ''Clock'' '''' 0 15 120 260 20 LABEL_LEFT (addr ''Queue_OnClock''),
     item ''TextOut'' ''Out'' '''' 0 15 160 260 20 LABEL_LEFT 0]"

text \<open>The class tells a queue from a stack; \<open>gotStruct\<close> says whether the struct of the queue could be allocated.\<close>

definition Queue_InstanceStart :: "mem \<Rightarrow> bool \<Rightarrow> caller \<Rightarrow> core \<Rightarrow> (string \<Rightarrow> ptr) \<Rightarrow> ptr \<Rightarrow> ptr \<Rightarrow> ptr \<Rightarrow> queuedata module \<Rightarrow> (int \<times> queuedata module) option" where
  "Queue_InstanceStart mm gotStruct call co addr p c data s = do {
     stack \<leftarrow> CmpName c ''Stack'' (world (mach s));
     (_, s1) \<leftarrow> onMach (widget_instance call co (if stack then ''Stack'' else ''Queue'') (QueuePanel addr)
         (localAndActivate p (addr ''Queue_Activate'')) c data)
       (newLocal p \<lparr>enabled = True, live = False, q = queueCreate mm gotStruct, lifo = stack\<rparr> s);
     Some (rtrn_handled, s1) }"

text \<open>A queue whose creation failed half way is freed a second time here.\<close>

definition Queue_InstanceEnd :: "ptr \<Rightarrow> queuedata module \<Rightarrow> (int \<times> queuedata module) option" where
  "Queue_InstanceEnd inst s = do {
     ((p, lo), s1) \<leftarrow> structOf inst s;
     (case lo of None \<Rightarrow> Some (rtrn_handled, s1)
      | Some l \<Rightarrow> (case q l of Freed \<Rightarrow> None
          | Live _ \<Rightarrow> do {
              s2 \<leftarrow> setLocal p (\<lambda>l. l\<lparr>q := queueDestroy (q l)\<rparr>) s1;
              s3 \<leftarrow> freeLocal p s2;
              Some (rtrn_handled, s3) }
          | NULLq \<Rightarrow> do { s2 \<leftarrow> freeLocal p s1; Some (rtrn_handled, s2) })) }"

text \<open>Two classes of one library.\<close>

definition Queue_ClassStart :: "(string \<Rightarrow> ptr) \<Rightarrow> ptr \<Rightarrow> machine \<Rightarrow> ((ptr \<times> ptr) \<times> machine) option" where
  "Queue_ClassStart addr library m = do {
     (queue, m1) \<leftarrow> widget_class ''Queue'' (QueuePanel addr) addr [] library m;
     (stack, m2) \<leftarrow> widget_class ''Stack'' (QueuePanel addr) addr [] library m1;
     Some ((queue, stack), m2) }"

definition Queue_ClassEnd :: "ptr \<Rightarrow> ptr \<Rightarrow> ptr \<Rightarrow> machine \<Rightarrow> (int \<times> machine) option" where
  "Queue_ClassEnd library queue stack m = do {
     m1 \<leftarrow> UnRegisterClass library queue m;
     m2 \<leftarrow> UnRegisterClass library stack m1;
     Some (rtrn_handled, m2) }"

definition Queue_init :: "(string \<Rightarrow> ptr) \<Rightarrow> machine \<Rightarrow> (ptr \<times> machine) option" where
  "Queue_init addr = widget_library ''Queue'' ''8da17004-242c-4f21-a77e-6a823a52c670'' addr streamDeps"

subsection \<open>Router\<close>

record routerdata = control +
  connModes :: ptr

definition mode_undecided :: "64 word" where "mode_undecided = 0"
definition mode_http :: "64 word" where "mode_http = 1"
definition mode_ws :: "64 word" where "mode_ws = 2"

text \<open>The first text of a connection tells a web socket from a page request.\<close>

definition sniff :: "string option \<Rightarrow> 64 word" where
  "sniff str = (if strstrFrom (orEmpty str) ''Sec-WebSocket-Key:'' 0 \<noteq> None then mode_ws else mode_http)"

definition Router_OnWire :: "caller \<Rightarrow> ptr \<Rightarrow> int \<Rightarrow> ptr \<Rightarrow> routerdata module \<Rightarrow> (int \<times> routerdata module) option" where
  "Router_OnWire call inst message data s = do {
     ((p, lo), s1) \<leftarrow> structOf inst s;
     (case lo of None \<Rightarrow> Some (rtrn_dropped, s1)
      | Some l \<Rightarrow> if \<not> live l \<or> \<not> enabled l then Some (rtrn_dropped, s1) else do {
          (http, s2) \<leftarrow> onMach (onNodes (GetPropLong inst ''HttpTarget'')) s1;
          (web, s3) \<leftarrow> onMach (onNodes (GetPropLong inst ''WsTarget'')) s2;
          (connId, s4) \<leftarrow> onMach (onNodes (GetPropLong data ''Conn'')) s3;
          if message = msg_eof then do {
            s5 \<leftarrow> doMach (SetConnState (connModes l) connId mode_undecided) s4;
            (_, s6) \<leftarrow> onMach (DeliverMsg call http ''In'' msg_eof data) s5;
            (_, s7) \<leftarrow> onMach (DeliverMsg call web ''Wire'' msg_eof data) s6;
            Some (rtrn_handled, s7) }
          else if message \<noteq> msg_send then Some (rtrn_dropped, s4)
          else do {
            (known, s5) \<leftarrow> onMach (GetConnState (connModes l) connId) s4;
            let known1 = scast (ucast known :: 32 word);
            (md, s6) \<leftarrow> (if known1 \<noteq> mode_undecided then Some (known1, s5) else do {
               (str, sa) \<leftarrow> onMach (onNodes (GetValueStr data)) s5;
               sb \<leftarrow> doMach (SetConnState (connModes l) connId (sniff str)) sa;
               Some (sniff str, sb) });
            (_, s7) \<leftarrow> (if md = mode_ws then onMach (DeliverMsg call web ''Wire'' message data) s6
                       else onMach (DeliverMsg call http ''In'' message data) s6);
            Some (rtrn_handled, s7) } }) }"

definition Router_OnEnable :: "ptr \<Rightarrow> int \<Rightarrow> ptr \<Rightarrow> routerdata module \<Rightarrow> (int \<times> routerdata module) option" where
  "Router_OnEnable inst = onEnable Some inst"

definition Router_Activate :: "ptr \<Rightarrow> routerdata module \<Rightarrow> (int \<times> routerdata module) option" where
  "Router_Activate = activateOnce live (\<lambda>l. l\<lparr>live := True\<rparr>)"

definition RouterPanel :: "(string \<Rightarrow> ptr) \<Rightarrow> widgetItem list" where
  "RouterPanel addr = [
     item ''View'' ''Router'' '''' 0 0 0 300 210 0 0,
     item ''Help'' ''objects/router/README.md'' '''' 0 0 0 0 0 0 0,
     item ''Checkbox'' ''Enable'' ''1'' 0 270 12 9 9 LABEL_LEFT (addr ''Router_OnEnable''),
     item ''LED'' ''State'' ''1'' 0 15 40 12 12 LABEL_NONE 0,
     item ''TextOut'' ''Wire'' '''' 0 15 80 260 20 LABEL_LEFT (addr ''Router_OnWire'')]"

definition Router_InstanceStart :: "caller \<Rightarrow> core \<Rightarrow> (string \<Rightarrow> ptr) \<Rightarrow> ptr \<Rightarrow> ptr \<Rightarrow> ptr \<Rightarrow> routerdata module \<Rightarrow> (int \<times> routerdata module) option" where
  "Router_InstanceStart call co addr p c data s = (let (table, m) = newNode INTEGER (mach s) in do {
     (_, s1) \<leftarrow> onMach (widget_instance call co ''Router'' (RouterPanel addr)
         (\<lambda>inst. setLongs inst [(''local'', p), (''Activate'', addr ''Router_Activate''), (''HttpTarget'', 0), (''WsTarget'', 0)]) c data)
       (newLocal p \<lparr>enabled = True, live = False, connModes = table\<rparr> (s\<lparr>mach := m\<rparr>));
     Some (rtrn_handled, s1) })"

definition Router_InstanceEnd :: "ptr \<Rightarrow> routerdata module \<Rightarrow> (int \<times> routerdata module) option" where
  "Router_InstanceEnd inst s = do {
     ((p, lo), s1) \<leftarrow> structOf inst s;
     (case lo of None \<Rightarrow> Some (rtrn_handled, s1)
      | Some l \<Rightarrow> do {
          s2 \<leftarrow> doMach (doNodes (DelNode (connModes l))) s1;
          s3 \<leftarrow> freeLocal p s2;
          Some (rtrn_handled, s3) }) }"

definition Router_ClassStart :: "(string \<Rightarrow> ptr) \<Rightarrow> ptr \<Rightarrow> machine \<Rightarrow> (ptr \<times> machine) option" where
  "Router_ClassStart addr = widget_class ''Router'' (RouterPanel addr) addr []"

definition Router_init :: "(string \<Rightarrow> ptr) \<Rightarrow> machine \<Rightarrow> (ptr \<times> machine) option" where
  "Router_init addr = widget_library ''Router'' ''8da17004-242c-4f21-a77e-6a823a52c710'' addr streamDeps"

subsection \<open>Out\<close>

record outdata = control +
  messages :: "64 word"
  bytes :: "64 word"

text \<open>\<open>%lu\<close>.\<close>

definition sprintf_lu :: "64 word \<Rightarrow> string" where
  "sprintf_lu w = sprintf_d (uint w)"

definition outLine :: "string \<Rightarrow> int \<Rightarrow> ptr \<Rightarrow> ptr \<Rightarrow> outdata module \<Rightarrow> (string \<times> outdata module) option" where
  "outLine label message data p s = (
     if message = msg_send then do {
       (str, s1) \<leftarrow> onMach (onNodes (GetValueStr data)) s;
       let n = word_of_nat (length (orEmpty str));
       s2 \<leftarrow> setLocal p (\<lambda>l. l\<lparr>messages := messages l + 1, bytes := bytes l + n\<rparr>) s1;
       Some (''['' @ label @ ''] msg_send '' @ sprintf_lu n @ '' bytes: '' @ orEmpty str @ [LF], s2) }
     else do {
       l \<leftarrow> locals s p;
       Some (if message = msg_eof
         then ''['' @ label @ ''] msg_eof after '' @ sprintf_lu (messages l) @ '' messages, '' @ sprintf_lu (bytes l) @ '' bytes'' @ [LF]
         else ''['' @ label @ ''] message id '' @ sprintf_d message @ [LF], s) })"

text \<open>The verdict and what is printed: a probe only watches.\<close>

definition Out_OnIn :: "ptr \<Rightarrow> int \<Rightarrow> ptr \<Rightarrow> outdata module \<Rightarrow> ((int \<times> string) \<times> outdata module) option" where
  "Out_OnIn inst message data s = do {
     ((p, lo), s1) \<leftarrow> structOf inst s;
     (case lo of None \<Rightarrow> Some ((rtrn_dropped, []), s1)
      | Some l \<Rightarrow> if \<not> live l then Some ((rtrn_dropped, []), s1) else if \<not> enabled l then Some ((rtrn_propagate, []), s1) else do {
          (echo, s2) \<leftarrow> onMach (onNodes (GetPropInt inst ''Echo'')) s1;
          if echo = 0 then Some ((rtrn_propagate, []), s2)
          else do {
            (label, s3) \<leftarrow> onMach (onNodes (GetPropStr inst ''Label'')) s2;
            (line, s4) \<leftarrow> outLine (if orEmpty label = [] then ''probe'' else orEmpty label) message data p s3;
            Some ((rtrn_propagate, line), s4) } }) }"

definition Out_OnEnable :: "ptr \<Rightarrow> int \<Rightarrow> ptr \<Rightarrow> outdata module \<Rightarrow> (int \<times> outdata module) option" where
  "Out_OnEnable inst = onEnable Some inst"

definition Out_Activate :: "ptr \<Rightarrow> outdata module \<Rightarrow> (int \<times> outdata module) option" where
  "Out_Activate = activateOnce live (\<lambda>l. l\<lparr>live := True, messages := 0, bytes := 0\<rparr>)"

definition OutPanel :: "(string \<Rightarrow> ptr) \<Rightarrow> widgetItem list" where
  "OutPanel addr = [
     item ''View'' ''Out'' '''' 0 0 0 280 240 0 0,
     item ''Help'' ''objects/out/README.md'' '''' 0 0 0 0 0 0 0,
     item ''Checkbox'' ''Enable'' ''1'' 0 250 12 9 9 LABEL_LEFT (addr ''Out_OnEnable''),
     item ''Textbox'' ''Label'' '''' 0 15 35 240 22 LABEL_NONE 0,
     item ''Checkbox'' ''Echo'' ''1'' 0 15 78 9 9 LABEL_NONE 0,
     item ''LED'' ''State'' ''1'' 0 15 108 12 12 LABEL_NONE 0,
     item ''TextOut'' ''In'' '''' 0 15 150 240 20 LABEL_LEFT (addr ''Out_OnIn'')]"

definition Out_InstanceStart :: "caller \<Rightarrow> core \<Rightarrow> (string \<Rightarrow> ptr) \<Rightarrow> ptr \<Rightarrow> ptr \<Rightarrow> ptr \<Rightarrow> outdata module \<Rightarrow> (int \<times> outdata module) option" where
  "Out_InstanceStart call co addr p c data s = do {
     (_, s1) \<leftarrow> onMach (widget_instance call co ''Out'' (OutPanel addr) (localAndActivate p (addr ''Out_Activate'')) c data)
       (newLocal p \<lparr>enabled = True, live = False, messages = 0, bytes = 0\<rparr> s);
     Some (rtrn_handled, s1) }"

definition Out_InstanceEnd :: "ptr \<Rightarrow> outdata module \<Rightarrow> (int \<times> outdata module) option" where
  "Out_InstanceEnd inst = onEnd inst"

definition Out_ClassStart :: "(string \<Rightarrow> ptr) \<Rightarrow> ptr \<Rightarrow> machine \<Rightarrow> (ptr \<times> machine) option" where
  "Out_ClassStart addr = widget_class ''Out'' (OutPanel addr) addr []"

definition Out_init :: "(string \<Rightarrow> ptr) \<Rightarrow> machine \<Rightarrow> (ptr \<times> machine) option" where
  "Out_init addr = widget_library ''Out'' ''8da17004-242c-4f21-a77e-6a823a52c600'' addr boxedDeps"

end
